(* ===== verification/VowPrelude.thy ===== *)
theory VowPrelude
  imports Main "HOL-Library.Word"
begin

text \<open>
  Shared vocabulary of the development.  The program is written in Go; this theory fixes how
  Go's own notions are rendered: byte slices, times and durations (in nanoseconds), JSON
  values, error values with wrapping, the few string functions of package strings the
  sources call, and SQL tables as lists of rows with the meaning of the statement forms that
  occur in the sources.  The lemmas are collected in the named collections sql_simps and
  go_simps used by the component theories.
\<close>

named_theorems sql_simps "selecting from, updating, deleting from and inserting into tables"
named_theorems go_simps "Go string and error functions"

section \<open>Bytes, times, errors\<close>

type_synonym byte = "8 word"
type_synonym bytes = "byte list"

lemma unat_byte_less: "unat (b :: byte) < 256"
proof -
  have "unat b < 2 ^ LENGTH(8)" by (rule unsigned_less)
  then show ?thesis by simp
qed

text \<open>Times are nanoseconds since the Unix epoch, durations are nanoseconds.\<close>

type_synonym time = int
type_synonym duration = int

abbreviation Second :: duration where "Second \<equiv> 1000000000"
abbreviation Minute :: duration where "Minute \<equiv> 60 * Second"
abbreviation Hour :: duration where "Hour \<equiv> 60 * Minute"

text \<open>\<open>time.Time.Unix\<close> (whole seconds, rounded towards minus infinity) and \<open>time.Unix\<close>.\<close>

definition Unix :: "time \<Rightarrow> int" where
  "Unix t = t div Second"

definition fromUnix :: "int \<Rightarrow> time" where
  "fromUnix s = s * Second"

lemma Unix_fromUnix [simp]: "Unix (fromUnix s) = s"
  by (simp add: Unix_def fromUnix_def)

lemma fromUnix_Unix_le: "fromUnix (Unix t) \<le> t"
  by (simp add: Unix_def fromUnix_def)

text \<open>
  Go error values.  The sentinels the program compares against are constructors of their own;
  \<open>Wrap\<close> is \<open>fmt.Errorf\<close> with the verb \<open>%w\<close>, and \<open>errors_is\<close> walks the chain as
  \<open>errors.Is\<close> does.
\<close>

datatype goerr =
    Err string
  | Wrap string goerr
  | ErrSignerNotConnected
  | ErrSignerRejected
  | ErrSignerTimeout
  | ErrUseDpopNonce
  | ErrRecordNotFound
  | ContextCanceled
  | ErrDb string

fun errors_is :: "goerr \<Rightarrow> goerr \<Rightarrow> bool" where
  "errors_is (Wrap m e) target = (Wrap m e = target \<or> errors_is e target)"
| "errors_is e target = (e = target)"

fun err_string :: "goerr \<Rightarrow> string" where
  "err_string (Err m) = m"
| "err_string (Wrap m e) = m @ '': '' @ err_string e"
| "err_string ErrSignerNotConnected = ''signer not connected''"
| "err_string ErrSignerRejected = ''signer rejected''"
| "err_string ErrSignerTimeout = ''signer timeout''"
| "err_string ErrUseDpopNonce = ''use_dpop_nonce''"
| "err_string ErrRecordNotFound = ''record not found''"
| "err_string ContextCanceled = ''context canceled''"
| "err_string (ErrDb m) = m"

text \<open>
  What a call returns: a value, an error, or the panic of a nil dereference, a failed type
  assertion or an index out of range.
\<close>

datatype 'a result = Ret 'a | Fail goerr | Crash

lemma errors_is_refl [simp, go_simps]: "errors_is e e"
  by (cases e) auto

section \<open>JSON values\<close>

text \<open>
  The dynamic values the program inspects with type assertions: the claims of a JWT, decoded
  request bodies, decoded records.  An object is an association list, looked up at the first
  occurrence of a key.
\<close>

datatype json =
    JNull
  | JBool bool
  | JNum int
  | JStr string
  | JArr "json list"
  | JObj "(string \<times> json) list"

type_synonym obj = "(string \<times> json) list"

definition jget :: "(string \<times> json) list \<Rightarrow> string \<Rightarrow> json option" where
  "jget m k = map_of m k"

text \<open>\<open>v, ok := m[k].(string)\<close> and \<open>v, ok := m[k].(float64)\<close>.\<close>

definition jstr :: "(string \<times> json) list \<Rightarrow> string \<Rightarrow> string option" where
  "jstr m k = (case jget m k of Some (JStr s) \<Rightarrow> Some s | _ \<Rightarrow> None)"

definition jnum :: "(string \<times> json) list \<Rightarrow> string \<Rightarrow> int option" where
  "jnum m k = (case jget m k of Some (JNum n) \<Rightarrow> Some n | _ \<Rightarrow> None)"

text \<open>\<open>v, _ := m[k].(string)\<close>: the zero value when the assertion fails.\<close>

definition jstr0 :: "(string \<times> json) list \<Rightarrow> string \<Rightarrow> string" where
  "jstr0 m k = (case jstr m k of Some s \<Rightarrow> s | None \<Rightarrow> '''')"

section \<open>Strings\<close>

definition HasPrefix :: "string \<Rightarrow> string \<Rightarrow> bool" where
  "HasPrefix s p = (take (length p) s = p)"

definition HasSuffix :: "string \<Rightarrow> string \<Rightarrow> bool" where
  "HasSuffix s p = HasPrefix (rev s) (rev p)"

definition CutPrefix :: "string \<Rightarrow> string \<Rightarrow> string option" where
  "CutPrefix s p = (if HasPrefix s p then Some (drop (length p) s) else None)"

text \<open>\<open>strings.Split\<close> with a separator of one character.\<close>

fun SplitOn :: "char \<Rightarrow> string \<Rightarrow> string list" where
  "SplitOn c [] = [[]]"
| "SplitOn c (x # xs) =
     (if x = c then [] # SplitOn c xs
      else (case SplitOn c xs of [] \<Rightarrow> [[x]] | p # ps \<Rightarrow> (x # p) # ps))"

fun JoinWith :: "string \<Rightarrow> string list \<Rightarrow> string" where
  "JoinWith sep [] = []"
| "JoinWith sep [p] = p"
| "JoinWith sep (p # q # ps) = p @ sep @ JoinWith sep (q # ps)"

text \<open>\<open>strings.ToLower\<close> on ASCII text.\<close>

definition lower_char :: "char \<Rightarrow> char" where
  "lower_char c = (let n = (of_char c :: nat) in if 65 \<le> n \<and> n \<le> 90 then char_of (n + 32) else c)"

definition ToLower :: "string \<Rightarrow> string" where
  "ToLower s = map lower_char s"

definition is_space :: "char \<Rightarrow> bool" where
  "is_space c = ((of_char c :: nat) \<in> {9, 10, 11, 12, 13, 32})"

definition TrimSpace :: "string \<Rightarrow> string" where
  "TrimSpace s = rev (dropWhile is_space (rev (dropWhile is_space s)))"

lemma HasPrefix_iff [go_simps]: "HasPrefix s p \<longleftrightarrow> (\<exists>t. s = p @ t)"
  unfolding HasPrefix_def by (metis append_eq_conv_conj append_take_drop_id)

lemma HasPrefix_append [simp]: "HasPrefix (p @ t) p"
  by (simp add: HasPrefix_def)

lemma CutPrefix_append [simp]: "CutPrefix (p @ t) p = Some t"
  by (simp add: CutPrefix_def)

lemma SplitOn_nonempty [simp]: "SplitOn c s \<noteq> []"
  by (induction s) (auto split: list.splits)

lemma SplitOn_no_sep: "c \<notin> set s \<Longrightarrow> SplitOn c s = [s]"
  by (induction s) auto

lemma SplitOn_append:
  "c \<notin> set a \<Longrightarrow> SplitOn c (a @ c # b) = a # SplitOn c b"
  by (induction a) auto

lemma JoinWith_SplitOn [simp]: "JoinWith [c] (SplitOn c s) = s"
proof (induction s)
  case Nil
  then show ?case by simp
next
  case (Cons x xs)
  obtain p ps where "SplitOn c xs = p # ps"
    by (cases "SplitOn c xs") auto
  with Cons.IH show ?case by (cases ps) auto
qed

lemma lower_char_idem [simp]: "lower_char (lower_char c) = lower_char c"
proof -
  have "(65 :: nat) \<le> of_char c \<and> (of_char c :: nat) \<le> 90 \<longrightarrow> of_char c + (32 :: nat) < 256" by simp
  then show ?thesis by (auto simp: lower_char_def Let_def)
qed

lemma ToLower_idem [simp]: "ToLower (ToLower s) = ToLower s"
  by (simp add: ToLower_def)

section \<open>SQL tables\<close>

text \<open>
  A table is the list of its rows.  These are the statement forms that occur in the sources:
  a select with a predicate, the first match, an update of the matching rows, a delete, an
  insert refused when it repeats a key, and an insert that replaces the row with the same key
  (on conflict, update all).
\<close>

type_synonym 'r table = "'r list"

definition sql_select :: "('r \<Rightarrow> bool) \<Rightarrow> 'r table \<Rightarrow> 'r list" where
  "sql_select P t = filter P t"

definition sql_first :: "('r \<Rightarrow> bool) \<Rightarrow> 'r table \<Rightarrow> 'r option" where
  "sql_first P t = find P t"

definition sql_update :: "('r \<Rightarrow> bool) \<Rightarrow> ('r \<Rightarrow> 'r) \<Rightarrow> 'r table \<Rightarrow> 'r table" where
  "sql_update P f t = map (\<lambda>r. if P r then f r else r) t"

definition sql_delete :: "('r \<Rightarrow> bool) \<Rightarrow> 'r table \<Rightarrow> 'r table" where
  "sql_delete P t = filter (\<lambda>r. \<not> P r) t"

definition sql_insert :: "('r \<Rightarrow> 'k) \<Rightarrow> 'r \<Rightarrow> 'r table \<Rightarrow> 'r table option" where
  "sql_insert key r t = (if key r \<in> set (map key t) then None else Some (t @ [r]))"

definition sql_upsert :: "('r \<Rightarrow> 'k) \<Rightarrow> 'r \<Rightarrow> 'r table \<Rightarrow> 'r table" where
  "sql_upsert key r t =
     (if key r \<in> set (map key t) then map (\<lambda>x. if key x = key r then r else x) t else t @ [r])"

definition keyed :: "('r \<Rightarrow> 'k) \<Rightarrow> 'r table \<Rightarrow> bool" where
  "keyed key t = distinct (map key t)"

lemma sql_first_Some: "sql_first P t = Some r \<Longrightarrow> r \<in> set t \<and> P r"
  by (auto simp: sql_first_def find_Some_iff)

lemma sql_first_None: "sql_first P t = None \<longleftrightarrow> (\<forall>r \<in> set t. \<not> P r)"
  by (auto simp: sql_first_def find_None_iff)

lemma sql_first_delete [sql_simps]: "sql_first P (sql_delete P t) = None"
  by (auto simp: sql_first_None sql_delete_def)

lemma set_sql_delete [sql_simps]: "set (sql_delete P t) = {r \<in> set t. \<not> P r}"
  by (auto simp: sql_delete_def)

lemma set_sql_select [sql_simps]: "set (sql_select P t) = {r \<in> set t. P r}"
  by (auto simp: sql_select_def)

lemma sql_update_cases:
  "b \<in> set (sql_update P f t) \<Longrightarrow> (\<exists>r \<in> set t. P r \<and> b = f r) \<or> (b \<in> set t \<and> \<not> P b)"
  by (auto simp: sql_update_def split: if_splits)

lemma keyed_unique: "keyed key t \<Longrightarrow> r \<in> set t \<Longrightarrow> s \<in> set t \<Longrightarrow> key r = key s \<Longrightarrow> r = s"
  by (auto simp: keyed_def distinct_map dest: inj_onD)

lemma sql_first_keyed:
  assumes "keyed key t" and "r \<in> set t"
  shows "sql_first (\<lambda>x. key x = key r) t = Some r"
proof (cases "sql_first (\<lambda>x. key x = key r) t")
  case None
  with assms(2) show ?thesis by (auto simp: sql_first_None)
next
  case (Some s)
  then have "s \<in> set t" and "key s = key r" by (auto dest: sql_first_Some)
  with assms have "s = r" by (auto intro: keyed_unique)
  with Some show ?thesis by simp
qed

lemma keyed_delete: "keyed key t \<Longrightarrow> keyed key (sql_delete P t)"
  unfolding keyed_def sql_delete_def by (rule distinct_map_filter)

lemma keyed_update: "keyed key t \<Longrightarrow> (\<And>r. key (f r) = key r) \<Longrightarrow> keyed key (sql_update P f t)"
proof -
  assume "keyed key t" and eq: "\<And>r. key (f r) = key r"
  have "map key (sql_update P f t) = map key t"
    by (auto simp: sql_update_def eq)
  with \<open>keyed key t\<close> show ?thesis by (simp add: keyed_def)
qed

lemma keyed_insert: "keyed key t \<Longrightarrow> sql_insert key r t = Some t' \<Longrightarrow> keyed key t'"
  by (auto simp: keyed_def sql_insert_def split: if_splits)

lemma map_key_upsert_replace: "map key (map (\<lambda>x. if key x = key r then r else x) t) = map key t"
  by auto

lemma keyed_upsert: "keyed key t \<Longrightarrow> keyed key (sql_upsert key r t)"
  by (auto simp: keyed_def sql_upsert_def map_key_upsert_replace simp del: map_map)

lemma sql_first_upsert: "sql_first (\<lambda>x. key x = key r) (sql_upsert key r t) = Some r"
proof (induction t)
  case Nil
  then show ?case by (simp add: sql_first_def sql_upsert_def)
next
  case (Cons a t)
  then show ?case
    by (cases "key a = key r"; cases "key r \<in> set (map key t)")
       (auto simp: sql_first_def sql_upsert_def)
qed

lemma find_replace_other:
  "(\<And>x. key x = key r \<Longrightarrow> \<not> P x) \<Longrightarrow>
   find P (map (\<lambda>x. if key x = key r then r else x) t) = find P t"
  by (induction t) auto

lemma find_append_other: "\<not> P r \<Longrightarrow> find P (t @ [r]) = find P t"
  by (induction t) auto

lemma sql_first_upsert_other:
  "(\<And>x. key x = key r \<Longrightarrow> \<not> P x) \<Longrightarrow> sql_first P (sql_upsert key r t) = sql_first P t"
  by (simp add: sql_first_def sql_upsert_def find_replace_other find_append_other)

lemma sql_first_update_hit:
  assumes "sql_first P t = Some r" and "\<And>x. P x \<Longrightarrow> P (f x)"
  shows "sql_first P (sql_update P f t) = Some (f r)"
  using assms by (induction t) (auto simp: sql_first_def sql_update_def split: if_splits)

lemma sql_first_update_miss:
  assumes "\<And>x. Q x \<Longrightarrow> \<not> P x" and "\<And>x. P x \<Longrightarrow> Q (f x) = Q x"
  shows "sql_first Q (sql_update P f t) = sql_first Q t"
  using assms by (induction t) (auto simp: sql_first_def sql_update_def)

lemma sql_first_insert:
  "sql_insert key r t = Some t' \<Longrightarrow> sql_first (\<lambda>x. key x = key r) t' = Some r"
proof -
  assume "sql_insert key r t = Some t'"
  then have "t' = sql_upsert key r t"
    by (auto simp: sql_insert_def sql_upsert_def split: if_splits)
  then show ?thesis by (simp add: sql_first_upsert)
qed

end
