(* ===== verification/SignerHub.thy ===== *)
theory SignerHub
  imports VowPrelude "HOL-Library.AList"
begin

text \<open>
  server/signer_hub.go: the hub that connects handlers needing a signature with the
  WebSocket connection of the account's signer.  A connection object lives in a heap (several
  goroutines hold pointers to it), a reply channel has one buffer slot.  The operations that
  take a lock and release it again before doing something else are split at those points, so
  that SignerMachine can interleave them; the whole operations compose the pieces.
\<close>

section \<open>Data\<close>

record signerReply =
  sig :: "bytes option"
  err :: "goerr option"

text \<open>A reply channel is named by a number; its buffer is in the hub state.\<close>

record signerRequest =
  requestID :: string
  msg :: string
  reply :: nat

text \<open>
  \<open>inflight\<close> is the map from request id to request as an association list; \<open>notify\<close>
  tells whether the one slot of the wake-up channel is filled; \<open>closed\<close> whether the
  channel done has been closed.
\<close>

record signerConn =
  pending :: "signerRequest list"
  inflight :: "(string \<times> signerRequest) list"
  notify :: bool
  closed :: bool

record signerHub =
  conns :: "string \<rightharpoonup> nat"
  heap :: "nat \<Rightarrow> signerConn"
  nconn :: nat
  chan :: "nat \<Rightarrow> signerReply list"
  nchan :: nat

definition newSignerConn :: signerConn where
  "newSignerConn = \<lparr>pending = [], inflight = [], notify = False, closed = False\<rparr>"

lemma newSignerConn_simps [simp]:
  "pending newSignerConn = []" "inflight newSignerConn = []"
  "notify newSignerConn = False" "closed newSignerConn = False"
  by (simp_all add: newSignerConn_def)

definition NewSignerHub :: signerHub where
  "NewSignerHub =
     \<lparr>conns = Map.empty, heap = (\<lambda>_. newSignerConn), nconn = 0, chan = (\<lambda>_. []), nchan = 0\<rparr>"

definition set_conn :: "nat \<Rightarrow> (signerConn \<Rightarrow> signerConn) \<Rightarrow> signerHub \<Rightarrow> signerHub" where
  "set_conn c f h = h\<lparr>heap := (heap h)(c := f (heap h c))\<rparr>"

lemma set_conn_simps [simp]:
  "conns (set_conn c f h) = conns h"
  "nconn (set_conn c f h) = nconn h"
  "chan (set_conn c f h) = chan h"
  "nchan (set_conn c f h) = nchan h"
  "heap (set_conn c f h) = (heap h)(c := f (heap h c))"
  by (simp_all add: set_conn_def)

text \<open>A send to a channel with one slot: \<open>None\<close> when it would block.\<close>

definition send :: "nat \<Rightarrow> signerReply \<Rightarrow> signerHub \<Rightarrow> signerHub option" where
  "send k r h = (if chan h k = [] then Some (h\<lparr>chan := (chan h)(k := [r])\<rparr>) else None)"

text \<open>Closing a closed channel panics: \<open>None\<close>.\<close>

definition close_done :: "nat \<Rightarrow> signerHub \<Rightarrow> signerHub option" where
  "close_done c h =
     (if closed (heap h c) then None else Some (set_conn c (\<lambda>x. x\<lparr>closed := True\<rparr>) h))"

text \<open>The non-blocking send that wakes the goroutine of the connection.\<close>

definition wake :: "nat \<Rightarrow> signerHub \<Rightarrow> signerHub" where
  "wake c h = set_conn c (\<lambda>x. x\<lparr>notify := True\<rparr>) h"

section \<open>Registration\<close>

definition alloc_conn :: "string \<Rightarrow> signerHub \<Rightarrow> nat \<times> signerHub" where
  "alloc_conn did h =
     (nconn h,
      h\<lparr>heap := (heap h)(nconn h := newSignerConn), nconn := Suc (nconn h),
        conns := (conns h)(did \<mapsto> nconn h)\<rparr>)"

definition Register :: "string \<Rightarrow> signerHub \<Rightarrow> (nat \<times> signerHub) option" where
  "Register did h =
     (case conns h did of
        None \<Rightarrow> Some (alloc_conn did h)
      | Some old \<Rightarrow>
          (case close_done old h of None \<Rightarrow> None | Some h' \<Rightarrow> Some (alloc_conn did h')))"

definition Unregister :: "string \<Rightarrow> nat \<Rightarrow> signerHub \<Rightarrow> signerHub" where
  "Unregister did c h =
     (if conns h did = Some c then
        (let h' = h\<lparr>conns := (conns h)(did := None)\<rparr>
         in if closed (heap h' c) then h' else set_conn c (\<lambda>x. x\<lparr>closed := True\<rparr>) h')
      else h)"

definition IsConnected :: "string \<Rightarrow> signerHub \<Rightarrow> bool" where
  "IsConnected did h = (conns h did \<noteq> None)"

section \<open>Requesting a signature\<close>

text \<open>
  \<open>RequestSignature\<close> looks the connection up, makes the reply channel, appends to the
  queue, wakes the connection's goroutine, and then waits for one of three things.
\<close>

definition make_request :: "string \<Rightarrow> string \<Rightarrow> signerHub \<Rightarrow> signerRequest \<times> signerHub" where
  "make_request rid m h =
     (\<lparr>requestID = rid, msg = m, reply = nchan h\<rparr>, h\<lparr>nchan := Suc (nchan h)\<rparr>)"

definition enqueue :: "nat \<Rightarrow> signerRequest \<Rightarrow> signerHub \<Rightarrow> signerHub" where
  "enqueue c req h = set_conn c (\<lambda>x. x\<lparr>pending := pending x @ [req]\<rparr>) h"

definition reply_result :: "signerReply \<Rightarrow> goerr + bytes" where
  "reply_result r =
     (case err r of
        Some e \<Rightarrow> Inl e
      | None \<Rightarrow> (case sig r of None \<Rightarrow> Inl ErrSignerRejected | Some s \<Rightarrow> Inr s))"

text \<open>Removal of the first queued request with the given id (the loop with its break).\<close>

fun remove_request :: "string \<Rightarrow> signerRequest list \<Rightarrow> signerRequest list" where
  "remove_request rid [] = []"
| "remove_request rid (p # ps) = (if requestID p = rid then ps else p # remove_request rid ps)"

definition cancel :: "nat \<Rightarrow> string \<Rightarrow> signerHub \<Rightarrow> signerHub" where
  "cancel c rid h = set_conn c (\<lambda>x. x\<lparr>pending := remove_request rid (pending x)\<rparr>) h"

text \<open>Which of the three cases of the select fired.\<close>

datatype wait_event = GotReply signerReply | ConnDone | CtxDone bool \<comment> \<open>deadline exceeded?\<close>

definition wait_result :: "wait_event \<Rightarrow> goerr + bytes" where
  "wait_result ev =
     (case ev of
        GotReply r \<Rightarrow> reply_result r
      | ConnDone \<Rightarrow> Inl ErrSignerNotConnected
      | CtxDone deadline \<Rightarrow> Inl (if deadline then ErrSignerTimeout else ContextCanceled))"

text \<open>The case is ready: a value in the channel, done closed; the context is the caller's.\<close>

definition wait_ready :: "nat \<Rightarrow> signerRequest \<Rightarrow> wait_event \<Rightarrow> signerHub \<Rightarrow> bool" where
  "wait_ready c req ev h =
     (case ev of
        GotReply r \<Rightarrow> chan h (reply req) = [r]
      | ConnDone \<Rightarrow> closed (heap h c)
      | CtxDone _ \<Rightarrow> True)"

definition wait_effect :: "nat \<Rightarrow> signerRequest \<Rightarrow> wait_event \<Rightarrow> signerHub \<Rightarrow> signerHub" where
  "wait_effect c req ev h =
     (case ev of
        GotReply _ \<Rightarrow> h\<lparr>chan := (chan h)(reply req := [])\<rparr>
      | ConnDone \<Rightarrow> h
      | CtxDone _ \<Rightarrow> cancel c (requestID req) h)"

section \<open>Delivering an answer\<close>

definition take_inflight :: "nat \<Rightarrow> string \<Rightarrow> signerHub \<Rightarrow> (signerRequest \<times> signerHub) option" where
  "take_inflight c rid h =
     (case map_of (inflight (heap h c)) rid of
        None \<Rightarrow> None
      | Some req \<Rightarrow> Some (req, set_conn c (\<lambda>x. x\<lparr>inflight := AList.delete rid (inflight x)\<rparr>) h))"

text \<open>The outer option is a send that blocks; the boolean is the function's result.\<close>

definition deliver :: "string \<Rightarrow> string \<Rightarrow> signerReply \<Rightarrow> signerHub \<Rightarrow> (bool \<times> signerHub) option" where
  "deliver did rid r h =
     (case conns h did of
        None \<Rightarrow> Some (False, h)
      | Some c \<Rightarrow>
          (case take_inflight c rid h of
             None \<Rightarrow> Some (False, h)
           | Some (req, h1) \<Rightarrow>
               (case send (reply req) r h1 of
                  None \<Rightarrow> None
                | Some h2 \<Rightarrow> Some (True, wake c h2))))"

definition DeliverSignature :: "string \<Rightarrow> string \<Rightarrow> bytes \<Rightarrow> signerHub \<Rightarrow> (bool \<times> signerHub) option" where
  "DeliverSignature did rid s h = deliver did rid \<lparr>sig = Some s, err = None\<rparr> h"

definition DeliverRejection :: "string \<Rightarrow> string \<Rightarrow> signerHub \<Rightarrow> (bool \<times> signerHub) option" where
  "DeliverRejection did rid h = deliver did rid \<lparr>sig = None, err = None\<rparr> h"

section \<open>The queue as the connection's goroutine sees it\<close>

text \<open>One pass of the loop of \<open>NextRequest\<close>: \<open>None\<close> is "wait and re-check".\<close>

definition poll :: "signerConn \<Rightarrow> (signerRequest \<times> signerConn) option" where
  "poll x =
     (case pending x of
        [] \<Rightarrow> None
      | req # rest \<Rightarrow>
          if inflight x = [] then
            Some (req, x\<lparr>pending := rest, inflight := AList.update (requestID req) req (inflight x)\<rparr>)
          else None)"

definition NextRequest :: "nat \<Rightarrow> signerHub \<Rightarrow> (signerRequest \<times> signerHub) option" where
  "NextRequest c h =
     (case poll (heap h c) of
        None \<Rightarrow> None
      | Some (req, x) \<Rightarrow> Some (req, set_conn c (\<lambda>_. x) h))"

fun send_all :: "signerReply \<Rightarrow> signerRequest list \<Rightarrow> signerHub \<Rightarrow> signerHub option" where
  "send_all r [] h = Some h"
| "send_all r (q # qs) h =
     (case send (reply q) r h of None \<Rightarrow> None | Some h' \<Rightarrow> send_all r qs h')"

text \<open>\<open>None\<close>: the goroutine blocks on a full reply channel, holding the connection's lock.\<close>

definition failAll :: "goerr \<Rightarrow> nat \<Rightarrow> signerHub \<Rightarrow> signerHub option" where
  "failAll e c h =
     (case send_all \<lparr>sig = None, err = Some e\<rparr>
             (map snd (inflight (heap h c)) @ pending (heap h c)) h of
        None \<Rightarrow> None
      | Some h' \<Rightarrow> Some (set_conn c (\<lambda>x. x\<lparr>inflight := [], pending := []\<rparr>) h'))"

section \<open>Facts about the operations\<close>

lemma send_simps:
  "send k r h = Some h' \<Longrightarrow> chan h k = [] \<and> h' = h\<lparr>chan := (chan h)(k := [r])\<rparr>"
  by (auto simp: send_def split: if_splits)

lemma send_all_frame:
  "send_all r qs h = Some h' \<Longrightarrow> conns h' = conns h \<and> heap h' = heap h \<and> nconn h' = nconn h \<and> nchan h' = nchan h"
  by (induction qs arbitrary: h) (auto split: option.splits dest!: send_simps)

lemma send_all_chan:
  "send_all r qs h = Some h' \<Longrightarrow>
   chan h' = (\<lambda>k. if k \<in> reply ` set qs then [r] else chan h k)"
proof (induction qs arbitrary: h)
  case Nil
  then show ?case by simp
next
  case (Cons q qs)
  then obtain h1 where h1: "send (reply q) r h = Some h1" and rest: "send_all r qs h1 = Some h'"
    by (auto split: option.splits)
  from Cons.IH [OF rest] send_simps [OF h1] show ?case by (auto simp: fun_eq_iff)
qed

lemma send_all_total:
  "distinct (map reply qs) \<Longrightarrow> (\<And>q. q \<in> set qs \<Longrightarrow> chan h (reply q) = []) \<Longrightarrow>
   \<exists>h'. send_all r qs h = Some h'"
proof (induction qs arbitrary: h)
  case Nil
  then show ?case by simp
next
  case (Cons q qs)
  let ?h = "h\<lparr>chan := (chan h)(reply q := [r])\<rparr>"
  have "send (reply q) r h = Some ?h"
    using Cons.prems(2) by (simp add: send_def)
  moreover have "\<exists>h'. send_all r qs ?h = Some h'"
    using Cons.prems by (intro Cons.IH) (auto intro: rev_image_eqI)
  ultimately show ?case by simp
qed

lemma Register_registers:
  "Register did h = Some (c, h') \<Longrightarrow>
   conns h' did = Some c \<and> heap h' c = newSignerConn \<and> c = nconn h"
  by (auto simp: Register_def alloc_conn_def close_done_def split: option.splits if_splits)

lemma Unregister_stale: "conns h did \<noteq> Some c \<Longrightarrow> Unregister did c h = h"
  by (simp add: Unregister_def)

lemma set_remove_request: "set (remove_request rid ps) \<subseteq> set ps"
  by (induction ps) auto

lemma remove_request_distinct:
  "distinct (map reply ps) \<Longrightarrow> distinct (map reply (remove_request rid ps))"
  by (induction ps) (auto dest: subsetD [OF set_remove_request])

lemma remove_request_distinct_id:
  "distinct (map requestID ps) \<Longrightarrow> distinct (map requestID (remove_request rid ps))"
  by (induction ps) (auto dest: subsetD [OF set_remove_request])

lemma remove_request_gone:
  "distinct (map requestID ps) \<Longrightarrow> q \<in> set (remove_request rid ps) \<Longrightarrow> requestID q \<noteq> rid"
  by (induction ps) (auto split: if_splits intro: rev_image_eqI)

lemma poll_Some:
  "poll x = Some (req, y) \<longleftrightarrow>
   inflight x = [] \<and> pending x = req # pending y \<and> inflight y = [(requestID req, req)]
     \<and> notify y = notify x \<and> closed y = closed x"
  by (cases x; cases y) (auto simp: poll_def split: list.splits if_splits)

lemma poll_None: "poll x = None \<longleftrightarrow> pending x = [] \<or> inflight x \<noteq> []"
  by (auto simp: poll_def split: list.splits)

section \<open>The contract of the prompt queue\<close>

text \<open>
  What the connection's goroutine relies on: requests wait in order, at most one is active,
  and the next one becomes active only after the active one has been finished.
\<close>

locale prompt_queue =
  fixes enq :: "'r \<Rightarrow> 'q \<Rightarrow> 'q"
    and next_prompt :: "'q \<Rightarrow> ('r \<times> 'q) option"
    and finish :: "'k \<Rightarrow> 'q \<Rightarrow> 'q"
    and waiting :: "'q \<Rightarrow> 'r list"
    and active :: "'q \<Rightarrow> 'r list"
    and key :: "'r \<Rightarrow> 'k"
    and ok :: "'q \<Rightarrow> bool"
  assumes waiting_enq: "waiting (enq r q) = waiting q @ [r]"
    and active_enq: "active (enq r q) = active q"
    and ok_enq: "ok q \<Longrightarrow> ok (enq r q)"
    and next_Some: "ok q \<Longrightarrow> next_prompt q = Some (r, q') \<Longrightarrow>
        active q = [] \<and> active q' = [r] \<and> waiting q = r # waiting q' \<and> ok q'"
    and next_None: "ok q \<Longrightarrow> next_prompt q = None \<Longrightarrow> waiting q = [] \<or> active q \<noteq> []"
    and finish_active: "ok q \<Longrightarrow> active q = [r] \<Longrightarrow> active (finish (key r) q) = []"
    and waiting_finish: "waiting (finish k q) = waiting q"
    and ok_finish: "ok q \<Longrightarrow> ok (finish k q)"
begin

text \<open>While a prompt is active no other one is handed out, however many are enqueued.\<close>

lemma busy_blocks:
  assumes "ok q" and "active q \<noteq> []"
  shows "next_prompt (foldl (\<lambda>q r. enq r q) q rs) = None"
proof -
  have "active (foldl (\<lambda>q r. enq r q) q rs) = active q \<and> ok (foldl (\<lambda>q r. enq r q) q rs)"
    using assms(1) by (induction rs arbitrary: q) (auto simp: active_enq ok_enq)
  with assms(2) show ?thesis
    by (cases "next_prompt (foldl (\<lambda>q r. enq r q) q rs)") (auto dest: next_Some)
qed

text \<open>Handing out and finishing prompts until the queue is empty serves it in order.\<close>

fun serve :: "nat \<Rightarrow> 'q \<Rightarrow> 'r list" where
  "serve 0 q = []"
| "serve (Suc n) q =
     (case next_prompt q of None \<Rightarrow> [] | Some (r, q') \<Rightarrow> r # serve n (finish (key r) q'))"

lemma serve_in_order:
  "ok q \<Longrightarrow> active q = [] \<Longrightarrow> length (waiting q) \<le> n \<Longrightarrow> serve n q = waiting q"
proof (induction n arbitrary: q)
  case 0
  then show ?case by simp
next
  case (Suc n)
  show ?case
  proof (cases "next_prompt q")
    case None
    with Suc.prems show ?thesis using next_None [of q] by auto
  next
    case (Some p)
    obtain r q' where p: "p = (r, q')" by (cases p)
    from next_Some [OF Suc.prems(1) Some [unfolded p]]
    have q': "active q' = [r]" "waiting q = r # waiting q'" "ok q'" by auto
    let ?q = "finish (key r) q'"
    have "ok ?q" "active ?q = []" "waiting ?q = waiting q'"
      using q' by (auto simp: ok_finish finish_active waiting_finish)
    moreover have "length (waiting ?q) \<le> n"
      using Suc.prems(3) q'(2) \<open>waiting ?q = waiting q'\<close> by simp
    ultimately have "serve n ?q = waiting q'" using Suc.IH by metis
    with Some p q'(2) show ?thesis by simp
  qed
qed

end

definition conn_enqueue :: "signerRequest \<Rightarrow> signerConn \<Rightarrow> signerConn" where
  "conn_enqueue req x = x\<lparr>pending := pending x @ [req]\<rparr>"

definition conn_finish :: "string \<Rightarrow> signerConn \<Rightarrow> signerConn" where
  "conn_finish rid x = x\<lparr>inflight := AList.delete rid (inflight x)\<rparr>"

text \<open>At most one request in flight, stored under its own id.\<close>

definition conn_ok :: "signerConn \<Rightarrow> bool" where
  "conn_ok x = (case inflight x of [] \<Rightarrow> True | [(k, r)] \<Rightarrow> k = requestID r | _ \<Rightarrow> False)"

lemma conn_ok_cases:
  "conn_ok x \<longleftrightarrow> inflight x = [] \<or> (\<exists>r. inflight x = [(requestID r, r)])"
  by (auto simp: conn_ok_def split: list.splits)

lemma conn_ok_delete: "conn_ok x \<Longrightarrow> conn_ok (conn_finish rid x)"
  by (auto simp: conn_ok_cases conn_finish_def AList.delete_eq split: if_splits)

interpretation pq: prompt_queue conn_enqueue poll conn_finish pending
  "\<lambda>x. map snd (inflight x)" requestID conn_ok
proof unfold_locales
  show "conn_ok q \<Longrightarrow> conn_ok (conn_finish k q)" for k q
    by (rule conn_ok_delete)
qed (auto simp: conn_enqueue_def conn_finish_def conn_ok_cases poll_Some poll_None AList.delete_eq)

end
