(* ===== verification/SignerMachine.thy ===== *)
theory SignerMachine
  imports SignerHub
begin

text \<open>
  The goroutines around the hub: callers of RequestSignature (write handlers), and for every
  signer WebSocket its queue pump and its main loop (handleSignerConnect and
  handleAccountSigner share the same loops).  A step is one critical section or channel
  operation of one goroutine.  The registry invariant shows that no channel is closed twice and that the
  passkey sees one prompt at a time; SignerInvariants and SignerGuarantees build on it.
\<close>

section \<open>States of the goroutines\<close>

text \<open>A caller: after the lookup, after the append, in the select, returned.\<close>

datatype caller =
    CIdle
  | CLooked string string string nat \<comment> \<open>did, request id, message, connection\<close>
  | CQueued string nat signerRequest
  | CWaiting string nat signerRequest
  | CReturned string string "goerr + bytes"

text \<open>The queue pump: about to look at the queue, asleep in the select, holding a request.\<close>

datatype pump = PCheck | PSelect | PHold signerRequest | PExit

text \<open>
  The main loop: in its select, in the middle of deliver (the request has been taken from a
  connection's in-flight map; the reply has been sent), and the two deferred calls.
\<close>

datatype main = MLoop | MTook nat signerRequest signerReply | MWake nat | MUnreg | MFail | MExit

record handler =
  hDid :: string
  hPump :: pump
  hNext :: "signerRequest list"
  hPayloads :: "string list"
  hMain :: main
  hCtxDone :: bool

text \<open>
  The last two fields are history: \<open>owner k\<close> names the account and request id reply channel
  k was made for, \<open>answers\<close> lists the verified signatures received per account and id.
\<close>

record machine =
  hub :: signerHub
  callers :: "nat \<Rightarrow> caller"
  handlers :: "nat \<Rightarrow> handler"
  owner :: "nat \<Rightarrow> string \<times> string"
  answers :: "(string \<times> string \<times> bytes) list"

definition idle_handler :: handler where
  "idle_handler =
     \<lparr>hDid = '''', hPump = PExit, hNext = [], hPayloads = [], hMain = MExit, hCtxDone = False\<rparr>"

definition start_handler :: "string \<Rightarrow> handler" where
  "start_handler did =
     \<lparr>hDid = did, hPump = PCheck, hNext = [], hPayloads = [], hMain = MLoop, hCtxDone = False\<rparr>"

definition init_machine :: machine where
  "init_machine =
     \<lparr>hub = NewSignerHub, callers = (\<lambda>_. CIdle), handlers = (\<lambda>_. idle_handler),
      owner = (\<lambda>_. ('''', '''')), answers = []\<rparr>"

definition put_caller :: "nat \<Rightarrow> caller \<Rightarrow> machine \<Rightarrow> machine" where
  "put_caller i s m = m\<lparr>callers := (callers m)(i := s)\<rparr>"

definition put_handler :: "nat \<Rightarrow> handler \<Rightarrow> machine \<Rightarrow> machine" where
  "put_handler c x m = m\<lparr>handlers := (handlers m)(c := x)\<rparr>"

definition put_hub :: "signerHub \<Rightarrow> machine \<Rightarrow> machine" where
  "put_hub h m = m\<lparr>hub := h\<rparr>"

lemmas put_defs = put_caller_def put_handler_def put_hub_def

section \<open>Steps\<close>

text \<open>A caller of RequestSignature.\<close>

inductive caller_step :: "machine \<Rightarrow> machine \<Rightarrow> bool" where
  caller_not_connected:
    "callers m i = CIdle \<Longrightarrow> conns (hub m) did = None \<Longrightarrow>
     caller_step m (put_caller i (CReturned did rid (Inl ErrSignerNotConnected)) m)"
| caller_lookup:
    "callers m i = CIdle \<Longrightarrow> conns (hub m) did = Some c \<Longrightarrow>
     caller_step m (put_caller i (CLooked did rid t c) m)"
| caller_enqueue:
    "callers m i = CLooked did rid t c \<Longrightarrow> make_request rid t (hub m) = (req, h) \<Longrightarrow>
     caller_step m (put_caller i (CQueued did c req)
       (put_hub (enqueue c req h) (m\<lparr>owner := (owner m)(reply req := (did, rid))\<rparr>)))"
| caller_wake:
    "callers m i = CQueued did c req \<Longrightarrow>
     caller_step m (put_caller i (CWaiting did c req) (put_hub (wake c (hub m)) m))"
| caller_return:
    "callers m i = CWaiting did c req \<Longrightarrow> wait_ready c req ev (hub m) \<Longrightarrow>
     caller_step m (put_caller i (CReturned did (requestID req) (wait_result ev))
       (put_hub (wait_effect c req ev (hub m)) m))"

text \<open>The goroutine that moves requests from the queue of a connection to its main loop.\<close>

inductive pump_step :: "machine \<Rightarrow> machine \<Rightarrow> bool" where
  pump_take:
    "hPump (handlers m c) = PCheck \<Longrightarrow> NextRequest c (hub m) = Some (req, h) \<Longrightarrow>
     pump_step m (put_handler c ((handlers m c)\<lparr>hPump := PHold req\<rparr>) (put_hub h m))"
| pump_sleep:
    "hPump (handlers m c) = PCheck \<Longrightarrow> NextRequest c (hub m) = None \<Longrightarrow>
     pump_step m (put_handler c ((handlers m c)\<lparr>hPump := PSelect\<rparr>) m)"
| pump_wake:
    "hPump (handlers m c) = PSelect \<Longrightarrow> notify (heap (hub m) c) \<Longrightarrow>
     pump_step m (put_handler c ((handlers m c)\<lparr>hPump := PCheck\<rparr>)
       (put_hub (set_conn c (\<lambda>x. x\<lparr>notify := False\<rparr>) (hub m)) m))"
| pump_stop:
    "hPump (handlers m c) = PSelect \<or> (\<exists>req. hPump (handlers m c) = PHold req) \<Longrightarrow>
     closed (heap (hub m) c) \<or> hCtxDone (handlers m c) \<Longrightarrow>
     pump_step m (put_handler c ((handlers m c)\<lparr>hPump := PExit\<rparr>) m)"
| pump_push:
    "hPump (handlers m c) = PHold req \<Longrightarrow> hNext (handlers m c) = [] \<Longrightarrow>
     pump_step m (put_handler c ((handlers m c)\<lparr>hPump := PCheck, hNext := [req]\<rparr>) m)"

text \<open>
  The main loop of a connection.  The flag says whether writing a sign request to the WebSocket may fail.  A rule
  that sends on a reply channel needs room in it: without room the goroutine is blocked.
\<close>

inductive loop_step :: "bool \<Rightarrow> machine \<Rightarrow> machine \<Rightarrow> bool" for wfl :: bool where
  main_write:
    "hMain (handlers m c) = MLoop \<Longrightarrow> hNext (handlers m c) = [req] \<Longrightarrow>
     loop_step wfl m (put_handler c
       ((handlers m c)\<lparr>hNext := [], hPayloads := requestID req # hPayloads (handlers m c)\<rparr>) m)"
| main_write_no_payload:
    "hMain (handlers m c) = MLoop \<Longrightarrow> hNext (handlers m c) = [req] \<Longrightarrow>
     loop_step wfl m (put_handler c ((handlers m c)\<lparr>hNext := []\<rparr>) m)"
| main_write_fails:
    "wfl \<Longrightarrow> hMain (handlers m c) = MLoop \<Longrightarrow> hNext (handlers m c) = [req] \<Longrightarrow>
     send (reply req) \<lparr>sig = None, err = Some ErrSignerNotConnected\<rparr> (hub m) = Some h \<Longrightarrow>
     loop_step wfl m (put_handler c ((handlers m c)\<lparr>hNext := [], hMain := MUnreg\<rparr>) (put_hub h m))"
| main_bad_signature:
    "hMain (handlers m c) = MLoop \<Longrightarrow> rid \<in> set (hPayloads (handlers m c)) \<Longrightarrow>
     loop_step wfl m (put_handler c
       ((handlers m c)\<lparr>hPayloads := removeAll rid (hPayloads (handlers m c))\<rparr>) m)"
| main_signature:
    "hMain (handlers m c) = MLoop \<Longrightarrow> rid \<in> set (hPayloads (handlers m c)) \<Longrightarrow>
     conns (hub m) (hDid (handlers m c)) = Some c' \<Longrightarrow> take_inflight c' rid (hub m) = Some (req, h) \<Longrightarrow>
     loop_step wfl m (put_handler c
       ((handlers m c)\<lparr>hPayloads := removeAll rid (hPayloads (handlers m c)),
                       hMain := MTook c' req \<lparr>sig = Some s, err = None\<rparr>\<rparr>)
       (put_hub h (m\<lparr>answers := (hDid (handlers m c), rid, s) # answers m\<rparr>)))"
| main_rejection:
    "hMain (handlers m c) = MLoop \<Longrightarrow>
     conns (hub m) (hDid (handlers m c)) = Some c' \<Longrightarrow> take_inflight c' rid (hub m) = Some (req, h) \<Longrightarrow>
     loop_step wfl m (put_handler c
       ((handlers m c)\<lparr>hPayloads := removeAll rid (hPayloads (handlers m c)),
                       hMain := MTook c' req \<lparr>sig = None, err = None\<rparr>\<rparr>)
       (put_hub h m))"
| main_unknown:
    "hMain (handlers m c) = MLoop \<Longrightarrow>
     loop_step wfl m (put_handler c
       ((handlers m c)\<lparr>hPayloads := removeAll rid (hPayloads (handlers m c))\<rparr>) m)"
| main_deliver:
    "hMain (handlers m c) = MTook c' req r \<Longrightarrow> send (reply req) r (hub m) = Some h \<Longrightarrow>
     loop_step wfl m (put_handler c ((handlers m c)\<lparr>hMain := MWake c'\<rparr>) (put_hub h m))"
| main_wake:
    "hMain (handlers m c) = MWake c' \<Longrightarrow>
     loop_step wfl m (put_handler c ((handlers m c)\<lparr>hMain := MLoop\<rparr>) (put_hub (wake c' (hub m)) m))"
| main_leave:
    "hMain (handlers m c) = MLoop \<Longrightarrow>
     loop_step wfl m (put_handler c ((handlers m c)\<lparr>hMain := MUnreg\<rparr>) m)"

text \<open>A connection begins, its request is cancelled, and the two deferred calls of its end.\<close>

inductive life_step :: "machine \<Rightarrow> machine \<Rightarrow> bool" where
  connect:
    "Register did (hub m) = Some (c, h) \<Longrightarrow>
     life_step m (put_handler c (start_handler did) (put_hub h m))"
| context_done:
    "c < nconn (hub m) \<Longrightarrow> life_step m (put_handler c ((handlers m c)\<lparr>hCtxDone := True\<rparr>) m)"
| main_unregister:
    "hMain (handlers m c) = MUnreg \<Longrightarrow>
     life_step m (put_handler c ((handlers m c)\<lparr>hMain := MFail\<rparr>)
       (put_hub (Unregister (hDid (handlers m c)) c (hub m)) m))"
| main_fail:
    "hMain (handlers m c) = MFail \<Longrightarrow> failAll ErrSignerNotConnected c (hub m) = Some h \<Longrightarrow>
     life_step m (put_handler c ((handlers m c)\<lparr>hMain := MExit\<rparr>) (put_hub h m))"

inductive mstep :: "bool \<Rightarrow> machine \<Rightarrow> machine \<Rightarrow> bool" for wfl :: bool where
  of_caller: "caller_step m m' \<Longrightarrow> mstep wfl m m'"
| of_pump: "pump_step m m' \<Longrightarrow> mstep wfl m m'"
| of_loop: "loop_step wfl m m' \<Longrightarrow> mstep wfl m m'"
| of_life: "life_step m m' \<Longrightarrow> mstep wfl m m'"

inductive reach :: "bool \<Rightarrow> machine \<Rightarrow> bool" for wfl :: bool where
  start: "reach wfl init_machine"
| step: "reach wfl m \<Longrightarrow> mstep wfl m m' \<Longrightarrow> reach wfl m'"

section \<open>The registry: no channel is closed twice\<close>

text \<open>
  A registered connection is allocated, open, and registered for its own account only;
  connections not allocated yet are blank.
\<close>

definition reg_conns :: "machine \<Rightarrow> bool" where
  "reg_conns m \<longleftrightarrow> (\<forall>d c. conns (hub m) d = Some c \<longrightarrow>
     c < nconn (hub m) \<and> \<not> closed (heap (hub m) c) \<and> hDid (handlers m c) = d)"

definition reg_blank :: "machine \<Rightarrow> bool" where
  "reg_blank m \<longleftrightarrow> (\<forall>c \<ge> nconn (hub m). heap (hub m) c = newSignerConn \<and> handlers m c = idle_handler)"

fun caller_conn :: "caller \<Rightarrow> nat option" where
  "caller_conn (CLooked d r t c) = Some c"
| "caller_conn (CQueued d c q) = Some c"
| "caller_conn (CWaiting d c q) = Some c"
| "caller_conn _ = None"

fun main_conn :: "main \<Rightarrow> nat option" where
  "main_conn (MTook c q r) = Some c"
| "main_conn (MWake c) = Some c"
| "main_conn _ = None"

definition reg_refs :: "machine \<Rightarrow> bool" where
  "reg_refs m \<longleftrightarrow>
     (\<forall>i c. caller_conn (callers m i) = Some c \<longrightarrow> c < nconn (hub m)) \<and>
     (\<forall>x c. main_conn (hMain (handlers m x)) = Some c \<longrightarrow> c < nconn (hub m))"

definition reg_ok :: "machine \<Rightarrow> bool" where
  "reg_ok m \<longleftrightarrow> (\<forall>c. conn_ok (heap (hub m) c))"

definition registry_inv :: "machine \<Rightarrow> bool" where
  "registry_inv m \<longleftrightarrow> reg_conns m \<and> reg_blank m \<and> reg_refs m \<and> reg_ok m"

lemmas reg_defs = registry_inv_def reg_conns_def reg_blank_def reg_refs_def reg_ok_def

lemmas hub_defs = enqueue_def wake_def cancel_def take_inflight_def NextRequest_def
  Register_def Unregister_def alloc_conn_def close_done_def make_request_def wait_effect_def

lemma conn_ok_upd [simp]:
  "conn_ok (x\<lparr>pending := ps\<rparr>) = conn_ok x"
  "conn_ok (x\<lparr>notify := b\<rparr>) = conn_ok x"
  "conn_ok (x\<lparr>closed := b\<rparr>) = conn_ok x"
  "conn_ok (x\<lparr>inflight := []\<rparr>)"
  "conn_ok newSignerConn"
  by (simp_all add: conn_ok_def newSignerConn_def)

lemma conn_ok_inflight_delete [simp]:
  "conn_ok x \<Longrightarrow> conn_ok (x\<lparr>inflight := AList.delete rid (inflight x)\<rparr>)"
  using conn_ok_delete [of x rid] by (simp add: conn_finish_def)

lemma poll_conn_ok: "poll x = Some (req, y) \<Longrightarrow> conn_ok y"
  by (auto simp: poll_Some conn_ok_cases)

lemma Register_effect:
  "Register did h = Some (c, h') \<Longrightarrow>
   c = nconn h \<and> nconn h' = Suc (nconn h) \<and> conns h' = (conns h)(did \<mapsto> nconn h) \<and>
   chan h' = chan h \<and> nchan h' = nchan h \<and>
   heap h' = (\<lambda>x. if x = nconn h then newSignerConn
                   else if conns h did = Some x then (heap h x)\<lparr>closed := True\<rparr> else heap h x)"
  by (auto simp: Register_def alloc_conn_def close_done_def fun_eq_iff split: option.splits if_splits)

lemma failAll_frame:
  "failAll e c h = Some h' \<Longrightarrow>
   conns h' = conns h \<and> nconn h' = nconn h \<and> nchan h' = nchan h \<and>
   heap h' = (heap h)(c := (heap h c)\<lparr>inflight := [], pending := []\<rparr>)"
  by (auto simp: failAll_def split: option.splits dest!: send_all_frame)

lemma registry_conns:
  "registry_inv m \<Longrightarrow> conns (hub m) d = Some c \<Longrightarrow>
   c < nconn (hub m) \<and> \<not> closed (heap (hub m) c) \<and> hDid (handlers m c) = d"
  unfolding reg_defs by blast

lemma registry_unallocated:
  "registry_inv m \<Longrightarrow> c \<ge> nconn (hub m) \<Longrightarrow>
   heap (hub m) c = newSignerConn \<and> handlers m c = idle_handler"
  unfolding reg_defs by blast

lemma registry_conn_ok: "registry_inv m \<Longrightarrow> conn_ok (heap (hub m) c)"
  unfolding reg_defs by blast

lemma registry_init: "registry_inv init_machine"
  by (simp add: reg_defs init_machine_def NewSignerHub_def idle_handler_def)

lemma put_simps [simp]:
  "hub (put_caller i s m) = hub m" "handlers (put_caller i s m) = handlers m"
  "callers (put_caller i s m) = (callers m)(i := s)"
  "hub (put_handler c x m) = hub m" "callers (put_handler c x m) = callers m"
  "handlers (put_handler c x m) = (handlers m)(c := x)"
  "hub (put_hub h m) = h" "callers (put_hub h m) = callers m" "handlers (put_hub h m) = handlers m"
  "owner (put_caller i s m) = owner m" "owner (put_handler c x m) = owner m" "owner (put_hub h m) = owner m"
  "answers (put_caller i s m) = answers m" "answers (put_handler c x m) = answers m"
  "answers (put_hub h m) = answers m"
  by (simp_all add: put_defs)

text \<open>What every step other than connecting does to the hub, seen from the registry.\<close>

lemma hub_frame [simp]:
  "conns (enqueue c q h) = conns h" "nconn (enqueue c q h) = nconn h"
  "conns (wake c h) = conns h" "nconn (wake c h) = nconn h"
  "conns (wait_effect c q ev h) = conns h" "nconn (wait_effect c q ev h) = nconn h"
  "closed (heap (enqueue c q h) x) = closed (heap h x)"
  "closed (heap (wake c h) x) = closed (heap h x)"
  "closed (heap (wait_effect c q ev h) x) = closed (heap h x)"
  "conn_ok (heap (enqueue c q h) x) = conn_ok (heap h x)"
  "conn_ok (heap (wake c h) x) = conn_ok (heap h x)"
  "conn_ok (heap (wait_effect c q ev h) x) = conn_ok (heap h x)"
  by (auto simp: hub_defs split: wait_event.splits)

lemma make_request_frame:
  "make_request rid t h = (q, h') \<Longrightarrow>
   conns h' = conns h \<and> nconn h' = nconn h \<and> heap h' = heap h \<and> chan h' = chan h \<and>
   nchan h' = Suc (nchan h) \<and> q = \<lparr>requestID = rid, msg = t, reply = nchan h\<rparr>"
  by (auto simp: make_request_def)

lemma take_inflight_frame:
  "take_inflight c rid h = Some (q, h') \<Longrightarrow>
   conns h' = conns h \<and> nconn h' = nconn h \<and> chan h' = chan h \<and> nchan h' = nchan h \<and>
   map_of (inflight (heap h c)) rid = Some q \<and>
   heap h' = (heap h)(c := conn_finish rid (heap h c))"
  by (auto simp: take_inflight_def conn_finish_def split: option.splits)

lemma NextRequest_frame:
  "NextRequest c h = Some (q, h') \<Longrightarrow>
   \<exists>x. poll (heap h c) = Some (q, x) \<and> conns h' = conns h \<and> nconn h' = nconn h \<and>
     chan h' = chan h \<and> nchan h' = nchan h \<and> heap h' = (heap h)(c := x) \<and>
     closed x = closed (heap h c) \<and> conn_ok x"
proof -
  assume "NextRequest c h = Some (q, h')"
  then obtain x where "poll (heap h c) = Some (q, x)" and "h' = set_conn c (\<lambda>_. x) h"
    by (auto simp: NextRequest_def split: option.splits)
  then show ?thesis using poll_conn_ok [of "heap h c" q x] by (auto simp: poll_Some)
qed

lemma send_frame:
  "send k r h = Some h' \<Longrightarrow>
   conns h' = conns h \<and> nconn h' = nconn h \<and> heap h' = heap h \<and> nchan h' = nchan h \<and>
   chan h k = [] \<and> chan h' = (chan h)(k := [r])"
  by (auto dest!: send_simps)

lemma Unregister_frame:
  "nconn (Unregister d c h) = nconn h \<and> chan (Unregister d c h) = chan h \<and>
   nchan (Unregister d c h) = nchan h \<and>
   conns (Unregister d c h) = (if conns h d = Some c then (conns h)(d := None) else conns h) \<and>
   heap (Unregister d c h) =
     (if conns h d = Some c then (heap h)(c := (heap h c)\<lparr>closed := True\<rparr>) else heap h)"
  by (auto simp: Unregister_def Let_def fun_eq_iff)

lemmas step_frames = make_request_frame take_inflight_frame NextRequest_frame send_frame
  failAll_frame

lemma conn_finish_closed [simp]: "closed (conn_finish k x) = closed x"
  by (simp add: conn_finish_def)

lemma handler_allocated:
  "registry_inv m \<Longrightarrow> handlers m c \<noteq> idle_handler \<Longrightarrow> c < nconn (hub m)"
  using registry_unallocated [of m c] by (cases "c < nconn (hub m)") auto

lemma handler_running:
  assumes "registry_inv m" and "hPump (handlers m c) \<noteq> PExit \<or> hMain (handlers m c) \<noteq> MExit"
  shows "c < nconn (hub m)"
  using assms(2) by (intro handler_allocated [OF assms(1)]) (auto simp: idle_handler_def)

text \<open>
  What a step keeps that neither opens nor closes a connection: the registry, the accounts of connections, and
  what is not allocated yet; connections are named only by who looked them up.
\<close>

definition quiet :: "machine \<Rightarrow> machine \<Rightarrow> bool" where
  "quiet m m' \<longleftrightarrow> nconn (hub m') = nconn (hub m) \<and> conns (hub m') = conns (hub m) \<and>
     (\<forall>c. closed (heap (hub m') c) = closed (heap (hub m) c) \<and> hDid (handlers m' c) = hDid (handlers m c) \<and>
        (conn_ok (heap (hub m) c) \<longrightarrow> conn_ok (heap (hub m') c)) \<and>
        (c \<ge> nconn (hub m) \<longrightarrow> heap (hub m') c = heap (hub m) c \<and> handlers m' c = handlers m c)) \<and>
     (\<forall>i c. caller_conn (callers m' i) = Some c \<longrightarrow>
        caller_conn (callers m i) = Some c \<or> (\<exists>d. conns (hub m) d = Some c)) \<and>
     (\<forall>x c. main_conn (hMain (handlers m' x)) = Some c \<longrightarrow>
        main_conn (hMain (handlers m x)) = Some c \<or> (\<exists>d. conns (hub m) d = Some c))"

lemma registry_refs:
  assumes "registry_inv m"
  shows "caller_conn (callers m i) = Some c \<Longrightarrow> c < nconn (hub m)"
    and "main_conn (hMain (handlers m x)) = Some c \<Longrightarrow> c < nconn (hub m)"
  using assms by (auto simp: registry_inv_def reg_refs_def)

lemma quiet_registry:
  assumes "quiet m m'" and "registry_inv m"
  shows "registry_inv m'"
  unfolding registry_inv_def
proof (intro conjI)
  show "reg_conns m'" using assms(1) registry_conns [OF assms(2)] by (simp add: quiet_def reg_conns_def)
  show "reg_blank m'" using assms(1) registry_unallocated [OF assms(2)] by (simp add: quiet_def reg_blank_def)
  show "reg_refs m'"
    using assms(1) registry_refs [OF assms(2)] registry_conns [OF assms(2)] unfolding quiet_def reg_refs_def by metis
  show "reg_ok m'" using assms(1) registry_conn_ok [OF assms(2)] by (simp add: quiet_def reg_ok_def)
qed

lemma caller_quiet:
  assumes "caller_step m m'" and "registry_inv m"
  shows "quiet m m'"
  using assms(1)
proof cases
  case (caller_enqueue i did rid t c req h)
  with make_request_frame [OF caller_enqueue(3)] registry_refs(1) [OF assms(2), of i c]
  show ?thesis by (auto simp: quiet_def enqueue_def)
next
  case (caller_wake i did c req)
  with registry_refs(1) [OF assms(2), of i c] show ?thesis by (auto simp: quiet_def wake_def)
next
  case (caller_return i did c req ev)
  with registry_refs(1) [OF assms(2), of i c] show ?thesis
    by (auto simp: quiet_def hub_defs split: wait_event.splits)
qed (auto simp: quiet_def)

text \<open>A step of one handler that changes at most one connection.\<close>

lemma handler_quiet:
  assumes "registry_inv m" and "hPump (handlers m c) \<noteq> PExit \<or> hMain (handlers m c) \<noteq> MExit"
    and "d < nconn (hub m) \<or> heap (hub m') d = heap (hub m) d"
    and "callers m' = callers m" and "nconn (hub m') = nconn (hub m)" and "conns (hub m') = conns (hub m)"
    and "\<And>y. y \<noteq> c \<Longrightarrow> handlers m' y = handlers m y" and "hDid (handlers m' c) = hDid (handlers m c)"
    and "\<And>y. y \<noteq> d \<Longrightarrow> heap (hub m') y = heap (hub m) y"
    and "closed (heap (hub m') d) = closed (heap (hub m) d)"
    and "conn_ok (heap (hub m) d) \<Longrightarrow> conn_ok (heap (hub m') d)"
    and "\<And>e. main_conn (hMain (handlers m' c)) = Some e \<Longrightarrow>
      main_conn (hMain (handlers m c)) = Some e \<or> (\<exists>a. conns (hub m) a = Some e)"
  shows "quiet m m'"
proof -
  have c: "c < nconn (hub m)" by (rule handler_running [OF assms(1,2)])
  have "closed (heap (hub m') y) = closed (heap (hub m) y) \<and> (conn_ok (heap (hub m) y) \<longrightarrow> conn_ok (heap (hub m') y)) \<and>
      (y \<ge> nconn (hub m) \<longrightarrow> heap (hub m') y = heap (hub m) y)" for y
    using assms(3,9,10,11) by (cases "y = d") auto
  moreover have "hDid (handlers m' y) = hDid (handlers m y) \<and> (y \<ge> nconn (hub m) \<longrightarrow> handlers m' y = handlers m y) \<and>
      (main_conn (hMain (handlers m' y)) = Some e \<longrightarrow>
        main_conn (hMain (handlers m y)) = Some e \<or> (\<exists>a. conns (hub m) a = Some e))" for y e
    using c assms(7,8,12) by (cases "y = c") auto
  ultimately show ?thesis using assms(4-6) by (simp add: quiet_def)
qed

lemma put_handler_quiet:
  assumes "registry_inv m" and "hPump (handlers m c) \<noteq> PExit \<or> hMain (handlers m c) \<noteq> MExit"
    and "hDid x = hDid (handlers m c)" and "main_conn (hMain x) = None \<or> hMain x = hMain (handlers m c)"
  shows "quiet m (put_handler c x m)"
  by (rule handler_quiet [OF assms(1,2), where d = 0]) (use assms(3,4) in auto)

lemma pump_quiet:
  assumes "pump_step m m'" and "registry_inv m"
  shows "quiet m m'"
  using assms(1)
proof cases
  case (pump_take c req h)
  with NextRequest_frame [OF pump_take(3)] handler_running [OF assms(2), of c] show ?thesis by (auto simp: quiet_def)
next
  case (pump_wake c)
  with handler_running [OF assms(2), of c] show ?thesis by (intro handler_quiet [OF assms(2), of c c]) auto
qed (auto intro!: put_handler_quiet [OF assms(2)])

lemma loop_quiet:
  assumes "loop_step wfl m m'" and "registry_inv m"
  shows "quiet m m'"
proof -
  note same = handler_quiet [OF assms(2), where d = 0]
  note touch = handler_quiet [OF assms(2)]
  from assms(1) show ?thesis
  proof cases
    case (main_signature c rid c' req h s)
    with take_inflight_frame [OF main_signature(5)] registry_conns [OF assms(2) main_signature(4)]
    show ?thesis by (intro touch [of c c']) (auto simp: conn_ok_delete)
  next
    case (main_rejection c c' rid req h)
    with take_inflight_frame [OF main_rejection(4)] registry_conns [OF assms(2) main_rejection(3)]
    show ?thesis by (intro touch [of c c']) (auto simp: conn_ok_delete)
  next
    case (main_deliver c c' req r h)
    with send_frame [OF main_deliver(3)] show ?thesis by (intro same [of c]) auto
  next
    case (main_write_fails c req h)
    with send_frame [OF main_write_fails(5)] show ?thesis by (intro same [of c]) auto
  next
    case (main_wake c c')
    with registry_refs(2) [OF assms(2), of c c'] show ?thesis
      by (intro touch [of c c']) (auto simp: wake_def)
  qed (auto intro!: put_handler_quiet [OF assms(2)])
qed

lemma connect_registry:
  assumes "Register did (hub m) = Some (c, h)" and "m' = put_handler c (start_handler did) (put_hub h m)"
    and "registry_inv m"
  shows "registry_inv m'"
  unfolding registry_inv_def
proof (intro conjI)
  note f = Register_effect [OF assms(1)]
  show "reg_conns m'" unfolding reg_conns_def
  proof (intro allI impI)
    fix d x assume "conns (hub m') d = Some x"
    then have cs: "(if d = did then Some (nconn (hub m)) else conns (hub m) d) = Some x" using f assms(2) by simp
    show "x < nconn (hub m') \<and> \<not> closed (heap (hub m') x) \<and> hDid (handlers m' x) = d"
    proof (cases "d = did")
      case True
      with cs f assms(2) show ?thesis by (auto simp: start_handler_def newSignerConn_def)
    next
      case False
      with cs have "conns (hub m) d = Some x" by simp
      from registry_conns [OF assms(3) this] False registry_conns [OF assms(3), of did x] f assms(2)
      show ?thesis by auto
    qed
  qed
  show "reg_blank m'"
    using f assms(2) registry_unallocated [OF assms(3)] registry_conns [OF assms(3), of did] by (auto simp: reg_blank_def)
  show "reg_refs m'"
    using f assms(2) registry_refs [OF assms(3)] by (auto simp: reg_refs_def start_handler_def less_SucI)
  show "reg_ok m'" using f assms(2) registry_conn_ok [OF assms(3)] by (auto simp: reg_ok_def)
qed

lemma unregister_registry:
  assumes "hMain (handlers m c) = MUnreg" and "registry_inv m"
    and "m' = put_handler c ((handlers m c)\<lparr>hMain := MFail\<rparr>) (put_hub (Unregister (hDid (handlers m c)) c (hub m)) m)"
  shows "registry_inv m'"
proof -
  note f = Unregister_frame [of "hDid (handlers m c)" c "hub m"] and c = handler_running [OF assms(2), of c]
  have reg: "conns (hub m) d = Some x \<Longrightarrow> x < nconn (hub m) \<and> \<not> closed (heap (hub m) x) \<and> hDid (handlers m x) = d" for d x
    by (rule registry_conns [OF assms(2)])
  show ?thesis unfolding registry_inv_def
  proof (intro conjI)
    show "reg_conns m'" unfolding reg_conns_def
    proof (intro allI impI)
      fix d x assume "conns (hub m') d = Some x"
      with f assms(3) have x: "conns (hub m) d = Some x" "d = hDid (handlers m c) \<Longrightarrow> conns (hub m) d \<noteq> Some c"
        by (auto split: if_splits)
      from reg [OF x(1)] x f assms(3) show "x < nconn (hub m') \<and> \<not> closed (heap (hub m') x) \<and> hDid (handlers m' x) = d"
        by auto
    qed
    show "reg_blank m'"
      using f c assms(1,3) registry_unallocated [OF assms(2)] by (auto simp: reg_blank_def)
    show "reg_refs m'" using f assms(3) registry_refs [OF assms(2)] by (auto simp: reg_refs_def)
    show "reg_ok m'" using f assms(3) registry_conn_ok [OF assms(2)] by (auto simp: reg_ok_def)
  qed
qed

lemma life_registry:
  assumes "life_step m m'" and "registry_inv m"
  shows "registry_inv m'"
  using assms(1)
proof cases
  case (connect did c h)
  from connect_registry [OF connect(2,1) assms(2)] show ?thesis .
next
  case (context_done c)
  with assms(2) show ?thesis by (intro quiet_registry [OF _ assms(2)]) (auto simp: quiet_def)
next
  case (main_unregister c)
  from unregister_registry [OF main_unregister(2) assms(2) main_unregister(1)] show ?thesis .
next
  case (main_fail c h)
  with failAll_frame [OF main_fail(3)] handler_running [OF assms(2), of c] show ?thesis
    by (intro quiet_registry [OF _ assms(2)]) (auto simp: quiet_def)
qed

lemma registry_step:
  assumes "mstep wfl m m'" and "registry_inv m"
  shows "registry_inv m'"
  using assms
  by cases (auto intro: quiet_registry caller_quiet pump_quiet loop_quiet life_registry)

lemma reach_registry: "reach wfl m \<Longrightarrow> registry_inv m"
  by (induction rule: reach.induct) (auto intro: registry_init registry_step)

end
