(* ===== verification/SignerInvariants.thy ===== *)
theory SignerInvariants
  imports SignerMachine
begin

text \<open>
  Three invariants of the goroutines around the signer hub: who may still answer on a reply channel, whose request an
  answer belongs to, and who owes a sleeping queue a wake-up.  Each is shown for the callers, the queue pumps, the
  main loops and the life of connections.
\<close>

section \<open>Who may still send on a reply channel\<close>

text \<open>
  A site holds the right to answer: a connection for the requests it queues or has in flight,
  a handler for the request it is delivering.
\<close>

definition conn_chans :: "signerConn \<Rightarrow> nat list" where
  "conn_chans x = map reply (map snd (inflight x) @ pending x)"

fun took_chans :: "main \<Rightarrow> nat list" where
  "took_chans (MTook c q r) = [reply q]"
| "took_chans _ = []"

fun site_chans :: "machine \<Rightarrow> nat + nat \<Rightarrow> nat list" where
  "site_chans m (Inl c) = conn_chans (heap (hub m) c)"
| "site_chans m (Inr x) = took_chans (hMain (handlers m x))"

definition sites_apart :: "machine \<Rightarrow> bool" where
  "sites_apart m \<longleftrightarrow> (\<forall>s. distinct (site_chans m s)) \<and>
     (\<forall>s s' k. k \<in> set (site_chans m s) \<longrightarrow> k \<in> set (site_chans m s') \<longrightarrow> s = s')"

definition sites_empty :: "machine \<Rightarrow> bool" where
  "sites_empty m \<longleftrightarrow>
     (\<forall>s k. k \<in> set (site_chans m s) \<longrightarrow> k < nchan (hub m) \<and> chan (hub m) k = [])"

definition fresh_empty :: "machine \<Rightarrow> bool" where
  "fresh_empty m \<longleftrightarrow> (\<forall>k \<ge> nchan (hub m). chan (hub m) k = [])"

definition sender_inv :: "machine \<Rightarrow> bool" where
  "sender_inv m \<longleftrightarrow> sites_apart m \<and> sites_empty m \<and> fresh_empty m"

lemma sender_init: "sender_inv init_machine"
proof -
  have "site_chans init_machine s = []" for s
    by (cases s) (auto simp: init_machine_def NewSignerHub_def idle_handler_def conn_chans_def)
  then show ?thesis
    by (simp add: sender_inv_def sites_apart_def sites_empty_def fresh_empty_def)
       (simp add: init_machine_def NewSignerHub_def)
qed

lemma sender_shrink:
  assumes "sender_inv m"
    and "\<And>s. set (site_chans m' s) \<subseteq> set (site_chans m s) \<and> distinct (site_chans m' s)"
    and "\<And>s k. k \<in> set (site_chans m' s) \<Longrightarrow> chan (hub m) k = [] \<Longrightarrow> chan (hub m') k = []"
    and "nchan (hub m') = nchan (hub m)"
    and "\<And>k. k \<ge> nchan (hub m) \<Longrightarrow> chan (hub m) k = [] \<Longrightarrow> chan (hub m') k = []"
  shows "sender_inv m'"
proof -
  have sub: "k \<in> set (site_chans m' s) \<Longrightarrow> k \<in> set (site_chans m s)" for k s
    using assms(2) by auto
  have "sites_apart m'"
    unfolding sites_apart_def
  proof (intro conjI allI impI)
    show "distinct (site_chans m' s)" for s using assms(2) by simp
    show "s = s'" if "k \<in> set (site_chans m' s)" "k \<in> set (site_chans m' s')" for s s' k
      using sub [OF that(1)] sub [OF that(2)] assms(1)
      unfolding sender_inv_def sites_apart_def by metis
  qed
  moreover have "sites_empty m'"
    unfolding sites_empty_def
  proof (intro allI impI)
    fix s k assume k: "k \<in> set (site_chans m' s)"
    from sub [OF this] assms(1) have "k < nchan (hub m)" "chan (hub m) k = []"
      by (auto simp: sender_inv_def sites_empty_def)
    with assms(3) [OF k] assms(4) show "k < nchan (hub m') \<and> chan (hub m') k = []" by simp
  qed
  moreover have "fresh_empty m'"
    using assms unfolding sender_inv_def fresh_empty_def by auto
  ultimately show ?thesis by (simp add: sender_inv_def)
qed

lemma sender_same:
  assumes "sender_inv m"
    and "\<And>c. conn_chans (heap (hub m') c) = conn_chans (heap (hub m) c)"
    and "\<And>x. took_chans (hMain (handlers m' x)) = took_chans (hMain (handlers m x))"
    and "chan (hub m') = chan (hub m)" and "nchan (hub m') = nchan (hub m)"
  shows "sender_inv m'"
proof -
  have "site_chans m' s = site_chans m s" for s
    using assms(2,3) by (cases s) auto
  with assms(1,4,5) show ?thesis
    by (simp add: sender_inv_def sites_apart_def sites_empty_def fresh_empty_def)
qed

lemma sender_site:
  assumes "sender_inv m" and "k \<in> set (site_chans m s)"
  shows "k < nchan (hub m)" and "chan (hub m) k = []"
    and "k \<in> set (site_chans m s') \<Longrightarrow> s' = s"
  using assms by (auto simp: sender_inv_def sites_apart_def sites_empty_def)

lemma sender_distinct: "sender_inv m \<Longrightarrow> distinct (site_chans m s)"
  by (simp add: sender_inv_def sites_apart_def)

text \<open>The right to answer a request moves from one site to another.\<close>

lemma sender_move:
  assumes "sender_inv m" and "a \<noteq> b" and "k \<in> set (site_chans m a)"
    and "site_chans m b = []" and "site_chans m' b = [k]"
    and "set (site_chans m' a) \<subseteq> set (site_chans m a) - {k}" and "distinct (site_chans m' a)"
    and "\<And>s. s \<noteq> a \<Longrightarrow> s \<noteq> b \<Longrightarrow> site_chans m' s = site_chans m s"
    and "chan (hub m') = chan (hub m)" and "nchan (hub m') = nchan (hub m)"
  shows "sender_inv m'"
proof -
  have from_old: "j \<in> set (site_chans m' s) \<Longrightarrow>
      (s = b \<and> j = k) \<or> (j \<in> set (site_chans m s) \<and> s \<noteq> b \<and> j \<noteq> k)" for s j
  proof (cases "s = a")
    case True
    then show "j \<in> set (site_chans m' s) \<Longrightarrow> (s = b \<and> j = k) \<or> (j \<in> set (site_chans m s) \<and> s \<noteq> b \<and> j \<noteq> k)" using assms(2,6) by auto
  next
    case False
    then show "j \<in> set (site_chans m' s) \<Longrightarrow> (s = b \<and> j = k) \<or> (j \<in> set (site_chans m s) \<and> s \<noteq> b \<and> j \<noteq> k)"
      using assms(5) assms(8) [of s] sender_site(3) [OF assms(1,3), of s] by (cases "s = b") auto
  qed
  have "sites_apart m'"
    unfolding sites_apart_def
  proof (intro conjI allI impI)
    show "distinct (site_chans m' s)" for s
      using assms(2,5,7) assms(8) [of s] sender_distinct [OF assms(1), of s]
      by (cases "s = a"; cases "s = b") simp_all
    show "s = s'" if "j \<in> set (site_chans m' s)" "j \<in> set (site_chans m' s')" for s s' j
      using from_old [OF that(1)] from_old [OF that(2)] sender_site(3) [OF assms(1), of j s' s] by auto
  qed
  moreover have "sites_empty m'"
    unfolding sites_empty_def
  proof (intro allI impI)
    fix s j assume "j \<in> set (site_chans m' s)"
    from from_old [OF this] sender_site(1,2) [OF assms(1), of j s]
      sender_site(1,2) [OF assms(1,3)] assms(9,10)
    show "j < nchan (hub m') \<and> chan (hub m') j = []" by auto
  qed
  moreover have "fresh_empty m'"
    using assms(1,9,10) by (simp add: sender_inv_def fresh_empty_def)
  ultimately show ?thesis by (simp add: sender_inv_def)
qed

text \<open>A new request is queued with a channel of its own.\<close>

lemma sender_new:
  assumes "sender_inv m" and "site_chans m' a = site_chans m a @ [nchan (hub m)]"
    and "\<And>s. s \<noteq> a \<Longrightarrow> site_chans m' s = site_chans m s"
    and "chan (hub m') = chan (hub m)" and "nchan (hub m') = Suc (nchan (hub m))"
  shows "sender_inv m'"
proof -
  have old: "j \<in> set (site_chans m s) \<Longrightarrow> j < nchan (hub m) \<and> chan (hub m) j = []" for s j
    using sender_site(1,2) [OF assms(1)] by blast
  have from_old: "j \<in> set (site_chans m' s) \<Longrightarrow>
      (s = a \<and> j = nchan (hub m)) \<or> (j \<in> set (site_chans m s) \<and> j < nchan (hub m))" for s j
    using assms(2) assms(3) [of s] old [of j s] by (cases "s = a") auto
  have "sites_apart m'"
    unfolding sites_apart_def
  proof (intro conjI allI impI)
    show "distinct (site_chans m' s)" for s
      using assms(2) assms(3) [of s] sender_distinct [OF assms(1), of s] old [of "nchan (hub m)" s]
      by (cases "s = a") auto
    show "s = s'" if "j \<in> set (site_chans m' s)" "j \<in> set (site_chans m' s')" for s s' j
      using from_old [OF that(1)] from_old [OF that(2)] sender_site(3) [OF assms(1), of j s' s] by auto
  qed
  moreover have "sites_empty m'"
    unfolding sites_empty_def
  proof (intro allI impI)
    fix s j assume "j \<in> set (site_chans m' s)"
    from from_old [OF this] old [of j s] assms(1,4,5)
    show "j < nchan (hub m') \<and> chan (hub m') j = []"
      by (auto simp: sender_inv_def fresh_empty_def)
  qed
  moreover have "fresh_empty m'"
    using assms(1,4,5) by (simp add: sender_inv_def fresh_empty_def)
  ultimately show ?thesis by (simp add: sender_inv_def)
qed

lemma conn_chans_simps [simp]:
  "conn_chans (x\<lparr>notify := b\<rparr>) = conn_chans x"
  "conn_chans (x\<lparr>closed := b\<rparr>) = conn_chans x"
  "conn_chans (x\<lparr>inflight := [], pending := []\<rparr>) = []"
  "conn_chans newSignerConn = []"
  "conn_chans (x\<lparr>pending := pending x @ [q]\<rparr>) = conn_chans x @ [reply q]"
  by (simp_all add: conn_chans_def)

lemma poll_conn_chans: "poll x = Some (q, y) \<Longrightarrow> conn_chans y = conn_chans x"
  by (simp add: poll_Some conn_chans_def)

lemma conn_chans_remove:
  "set (conn_chans (x\<lparr>pending := remove_request rid (pending x)\<rparr>)) \<subseteq> set (conn_chans x)"
  using set_remove_request [of rid "pending x"] by (auto simp: conn_chans_def)

lemma conn_chans_remove_distinct:
  assumes "distinct (conn_chans x)"
  shows "distinct (conn_chans (x\<lparr>pending := remove_request rid (pending x)\<rparr>))"
  using assms set_remove_request [of rid "pending x"]
  by (auto simp: conn_chans_def dest: remove_request_distinct)

lemma conn_chans_finish:
  assumes "conn_ok x" and "map_of (inflight x) rid = Some q"
  shows "conn_chans x = reply q # conn_chans (conn_finish rid x)"
  using assms by (auto simp: conn_ok_cases conn_chans_def conn_finish_def AList.delete_eq split: if_splits)

lemma sender_return:
  assumes "sender_inv m" and "m' = put_caller i x (put_hub (wait_effect c req ev (hub m)) m)"
  shows "sender_inv m'"
proof (cases ev)
  case (CtxDone b)
  have "set (site_chans m' s) \<subseteq> set (site_chans m s) \<and> distinct (site_chans m' s)" for s
    using sender_distinct [OF assms(1), of s] sender_distinct [OF assms(1), of "Inl c"] assms(2) CtxDone
      conn_chans_remove conn_chans_remove_distinct
    by (cases s) (auto simp: wait_effect_def cancel_def)
  with assms(2) CtxDone show ?thesis
    by (intro sender_shrink [OF assms(1)]) (auto simp: wait_effect_def cancel_def)
next
  case ConnDone
  with assms(2) show ?thesis
    by (intro sender_same [OF assms(1)]) (auto simp: wait_effect_def)
next
  case (GotReply r)
  have "site_chans m' s = site_chans m s" for s
    using assms(2) GotReply by (cases s) (auto simp: wait_effect_def)
  with assms(2) GotReply show ?thesis
    by (intro sender_shrink [OF assms(1)]) (auto simp: wait_effect_def sender_distinct [OF assms(1)])
qed

lemma sender_caller:
  assumes "caller_step m m'" and "sender_inv m"
  shows "sender_inv m'"
  using assms(1)
proof cases
  case (caller_enqueue i did rid t c req h)
  note f = make_request_frame [OF caller_enqueue(3)]
  show ?thesis
  proof (rule sender_new [OF assms(2), where a = "Inl c"])
    show "s \<noteq> Inl c \<Longrightarrow> site_chans m' s = site_chans m s" for s
      using f caller_enqueue(1) by (cases s) (auto simp: enqueue_def)
  qed (use f caller_enqueue(1) in \<open>auto simp: enqueue_def\<close>)
next
  case (caller_wake i did c req)
  then show ?thesis by (intro sender_same [OF assms(2)]) (auto simp: wake_def)
next
  case (caller_return i did c req ev)
  from sender_return [OF assms(2) caller_return(1)] show ?thesis .
qed (simp_all; intro sender_same [OF assms(2)]; auto; fail)+

lemma sender_pump:
  assumes "pump_step m m'" and "sender_inv m"
  shows "sender_inv m'"
  using assms(1)
proof cases
  case (pump_take c req h)
  from NextRequest_frame [OF pump_take(3)] pump_take(1) show ?thesis
    by (intro sender_same [OF assms(2)]) (auto simp: poll_conn_chans)
qed (simp_all; intro sender_same [OF assms(2)]; auto; fail)+

text \<open>A main loop that takes an answered request up.\<close>

lemma sender_take:
  assumes "sender_inv m" and "registry_inv m" and "take_inflight c' rid (hub m) = Some (req, h)"
    and "hMain (handlers m c) = MLoop" and "hMain (handlers m' c) = MTook c' req r"
    and "\<And>x. x \<noteq> c \<Longrightarrow> handlers m' x = handlers m x" and "hub m' = h"
  shows "sender_inv m'"
proof -
  note f = take_inflight_frame [OF assms(3)]
    and ch = conn_chans_finish [OF registry_conn_ok [OF assms(2), of c'], of rid req]
  show ?thesis
  proof (rule sender_move [OF assms(1), where a = "Inl c'" and b = "Inr c" and k = "reply req"])
    show "x \<noteq> Inl c' \<Longrightarrow> x \<noteq> Inr c \<Longrightarrow> site_chans m' x = site_chans m x" for x
      using f assms(6,7) by (cases x) auto
  qed (use f ch assms(4,5,7) sender_distinct [OF assms(1), of "Inl c'"] in auto)
qed

lemma sender_deliver:
  assumes "sender_inv m" and "hMain (handlers m c) = MTook c' req r" and "send (reply req) r (hub m) = Some h"
    and "m' = put_handler c ((handlers m c)\<lparr>hMain := MWake c'\<rparr>) (put_hub h m)"
  shows "sender_inv m'"
proof -
  note f = send_frame [OF assms(3)]
  have sub: "set (site_chans m' s) \<subseteq> set (site_chans m s) \<and> distinct (site_chans m' s)" for s
    using f assms(4) sender_distinct [OF assms(1), of s] by (cases s) auto
  have "reply req \<notin> set (site_chans m' s)" for s
  proof
    assume k: "reply req \<in> set (site_chans m' s)"
    with sub have "reply req \<in> set (site_chans m s)" by auto
    with sender_site(3) [OF assms(1) this, of "Inr c"] assms(2) have "s = Inr c" by simp
    with k assms(4) show False by simp
  qed
  moreover have "reply req < nchan (hub m)"
    using sender_site(1) [OF assms(1), of "reply req" "Inr c"] assms(2) by simp
  ultimately show ?thesis
    using f assms(4) sub by (intro sender_shrink [OF assms(1)]) (auto simp del: site_chans.simps)
qed

lemma sender_loop:
  assumes "loop_step False m m'" and "registry_inv m" and "sender_inv m"
  shows "sender_inv m'"
  using assms(1)
proof cases
  case (main_signature c rid c' req h s)
  then show ?thesis by (intro sender_take [OF assms(3,2) main_signature(5), of c]) auto
next
  case (main_rejection c c' rid req h)
  then show ?thesis by (intro sender_take [OF assms(3,2) main_rejection(4), of c]) auto
next
  case (main_deliver c c' req r h)
  from sender_deliver [OF assms(3) main_deliver(2,3,1)] show ?thesis .
next
  case (main_wake c c')
  then show ?thesis by (intro sender_same [OF assms(3)]) (auto simp: wake_def)
qed (simp_all; intro sender_same [OF assms(3)]; auto; fail)+

text \<open>What failing a connection sends, and where.\<close>

lemma failAll_sends:
  assumes "failAll e c h = Some h'"
  obtains h1 where "send_all \<lparr>sig = None, err = Some e\<rparr> (map snd (inflight (heap h c)) @ pending (heap h c)) h = Some h1"
    and "h' = set_conn c (\<lambda>x. x\<lparr>inflight := [], pending := []\<rparr>) h1"
  using assms by (auto simp: failAll_def split: option.splits)

lemma sender_fail:
  assumes "sender_inv m" and "failAll ErrSignerNotConnected c (hub m) = Some h" and "hMain (handlers m c) = MFail"
    and "m' = put_handler c ((handlers m c)\<lparr>hMain := MExit\<rparr>) (put_hub h m)"
  shows "sender_inv m'"
proof -
  obtain h1 where s: "send_all \<lparr>sig = None, err = Some ErrSignerNotConnected\<rparr>
      (map snd (inflight (heap (hub m) c)) @ pending (heap (hub m) c)) (hub m) = Some h1"
    and h: "h = set_conn c (\<lambda>x. x\<lparr>inflight := [], pending := []\<rparr>) h1"
    by (rule failAll_sends [OF assms(2)])
  have ch: "chan h k = chan (hub m) k" if "k \<notin> set (site_chans m (Inl c))" for k
    using send_all_chan [OF s] that by (auto simp: h conn_chans_def)
  note f = failAll_frame [OF assms(2)]
  have sub: "set (site_chans m' s) \<subseteq> set (site_chans m s) \<and> distinct (site_chans m' s)" for s
    using f assms(3,4) sender_distinct [OF assms(1), of s] by (cases s) auto
  have off: "k \<notin> set (site_chans m (Inl c))" if "k \<in> set (site_chans m' s)" for s k
  proof
    assume k: "k \<in> set (site_chans m (Inl c))"
    with sub that sender_site(3) [OF assms(1) k, of s] have "s = Inl c" by auto
    with that f assms(4) show False by simp
  qed
  have lt: "k \<notin> set (site_chans m (Inl c))" if "k \<ge> nchan (hub m)" for k
    using that sender_site(1) [OF assms(1), of k "Inl c"] by auto
  show ?thesis
    by (rule sender_shrink [OF assms(1) sub]) (use ch off lt f assms(4) in \<open>auto simp del: site_chans.simps\<close>)
qed

lemma sender_life:
  assumes "life_step m m'" and "registry_inv m" and "sender_inv m"
  shows "sender_inv m'"
  using assms(1)
proof cases
  case (connect did c h)
  from registry_unallocated [OF assms(2), of "nconn (hub m)"] Register_effect [OF connect(2)] connect(1)
  show ?thesis
    by (intro sender_same [OF assms(3)]) (auto simp: start_handler_def idle_handler_def)
next
  case (context_done c)
  then show ?thesis by (intro sender_same [OF assms(3)]) auto
next
  case (main_unregister c)
  then show ?thesis by (intro sender_same [OF assms(3)]) (auto simp: Unregister_frame)
next
  case (main_fail c h)
  from sender_fail [OF assms(3) main_fail(3,2,1)] show ?thesis .
qed

lemma sender_step:
  assumes "mstep False m m'" and "registry_inv m" and "sender_inv m"
  shows "sender_inv m'"
  using assms by cases (auto intro: sender_caller sender_pump sender_loop sender_life)

lemma reach_sender: "reach wfl m \<Longrightarrow> \<not> wfl \<Longrightarrow> sender_inv m"
  by (induction rule: reach.induct) (auto intro: sender_init sender_step reach_registry)

text \<open>No goroutine of the hub blocks on a reply channel.\<close>

lemma sender_deliver_ready:
  "sender_inv m \<Longrightarrow> hMain (handlers m x) = MTook c q r \<Longrightarrow> send (reply q) r (hub m) \<noteq> None"
  using sender_site(2) [of m "reply q" "Inr x"] by (simp add: send_def)

lemma sender_failAll_ready: "sender_inv m \<Longrightarrow> failAll e c (hub m) \<noteq> None"
proof -
  assume inv: "sender_inv m"
  have "\<exists>h'. send_all \<lparr>sig = None, err = Some e\<rparr>
      (map snd (inflight (heap (hub m) c)) @ pending (heap (hub m) c)) (hub m) = Some h'"
    using sender_distinct [OF inv, of "Inl c"] sender_site(2) [OF inv, of _ "Inl c"]
    by (intro send_all_total) (auto simp: conn_chans_def)
  then show ?thesis by (auto simp: failAll_def)
qed

section \<open>Answers reach the caller who asked\<close>

text \<open>The requests a connection queues or has in flight.\<close>

definition conn_reqs :: "signerConn \<Rightarrow> signerRequest set" where
  "conn_reqs x = set (pending x) \<union> snd ` set (inflight x)"

definition owned :: "machine \<Rightarrow> string \<Rightarrow> signerRequest \<Rightarrow> bool" where
  "owned m did q \<longleftrightarrow> reply q < nchan (hub m) \<and> owner m (reply q) = (did, requestID q)"

definition answered :: "machine \<Rightarrow> string \<times> string \<Rightarrow> signerReply \<Rightarrow> bool" where
  "answered m dr r \<longleftrightarrow>
     (\<forall>s. sig r = Some s \<longrightarrow> (fst dr, snd dr, s) \<in> set (answers m))"

fun caller_routed :: "machine \<Rightarrow> caller \<Rightarrow> bool" where
  "caller_routed m (CLooked did rid t c) = (c < nconn (hub m) \<and> hDid (handlers m c) = did)"
| "caller_routed m (CQueued did c q) = (c < nconn (hub m) \<and> hDid (handlers m c) = did \<and> owned m did q)"
| "caller_routed m (CWaiting did c q) = (c < nconn (hub m) \<and> hDid (handlers m c) = did \<and> owned m did q)"
| "caller_routed m (CReturned did rid res) =
     (\<forall>s. res = Inr s \<longrightarrow> (did, rid, s) \<in> set (answers m))"
| "caller_routed m CIdle = True"

fun main_routed :: "machine \<Rightarrow> main \<Rightarrow> bool" where
  "main_routed m (MTook c q r) =
     (c < nconn (hub m) \<and> owned m (hDid (handlers m c)) q \<and> answered m (hDid (handlers m c), requestID q) r)"
| "main_routed m _ = True"

definition routed_conns :: "machine \<Rightarrow> bool" where
  "routed_conns m \<longleftrightarrow>
     (\<forall>c. \<forall>q \<in> conn_reqs (heap (hub m) c). owned m (hDid (handlers m c)) q)"

definition routed_chans :: "machine \<Rightarrow> bool" where
  "routed_chans m \<longleftrightarrow> (\<forall>k. \<forall>r \<in> set (chan (hub m) k). k < nchan (hub m) \<and> answered m (owner m k) r)"

definition pump_reqs :: "handler \<Rightarrow> signerRequest set" where
  "pump_reqs x = set (hNext x) \<union> (case hPump x of PHold q \<Rightarrow> {q} | _ \<Rightarrow> {})"

definition pumped :: "machine \<Rightarrow> bool" where
  "pumped m \<longleftrightarrow> (\<forall>x. \<forall>q \<in> pump_reqs (handlers m x). reply q < nchan (hub m))"

definition routed :: "machine \<Rightarrow> bool" where
  "routed m \<longleftrightarrow> pumped m \<and> (\<forall>i. caller_routed m (callers m i)) \<and>
     (\<forall>x. main_routed m (hMain (handlers m x))) \<and> routed_conns m \<and> routed_chans m"

text \<open>What later states keep: allocated numbers, their owners, connections' accounts, answers.\<close>

definition grows :: "machine \<Rightarrow> machine \<Rightarrow> bool" where
  "grows m m' \<longleftrightarrow> nconn (hub m) \<le> nconn (hub m') \<and> nchan (hub m) \<le> nchan (hub m') \<and>
     (\<forall>k < nchan (hub m). owner m' k = owner m k) \<and>
     (\<forall>c < nconn (hub m). hDid (handlers m' c) = hDid (handlers m c)) \<and>
     set (answers m) \<subseteq> set (answers m')"

lemma owned_grows: "grows m m' \<Longrightarrow> owned m d q \<Longrightarrow> owned m' d q"
  by (auto simp: grows_def owned_def)

lemma answered_grows: "grows m m' \<Longrightarrow> answered m dr r \<Longrightarrow> answered m' dr r"
  by (auto simp: grows_def answered_def)

lemma caller_routed_grows: "grows m m' \<Longrightarrow> caller_routed m x \<Longrightarrow> caller_routed m' x"
  by (cases x) (auto simp: owned_grows grows_def)

lemma main_routed_grows: "grows m m' \<Longrightarrow> main_routed m x \<Longrightarrow> main_routed m' x"
proof (cases x)
  case (MTook c q r)
  assume g: "grows m m'" and "main_routed m x"
  with MTook have c: "c < nconn (hub m)" "owned m (hDid (handlers m c)) q"
    "answered m (hDid (handlers m c), requestID q) r" by auto
  with g have "hDid (handlers m' c) = hDid (handlers m c)" "c < nconn (hub m')"
    by (auto simp: grows_def)
  with c g MTook show ?thesis by (auto intro: owned_grows answered_grows)
qed auto

lemma quiet_grows:
  assumes "quiet m m'" and "nchan (hub m) \<le> nchan (hub m')"
    and "\<forall>k < nchan (hub m). owner m' k = owner m k" and "set (answers m) \<subseteq> set (answers m')"
  shows "grows m m'"
  using assms by (simp add: quiet_def grows_def)

lemma caller_grows:
  assumes "caller_step m m'" and "registry_inv m"
  shows "grows m m'"
proof -
  have "nchan (hub m) \<le> nchan (hub m') \<and> (\<forall>k < nchan (hub m). owner m' k = owner m k) \<and> set (answers m) \<subseteq> set (answers m')"
    using assms(1)
    by cases (auto simp: hub_defs split: wait_event.splits)
  with quiet_grows [OF caller_quiet [OF assms]] show ?thesis by blast
qed

lemma handler_grows:
  assumes "pump_step m m' \<or> loop_step wfl m m'" and "registry_inv m"
  shows "grows m m'"
proof -
  have "nchan (hub m) \<le> nchan (hub m') \<and> owner m' = owner m \<and> set (answers m) \<subseteq> set (answers m')"
    using assms(1)
  proof
    assume "pump_step m m'"
    then show ?thesis by cases (auto dest: step_frames)
  next
    assume "loop_step wfl m m'"
    then show ?thesis by cases (auto simp: wake_def dest: step_frames)
  qed
  moreover have "quiet m m'" using assms pump_quiet loop_quiet by blast
  ultimately show ?thesis by (intro quiet_grows) auto
qed

lemma life_grows: "life_step m m' \<Longrightarrow> registry_inv m \<Longrightarrow> grows m m'"
  by (erule life_step.cases) (auto simp: grows_def Unregister_frame dest!: Register_effect step_frames)

lemma conn_reqs_simps [simp]:
  "conn_reqs (x\<lparr>notify := b\<rparr>) = conn_reqs x"
  "conn_reqs (x\<lparr>closed := b\<rparr>) = conn_reqs x"
  "conn_reqs (x\<lparr>inflight := [], pending := []\<rparr>) = {}"
  "conn_reqs newSignerConn = {}"
  "conn_reqs (x\<lparr>pending := pending x @ [q]\<rparr>) = insert q (conn_reqs x)"
  by (auto simp: conn_reqs_def)

lemma conn_reqs_poll: "poll x = Some (q, y) \<Longrightarrow> conn_reqs y = conn_reqs x"
  by (auto simp: poll_Some conn_reqs_def)

lemma conn_reqs_finish: "conn_reqs (conn_finish k x) \<subseteq> conn_reqs x"
  by (auto simp: conn_reqs_def conn_finish_def AList.delete_eq)

lemma conn_reqs_cancel: "conn_reqs (x\<lparr>pending := remove_request k (pending x)\<rparr>) \<subseteq> conn_reqs x"
  using set_remove_request [of k "pending x"] by (auto simp: conn_reqs_def)

lemma conn_reqs_inflight: "map_of (inflight x) k = Some q \<Longrightarrow> q \<in> conn_reqs x"
  by (force simp: conn_reqs_def dest: map_of_SomeD)

text \<open>Requests and filled channels of the next state are old ones, or are good in themselves.\<close>

lemma routed_conns_keep:
  assumes "routed m" and "grows m m'" and "registry_inv m"
    and "\<And>c q. q \<in> conn_reqs (heap (hub m') c) \<Longrightarrow>
           q \<in> conn_reqs (heap (hub m) c) \<or> owned m' (hDid (handlers m' c)) q"
  shows "routed_conns m'"
  unfolding routed_conns_def
proof (intro allI ballI)
  fix c q assume q: "q \<in> conn_reqs (heap (hub m') c)"
  show "owned m' (hDid (handlers m' c)) q"
  proof (cases "q \<in> conn_reqs (heap (hub m) c)")
    case True
    then have "c < nconn (hub m)"
      using registry_unallocated [OF assms(3), of c] by (cases "c < nconn (hub m)") auto
    with assms(2) have "hDid (handlers m' c) = hDid (handlers m c)" by (simp add: grows_def)
    with True assms(1) owned_grows [OF assms(2)] show ?thesis
      by (simp add: routed_def routed_conns_def)
  next
    case False
    with assms(4) [OF q] show ?thesis by simp
  qed
qed

lemma routed_chans_keep:
  assumes "routed m" and "grows m m'"
    and "\<And>k r. r \<in> set (chan (hub m') k) \<Longrightarrow>
           r \<in> set (chan (hub m) k) \<or> (k < nchan (hub m') \<and> answered m' (owner m' k) r)"
  shows "routed_chans m'"
  unfolding routed_chans_def
proof (intro allI ballI)
  fix k r assume r: "r \<in> set (chan (hub m') k)"
  show "k < nchan (hub m') \<and> answered m' (owner m' k) r"
  proof (cases "r \<in> set (chan (hub m) k)")
    case True
    with assms(1) have "k < nchan (hub m)" "answered m (owner m k) r"
      by (auto simp: routed_def routed_chans_def)
    with assms(2) answered_grows [OF assms(2)] show ?thesis by (auto simp: grows_def)
  next
    case False
    with assms(3) [OF r] show ?thesis by simp
  qed
qed

lemma routedI:
  assumes "routed m" and "grows m m'" and "registry_inv m"
    and "\<And>i. callers m' i = callers m i \<or> caller_routed m' (callers m' i)"
    and "\<And>x. hMain (handlers m' x) = hMain (handlers m x) \<or> main_routed m' (hMain (handlers m' x))"
    and "\<And>c q. q \<in> conn_reqs (heap (hub m') c) \<Longrightarrow>
           q \<in> conn_reqs (heap (hub m) c) \<or> owned m' (hDid (handlers m' c)) q"
    and "\<And>k r. r \<in> set (chan (hub m') k) \<Longrightarrow>
           r \<in> set (chan (hub m) k) \<or> (k < nchan (hub m') \<and> answered m' (owner m' k) r)"
    and "\<And>x q. q \<in> pump_reqs (handlers m' x) \<Longrightarrow>
           q \<in> pump_reqs (handlers m x) \<or> (\<exists>c. q \<in> conn_reqs (heap (hub m) c))"
  shows "routed m'"
proof -
  have "reply q < nchan (hub m')" if "q \<in> pump_reqs (handlers m' x)" for x q
    using assms(8) [OF that] assms(1,2)
    by (fastforce simp: routed_def pumped_def routed_conns_def owned_def grows_def)
  then have "pumped m'" by (simp add: pumped_def)
  moreover
  have "caller_routed m' (callers m' i)" for i
    using assms(1) assms(4) [of i] caller_routed_grows [OF assms(2), of "callers m i"]
    by (auto simp: routed_def)
  moreover have "main_routed m' (hMain (handlers m' x))" for x
    using assms(1) assms(5) [of x] main_routed_grows [OF assms(2), of "hMain (handlers m x)"]
    by (auto simp: routed_def)
  ultimately show ?thesis
    using routed_conns_keep [OF assms(1-3,6)] routed_chans_keep [OF assms(1,2,7)]
    by (simp add: routed_def)
qed

lemma answered_none [simp]: "sig r = None \<Longrightarrow> answered m dr r"
  by (simp add: answered_def)

lemma pump_reqs_simps [simp]:
  "pump_reqs (x\<lparr>hCtxDone := b\<rparr>) = pump_reqs x"
  "pump_reqs (x\<lparr>hMain := y\<rparr>) = pump_reqs x"
  "pump_reqs (x\<lparr>hPayloads := ps\<rparr>) = pump_reqs x"
  "pump_reqs (x\<lparr>hPump := PHold q\<rparr>) = insert q (set (hNext x))"
  "pump_reqs (x\<lparr>hPump := PCheck\<rparr>) = set (hNext x)"
  "pump_reqs (x\<lparr>hPump := PSelect\<rparr>) = set (hNext x)"
  "pump_reqs (x\<lparr>hPump := PExit\<rparr>) = set (hNext x)"
  "pump_reqs (start_handler did) = {}"
  "hPump x = PHold q \<Longrightarrow> pump_reqs x = insert q (set (hNext x))"
  "set (hNext x) \<subseteq> pump_reqs x"
  by (auto simp: pump_reqs_def start_handler_def)

lemma pump_reqs_next [simp]: "q \<in> set (hNext x) \<Longrightarrow> q \<in> pump_reqs x"
  by (simp add: pump_reqs_def)

lemma pump_reqs_clear: "q \<in> pump_reqs (x\<lparr>hNext := []\<rparr>) \<Longrightarrow> q \<in> pump_reqs x"
  by (simp add: pump_reqs_def)

lemma pump_reqs_push [simp]: "pump_reqs (x\<lparr>hPump := PCheck, hNext := qs\<rparr>) = set qs"
  by (simp add: pump_reqs_def)

lemma routed_caller: "routed m \<Longrightarrow> callers m i = x \<Longrightarrow> caller_routed m x"
  by (auto simp: routed_def)

lemma routed_conn: "routed m \<Longrightarrow> q \<in> conn_reqs (heap (hub m) c) \<Longrightarrow> owned m (hDid (handlers m c)) q"
  by (auto simp: routed_def routed_conns_def)

lemma routed_took:
  assumes "grows m m'" and "registry_inv m" and "routed m"
    and "hMain (handlers m c) = MLoop" and "conns (hub m) (hDid (handlers m c)) = Some c'"
    and "take_inflight c' rid (hub m) = Some (req, h)"
    and "handlers m' = (handlers m)(c := x)" and "hub m' = h" and "callers m' = callers m"
    and "hMain x = MTook c' req r" and "hDid x = hDid (handlers m c)"
    and "pump_reqs x = pump_reqs (handlers m c)"
    and "\<And>s. sig r = Some s \<Longrightarrow> (hDid (handlers m c), rid, s) \<in> set (answers m')"
  shows "routed m'"
proof -
  note f = take_inflight_frame [OF assms(6)] and g = assms(1)
  have c': "c' < nconn (hub m)" "hDid (handlers m c') = hDid (handlers m c)"
    using registry_conns [OF assms(2,5)] by auto
  have rid: "requestID req = rid"
    using f registry_conn_ok [OF assms(2), of c'] by (auto simp: conn_ok_cases split: if_splits)
  have "owned m (hDid (handlers m c')) req"
    using f conn_reqs_inflight routed_conn [OF assms(3)] by metis
  then have own: "owned m' (hDid (handlers m c)) req" using owned_grows [OF g] c' by simp
  have hd: "hDid (handlers m' c') = hDid (handlers m c)"
    using assms(7,11) c' by simp
  have took: "main_routed m' (MTook c' req r)"
    using own hd c' f rid assms(8,13) by (simp add: answered_def)
  show ?thesis
  proof (rule routedI [OF assms(3) g assms(2)])
    show "q \<in> conn_reqs (heap (hub m') d) \<Longrightarrow> q \<in> conn_reqs (heap (hub m) d) \<or>
        owned m' (hDid (handlers m' d)) q" for d q
      using f assms(8) conn_reqs_finish [of rid "heap (hub m) c'"] by (auto split: if_splits)
    show "hMain (handlers m' d) = hMain (handlers m d) \<or> main_routed m' (hMain (handlers m' d))" for d
      using took assms(7,10) by (cases "d = c") (simp_all del: main_routed.simps)
  qed (use f assms(7,8,9,12) in \<open>auto split: if_splits\<close>)
qed

lemma routed_return:
  assumes "registry_inv m" and "routed m" and "grows m m'"
    and "m' = put_caller i (CReturned did (requestID req) (wait_result ev)) (put_hub (wait_effect c req ev (hub m)) m)"
    and "callers m i = CWaiting did c req" and "wait_ready c req ev (hub m)"
  shows "routed m'"
proof -
  note I = routedI [OF assms(2,3,1)]
  note c = routed_caller [OF assms(2,5)]
  show ?thesis
  proof (cases ev)
    case (GotReply r)
    with assms(6) have r: "r \<in> set (chan (hub m) (reply req))" by (simp add: wait_ready_def)
    with assms(2) c have a: "answered m (did, requestID req) r"
      by (force simp: routed_def routed_chans_def owned_def)
    have "caller_routed m' (CReturned did (requestID req) (wait_result ev))"
      using a GotReply assms(4)
      by (auto simp: wait_result_def reply_result_def answered_def split: option.splits)
    with GotReply assms(4) show ?thesis
      by (intro I) (auto simp: wait_effect_def simp del: caller_routed.simps split: if_splits)
  next
    case ConnDone
    with assms(4) show ?thesis by (intro I) (auto simp: wait_effect_def wait_result_def)
  next
    case (CtxDone b)
    with assms(4) conn_reqs_cancel [of "requestID req" "heap (hub m) c"] show ?thesis
      by (intro I) (auto simp: wait_effect_def cancel_def wait_result_def split: if_splits)
  qed
qed

lemma routed_callers:
  assumes "caller_step m m'" and "registry_inv m" and "routed m"
  shows "routed m'"
proof -
  note g = caller_grows [OF assms(1,2)]
  note I = routedI [OF assms(3) g assms(2)]
  show ?thesis
    using assms(1)
  proof cases
    case (caller_lookup i did c rid t)
    with registry_conns [OF assms(2) caller_lookup(3)] show ?thesis by (intro I) auto
  next
    case (caller_enqueue i did rid t c req h)
    note f = make_request_frame [OF caller_enqueue(3)]
      and c = routed_caller [OF assms(3) caller_enqueue(2)]
    have "owned m' did req" using f caller_enqueue(1) by (simp add: owned_def enqueue_def)
    with f c caller_enqueue(1) show ?thesis
      by (intro I) (auto simp: enqueue_def split: if_splits)
  next
    case (caller_wake i did c req)
    with routed_caller [OF assms(3) caller_wake(2)] show ?thesis
      by (intro I) (auto simp: wake_def owned_def split: if_splits)
  next
    case (caller_return i did c req ev)
    from routed_return [OF assms(2,3) g caller_return(1-3)] show ?thesis .
  qed (intro I; auto; fail)
qed

lemma routed_pumps:
  assumes "pump_step m m'" and "registry_inv m" and "routed m"
  shows "routed m'"
proof -
  have "grows m m'" using handler_grows [of m m' False] assms(1,2) by blast
  note I = routedI [OF assms(3) this assms(2)]
  show ?thesis
    using assms(1)
  proof cases
    case (pump_take c req h)
    then obtain x where "poll (heap (hub m) c) = Some (req, x)"
      using NextRequest_frame by blast
    then have "req \<in> conn_reqs (heap (hub m) c)" by (simp add: poll_Some conn_reqs_def)
    with pump_take NextRequest_frame [OF pump_take(3)] show ?thesis
      by (intro I) (auto simp: conn_reqs_poll split: if_splits)
  qed (intro I; auto split: if_splits; fail)+
qed

lemma routed_loops:
  assumes "loop_step wfl m m'" and "registry_inv m" and "routed m"
  shows "routed m'"
proof -
  have g: "grows m m'" using handler_grows assms(1,2) by blast
  note I = routedI [OF assms(3) g assms(2)] and T = routed_took [OF g assms(2,3)]
  show ?thesis
    using assms(1)
  proof cases
    case (main_signature c rid c' req h s)
    then show ?thesis by (intro T) (assumption | simp)+
  next
    case (main_rejection c c' rid req h)
    then show ?thesis by (intro T) (assumption | simp)+
  next
    case (main_deliver c c' req r h)
    have "main_routed m (MTook c' req r)"
      using assms(3) main_deliver(2) unfolding routed_def by metis
    then have "reply req < nchan (hub m)" "answered m' (owner m' (reply req)) r"
      using answered_grows [OF g] g by (auto simp: owned_def grows_def)
    with send_frame [OF main_deliver(3)] main_deliver(1) show ?thesis by (intro I) (auto split: if_splits)
  next
    case (main_write_fails c req h)
    have "req \<in> pump_reqs (handlers m c)" using main_write_fails(4) by simp
    then have "reply req < nchan (hub m)" using assms(3) unfolding routed_def pumped_def by blast
    with send_frame [OF main_write_fails(5)] main_write_fails(1,4) show ?thesis
      by (intro I) (auto split: if_splits dest: pump_reqs_clear)
  qed (intro I; auto simp: wake_def split: if_splits dest: pump_reqs_clear; fail)+
qed

lemma routed_life:
  assumes "life_step m m'" and "registry_inv m" and "routed m"
  shows "routed m'"
proof -
  note I = routedI [OF assms(3) life_grows [OF assms(1,2)] assms(2)]
  show ?thesis
    using assms(1)
  proof cases
    case (connect did c h)
    note f = Register_effect [OF connect(2)]
    show ?thesis
    proof (rule I)
      show "q \<in> conn_reqs (heap (hub m') d) \<Longrightarrow> q \<in> conn_reqs (heap (hub m) d) \<or>
          owned m' (hDid (handlers m' d)) q" for d q
        using f connect(1) by (auto split: if_splits)
      show "hMain (handlers m' x) = hMain (handlers m x) \<or> main_routed m' (hMain (handlers m' x))" for x
        using f connect(1) by (simp add: start_handler_def)
    qed (use f connect(1) in \<open>auto split: if_splits\<close>)
  next
    case (main_fail c h)
    note f = failAll_frame [OF main_fail(3)]
    obtain h1 where s: "send_all \<lparr>sig = None, err = Some ErrSignerNotConnected\<rparr>
        (map snd (inflight (heap (hub m) c)) @ pending (heap (hub m) c)) (hub m) = Some h1"
      and h: "h = set_conn c (\<lambda>x. x\<lparr>inflight := [], pending := []\<rparr>) h1"
      by (rule failAll_sends [OF main_fail(3)])
    have k: "reply q < nchan (hub m)" if "q \<in> conn_reqs (heap (hub m) c)" for q
      using routed_conn [OF assms(3) that] by (simp add: owned_def)
    show ?thesis
    proof (rule I)
      show "r \<in> set (chan (hub m') j) \<Longrightarrow> r \<in> set (chan (hub m) j) \<or>
          (j < nchan (hub m') \<and> answered m' (owner m' j) r)" for j r
        using send_all_chan [OF s] main_fail(1) f h k
        by (auto simp: conn_reqs_def split: if_splits)
    qed (use f main_fail(1) in \<open>auto split: if_splits\<close>)
  qed (intro I; auto simp: Unregister_frame split: if_splits; fail)+
qed

lemma routed_step:
  assumes "mstep wfl m m'" and "registry_inv m" and "routed m"
  shows "routed m'"
  using assms by cases (auto intro: routed_callers routed_pumps routed_loops routed_life)

lemma routed_init: "routed init_machine"
  by (simp add: routed_def pumped_def pump_reqs_def routed_conns_def routed_chans_def
      init_machine_def NewSignerHub_def idle_handler_def conn_reqs_def)

lemma reach_routed: "reach wfl m \<Longrightarrow> routed m"
  by (induction rule: reach.induct) (auto intro: routed_init routed_step reach_registry)

section \<open>No lost wake-up\<close>

text \<open>
  While the pump of a connection sleeps although a request could be handed out, a wake-up is
  stored, or some goroutine that is between changing the queue and waking the pump owes one.
\<close>

fun caller_owes :: "caller \<Rightarrow> nat option" where
  "caller_owes (CQueued d c q) = Some c"
| "caller_owes _ = None"

definition wake_due :: "machine \<Rightarrow> nat \<Rightarrow> bool" where
  "wake_due m c \<longleftrightarrow> notify (heap (hub m) c) \<or> (\<exists>i. caller_owes (callers m i) = Some c) \<or>
     (\<exists>x. main_conn (hMain (handlers m x)) = Some c)"

definition starving :: "machine \<Rightarrow> nat \<Rightarrow> bool" where
  "starving m c \<longleftrightarrow> hPump (handlers m c) = PSelect \<and> pending (heap (hub m) c) \<noteq> [] \<and>
     inflight (heap (hub m) c) = []"

definition wake_inv :: "machine \<Rightarrow> bool" where
  "wake_inv m \<longleftrightarrow> (\<forall>c. starving m c \<longrightarrow> wake_due m c)"

lemma wake_keep:
  assumes "wake_inv m"
    and "\<And>c. starving m' c \<Longrightarrow> wake_due m' c \<or> (starving m c \<and> (wake_due m c \<longrightarrow> wake_due m' c))"
  shows "wake_inv m'"
  using assms unfolding wake_inv_def by blast

lemma wake_due_mono:
  assumes "notify (heap (hub m) c) \<Longrightarrow> wake_due m' c"
    and "\<And>i. caller_owes (callers m i) = Some c \<Longrightarrow> wake_due m' c"
    and "\<And>x. main_conn (hMain (handlers m x)) = Some c \<Longrightarrow> wake_due m' c"
  shows "wake_due m c \<longrightarrow> wake_due m' c"
  using assms unfolding wake_due_def by blast

lemma wake_dueI:
  "notify (heap (hub m) c) \<Longrightarrow> wake_due m c"
  "caller_owes (callers m i) = Some c \<Longrightarrow> wake_due m c"
  "main_conn (hMain (handlers m x)) = Some c \<Longrightarrow> wake_due m c"
  unfolding wake_due_def by blast+

text \<open>A step that touches neither queue nor debts of connection c.\<close>

lemma wake_frame:
  assumes "starving m' c"
    and "starving m' c \<Longrightarrow> starving m c"
    and "notify (heap (hub m) c) \<Longrightarrow> notify (heap (hub m') c)"
    and "\<And>i. caller_owes (callers m i) = Some c \<Longrightarrow> caller_owes (callers m' i) = Some c"
    and "\<And>x. main_conn (hMain (handlers m x)) = Some c \<Longrightarrow> main_conn (hMain (handlers m' x)) = Some c"
  shows "wake_due m' c \<or> (starving m c \<and> (wake_due m c \<longrightarrow> wake_due m' c))"
  using assms unfolding wake_due_def by blast

lemma wake_quiet:
  assumes "wake_inv m"
    and "\<And>c. starving m' c \<Longrightarrow> starving m c"
    and "\<And>c. notify (heap (hub m) c) \<Longrightarrow> starving m' c \<Longrightarrow> notify (heap (hub m') c)"
    and "\<And>i c. caller_owes (callers m i) = Some c \<Longrightarrow> caller_owes (callers m' i) = Some c"
    and "\<And>x c. main_conn (hMain (handlers m x)) = Some c \<Longrightarrow> main_conn (hMain (handlers m' x)) = Some c"
  shows "wake_inv m'"
  using assms unfolding wake_inv_def wake_due_def by meson

text \<open>A step after which connection \<open>d\<close> has its wake-up, or is owed one, and that touches no other.\<close>

lemma wake_paid:
  assumes "wake_inv m" and "wake_due m' d"
    and "\<And>c. c \<noteq> d \<Longrightarrow> handlers m' c = handlers m c \<or> hPump (handlers m' c) = hPump (handlers m c)"
    and "\<And>c. c \<noteq> d \<Longrightarrow> heap (hub m') c = heap (hub m) c"
    and "\<And>i c. c \<noteq> d \<Longrightarrow> caller_owes (callers m i) = Some c \<Longrightarrow> caller_owes (callers m' i) = Some c"
    and "\<And>x c. c \<noteq> d \<Longrightarrow> main_conn (hMain (handlers m x)) = Some c \<Longrightarrow> main_conn (hMain (handlers m' x)) = Some c"
  shows "wake_inv m'"
proof (rule wake_keep [OF assms(1)])
  fix c assume s: "starving m' c"
  show "wake_due m' c \<or> (starving m c \<and> (wake_due m c \<longrightarrow> wake_due m' c))"
  proof (cases "c = d")
    case True
    with assms(2) show ?thesis by simp
  next
    case False
    with assms(3-6) show ?thesis
      by (intro wake_frame [OF s]) (auto simp: starving_def dest: assms(3))
  qed
qed

lemma wake_callers:
  assumes "caller_step m m'" and "wake_inv m"
  shows "wake_inv m'"
  using assms(1)
proof cases
  case (caller_enqueue i did rid t d req h)
  have "caller_owes (callers m' i) = Some d" using caller_enqueue(1) by simp
  with make_request_frame [OF caller_enqueue(3)] caller_enqueue(1,2) show ?thesis
    by (intro wake_paid [OF assms(2) wake_dueI(2)]) (auto simp: enqueue_def)
next
  case (caller_wake i did d req)
  then have "notify (heap (hub m') d)" by (simp add: wake_def)
  with caller_wake show ?thesis
    by (intro wake_paid [OF assms(2) wake_dueI(1)]) (auto simp: wake_def)
next
  case (caller_return i did d req ev)
  have sub: "remove_request k ps \<noteq> [] \<Longrightarrow> ps \<noteq> []" for k ps by (cases ps) auto
  from caller_return show ?thesis
    by (intro wake_quiet [OF assms(2)])
       (auto simp: starving_def wait_effect_def cancel_def split: wait_event.splits if_splits dest: sub)
qed (intro wake_quiet [OF assms(2)]; auto simp: starving_def; fail)+

lemma wake_pumps:
  assumes "pump_step m m'" and "wake_inv m"
  shows "wake_inv m'"
  using assms(1)
proof cases
  case (pump_take d req h)
  then obtain x where "poll (heap (hub m) d) = Some (req, x)" "heap h = (heap (hub m))(d := x)"
    using NextRequest_frame by blast
  with pump_take(1,2) show ?thesis
    by (intro wake_quiet [OF assms(2)]) (auto simp: starving_def poll_Some split: if_splits)
next
  case (pump_sleep d)
  then have "pending (heap (hub m) d) = [] \<or> inflight (heap (hub m) d) \<noteq> []"
    by (auto simp: NextRequest_def poll_None split: option.splits)
  with pump_sleep(1) show ?thesis
    by (intro wake_quiet [OF assms(2)]) (auto simp: starving_def split: if_splits)
qed (intro wake_quiet [OF assms(2)]; auto simp: starving_def split: if_splits; fail)+

lemma wake_loops:
  assumes "loop_step wfl m m'" and "wake_inv m"
  shows "wake_inv m'"
  using assms(1)
proof cases
  case (main_signature x rid d req h s)
  have "main_conn (hMain (handlers m' x)) = Some d" using main_signature(1) by simp
  with take_inflight_frame [OF main_signature(5)] main_signature(1,2) show ?thesis
    by (intro wake_paid [OF assms(2) wake_dueI(3)]) auto
next
  case (main_rejection x d rid req h)
  have "main_conn (hMain (handlers m' x)) = Some d" using main_rejection(1) by simp
  with take_inflight_frame [OF main_rejection(4)] main_rejection(1,2) show ?thesis
    by (intro wake_paid [OF assms(2) wake_dueI(3)]) auto
next
  case (main_wake x d)
  then have "notify (heap (hub m') d)" by (simp add: wake_def)
  with main_wake show ?thesis
    by (intro wake_paid [OF assms(2) wake_dueI(1)]) (auto simp: wake_def)
next
  case (main_deliver d d' req r h)
  with send_frame [OF main_deliver(3)] show ?thesis
    by (intro wake_quiet [OF assms(2)]) (auto simp: starving_def split: if_splits)
next
  case (main_write_fails d req h)
  with send_frame [OF main_write_fails(5)] show ?thesis
    by (intro wake_quiet [OF assms(2)]) (auto simp: starving_def split: if_splits)
qed (intro wake_quiet [OF assms(2)]; auto simp: starving_def split: if_splits; fail)+

lemma wake_life:
  assumes "life_step m m'" and "registry_inv m" and "wake_inv m"
  shows "wake_inv m'"
  using assms(1)
proof cases
  case (connect did d h)
  note f = Register_effect [OF connect(2)]
  have "handlers m d = idle_handler" using f registry_unallocated [OF assms(2), of d] by simp
  with f connect(1) show ?thesis
    by (intro wake_quiet [OF assms(3)]) (auto simp: starving_def start_handler_def idle_handler_def split: if_splits)
next
  case (main_fail d h)
  with failAll_frame [OF main_fail(3)] show ?thesis
    by (intro wake_quiet [OF assms(3)]) (auto simp: starving_def split: if_splits)
qed (intro wake_quiet [OF assms(3)]; auto simp: starving_def Unregister_frame split: if_splits; fail)+

lemma wake_step:
  assumes "mstep wfl m m'" and "registry_inv m" and "wake_inv m"
  shows "wake_inv m'"
  using assms by cases (auto intro: wake_callers wake_pumps wake_loops wake_life)

lemma reach_wake: "reach wfl m \<Longrightarrow> wake_inv m"
proof (induction rule: reach.induct)
  case start
  show ?case
    by (simp add: wake_inv_def starving_def init_machine_def idle_handler_def)
next
  case (step m m')
  then show ?case by (auto intro: wake_step reach_registry)
qed

end
