(* ===== verification/SignerGuarantees.thy ===== *)
theory SignerGuarantees
  imports SignerInvariants
begin

text \<open>
  What the signer hub guarantees its callers, with a run of one account on which each guarantee is seen.
\<close>

section \<open>A run\<close>

text \<open>One account, one connection, one caller: the states the concrete instances use.\<close>

definition run_req :: signerRequest where
  "run_req = \<lparr>requestID = ''r'', msg = ''m'', reply = 0\<rparr>"

definition run_conn :: "signerRequest list \<Rightarrow> (string \<times> signerRequest) list \<Rightarrow> bool \<Rightarrow> signerConn" where
  "run_conn ps fl n = \<lparr>pending = ps, inflight = fl, notify = n, closed = False\<rparr>"

definition run_hub :: "signerConn \<Rightarrow> signerReply list \<Rightarrow> signerHub" where
  "run_hub x rs =
     \<lparr>conns = [''d'' \<mapsto> 0], heap = (\<lambda>_. newSignerConn)(0 := x), nconn = 1,
      chan = (\<lambda>_. [])(0 := rs), nchan = 1\<rparr>"

definition run_handler :: "pump \<Rightarrow> signerRequest list \<Rightarrow> string list \<Rightarrow> main \<Rightarrow> handler" where
  "run_handler p ns ps mn =
     \<lparr>hDid = ''d'', hPump = p, hNext = ns, hPayloads = ps, hMain = mn, hCtxDone = False\<rparr>"

definition at_run :: "machine \<Rightarrow> caller \<Rightarrow> handler \<Rightarrow> signerHub \<Rightarrow> bool" where
  "at_run m cl x h \<longleftrightarrow>
     callers m = (\<lambda>_. CIdle)(0 := cl) \<and> handlers m = (\<lambda>_. idle_handler)(0 := x) \<and> hub m = h"

lemmas run_defs = run_req_def run_conn_def run_hub_def run_handler_def at_run_def

text \<open>The steps of each goroutine as steps of the machine.\<close>

lemmas step_caller_enqueue = caller_step.caller_enqueue [THEN mstep.of_caller]
lemmas step_caller_lookup = caller_step.caller_lookup [THEN mstep.of_caller]
lemmas step_caller_return = caller_step.caller_return [THEN mstep.of_caller]
lemmas step_caller_wake = caller_step.caller_wake [THEN mstep.of_caller]
lemmas step_connect = life_step.connect [THEN mstep.of_life]
lemmas step_main_deliver = loop_step.main_deliver [THEN mstep.of_loop]
lemmas step_main_signature = loop_step.main_signature [THEN mstep.of_loop]
lemmas step_main_unregister = life_step.main_unregister [THEN mstep.of_life]
lemmas step_main_write = loop_step.main_write [THEN mstep.of_loop]
lemmas step_main_write_fails = loop_step.main_write_fails [THEN mstep.of_loop]
lemmas step_pump_push = pump_step.pump_push [THEN mstep.of_pump]
lemmas step_pump_sleep = pump_step.pump_sleep [THEN mstep.of_pump]
lemmas step_pump_take = pump_step.pump_take [THEN mstep.of_pump]

lemma run_connected:
  "\<exists>m. reach wfl m \<and>
     at_run m CIdle (run_handler PCheck [] [] MLoop) ((run_hub newSignerConn [])\<lparr>nchan := 0\<rparr>)"
proof -
  let ?h = "(run_hub newSignerConn [])\<lparr>nchan := 0\<rparr>"
  have "Register ''d'' (hub init_machine) = Some (0, ?h)"
    by (simp add: init_machine_def NewSignerHub_def Register_def alloc_conn_def run_hub_def
        newSignerConn_def fun_eq_iff)
  from reach.step [OF reach.start step_connect [OF this], of wfl] show ?thesis
    by (intro exI conjI) (assumption, auto simp: run_defs init_machine_def start_handler_def)
qed

lemma run_sleeping:
  "\<exists>m. reach wfl m \<and>
     at_run m CIdle (run_handler PSelect [] [] MLoop) ((run_hub newSignerConn [])\<lparr>nchan := 0\<rparr>)"
proof -
  let ?h = "(run_hub newSignerConn [])\<lparr>nchan := 0\<rparr>"
  obtain m where m: "reach wfl m" "at_run m CIdle (run_handler PCheck [] [] MLoop) ?h"
    using run_connected by blast
  have "hPump (handlers m 0) = PCheck" "NextRequest 0 (hub m) = None"
    using m(2) by (simp_all add: at_run_def run_handler_def run_hub_def NextRequest_def poll_def)
  from reach.step [OF m(1) step_pump_sleep [OF this]] m(2) show ?thesis
    by (intro exI conjI) (assumption, simp add: at_run_def run_handler_def)
qed

lemma run_enqueue:
  assumes m: "reach wfl m"
    "at_run m CIdle (run_handler p [] [] MLoop) ((run_hub newSignerConn [])\<lparr>nchan := 0\<rparr>)"
  shows "\<exists>m. reach wfl m \<and> at_run m (CQueued ''d'' 0 run_req) (run_handler p [] [] MLoop)
     (run_hub (run_conn [run_req] [] False) [])"
proof -
  let ?h0 = "(run_hub newSignerConn [])\<lparr>nchan := 0\<rparr>"
  have r1: "reach wfl (put_caller 0 (CLooked ''d'' ''r'' ''m'' 0) m)"
    using m(2) by (intro reach.step [OF m(1)] step_caller_lookup) (auto simp: run_defs)
  have "at_run (put_caller 0 (CLooked ''d'' ''r'' ''m'' 0) m) (CLooked ''d'' ''r'' ''m'' 0)
      (run_handler p [] [] MLoop) ?h0"
    using m(2) by (simp add: at_run_def)
  with r1 obtain m1 where m1: "reach wfl m1"
    "at_run m1 (CLooked ''d'' ''r'' ''m'' 0) (run_handler p [] [] MLoop) ?h0" by blast
  have c: "callers m1 0 = CLooked ''d'' ''r'' ''m'' 0" using m1(2) by (simp add: at_run_def)
  have q: "make_request ''r'' ''m'' (hub m1) = (run_req, run_hub newSignerConn [])"
    using m1(2) by (simp add: make_request_def run_defs)
  have "enqueue 0 run_req (run_hub newSignerConn []) = run_hub (run_conn [run_req] [] False) []"
    by (simp add: enqueue_def set_conn_def run_hub_def run_conn_def newSignerConn_def)
  with reach.step [OF m1(1) step_caller_enqueue [OF c q]] m1(2) show ?thesis
    by (intro exI conjI) (assumption, simp add: at_run_def)
qed

lemma run_queued:
  "\<exists>m. reach wfl m \<and> at_run m (CQueued ''d'' 0 run_req) (run_handler PCheck [] [] MLoop)
     (run_hub (run_conn [run_req] [] False) [])"
  using run_connected run_enqueue by blast

text \<open>The request has been handed to the main loop; the caller waits.\<close>

lemma run_handed:
  "\<exists>m. reach wfl m \<and> at_run m (CWaiting ''d'' 0 run_req) (run_handler PCheck [run_req] [] MLoop)
     (run_hub (run_conn [] [(''r'', run_req)] True) [])"
proof -
  obtain m where m: "reach wfl m"
    "at_run m (CQueued ''d'' 0 run_req) (run_handler PCheck [] [] MLoop)
       (run_hub (run_conn [run_req] [] False) [])"
    using run_queued by blast
  let ?m1 = "put_caller 0 (CWaiting ''d'' 0 run_req) (put_hub (wake 0 (hub m)) m)"
  have r1: "reach wfl ?m1"
    using m(2) by (intro reach.step [OF m(1)] step_caller_wake) (auto simp: run_defs)
  have 1: "at_run ?m1 (CWaiting ''d'' 0 run_req) (run_handler PCheck [] [] MLoop)
      (run_hub (run_conn [run_req] [] True) [])"
    using m(2) by (simp add: run_defs wake_def set_conn_def)
  let ?h = "run_hub (run_conn [] [(''r'', run_req)] True) []"
  have "NextRequest 0 (hub ?m1) = Some (run_req, ?h)"
    using 1 by (simp add: run_defs NextRequest_def poll_def set_conn_def)
  then have r2: "reach wfl (put_handler 0 ((handlers ?m1 0)\<lparr>hPump := PHold run_req\<rparr>) (put_hub ?h ?m1))"
    (is "reach wfl ?m2")
    using 1 by (intro reach.step [OF r1] step_pump_take) (auto simp: run_defs)
  have 2: "at_run ?m2 (CWaiting ''d'' 0 run_req) (run_handler (PHold run_req) [] [] MLoop) ?h"
    using 1 by (simp add: run_defs)
  obtain m2 where m2: "reach wfl m2"
    "at_run m2 (CWaiting ''d'' 0 run_req) (run_handler (PHold run_req) [] [] MLoop) ?h"
    using r2 2 by blast
  have "reach wfl (put_handler 0 ((handlers m2 0)\<lparr>hPump := PCheck, hNext := [run_req]\<rparr>) m2)"
    (is "reach wfl ?m3")
    by (rule reach.step [OF m2(1)], rule step_pump_push) (use m2(2) in \<open>auto simp: run_defs\<close>)
  moreover have "at_run ?m3 (CWaiting ''d'' 0 run_req) (run_handler PCheck [run_req] [] MLoop) ?h"
    using m2(2) by (simp add: run_defs)
  ultimately show ?thesis by blast
qed

text \<open>The signature has been taken up and not been delivered yet.\<close>

lemma run_signed:
  "\<exists>m. reach wfl m \<and> at_run m (CWaiting ''d'' 0 run_req)
     (run_handler PCheck [] [] (MTook 0 run_req \<lparr>sig = Some [1], err = None\<rparr>))
     (run_hub (run_conn [] [] True) [])"
proof -
  obtain m where m: "reach wfl m"
    "at_run m (CWaiting ''d'' 0 run_req) (run_handler PCheck [run_req] [] MLoop)
       (run_hub (run_conn [] [(''r'', run_req)] True) [])"
    using run_handed by blast
  let ?m1 = "put_handler 0
       ((handlers m 0)\<lparr>hNext := [], hPayloads := requestID run_req # hPayloads (handlers m 0)\<rparr>) m"
  have r1: "reach wfl ?m1"
    using m(2) by (intro reach.step [OF m(1)] step_main_write) (auto simp: run_defs)
  have 1: "at_run ?m1 (CWaiting ''d'' 0 run_req) (run_handler PCheck [] [''r''] MLoop)
      (run_hub (run_conn [] [(''r'', run_req)] True) [])"
    using m(2) by (simp add: run_defs)
  obtain m1 where m1: "reach wfl m1"
    "at_run m1 (CWaiting ''d'' 0 run_req) (run_handler PCheck [] [''r''] MLoop)
      (run_hub (run_conn [] [(''r'', run_req)] True) [])"
    using r1 1 by blast
  let ?h = "run_hub (run_conn [] [] True) []"
  have t: "take_inflight 0 ''r'' (hub m1) = Some (run_req, ?h)"
    using m1(2) by (simp add: run_defs take_inflight_def set_conn_def)
  let ?m2 = "put_handler 0 ((handlers m1 0)\<lparr>hPayloads := removeAll ''r'' (hPayloads (handlers m1 0)),
         hMain := MTook 0 run_req \<lparr>sig = Some [1], err = None\<rparr>\<rparr>)
       (put_hub ?h (m1\<lparr>answers := (hDid (handlers m1 0), ''r'', [1]) # answers m1\<rparr>))"
  have "reach wfl ?m2"
    by (rule reach.step [OF m1(1)], rule step_main_signature [OF _ _ _ t])
       (use m1(2) in \<open>auto simp: run_defs\<close>)
  moreover have "at_run ?m2 (CWaiting ''d'' 0 run_req)
     (run_handler PCheck [] [] (MTook 0 run_req \<lparr>sig = Some [1], err = None\<rparr>)) ?h"
    using m1(2) by (simp add: run_defs)
  ultimately show ?thesis by blast
qed

lemma run_returned:
  "\<exists>m. reach wfl m \<and> callers m 0 = CReturned ''d'' ''r'' (Inr [1])"
proof -
  obtain m where m: "reach wfl m" "at_run m (CWaiting ''d'' 0 run_req)
     (run_handler PCheck [] [] (MTook 0 run_req \<lparr>sig = Some [1], err = None\<rparr>))
     (run_hub (run_conn [] [] True) [])"
    using run_signed by blast
  let ?r = "\<lparr>sig = Some [1], err = None\<rparr>"
  let ?h = "run_hub (run_conn [] [] True) [?r]"
  have s: "send (reply run_req) ?r (hub m) = Some ?h"
    using m(2) by (auto simp: run_defs send_def fun_eq_iff)
  let ?m1 = "put_handler 0 ((handlers m 0)\<lparr>hMain := MWake 0\<rparr>) (put_hub ?h m)"
  have r1: "reach wfl ?m1"
    by (rule reach.step [OF m(1)], rule step_main_deliver [OF _ s]) (use m(2) in \<open>simp add: run_defs\<close>)
  have c: "callers ?m1 0 = CWaiting ''d'' 0 run_req" using m(2) by (simp add: at_run_def)
  have "wait_ready 0 run_req (GotReply ?r) (hub ?m1)" by (simp add: wait_ready_def run_defs)
  from reach.step [OF r1 step_caller_return [OF c this]] show ?thesis
    by (intro exI conjI) (assumption, simp add: wait_result_def reply_result_def run_req_def)
qed

text \<open>A failed write followed by a timeout: the deferred \<open>failAll\<close> meets a full channel.\<close>

lemma run_write_failed:
  "\<exists>m. reach True m \<and> callers m = (\<lambda>_. CIdle)(0 := CReturned ''d'' ''r'' (Inl ErrSignerTimeout)) \<and>
     hMain (handlers m 0) = MFail \<and> failAll ErrSignerNotConnected 0 (hub m) = None"
proof -
  let ?c = "CWaiting ''d'' 0 run_req" and ?r = "\<lparr>sig = None, err = Some ErrSignerNotConnected\<rparr>"
    and ?x = "run_conn [] [(''r'', run_req)] True"
  obtain m where m: "reach True m" "at_run m ?c (run_handler PCheck [run_req] [] MLoop) (run_hub ?x [])"
    using run_handed by blast
  have s: "send (reply run_req) ?r (hub m) = Some (run_hub ?x [?r])"
    using m(2) by (simp add: run_defs send_def)
  have h: "hMain (handlers m 0) = MLoop" "hNext (handlers m 0) = [run_req]"
    using m(2) by (simp_all add: run_defs)
  have "at_run (put_handler 0 ((handlers m 0)\<lparr>hNext := [], hMain := MUnreg\<rparr>) (put_hub (run_hub ?x [?r]) m))
      ?c (run_handler PCheck [] [] MUnreg) (run_hub ?x [?r])"
    using m(2) by (simp add: at_run_def run_handler_def)
  with reach.step [OF m(1) step_main_write_fails [OF TrueI h s]]
  obtain m1 where m1: "reach True m1" "at_run m1 ?c (run_handler PCheck [] [] MUnreg) (run_hub ?x [?r])"
    by blast
  have c: "callers m1 0 = ?c" "wait_ready 0 run_req (CtxDone True) (hub m1)"
    using m1(2) by (simp_all add: at_run_def wait_ready_def)
  let ?t = "CReturned ''d'' ''r'' (Inl ErrSignerTimeout)"
  have w: "wait_effect 0 run_req (CtxDone True) (run_hub ?x [?r]) = run_hub ?x [?r]"
    by (simp add: wait_effect_def cancel_def run_defs set_conn_def)
  have "at_run (put_caller 0 (CReturned ''d'' (requestID run_req) (wait_result (CtxDone True)))
      (put_hub (wait_effect 0 run_req (CtxDone True) (hub m1)) m1))
      ?t (run_handler PCheck [] [] MUnreg) (run_hub ?x [?r])"
    using m1(2) w by (simp add: at_run_def wait_result_def run_req_def)
  with reach.step [OF m1(1) step_caller_return [OF c]]
  obtain m2 where m2: "reach True m2" "at_run m2 ?t (run_handler PCheck [] [] MUnreg) (run_hub ?x [?r])"
    by blast
  have u: "hMain (handlers m2 0) = MUnreg" using m2(2) by (simp add: run_defs)
  let ?m3 = "put_handler 0 ((handlers m2 0)\<lparr>hMain := MFail\<rparr>)
      (put_hub (Unregister (hDid (handlers m2 0)) 0 (hub m2)) m2)"
  have "failAll ErrSignerNotConnected 0 (hub ?m3) = None"
    using m2(2) by (simp add: run_defs Unregister_def failAll_def send_def)
  moreover have "callers ?m3 = (\<lambda>_. CIdle)(0 := ?t)" using m2(2) by (simp add: at_run_def)
  ultimately show ?thesis
    using reach.step [OF m2(1) step_main_unregister [OF u]] by (intro exI conjI) (assumption, simp_all)
qed

section \<open>What the hub guarantees\<close>

text \<open>
  Registering a signer never closes a done channel twice, in any interleaving of callers,
  connections and disconnections; the new connection is the registered one and starts empty.
\<close>

theorem signer_register_safe:
  assumes "reach wfl m"
  shows "\<exists>c h. Register did (hub m) = Some (c, h) \<and> conns h did = Some c \<and>
     heap h c = newSignerConn \<and> (\<forall>d. d \<noteq> did \<longrightarrow> conns h d = conns (hub m) d)"
proof -
  have inv: "registry_inv m" using assms by (rule reach_registry)
  have "Register did (hub m) \<noteq> None"
  proof (cases "conns (hub m) did")
    case (Some old)
    with registry_conns [OF inv Some] show ?thesis by (simp add: Register_def close_done_def)
  qed (simp add: Register_def)
  then obtain c h where r: "Register did (hub m) = Some (c, h)" by auto
  have e: "conns h = (conns (hub m))(did \<mapsto> nconn (hub m))" using Register_effect [OF r] by simp
  show ?thesis
  proof (intro exI conjI)
    show "Register did (hub m) = Some (c, h)" by (rule r)
    show "conns h did = Some c" "heap h c = newSignerConn"
      using Register_registers [OF r] by blast+
    show "\<forall>d. d \<noteq> did \<longrightarrow> conns h d = conns (hub m) d" by (simp add: e)
  qed
qed

theorem signer_register_safe_witness:
  "\<exists>m. reach True m \<and> callers m 0 = CReturned ''d'' ''r'' (Inr [1]) \<and> Register ''d'' (hub m) \<noteq> None"
proof -
  obtain m where m: "reach True m" "callers m 0 = CReturned ''d'' ''r'' (Inr [1])"
    using run_returned by blast
  with signer_register_safe [OF m(1), of "''d''"] show ?thesis by auto
qed

text \<open>
  C1: a signature a handler gets back from \<open>RequestSignature\<close> was received and verified for
  the account and the request id that this very call put into its request; answers are never
  crossed between callers, accounts or reconnecting signers.
\<close>

theorem signer_answer_routed:
  assumes "reach wfl m" and "callers m i = CReturned did rid (Inr s)"
  shows "(did, rid, s) \<in> set (answers m)"
  using routed_caller [OF reach_routed [OF assms(1)] assms(2)] by simp

theorem signer_answer_routed_witness:
  "\<exists>m. reach True m \<and> (''d'', ''r'', [1]) \<in> set (answers m)"
proof -
  obtain m where m: "reach True m" "callers m 0 = CReturned ''d'' ''r'' (Inr [1])"
    using run_returned by blast
  with signer_answer_routed [OF m] show ?thesis by auto
qed

text \<open>
  At most one sign request of an account's connection is shown to the user at any time,
  and it is stored under its own id.
\<close>

theorem signer_one_prompt:
  assumes "reach wfl m"
  shows "inflight (heap (hub m) c) = [] \<or> (\<exists>q. inflight (heap (hub m) c) = [(requestID q, q)])"
  using registry_conn_ok [OF reach_registry [OF assms], of c] by (simp add: conn_ok_cases)

theorem signer_one_prompt_witness:
  "\<exists>m. reach True m \<and> length (inflight (heap (hub m) 0)) = 1"
proof -
  obtain m where m: "reach True m" "at_run m (CWaiting ''d'' 0 run_req)
      (run_handler PCheck [run_req] [] MLoop) (run_hub (run_conn [] [(''r'', run_req)] True) [])"
    using run_handed by blast
  then have "inflight (heap (hub m) 0) \<noteq> []" by (simp add: run_defs)
  with signer_one_prompt [OF m(1), of 0] m(1) show ?thesis by auto
qed

text \<open>
  C2: as long as writing to the WebSocket does not fail, no goroutine ever blocks on a reply
  channel: a signature or rejection that has been taken up can be sent, and so can the
  failure replies of a connection that goes away.
\<close>

theorem signer_sends_never_block:
  assumes "reach False m"
  shows "failAll e c (hub m) \<noteq> None \<and>
    (\<forall>x c' q r. hMain (handlers m x) = MTook c' q r \<longrightarrow> send (reply q) r (hub m) \<noteq> None)"
  using sender_failAll_ready sender_deliver_ready reach_sender [OF assms] by blast

theorem signer_sends_never_block_witness:
  "\<exists>m h. reach False m \<and> send 0 \<lparr>sig = Some [1], err = None\<rparr> (hub m) = Some h"
proof -
  obtain m where m: "reach False m" "at_run m (CWaiting ''d'' 0 run_req)
     (run_handler PCheck [] [] (MTook 0 run_req \<lparr>sig = Some [1], err = None\<rparr>))
     (run_hub (run_conn [] [] True) [])"
    using run_signed by blast
  then have "hMain (handlers m 0) = MTook 0 run_req \<lparr>sig = Some [1], err = None\<rparr>"
    by (simp add: run_defs)
  with signer_sends_never_block [OF m(1)]
  have "send (reply run_req) \<lparr>sig = Some [1], err = None\<rparr> (hub m) \<noteq> None" by blast
  with m(1) show ?thesis by (intro exI [of _ m]) (auto simp: run_req_def)
qed

text \<open>
  C6: when writing a sign request to the WebSocket fails, the handler answers the request and
  its deferred \<open>failAll\<close> answers it again, because it is still in flight.  If the caller has
  given up in between, the second send finds the buffer full and nobody to empty it: the
  handler never ends, holding the connection's lock.
\<close>

theorem signer_write_failure_blocks:
  "\<exists>m. reach True m \<and> hMain (handlers m 0) = MFail \<and> failAll ErrSignerNotConnected 0 (hub m) = None \<and>
     (\<forall>i c did q. callers m i \<noteq> CWaiting did c q)"
proof -
  obtain m where "reach True m" "hMain (handlers m 0) = MFail"
    "failAll ErrSignerNotConnected 0 (hub m) = None"
    "callers m = (\<lambda>_. CIdle)(0 := CReturned ''d'' ''r'' (Inl ErrSignerTimeout))"
    using run_write_failed by blast
  then show ?thesis by (intro exI conjI) (assumption | auto)+
qed

text \<open>
  C3: no wake-up is lost.  Whenever the goroutine of a connection sleeps although the next
  request could be shown, a wake-up is stored in its channel, or a caller that has just
  enqueued, or a handler that has just taken an answer up, is about to store one.
\<close>

theorem signer_no_lost_wakeup:
  assumes "reach wfl m" and "hPump (handlers m c) = PSelect"
    and "pending (heap (hub m) c) \<noteq> []" and "inflight (heap (hub m) c) = []"
  shows "notify (heap (hub m) c) \<or> (\<exists>i did q. callers m i = CQueued did c q) \<or>
    (\<exists>x q r. hMain (handlers m x) = MTook c q r \<or> hMain (handlers m x) = MWake c)"
proof -
  have "wake_due m c"
    using reach_wake [OF assms(1)] assms(2-4) by (simp add: wake_inv_def starving_def)
  moreover have "caller_owes y = Some c \<Longrightarrow> \<exists>did q. y = CQueued did c q" for y
    by (cases y) auto
  moreover have "main_conn y = Some c \<Longrightarrow> (\<exists>q r. y = MTook c q r) \<or> y = MWake c" for y
    by (cases y) auto
  ultimately show ?thesis unfolding wake_due_def by meson
qed

theorem signer_no_lost_wakeup_witness:
  "\<exists>m. reach False m \<and> hPump (handlers m 0) = PSelect \<and> pending (heap (hub m) 0) = [run_req] \<and>
     (notify (heap (hub m) 0) \<or> (\<exists>i did q. callers m i = CQueued did 0 q) \<or>
      (\<exists>x q r. hMain (handlers m x) = MTook 0 q r \<or> hMain (handlers m x) = MWake 0))"
proof -
  obtain m where m: "reach False m" "at_run m (CQueued ''d'' 0 run_req)
      (run_handler PSelect [] [] MLoop) (run_hub (run_conn [run_req] [] False) [])"
    using run_sleeping run_enqueue by blast
  then have f: "hPump (handlers m 0) = PSelect" "pending (heap (hub m) 0) = [run_req]"
    "inflight (heap (hub m) 0) = []"
    by (simp_all add: at_run_def run_handler_def run_hub_def run_conn_def)
  then have "pending (heap (hub m) 0) \<noteq> []" by simp
  from signer_no_lost_wakeup [OF m(1) f(1) this f(3)] m(1) f show ?thesis by blast
qed

end
