(* ===== verification/Http.thy ===== *)
theory Http
  imports VowPrelude
begin

text \<open>
  HTTP requests and responses, and the package internal/helpers: the error responses every
  handler uses, the mapping of signer errors to responses, random strings, the URL of a
  request, and the parsing and normalisation of a DPoP htu claim.
\<close>

section \<open>Responses\<close>

datatype body =
    NoBody
  | BJson json
  | BText string
  | BHtml string "(string \<times> json) list"
  | BBytes bytes

record response =
  code :: nat
  hdrs :: "(string \<times> string) list"
  payload :: body

text \<open>
  What a handler does with its request: it writes one response, or a run-time error (an index
  out of range, a nil dereference) unwinds it.
\<close>

datatype outcome = Reply response | Panic

definition writeJSON :: "nat \<Rightarrow> json \<Rightarrow> outcome" where
  "writeJSON status v =
     Reply \<lparr>code = status, hdrs = [(''Content-Type'', ''application/json'')], payload = BJson v\<rparr>"

definition writeHeader :: "nat \<Rightarrow> outcome" where
  "writeHeader status = Reply \<lparr>code = status, hdrs = [], payload = NoBody\<rparr>"

definition httpError :: "string \<Rightarrow> nat \<Rightarrow> outcome" where
  "httpError msg status = Reply \<lparr>code = status, hdrs = [], payload = BText msg\<rparr>"

definition Redirect :: "string \<Rightarrow> nat \<Rightarrow> outcome" where
  "Redirect url status = Reply \<lparr>code = status, hdrs = [(''Location'', url)], payload = NoBody\<rparr>"

text \<open>Headers set on the writer before the body is written.\<close>

fun with_headers :: "(string \<times> string) list \<Rightarrow> outcome \<Rightarrow> outcome" where
  "with_headers hs (Reply r) = Reply (r\<lparr>hdrs := hs @ hdrs r\<rparr>)"
| "with_headers hs Panic = Panic"

fun status_of :: "outcome \<Rightarrow> nat" where
  "status_of (Reply r) = code r"
| "status_of Panic = 0"

definition genericError :: "nat \<Rightarrow> string \<Rightarrow> outcome" where
  "genericError c msg = writeJSON c (JObj [(''error'', JStr msg)])"

definition InputError :: "string option \<Rightarrow> outcome" where
  "InputError custom =
     genericError 400 (case custom of None \<Rightarrow> ''InvalidRequest'' | Some m \<Rightarrow> m)"

definition with_suffix :: "string \<Rightarrow> string option \<Rightarrow> string" where
  "with_suffix msg suffix = (case suffix of None \<Rightarrow> msg | Some s \<Rightarrow> msg @ ''. '' @ s)"

definition ServerError :: "string option \<Rightarrow> outcome" where
  "ServerError suffix = genericError 500 (with_suffix ''Internal server error'' suffix)"

definition UnauthorizedError :: "string option \<Rightarrow> outcome" where
  "UnauthorizedError suffix = genericError 401 (with_suffix ''Unauthorized'' suffix)"

definition ForbiddenError :: "string option \<Rightarrow> outcome" where
  "ForbiddenError suffix = genericError 403 (with_suffix ''Forbidden'' suffix)"

definition InvalidTokenError :: "outcome" where
  "InvalidTokenError = InputError (Some ''InvalidToken'')"

definition ExpiredTokenError :: "outcome" where
  "ExpiredTokenError =
     writeJSON 400 (JObj [(''error'', JStr ''ExpiredToken''), (''message'', JStr ''*'')])"

text \<open>
  The three signer sentinels become 400 responses, everything else a 500.  \<open>None\<close> is
  the result false: there was no error and nothing has been written.
\<close>

definition HandleSignerError :: "goerr option \<Rightarrow> outcome option" where
  "HandleSignerError err = (case err of
     None \<Rightarrow> None
   | Some e \<Rightarrow> Some (
       if errors_is e ErrSignerNotConnected then
         writeJSON 400 (JObj [(''error'', JStr ''AccountNotFound''),
           (''message'', JStr ''No signer is connected for this account. Open the account page and keep it in a browser tab.'')])
       else if errors_is e ErrSignerRejected then
         writeJSON 400 (JObj [(''error'', JStr ''UserTookDownRepo''),
           (''message'', JStr ''The passkey prompt was dismissed or the signing request was rejected.'')])
       else if errors_is e ErrSignerTimeout then
         writeJSON 400 (JObj [(''error'', JStr ''RepoDeactivated''),
           (''message'', JStr ''The passkey did not respond within the signing deadline.'')])
       else ServerError None))"

lemmas error_defs = InputError_def ServerError_def UnauthorizedError_def ForbiddenError_def
  InvalidTokenError_def ExpiredTokenError_def genericError_def writeJSON_def

lemma status_writeJSON [simp]: "status_of (writeJSON c v) = c"
  by (simp add: writeJSON_def)

lemma status_writeHeader [simp]: "status_of (writeHeader c) = c"
  by (simp add: writeHeader_def)

lemma status_httpError [simp]: "status_of (httpError m c) = c"
  by (simp add: httpError_def)

lemma status_Redirect [simp]: "status_of (Redirect u c) = c"
  by (simp add: Redirect_def)

lemma status_with_headers [simp]: "status_of (with_headers hs w) = status_of w"
  by (cases w) auto

lemma status_errors [simp]:
  "status_of (InputError c) = 400"
  "status_of (ServerError s) = 500"
  "status_of (UnauthorizedError s) = 401"
  "status_of (ForbiddenError s) = 403"
  "status_of InvalidTokenError = 400"
  "status_of ExpiredTokenError = 400"
  by (simp_all add: error_defs)

text \<open>Responses with different status codes are different outcomes.\<close>

lemma outcome_neq_by_status: "status_of a \<noteq> status_of b \<Longrightarrow> a \<noteq> b"
  by auto

section \<open>Random strings\<close>

definition letters :: string where
  "letters = ''ABCDEFGHIJKLMNOPQRSTUVWXYZ234567''"

text \<open>
  \<open>draw i\<close> is what \<open>crand.Int\<close> returns at the i-th call: a number below the length of the
  alphabet, or \<open>None\<close> when the random source fails, in which case the code panics.
\<close>

fun RandomVarchar :: "(nat \<Rightarrow> nat option) \<Rightarrow> nat \<Rightarrow> string option" where
  "RandomVarchar draw 0 = Some []"
| "RandomVarchar draw (Suc n) =
     (case draw 0 of
        None \<Rightarrow> None
      | Some k \<Rightarrow>
          (case RandomVarchar (\<lambda>i. draw (Suc i)) n of
             None \<Rightarrow> None
           | Some s \<Rightarrow> Some (letters ! k # s)))"

lemma RandomVarchar_length: "RandomVarchar draw n = Some s \<Longrightarrow> length s = n"
  by (induction n arbitrary: draw s) (auto split: option.splits)

lemma RandomVarchar_alphabet:
  "RandomVarchar draw n = Some s \<Longrightarrow> (\<And>i k. draw i = Some k \<Longrightarrow> k < length letters) \<Longrightarrow>
   set s \<subseteq> set letters"
proof (induction n arbitrary: draw s)
  case 0
  then show ?case by simp
next
  case (Suc n)
  then show ?case by (fastforce split: option.splits)
qed

text \<open>\<open>hex.EncodeToString\<close>, and \<open>RandomHex\<close> on the bytes the random source returned.\<close>

definition hex_digits :: string where
  "hex_digits = ''0123456789abcdef''"

definition hex_byte :: "byte \<Rightarrow> string" where
  "hex_byte b = [hex_digits ! (unat b div 16), hex_digits ! (unat b mod 16)]"

definition EncodeToHex :: "bytes \<Rightarrow> string" where
  "EncodeToHex bs = concat (map hex_byte bs)"

definition RandomHex :: "bytes option \<Rightarrow> goerr + string" where
  "RandomHex rnd = (case rnd of None \<Rightarrow> Inl (Err ''rand'') | Some bs \<Rightarrow> Inr (EncodeToHex bs))"

lemma length_EncodeToHex [simp]: "length (EncodeToHex bs) = 2 * length bs"
  by (induction bs) (auto simp: EncodeToHex_def hex_byte_def)

lemma set_EncodeToHex: "set (EncodeToHex bs) \<subseteq> set hex_digits"
proof -
  have "set (hex_byte b) \<subseteq> set hex_digits" for b
  proof -
    have "unat b div 16 < length hex_digits" and "unat b mod 16 < length hex_digits"
      using unat_byte_less [of b] by (auto simp: hex_digits_def)
    then show ?thesis by (auto simp: hex_byte_def intro: nth_mem)
  qed
  then show ?thesis by (auto simp: EncodeToHex_def)
qed

section \<open>Requests and their URL\<close>

text \<open>The fields of \<open>url.URL\<close> the program reads.\<close>

record url =
  uScheme :: string
  uUser :: "(string \<times> string option) option"
  uHost :: string
  uPath :: string
  uRawPath :: string

text \<open>
  An HTTP request.  \<open>qString\<close> is \<open>r.URL.String()\<close>, \<open>qPath\<close> is \<open>r.URL.Path\<close>;
  \<open>qQuery\<close> and \<open>qForm\<close> are read through \<open>Get\<close> and \<open>FormValue\<close>, which give the empty
  string for a missing key.
\<close>

record request =
  qMethod :: string
  qHost :: string
  qTLS :: bool
  qHeaders :: "(string \<times> string) list"
  qString :: string
  qPath :: string
  qQuery :: "(string \<times> string) list"
  qForm :: "(string \<times> string) list"
  qRemoteAddr :: string

definition get_value :: "(string \<times> string) list \<Rightarrow> string \<Rightarrow> string" where
  "get_value kvs k = (case map_of kvs k of Some v \<Rightarrow> v | None \<Rightarrow> '''')"

definition opt_value :: "(string \<times> string) list \<Rightarrow> string \<Rightarrow> string option" where
  "opt_value kvs k = (let v = get_value kvs k in if v \<noteq> '''' then Some v else None)"

definition header_values :: "request \<Rightarrow> string \<Rightarrow> string list" where
  "header_values r k = map snd (filter (\<lambda>(n, _). ToLower n = ToLower k) (qHeaders r))"

definition header_get :: "request \<Rightarrow> string \<Rightarrow> string" where
  "header_get r k = (case header_values r k of [] \<Rightarrow> '''' | v # _ \<Rightarrow> v)"

definition RequestHost :: "request \<Rightarrow> string" where
  "RequestHost r =
     (let fwdHost = header_get r ''X-Forwarded-Host''
      in if fwdHost \<noteq> '''' then fwdHost else qHost r)"

definition RequestScheme :: "request \<Rightarrow> string" where
  "RequestScheme r =
     (let proto = header_get r ''X-Forwarded-Proto''
      in if proto \<noteq> '''' then proto
         else if \<not> qTLS r then ''http'' else ''https'')"

definition RequestURL :: "request \<Rightarrow> string" where
  "RequestURL r = RequestScheme r @ ''://'' @ RequestHost r @ qString r"

lemma opt_value_Some: "opt_value kvs k = Some v \<Longrightarrow> v \<noteq> '''' \<and> get_value kvs k = v"
  by (auto simp: opt_value_def Let_def split: if_splits)

section \<open>The htu claim of a DPoP proof\<close>

definition OauthNormalizeHtu :: "url \<Rightarrow> string" where
  "OauthNormalizeHtu u = uScheme u @ ''://'' @ uHost u @ uRawPath u"

text \<open>\<open>url_parse\<close> is \<open>url.Parse\<close> of the standard library.\<close>

definition OauthParseHtu :: "(string \<Rightarrow> url option) \<Rightarrow> string \<Rightarrow> goerr + string" where
  "OauthParseHtu url_parse htu =
     (case url_parse htu of
        None \<Rightarrow> Inl (Err ''`htu` is not a valid URL'')
      | Some u \<Rightarrow>
          if (case uUser u of None \<Rightarrow> False
              | Some (username, password) \<Rightarrow> username \<noteq> '''' \<or> password \<noteq> None)
          then Inl (Err ''`htu` must not contain credentials'')
          else if uScheme u \<noteq> ''http'' \<and> uScheme u \<noteq> ''https''
          then Inl (Err ''`htu` must be http or https'')
          else Inr (OauthNormalizeHtu u))"

lemma OauthParseHtu_Inr:
  "OauthParseHtu url_parse htu = Inr h \<Longrightarrow>
   \<exists>u. url_parse htu = Some u \<and> h = OauthNormalizeHtu u \<and> uScheme u \<in> {''http'', ''https''}
     \<and> (\<forall>name pass. uUser u = Some (name, pass) \<longrightarrow> name = '''' \<and> pass = None)"
  by (auto simp: OauthParseHtu_def split: option.splits if_splits)

end
