(* ===== verification/Encoding.thy ===== *)
theory Encoding
  imports Http
begin

text \<open>
  The two encodings of Go's standard library the program's protocols rest on, with their round
  trips: unpadded URL-safe base64 (\<open>base64.RawURLEncoding\<close>) and query escaping
  (\<open>url.QueryEscape\<close> and \<open>url.QueryUnescape\<close>).
\<close>

section \<open>base64.RawURLEncoding\<close>

text \<open>The alphabet: A-Z, a-z, 0-9, minus and underscore.\<close>

definition b64_char :: "nat \<Rightarrow> char" where
  "b64_char k = char_of
     (if k < 26 then k + 65 else if k < 52 then k + 71 else if k < 62 then k - 4
      else if k = 62 then 45 else (95 :: nat))"

definition b64_val :: "char \<Rightarrow> nat option" where
  "b64_val c = (let n = (of_char c :: nat) in
     if 65 \<le> n \<and> n \<le> 90 then Some (n - 65)
     else if 97 \<le> n \<and> n \<le> 122 then Some (n - 71)
     else if 48 \<le> n \<and> n \<le> 57 then Some (n + 4)
     else if n = 45 then Some 62
     else if n = 95 then Some 63
     else None)"

fun b64_encode :: "bytes \<Rightarrow> string" where
  "b64_encode [] = []"
| "b64_encode [a] = [b64_char (unat a div 4), b64_char (unat a mod 4 * 16)]"
| "b64_encode [a, b] =
     [b64_char (unat a div 4), b64_char (unat a mod 4 * 16 + unat b div 16),
      b64_char (unat b mod 16 * 4)]"
| "b64_encode (a # b # c # rest) =
     b64_char (unat a div 4) # b64_char (unat a mod 4 * 16 + unat b div 16) #
     b64_char (unat b mod 16 * 4 + unat c div 64) # b64_char (unat c mod 64) # b64_encode rest"

text \<open>Sextets back to bytes; trailing bits are ignored, as the decoder is not strict.\<close>

fun b64_group :: "nat list \<Rightarrow> bytes option" where
  "b64_group [] = Some []"
| "b64_group [w] = None"
| "b64_group [w, x] = Some [of_nat (w * 4 + x div 16)]"
| "b64_group [w, x, y] = Some [of_nat (w * 4 + x div 16), of_nat (x mod 16 * 16 + y div 4)]"
| "b64_group (w # x # y # z # rest) =
     map_option (\<lambda>bs. of_nat (w * 4 + x div 16) # of_nat (x mod 16 * 16 + y div 4) #
        of_nat (y mod 4 * 64 + z) # bs) (b64_group rest)"

definition b64_decode :: "string \<Rightarrow> bytes option" where
  "b64_decode s =
     (let t = filter (\<lambda>c. (of_char c :: nat) \<noteq> 10 \<and> (of_char c :: nat) \<noteq> 13) s
      in if \<exists>c \<in> set t. b64_val c = None then None
         else b64_group (map (\<lambda>c. the (b64_val c)) t))"

lemma b64_val_char: "k < 64 \<Longrightarrow> b64_val (b64_char k) = Some k"
  by (auto simp: b64_val_def b64_char_def Let_def)

lemma b64_val_newline: "b64_val c = Some k \<Longrightarrow> (of_char c :: nat) \<noteq> 10 \<and> (of_char c :: nat) \<noteq> 13"
  by (auto simp: b64_val_def Let_def split: if_splits)

lemma b64_sextets:
  fixes a b c :: nat
  assumes "a < 256" "b < 256" "c < 256"
  shows "a div 4 < 64" "a mod 4 * 16 < 64" "a mod 4 * 16 + b div 16 < 64" "b mod 16 * 4 < 64"
    "b mod 16 * 4 + c div 64 < 64" "c mod 64 < 64"
    "a div 4 * 4 + (a mod 4 * 16) div 16 = a"
    "a div 4 * 4 + (a mod 4 * 16 + b div 16) div 16 = a"
    "(a mod 4 * 16 + b div 16) mod 16 * 16 + (b mod 16 * 4) div 4 = b"
    "(a mod 4 * 16 + b div 16) mod 16 * 16 + (b mod 16 * 4 + c div 64) div 4 = b"
    "(b mod 16 * 4 + c div 64) mod 4 * 64 + c mod 64 = c"
proof -
  define p q r s t u where "p = a div 4" and "q = a mod 4" and "r = b div 16" and "s = b mod 16"
    and "t = c div 64" and "u = c mod 64"
  then have e: "a = p * 4 + q" "b = r * 16 + s" "c = t * 64 + u" by simp_all
  have l: "p < 64" "q < 4" "r < 16" "s < 16" "t < 4" "u < 64"
    using assms by (auto simp: p_def q_def r_def s_def t_def u_def)
  show "a div 4 < 64" "a mod 4 * 16 < 64" "a mod 4 * 16 + b div 16 < 64" "b mod 16 * 4 < 64"
    "b mod 16 * 4 + c div 64 < 64" "c mod 64 < 64"
    "a div 4 * 4 + (a mod 4 * 16) div 16 = a"
    "a div 4 * 4 + (a mod 4 * 16 + b div 16) div 16 = a"
    "(a mod 4 * 16 + b div 16) mod 16 * 16 + (b mod 16 * 4) div 4 = b"
    "(a mod 4 * 16 + b div 16) mod 16 * 16 + (b mod 16 * 4 + c div 64) div 4 = b"
    "(b mod 16 * 4 + c div 64) mod 4 * 64 + c mod 64 = c"
    using l by (simp_all add: e)
qed

lemma b64_encode_valid: "c \<in> set (b64_encode bs) \<Longrightarrow> \<exists>k. b64_val c = Some k"
  by (induction bs rule: b64_encode.induct)
     (use unat_byte_less b64_sextets b64_val_char in \<open>auto, (blast+)?\<close>)

lemma b64_group_encode: "b64_group (map (\<lambda>c. the (b64_val c)) (b64_encode bs)) = Some bs"
proof (induction bs rule: b64_encode.induct)
  case 1
  show ?case by simp
next
  case (2 a)
  show ?case
    using b64_sextets [of "unat a" 0 0] unat_byte_less [of a] by (simp add: b64_val_char)
next
  case (3 a b)
  show ?case
    using b64_sextets [of "unat a" "unat b" 0] unat_byte_less [of a] unat_byte_less [of b]
    by (simp add: b64_val_char)
next
  case (4 a b c rest)
  then show ?case
    using b64_sextets [of "unat a" "unat b" "unat c"] unat_byte_less [of a] unat_byte_less [of b]
      unat_byte_less [of c]
    by (simp add: b64_val_char)
qed

theorem b64_round_trip [simp]: "b64_decode (b64_encode bs) = Some bs"
proof -
  have "filter (\<lambda>c. (of_char c :: nat) \<noteq> 10 \<and> (of_char c :: nat) \<noteq> 13) (b64_encode bs) = b64_encode bs"
    using b64_encode_valid b64_val_newline by (intro filter_True) blast
  moreover have "\<not> (\<exists>c \<in> set (b64_encode bs). b64_val c = None)"
    using b64_encode_valid by fastforce
  ultimately show ?thesis by (simp add: b64_decode_def b64_group_encode Let_def)
qed

lemma b64_encode_inj: "b64_encode a = b64_encode b \<longleftrightarrow> a = b"
  by (metis b64_round_trip option.inject)

lemma b64_encode_Nil_iff [simp]: "b64_encode bs = [] \<longleftrightarrow> bs = []"
  by (cases bs rule: b64_encode.cases) auto

section \<open>Strings as bytes\<close>

definition to_bytes :: "string \<Rightarrow> bytes" where
  "to_bytes s = map (\<lambda>c. of_char c) s"

definition of_bytes :: "bytes \<Rightarrow> string" where
  "of_bytes bs = map (\<lambda>b. char_of (unat b)) bs"

lemma of_bytes_to_bytes [simp]: "of_bytes (to_bytes s) = s"
proof -
  have "char_of (unat (of_char c :: byte)) = c" for c
  proof -
    have "unat (of_char c :: byte) = (of_char c :: nat)"
    proof -
      have "(of_char c :: byte) = of_nat (of_char c)" by (simp only: of_nat_of_char)
      moreover have "(of_char c :: nat) < 256" by simp
      ultimately show ?thesis by (simp add: unsigned_of_nat take_bit_eq_mod)
    qed
    then show ?thesis by simp
  qed
  then show ?thesis by (simp add: of_bytes_def to_bytes_def comp_def)
qed

section \<open>url.QueryEscape\<close>

definition unreserved :: "char \<Rightarrow> bool" where
  "unreserved c = (let n = (of_char c :: nat) in
     (48 \<le> n \<and> n \<le> 57) \<or> (65 \<le> n \<and> n \<le> 90) \<or> (97 \<le> n \<and> n \<le> 122) \<or> n \<in> {45, 46, 95, 126})"

definition upper_hex :: "nat \<Rightarrow> char" where
  "upper_hex k = char_of (if k < 10 then k + 48 else k + 55)"

definition unhex :: "char \<Rightarrow> nat option" where
  "unhex c = (let n = (of_char c :: nat) in
     if 48 \<le> n \<and> n \<le> 57 then Some (n - 48)
     else if 97 \<le> n \<and> n \<le> 102 then Some (n - 87)
     else if 65 \<le> n \<and> n \<le> 70 then Some (n - 55)
     else None)"

fun QueryEscape :: "string \<Rightarrow> string" where
  "QueryEscape [] = []"
| "QueryEscape (c # cs) =
     (if unreserved c then [c]
      else if c = CHR '' '' then ''+''
      else [CHR ''%'', upper_hex ((of_char c :: nat) div 16), upper_hex ((of_char c :: nat) mod 16)])
     @ QueryEscape cs"

fun QueryUnescape :: "string \<Rightarrow> string option" where
  "QueryUnescape [] = Some []"
| "QueryUnescape (c # cs) =
     (if c = CHR ''%'' then
        (case cs of
           x # y # rest \<Rightarrow>
             (case unhex x of None \<Rightarrow> None | Some h \<Rightarrow>
              (case unhex y of None \<Rightarrow> None | Some l \<Rightarrow>
                 map_option ((#) (char_of (h * 16 + l))) (QueryUnescape rest)))
         | _ \<Rightarrow> None)
      else map_option ((#) (if c = CHR ''+'' then CHR '' '' else c)) (QueryUnescape cs))"

lemma unhex_upper_hex: "k < 16 \<Longrightarrow> unhex (upper_hex k) = Some k"
  by (auto simp: unhex_def upper_hex_def Let_def)

theorem QueryUnescape_QueryEscape [simp]: "QueryUnescape (QueryEscape s) = Some s"
proof (induction s)
  case Nil
  show ?case by simp
next
  case (Cons c cs)
  have lt: "(of_char c :: nat) div 16 < 16" "(of_char c :: nat) mod 16 < 16"
  proof -
    have "(of_char c :: nat) < 256" by simp
    then show "(of_char c :: nat) div 16 < 16" by presburger
  qed simp
  have "unreserved c \<Longrightarrow> c \<noteq> CHR ''%'' \<and> c \<noteq> CHR ''+''" by (auto simp: unreserved_def Let_def)
  with Cons lt show ?case by (auto simp: unhex_upper_hex)
qed

end
