(* ===== verification/Dpop.thy ===== *)
theory Dpop
  imports Encoding
begin

text \<open>
  oauth/dpop: the rotating server nonce (nonce.go), the cache of used proof ids (jti_cache.go)
  and the check of a DPoP proof (manager.go).  The clock, HMAC, SHA-256, the JWT and JWK
  libraries, url.Parse and the cache's own Add are parameters.
\<close>

section \<open>The server nonce\<close>

abbreviation DpopNonceMaxAge :: duration where "DpopNonceMaxAge \<equiv> 3 * Minute"
abbreviation DpopCheckTolerance :: duration where "DpopCheckTolerance \<equiv> 5 * Second"
abbreviation NonceMaxRotationInterval :: duration where
  "NonceMaxRotationInterval \<equiv> DpopNonceMaxAge div 3"

record Nonce =
  rotationInterval :: duration
  secret :: bytes
  counter :: int
  n_prev :: string
  n_curr :: string
  n_next :: string

text \<open>\<open>binary.BigEndian.PutUint64\<close> of \<open>uint64(counter)\<close>.\<close>

definition be64 :: "int \<Rightarrow> bytes" where
  "be64 c = map (\<lambda>i. of_int (c div 2 ^ (8 * i))) [7, 6, 5, 4, 3, 2, 1, 0]"

definition compute_with :: "(bytes \<Rightarrow> bytes \<Rightarrow> bytes) \<Rightarrow> bytes \<Rightarrow> int \<Rightarrow> string" where
  "compute_with hmac key c = b64_encode (hmac key (be64 c))"

definition compute :: "(bytes \<Rightarrow> bytes \<Rightarrow> bytes) \<Rightarrow> Nonce \<Rightarrow> int \<Rightarrow> string" where
  "compute hmac n c = compute_with hmac (secret n) c"

definition currentCounter :: "time \<Rightarrow> Nonce \<Rightarrow> int" where
  "currentCounter now n = now div rotationInterval n"

text \<open>\<open>rnd\<close> are the bytes drawn when no secret is configured.\<close>

definition NewNonce ::
  "(bytes \<Rightarrow> bytes \<Rightarrow> bytes) \<Rightarrow> time \<Rightarrow> bytes \<Rightarrow> duration \<Rightarrow> bytes option \<Rightarrow> Nonce" where
  "NewNonce hmac now rnd interval sec =
     (let i1 = (if interval = 0 then NonceMaxRotationInterval div 3 else interval);
          i2 = (if i1 > NonceMaxRotationInterval then NonceMaxRotationInterval else i1);
          key = (case sec of None \<Rightarrow> rnd | Some k \<Rightarrow> k);
          c = now div i2
      in \<lparr>rotationInterval = i2, secret = key, counter = c,
          n_prev = compute_with hmac key (c - 1), n_curr = compute_with hmac key c,
          n_next = compute_with hmac key (c + 1)\<rparr>)"

definition rotate_nonce :: "(bytes \<Rightarrow> bytes \<Rightarrow> bytes) \<Rightarrow> time \<Rightarrow> Nonce \<Rightarrow> Nonce" where
  "rotate_nonce hmac now n =
     (let c = currentCounter now n; diff = c - counter n in
      (if diff = 0 then n
       else if diff = 1 then
         n\<lparr>n_prev := n_curr n, n_curr := n_next n, n_next := compute hmac n (c + 1)\<rparr>
       else if diff = 2 then
         n\<lparr>n_prev := n_next n, n_curr := compute hmac n c, n_next := compute hmac n (c + 1)\<rparr>
       else
         n\<lparr>n_prev := compute hmac n (c - 1), n_curr := compute hmac n c, n_next := compute hmac n (c + 1)\<rparr>)
      \<lparr>counter := c\<rparr>)"

definition NextNonce :: "(bytes \<Rightarrow> bytes \<Rightarrow> bytes) \<Rightarrow> time \<Rightarrow> Nonce \<Rightarrow> string \<times> Nonce" where
  "NextNonce hmac now n = (let m = rotate_nonce hmac now n in (n_next m, m))"

definition Check :: "(bytes \<Rightarrow> bytes \<Rightarrow> bytes) \<Rightarrow> time \<Rightarrow> string \<Rightarrow> Nonce \<Rightarrow> bool \<times> Nonce" where
  "Check hmac now nonce n =
     (let m = rotate_nonce hmac now n in (nonce = n_prev m \<or> nonce = n_curr m \<or> nonce = n_next m, m))"

text \<open>The three stored nonces are those of the stored counter.\<close>

definition nonce_ok :: "(bytes \<Rightarrow> bytes \<Rightarrow> bytes) \<Rightarrow> Nonce \<Rightarrow> bool" where
  "nonce_ok hmac n \<longleftrightarrow> n_prev n = compute hmac n (counter n - 1) \<and>
     n_curr n = compute hmac n (counter n) \<and> n_next n = compute hmac n (counter n + 1)"

lemma NewNonce_ok: "nonce_ok hmac (NewNonce hmac now rnd i sec)"
  by (simp add: nonce_ok_def NewNonce_def compute_def Let_def)

lemma NewNonce_interval_le: "rotationInterval (NewNonce hmac now rnd i sec) \<le> Minute"
  by (simp add: NewNonce_def Let_def)

lemma compute_update [simp]:
  "compute h (n\<lparr>n_prev := a\<rparr>) c = compute h n c" "compute h (n\<lparr>n_curr := a\<rparr>) c = compute h n c"
  "compute h (n\<lparr>n_next := a\<rparr>) c = compute h n c" "compute h (n\<lparr>counter := d\<rparr>) c = compute h n c"
  by (simp_all add: compute_def)

lemma rotate_frame [simp]:
  "rotationInterval (rotate_nonce hmac now n) = rotationInterval n"
  "secret (rotate_nonce hmac now n) = secret n"
  "counter (rotate_nonce hmac now n) = now div rotationInterval n"
  "compute h (rotate_nonce hmac now n) = compute h n"
  by (auto simp: rotate_nonce_def Let_def currentCounter_def fun_eq_iff)

text \<open>The shortcuts of rotate agree with recomputing everything, for any jump of the clock.\<close>

lemma rotate_recomputes:
  assumes "nonce_ok hmac n"
  shows "rotate_nonce hmac now n =
    n\<lparr>counter := now div rotationInterval n,
      n_prev := compute hmac n (now div rotationInterval n - 1),
      n_curr := compute hmac n (now div rotationInterval n),
      n_next := compute hmac n (now div rotationInterval n + 1)\<rparr>"
proof -
  let ?c = "now div rotationInterval n"
  consider "?c - counter n = 0" | "?c - counter n = 1" | "?c - counter n = 2"
    | "?c - counter n \<notin> {0, 1, 2}" by blast
  then show ?thesis
  proof cases
    case 1
    then have "?c = counter n" by simp
    with assms show ?thesis by (simp add: rotate_nonce_def currentCounter_def nonce_ok_def Let_def)
  next
    case 2
    then have c: "?c = counter n + 1" by simp
    with assms show ?thesis by (simp add: rotate_nonce_def currentCounter_def nonce_ok_def Let_def)
  next
    case 3
    then have c: "?c = counter n + 2" by simp
    with assms show ?thesis
      by (simp add: rotate_nonce_def currentCounter_def nonce_ok_def Let_def add.commute)
  next
    case 4
    with assms show ?thesis by (simp add: rotate_nonce_def currentCounter_def nonce_ok_def Let_def)
  qed
qed

lemma rotate_ok: "nonce_ok hmac n \<Longrightarrow> nonce_ok hmac (rotate_nonce hmac now n)"
  by (simp add: rotate_recomputes nonce_ok_def)

lemma Check_iff:
  "nonce_ok hmac n \<Longrightarrow>
   fst (Check hmac now s n) \<longleftrightarrow>
     s \<in> {compute hmac n (now div rotationInterval n - 1), compute hmac n (now div rotationInterval n),
          compute hmac n (now div rotationInterval n + 1)}"
  by (auto simp: Check_def Let_def rotate_recomputes)

lemma NextNonce_value:
  "nonce_ok hmac n \<Longrightarrow> fst (NextNonce hmac now n) = compute hmac n (now div rotationInterval n + 1)"
  by (simp add: NextNonce_def Let_def rotate_recomputes)

section \<open>Epochs\<close>

text \<open>
  A service that hands out tokens valid for a window of epochs: what the handlers rely on.
  Time is cut into epochs; an issued token belongs to the epoch after the current one, and a
  token is accepted in the epochs around its own.
\<close>

locale epoch_tokens =
  fixes issue :: "time \<Rightarrow> 's \<Rightarrow> 't \<times> 's"
    and check :: "time \<Rightarrow> 't \<Rightarrow> 's \<Rightarrow> bool \<times> 's"
    and ok :: "'s \<Rightarrow> bool"
    and width :: "'s \<Rightarrow> duration"
    and token :: "'s \<Rightarrow> int \<Rightarrow> 't"
  assumes issue_value: "ok s \<Longrightarrow> fst (issue now s) = token s (now div width s + 1)"
    and issue_ok: "ok s \<Longrightarrow> ok (snd (issue now s))"
    and issue_width: "width (snd (issue now s)) = width s"
    and issue_token: "token (snd (issue now s)) = token s"
    and check_iff: "ok s \<Longrightarrow> fst (check now x s) \<longleftrightarrow>
        (\<exists>d \<in> {-1, 0, 1}. x = token s (now div width s + d))"
    and check_ok: "ok s \<Longrightarrow> ok (snd (check now x s))"
    and check_width: "width (snd (check now x s)) = width s"
    and check_token: "token (snd (check now x s)) = token s"
begin

text \<open>Any interleaving of issuing and checking, at any times.\<close>

inductive runs :: "'s \<Rightarrow> 's \<Rightarrow> bool" where
  refl: "runs s s"
| issue_step: "runs s s' \<Longrightarrow> runs s (snd (issue now s'))"
| check_step: "runs s s' \<Longrightarrow> runs s (snd (check now x s'))"

lemma runs_keep: "runs s s' \<Longrightarrow> ok s \<Longrightarrow> ok s' \<and> width s' = width s \<and> token s' = token s"
  by (induction rule: runs.induct)
     (auto simp: issue_ok issue_width issue_token check_ok check_width check_token)

lemma accepted_in_window:
  assumes "ok s" and "width s > 0" and "runs (snd (issue t s)) s'"
    and "t \<le> t'" and "t' \<le> t + 2 * width s"
  shows "fst (check t' (fst (issue t s)) s')"
proof -
  have s': "ok s'" "width s' = width s" "token s' = token s"
    using runs_keep [OF assms(3) issue_ok [OF assms(1)]] by (auto simp: issue_width issue_token)
  have lo: "t div width s \<le> t' div width s" using assms(2,4) by (rule zdiv_mono1 [rotated])
  have "t' div width s \<le> (t + 2 * width s) div width s"
    using assms(5,2) by (rule zdiv_mono1)
  also have "(t + 2 * width s) div width s = t div width s + 2" using assms(2) by simp
  finally have "t div width s + 1 - t' div width s \<in> {-1, 0, 1}" using lo by auto
  moreover have "token s (t div width s + 1) =
      token s (t' div width s + (t div width s + 1 - t' div width s))" by simp
  ultimately show ?thesis
    unfolding check_iff [OF s'(1)] s'(2,3) issue_value [OF assms(1)] by blast
qed

lemma refused_later:
  assumes "ok s" and "width s > 0" and "runs (snd (issue t s)) s'"
    and "inj (token s)" and "t' \<ge> t + 3 * width s"
  shows "\<not> fst (check t' (fst (issue t s)) s')"
proof -
  have s': "ok s'" "width s' = width s" "token s' = token s"
    using runs_keep [OF assms(3) issue_ok [OF assms(1)]] by (auto simp: issue_width issue_token)
  have "(t + 3 * width s) div width s \<le> t' div width s" using assms(5,2) by (rule zdiv_mono1)
  then have "t div width s + 3 \<le> t' div width s" using assms(2) by simp
  then have "t div width s + 1 \<noteq> t' div width s + d" if "d \<in> {-1, 0, 1}" for d using that by auto
  then have "token s (t div width s + 1) \<noteq> token s (t' div width s + d)" if "d \<in> {-1, 0, 1}" for d
    using that assms(4) by (auto dest: injD)
  then show ?thesis
    by (simp add: check_iff [OF s'(1)] s'(2,3) issue_value [OF assms(1)])
qed

end

interpretation nonce: epoch_tokens "NextNonce hmac" "Check hmac" "nonce_ok hmac" rotationInterval
  "compute hmac" for hmac
proof unfold_locales
  show "nonce_ok hmac s \<Longrightarrow> fst (Check hmac now x s) \<longleftrightarrow>
      (\<exists>d \<in> {-1, 0, 1}. x = compute hmac s (now div rotationInterval s + d))" for s now x
    by (auto simp: Check_iff)
qed (simp_all add: NextNonce_def Check_def Let_def rotate_ok, simp add: rotate_recomputes)

section \<open>Checking a proof\<close>

datatype keyType = KeyEC | KeyRSA | KeyOKP | KeyOther

text \<open>
  The libraries the check calls.  \<open>jwtParse methods keyfunc s\<close> is \<open>jwt.Parse\<close> with the
  option WithValidMethods: it gives the claims and the flag Valid, or an error.  \<open>cacheAdd\<close>
  is the cache's Add, whose result tells whether an entry was evicted.
\<close>

record ('k, 'c) dpopLib =
  parseUnverified :: "string \<Rightarrow> (obj \<times> obj) option"
  parseKey :: "obj \<Rightarrow> 'k option"
  rawKeyOk :: "'k \<Rightarrow> bool"
  typeOfKey :: "'k \<Rightarrow> keyType"
  jwtParse :: "string list \<Rightarrow> (obj \<Rightarrow> goerr + 'k) \<Rightarrow> string \<Rightarrow> (obj \<times> bool) option"
  thumbprint :: "'k \<Rightarrow> bytes option"
  sha256 :: "bytes \<Rightarrow> bytes"
  hmacSha256 :: "bytes \<Rightarrow> bytes \<Rightarrow> bytes"
  urlParse :: "string \<Rightarrow> url option"
  cacheAdd :: "string \<Rightarrow> 'c \<Rightarrow> bool \<times> 'c"

record 'c dpopManager =
  dmNonce :: Nonce
  jtiCache :: 'c

record Proof =
  JTI :: string
  JKT :: string
  HTM :: string
  HTU :: string

text \<open>\<open>jtiCache.add\<close> returns what the cache's Add returns.\<close>

definition jti_add :: "('k, 'c) dpopLib \<Rightarrow> string \<Rightarrow> 'c \<Rightarrow> bool \<times> 'c" where
  "jti_add L jti c = cacheAdd L jti c"

definition extractProof :: "string list \<Rightarrow> string" where
  "extractProof vs = (case vs of [] \<Rightarrow> '''' | [v] \<Rightarrow> v | _ \<Rightarrow> '''')"

definition dpop_methods :: "string list" where
  "dpop_methods = [''ES256'', ''ES384'', ''ES512'', ''RS256'', ''RS384'', ''RS512'',
     ''PS256'', ''PS384'', ''PS512'', ''EdDSA'']"

definition alg_fits :: "keyType \<Rightarrow> string \<Rightarrow> bool" where
  "alg_fits t alg = (case t of
     KeyEC \<Rightarrow> HasPrefix alg ''ES''
   | KeyRSA \<Rightarrow> HasPrefix alg ''RS'' \<or> HasPrefix alg ''PS''
   | KeyOKP \<Rightarrow> alg = ''EdDSA''
   | KeyOther \<Rightarrow> True)"

definition proof_keyfunc :: "('k, 'c) dpopLib \<Rightarrow> 'k \<Rightarrow> obj \<Rightarrow> goerr + 'k" where
  "proof_keyfunc L key h =
     (if alg_fits (typeOfKey L key) (jstr0 h ''alg'') then Inr key
      else Inl (Err ''algorithm does not match key type''))"

text \<open>The first half of \<open>CheckProof\<close>: the key in the header and the verified claims.\<close>

definition proof_claims :: "('k, 'c) dpopLib \<Rightarrow> string \<Rightarrow> goerr + ('k \<times> obj)" where
  "proof_claims L pr =
     (case parseUnverified L pr of
        None \<Rightarrow> Inl (Err ''could not parse dpop proof jwt'')
      | Some (h, _) \<Rightarrow>
          if jstr0 h ''typ'' \<noteq> ''dpop+jwt''
          then Inl (Err ''invalid dpop proof jwt: typ must be dpop+jwt'')
          else (case jget h ''jwk'' of
            Some (JObj jwk) \<Rightarrow>
              (case parseKey L jwk of
                 None \<Rightarrow> Inl (Err ''failed to parse jwk'')
               | Some key \<Rightarrow>
                   if \<not> rawKeyOk L key then Inl (Err ''failed to get raw public key'')
                   else (case jwtParse L dpop_methods (proof_keyfunc L key) pr of
                      None \<Rightarrow> Inl (Err ''could not verify dpop proof jwt'')
                    | Some (claims, valid) \<Rightarrow>
                        if \<not> valid then Inl (Err ''dpop proof jwt is invalid'')
                        else Inr (key, claims)))
          | _ \<Rightarrow> Inl (Err ''invalid dpop proof jwt: jwk is missing in header'')))"

text \<open>The end of it: the hash of the access token, and the key's thumbprint.\<close>

definition check_ath :: "('k, 'c) dpopLib \<Rightarrow> obj \<Rightarrow> string option \<Rightarrow> goerr option" where
  "check_ath L claims accessToken =
     (let ath = jstr0 claims ''ath'' in
      case accessToken of
        Some tok \<Rightarrow>
          if tok \<noteq> '''' then
            (if ath = '''' then Some (Err ''ath is required with access token'')
             else if ath \<noteq> b64_encode (sha256 L (to_bytes tok)) then Some (Err ''ath mismatch'')
             else None)
          else if ath \<noteq> '''' then Some (Err ''ath claim not allowed'') else None
      | None \<Rightarrow> if ath \<noteq> '''' then Some (Err ''ath claim not allowed'') else None)"

definition CheckProof ::
  "('k, 'c) dpopLib \<Rightarrow> time \<Rightarrow> string \<Rightarrow> string \<Rightarrow> string list \<Rightarrow> string option \<Rightarrow>
   'c dpopManager \<Rightarrow> Proof option result \<times> 'c dpopManager" where
  "CheckProof L now reqMethod reqUrl dpopHeaders accessToken dm =
     (if reqMethod = '''' then (Fail (Err ''HTTP method is required''), dm)
      else let pr = extractProof dpopHeaders in
      if pr = '''' then (Ret None, dm)
      else (case proof_claims L pr of
        Inl e \<Rightarrow> (Fail e, dm)
      | Inr (key, claims) \<Rightarrow>
          (case jnum claims ''iat'' of
             None \<Rightarrow> (Fail (Err ''iat is missing''), dm)
           | Some iat \<Rightarrow>
               if now - fromUnix iat > DpopNonceMaxAge + DpopCheckTolerance
               then (Fail (Err ''dpop proof too old''), dm)
               else if fromUnix iat - now > DpopCheckTolerance
               then (Fail (Err ''dpop proof iat is in the future''), dm)
               else let jti = jstr0 claims ''jti'' in
               if jti = '''' then (Fail (Err ''jti is missing''), dm)
               else let (hit, c) = jti_add L jti (jtiCache dm); dm1 = dm\<lparr>jtiCache := c\<rparr> in
               if hit then (Fail (Err ''dpop proof replay detected''), dm1)
               else let htm = jstr0 claims ''htm'' in
               if htm = '''' then (Fail (Err ''htm is missing''), dm1)
               else if htm \<noteq> reqMethod then (Fail (Err ''htm mismatch''), dm1)
               else let htu = jstr0 claims ''htu'' in
               if htu = '''' then (Fail (Err ''htu is missing''), dm1)
               else (case OauthParseHtu (urlParse L) htu of
                 Inl e \<Rightarrow> (Fail (Err ''htu could not be parsed''), dm1)
               | Inr parsedHtu \<Rightarrow>
                   (case urlParse L reqUrl of
                      None \<Rightarrow> (Crash, dm1)
                    | Some u \<Rightarrow>
                        if parsedHtu \<noteq> OauthNormalizeHtu u then (Fail (Err ''htu mismatch''), dm1)
                        else let nonce = jstr0 claims ''nonce'' in
                        if nonce = '''' then (Fail ErrUseDpopNonce, dm1)
                        else let (good, n) = Check (hmacSha256 L) now nonce (dmNonce dm1);
                                 dm2 = dm1\<lparr>dmNonce := n\<rparr> in
                        if \<not> good then (Fail ErrUseDpopNonce, dm2)
                        else (case check_ath L claims accessToken of
                          Some e \<Rightarrow> (Fail e, dm2)
                        | None \<Rightarrow>
                            (case thumbprint L key of
                               None \<Rightarrow> (Fail (Err ''failed to calculate thumbprint''), dm2)
                             | Some t \<Rightarrow>
                                 (Ret (Some \<lparr>JTI = jti, JKT = b64_encode t, HTM = htm, HTU = htu\<rparr>),
                                  dm2))))))))"

section \<open>What the check establishes\<close>

lemma proof_claims_Inr:
  "proof_claims L pr = Inr (key, claims) \<Longrightarrow>
   \<exists>h c jwk. parseUnverified L pr = Some (h, c) \<and> jstr0 h ''typ'' = ''dpop+jwt'' \<and>
     jget h ''jwk'' = Some (JObj jwk) \<and> parseKey L jwk = Some key \<and>
     jwtParse L dpop_methods (proof_keyfunc L key) pr = Some (claims, True)"
  unfolding proof_claims_def by (fastforce split: option.splits if_splits json.splits)

lemma check_ath_None:
  "check_ath L claims tok = None \<Longrightarrow>
   (case tok of Some t \<Rightarrow> (if t = '''' then jstr0 claims ''ath'' = ''''
                         else jstr0 claims ''ath'' = b64_encode (sha256 L (to_bytes t)))
    | None \<Rightarrow> jstr0 claims ''ath'' = '''')"
  by (auto simp: check_ath_def Let_def split: option.splits if_splits)

text \<open>The conditions under which the check returns a proof, and the state it leaves.\<close>

definition proof_conditions ::
  "('k, 'c) dpopLib \<Rightarrow> time \<Rightarrow> string \<Rightarrow> string \<Rightarrow> string list \<Rightarrow> string option \<Rightarrow> 'k \<Rightarrow> obj \<Rightarrow> bool" where
  "proof_conditions L now m u hs tok key claims \<longleftrightarrow>
     proof_claims L (extractProof hs) = Inr (key, claims) \<and>
     (\<exists>iat. jnum claims ''iat'' = Some iat \<and>
        now - fromUnix iat \<le> DpopNonceMaxAge + DpopCheckTolerance \<and>
        fromUnix iat - now \<le> DpopCheckTolerance) \<and>
     jstr0 claims ''jti'' \<noteq> '''' \<and> jstr0 claims ''htm'' = m \<and> m \<noteq> '''' \<and>
     (\<exists>h v. OauthParseHtu (urlParse L) (jstr0 claims ''htu'') = Inr h \<and> urlParse L u = Some v \<and>
        h = OauthNormalizeHtu v) \<and>
     jstr0 claims ''htu'' \<noteq> '''' \<and> jstr0 claims ''nonce'' \<noteq> '''' \<and>
     check_ath L claims tok = None \<and> extractProof hs \<noteq> ''''"

lemma CheckProof_Ret:
  "CheckProof L now m u hs tok dm = (Ret (Some p), dm') \<longleftrightarrow>
   (\<exists>key claims t. proof_conditions L now m u hs tok key claims \<and>
      \<not> fst (jti_add L (jstr0 claims ''jti'') (jtiCache dm)) \<and>
      fst (Check (hmacSha256 L) now (jstr0 claims ''nonce'') (dmNonce dm)) \<and>
      thumbprint L key = Some t \<and>
      p = \<lparr>JTI = jstr0 claims ''jti'', JKT = b64_encode t, HTM = m, HTU = jstr0 claims ''htu''\<rparr> \<and>
      dm' = \<lparr>dmNonce = snd (Check (hmacSha256 L) now (jstr0 claims ''nonce'') (dmNonce dm)),
             jtiCache = snd (jti_add L (jstr0 claims ''jti'') (jtiCache dm))\<rparr>)"
  (is "?l \<longleftrightarrow> ?r")
proof
  assume ?l
  then show ?r
    unfolding CheckProof_def Let_def proof_conditions_def
    by (cases dm) (auto split: if_splits sum.splits option.splits prod.splits)
next
  assume ?r
  then show ?l
    unfolding CheckProof_def Let_def proof_conditions_def
    by (cases dm) (auto split: prod.splits)
qed

text \<open>A proof presented a second time, at the same instant, meets the same answers.\<close>

lemma Check_again:
  "nonce_ok h n \<Longrightarrow> fst (Check h now s (snd (Check h now s n))) = fst (Check h now s n)"
proof -
  assume "nonce_ok h n"
  moreover from this have "nonce_ok h (rotate_nonce h now n)" by (rule rotate_ok)
  moreover have "snd (Check h now s n) = rotate_nonce h now n" by (simp add: Check_def Let_def)
  ultimately show ?thesis by (simp add: Check_iff)
qed

lemma Check_ok: "nonce_ok h n \<Longrightarrow> nonce_ok h (snd (Check h now s n))"
  by (simp add: Check_def Let_def rotate_ok)

section \<open>Properties\<close>

text \<open>A library for concrete instances: tokens are fixed, the cache is a list of ids.\<close>

definition demo_claims :: obj where
  "demo_claims = [(''iat'', JNum 100), (''jti'', JStr ''j''), (''htm'', JStr ''POST''),
     (''htu'', JStr ''https://pds/oauth/token''), (''nonce'', JStr ''AA'')]"

definition demo_url :: "string \<Rightarrow> url option" where
  "demo_url s = Some \<lparr>uScheme = ''https'', uUser = None, uHost = ''pds'', uPath = ''/oauth/token'',
     uRawPath = ''''\<rparr>"

definition demo_lib :: "(unit, string list) dpopLib" where
  "demo_lib = \<lparr>parseUnverified = (\<lambda>_. Some ([(''typ'', JStr ''dpop+jwt''), (''alg'', JStr ''ES256''), (''jwk'', JObj [])],
       demo_claims)),
     parseKey = (\<lambda>_. Some ()), rawKeyOk = (\<lambda>_. True), typeOfKey = (\<lambda>_. KeyEC),
     jwtParse = (\<lambda>_ _ _. Some (demo_claims, True)), thumbprint = (\<lambda>_. Some [1]),
     sha256 = (\<lambda>_. []), hmacSha256 = (\<lambda>_ _. [0]), urlParse = demo_url,
     cacheAdd = (\<lambda>j c. (False, j # c))\<rparr>"

definition demo_manager :: "string list dpopManager" where
  "demo_manager = \<lparr>dmNonce = NewNonce (\<lambda>_ _. [0]) (100 * Second) [] Minute (Some []), jtiCache = []\<rparr>"

lemmas demo_defs = demo_lib_def demo_manager_def demo_claims_def demo_url_def

text \<open>
  C8: rotating the server nonce incrementally, after any gap of time and in any interleaving of
  issuing and checking, leaves exactly the three nonces computed from the clock: \<open>Check\<close>
  accepts the nonces of the previous, the current and the next interval and nothing else.
\<close>

theorem nonce_check_exact:
  assumes "epoch_tokens.runs (NextNonce hmac) (Check hmac) (NewNonce hmac t0 rnd i sec) n"
  shows "fst (Check hmac now s n) \<longleftrightarrow>
    (\<exists>d \<in> {-1, 0, 1}. s = compute hmac (NewNonce hmac t0 rnd i sec)
       (now div rotationInterval (NewNonce hmac t0 rnd i sec) + d))"
proof -
  have "nonce_ok hmac n" "rotationInterval n = rotationInterval (NewNonce hmac t0 rnd i sec)"
    "compute hmac n = compute hmac (NewNonce hmac t0 rnd i sec)"
    using nonce.runs_keep [OF assms NewNonce_ok] by auto
  then show ?thesis using nonce.check_iff [of hmac n now s] by simp
qed

theorem nonce_check_exact_witness:
  "fst (Check (\<lambda>k b. b) (200 * Second) ''AAAAAAAAAAI''
     (snd (NextNonce (\<lambda>k b. b) (100 * Second) (NewNonce (\<lambda>k b. b) 0 [] Minute (Some [])))))"
proof -
  let ?h = "\<lambda>k b. (b :: bytes)" and ?n = "NewNonce (\<lambda>k b. b) 0 [] Minute (Some [])"
  have "epoch_tokens.runs (NextNonce ?h) (Check ?h) ?n (snd (NextNonce ?h (100 * Second) ?n))"
    by (intro nonce.issue_step nonce.refl)
  moreover have "\<exists>d \<in> {-1, 0, 1 :: int}. ''AAAAAAAAAAI'' = compute ?h ?n (200 * Second div rotationInterval ?n + d)"
  proof (rule bexI [of _ "-1"])
    show "''AAAAAAAAAAI'' = compute ?h ?n (200 * Second div rotationInterval ?n + -1)" by code_simp
  qed simp
  ultimately show ?thesis using nonce_check_exact by blast
qed

text \<open>
  A nonce handed out by \<open>NextNonce\<close> is accepted for two full rotation intervals, whatever
  else the manager does in the meantime, and, when HMAC separates the counters, it is refused
  once the advertised maximum age of three minutes has passed.
\<close>

theorem nonce_lifetime:
  fixes hmac t0 rnd i sec
  defines "n \<equiv> NewNonce hmac t0 rnd i sec"
  assumes "0 < i" and "epoch_tokens.runs (NextNonce hmac) (Check hmac) n m"
    and "epoch_tokens.runs (NextNonce hmac) (Check hmac) (snd (NextNonce hmac t m)) m'"
  shows "(t \<le> t' \<and> t' \<le> t + 2 * rotationInterval n \<longrightarrow> fst (Check hmac t' (fst (NextNonce hmac t m)) m'))
    \<and> (inj (compute hmac n) \<and> t' \<ge> t + DpopNonceMaxAge \<longrightarrow>
         \<not> fst (Check hmac t' (fst (NextNonce hmac t m)) m'))"
proof -
  have m: "nonce_ok hmac m" "rotationInterval m = rotationInterval n" "compute hmac m = compute hmac n"
    using nonce.runs_keep [OF assms(3)] NewNonce_ok by (auto simp: n_def)
  have pos: "0 < rotationInterval m"
    using assms(2) m(2) by (simp add: n_def NewNonce_def Let_def)
  have "3 * rotationInterval m \<le> DpopNonceMaxAge"
    using NewNonce_interval_le [of hmac t0 rnd i sec] m(2) by (simp add: n_def)
  then show ?thesis
    using nonce.accepted_in_window [OF m(1) pos assms(4), of t']
      nonce.refused_later [OF m(1) pos assms(4), of t'] m(2,3) by auto
qed

theorem nonce_lifetime_witness:
  "fst (Check (\<lambda>k b. b) (150 * Second) (fst (NextNonce (\<lambda>k b. b) (100 * Second)
        (NewNonce (\<lambda>k b. b) 0 [] Minute (Some []))))
     (snd (NextNonce (\<lambda>k b. b) (100 * Second) (NewNonce (\<lambda>k b. b) 0 [] Minute (Some [])))))"
proof -
  let ?h = "\<lambda>k b. (b :: bytes)" and ?n = "NewNonce (\<lambda>k b. b) 0 [] Minute (Some [])"
  have i: "rotationInterval ?n = Minute" by (simp add: NewNonce_def)
  have "epoch_tokens.runs (NextNonce ?h) (Check ?h) ?n ?n" by (rule nonce.refl)
  moreover have "epoch_tokens.runs (NextNonce ?h) (Check ?h) (snd (NextNonce ?h (100 * Second) ?n))
      (snd (NextNonce ?h (100 * Second) ?n))" by (rule nonce.refl)
  ultimately have "100 * Second \<le> 150 * Second \<and> 150 * Second \<le> 100 * Second + 2 * rotationInterval ?n \<longrightarrow>
      fst (Check ?h (150 * Second) (fst (NextNonce ?h (100 * Second) ?n)) (snd (NextNonce ?h (100 * Second) ?n)))"
    using nonce_lifetime [of Minute ?h 0 "[]" "Some []" ?n "100 * Second"] by simp
  with i show ?thesis by simp
qed

text \<open>
  C7: when \<open>CheckProof\<close> returns a proof, the request carried exactly one DPoP header, the
  token in it was verified with the key in its own header by an algorithm that fits the key
  type, its iat lies in the accepted window, htm is the request's method, its nonce is one of
  the three current server nonces, and ath is the hash of the access token if there is one and
  absent otherwise; JKT is the thumbprint of that key.
\<close>

theorem check_proof_sound:
  assumes "CheckProof L now m u hs tok dm = (Ret (Some p), dm')" and "nonce_ok (hmacSha256 L) (dmNonce dm)"
  shows "\<exists>pr h c jwk key claims iat t d. hs = [pr] \<and> parseUnverified L pr = Some (h, c) \<and>
    jstr0 h ''typ'' = ''dpop+jwt'' \<and> jget h ''jwk'' = Some (JObj jwk) \<and> parseKey L jwk = Some key \<and>
    jwtParse L dpop_methods (proof_keyfunc L key) pr = Some (claims, True) \<and>
    jnum claims ''iat'' = Some iat \<and> now - 185 * Second \<le> fromUnix iat \<and> fromUnix iat \<le> now + 5 * Second \<and>
    jstr0 claims ''htm'' = m \<and>
    d \<in> {-1, 0, 1} \<and> jstr0 claims ''nonce'' =
      compute (hmacSha256 L) (dmNonce dm) (now div rotationInterval (dmNonce dm) + d) \<and>
    (case tok of Some a \<Rightarrow> a \<noteq> '''' \<longrightarrow> jstr0 claims ''ath'' = b64_encode (sha256 L (to_bytes a))
     | None \<Rightarrow> jstr0 claims ''ath'' = '''') \<and>
    thumbprint L key = Some t \<and> JKT p = b64_encode t"
proof -
  obtain key claims t where c: "proof_conditions L now m u hs tok key claims"
    "fst (Check (hmacSha256 L) now (jstr0 claims ''nonce'') (dmNonce dm))"
    "thumbprint L key = Some t" "JKT p = b64_encode t"
    using assms(1) by (auto simp: CheckProof_Ret)
  then obtain pr where pr: "hs = [pr]"
    by (auto simp: proof_conditions_def extractProof_def split: list.splits)
  with c(1) have "proof_claims L pr = Inr (key, claims)"
    by (simp add: proof_conditions_def extractProof_def)
  from proof_claims_Inr [OF this] obtain h c' jwk where
    h: "parseUnverified L pr = Some (h, c')" "jstr0 h ''typ'' = ''dpop+jwt''"
       "jget h ''jwk'' = Some (JObj jwk)" "parseKey L jwk = Some key"
       "jwtParse L dpop_methods (proof_keyfunc L key) pr = Some (claims, True)" by blast
  obtain iat where i: "jnum claims ''iat'' = Some iat" "now - 185 * Second \<le> fromUnix iat"
    "fromUnix iat \<le> now + 5 * Second" "jstr0 claims ''htm'' = m" "check_ath L claims tok = None"
    using c(1) by (auto simp: proof_conditions_def)
  obtain d where d: "d \<in> {-1, 0, 1}" "jstr0 claims ''nonce'' =
      compute (hmacSha256 L) (dmNonce dm) (now div rotationInterval (dmNonce dm) + d)"
    using nonce.check_iff [OF assms(2), of now "jstr0 claims ''nonce''"] c(2) by blast
  have a: "case tok of Some a \<Rightarrow> a \<noteq> '''' \<longrightarrow> jstr0 claims ''ath'' = b64_encode (sha256 L (to_bytes a))
     | None \<Rightarrow> jstr0 claims ''ath'' = ''''"
    using check_ath_None [OF i(5)] by (cases tok) auto
  show ?thesis
    using pr h i(1-4) d a c(3,4) by (intro exI conjI)
qed

theorem check_proof_sound_witness:
  "\<exists>p dm'. CheckProof demo_lib (110 * Second) ''POST'' ''https://pds/oauth/token'' [''proof''] None demo_manager
     = (Ret (Some p), dm') \<and> (\<exists>key t. thumbprint demo_lib key = Some t \<and> JKT p = b64_encode t)"
proof -
  have "CheckProof demo_lib (110 * Second) ''POST'' ''https://pds/oauth/token'' [''proof''] None demo_manager
     = (Ret (Some \<lparr>JTI = ''j'', JKT = b64_encode [1], HTM = ''POST'', HTU = ''https://pds/oauth/token''\<rparr>),
        snd (CheckProof demo_lib (110 * Second) ''POST'' ''https://pds/oauth/token'' [''proof''] None demo_manager))"
    by code_simp
  moreover have "nonce_ok (hmacSha256 demo_lib) (dmNonce demo_manager)"
    by (simp add: demo_lib_def demo_manager_def NewNonce_ok)
  ultimately show ?thesis using check_proof_sound by blast
qed

text \<open>
  Replaying a proof is not detected.  The result of the cache's Add, which the check takes
  for "already present", is "an entry was evicted", and adding a present key evicts nothing:
  a proof that has been accepted is accepted again, unchanged, with its id in the cache.
\<close>

theorem dpop_replay_accepted:
  assumes "\<And>j c. keys c j \<Longrightarrow> \<not> fst (cacheAdd L j c)" and "\<And>j c. keys (snd (cacheAdd L j c)) j"
    and "nonce_ok (hmacSha256 L) (dmNonce dm)"
    and "CheckProof L now m u hs tok dm = (Ret (Some p), dm')"
  shows "keys (jtiCache dm') (JTI p) \<and> (\<exists>dm''. CheckProof L now m u hs tok dm' = (Ret (Some p), dm''))"
proof -
  obtain key claims t where c: "proof_conditions L now m u hs tok key claims"
    "fst (Check (hmacSha256 L) now (jstr0 claims ''nonce'') (dmNonce dm))" "thumbprint L key = Some t"
    "p = \<lparr>JTI = jstr0 claims ''jti'', JKT = b64_encode t, HTM = m, HTU = jstr0 claims ''htu''\<rparr>"
    "dm' = \<lparr>dmNonce = snd (Check (hmacSha256 L) now (jstr0 claims ''nonce'') (dmNonce dm)),
             jtiCache = snd (jti_add L (jstr0 claims ''jti'') (jtiCache dm))\<rparr>"
    using assms(4) unfolding CheckProof_Ret by blast
  have k: "keys (jtiCache dm') (jstr0 claims ''jti'')"
    using assms(2) by (simp add: c(5) jti_add_def)
  then have "\<not> fst (jti_add L (jstr0 claims ''jti'') (jtiCache dm'))"
    using assms(1) by (simp add: jti_add_def)
  moreover have "fst (Check (hmacSha256 L) now (jstr0 claims ''nonce'') (dmNonce dm'))"
    using Check_again [OF assms(3), of now "jstr0 claims ''nonce''"] c(2) by (simp add: c(5))
  ultimately show ?thesis
    using k c(1,3,4) by (auto simp: CheckProof_Ret)
qed

theorem dpop_replay_accepted_witness:
  "\<exists>p dm' dm''. CheckProof demo_lib (110 * Second) ''POST'' ''https://pds/oauth/token'' [''proof''] None demo_manager
     = (Ret (Some p), dm') \<and> JTI p \<in> set (jtiCache dm') \<and>
     CheckProof demo_lib (110 * Second) ''POST'' ''https://pds/oauth/token'' [''proof''] None dm' = (Ret (Some p), dm'')"
proof -
  have 1: "CheckProof demo_lib (110 * Second) ''POST'' ''https://pds/oauth/token'' [''proof''] None demo_manager
     = (Ret (Some \<lparr>JTI = ''j'', JKT = b64_encode [1], HTM = ''POST'', HTU = ''https://pds/oauth/token''\<rparr>),
        snd (CheckProof demo_lib (110 * Second) ''POST'' ''https://pds/oauth/token'' [''proof''] None demo_manager))"
    by code_simp
  have "\<not> fst (cacheAdd demo_lib j c)" "j \<in> set (snd (cacheAdd demo_lib j c))" for j c
    by (simp_all add: demo_lib_def)
  moreover have "nonce_ok (hmacSha256 demo_lib) (dmNonce demo_manager)"
    by (simp add: demo_lib_def demo_manager_def NewNonce_ok)
  ultimately show ?thesis
    using dpop_replay_accepted [where keys = "\<lambda>c j. j \<in> set c", OF _ _ _ 1] 1 by blast
qed

end
