(* ===== verification/Models.thy ===== *)
theory Models
  imports Encoding "HOL-Library.Monad_Syntax"
begin

text \<open>
  The rows of models/models.go and oauth/provider/models.go, the database as one record of
  tables, the lookups of server/common.go, and the text of JSON values as json.Marshal
  writes it.  A field of a row has its table's initial as a prefix.
\<close>

section \<open>Rows\<close>

record Repo =
  rDid :: string
  rCreatedAt :: time
  rEmail :: string
  rEmailConfirmedAt :: "time option"
  rEmailVerificationCode :: "string option"
  rEmailVerificationCodeExpiresAt :: "time option"
  rEmailUpdateCode :: "string option"
  rEmailUpdateCodeExpiresAt :: "time option"
  rPasswordResetCode :: "string option"
  rPasswordResetCodeExpiresAt :: "time option"
  rPlcOperationCode :: "string option"
  rPlcOperationCodeExpiresAt :: "time option"
  rPassword :: string
  rAuthPublicKey :: bytes
  rSigningPublicKey :: bytes
  rCredentialID :: bytes
  rCompatMode :: bool
  rRev :: string
  rRoot :: bytes
  rPreferences :: bytes
  rDeactivated :: bool

definition Status :: "Repo \<Rightarrow> string option" where
  "Status r = (if rDeactivated r then Some ''deactivated'' else None)"

definition Active :: "Repo \<Rightarrow> bool" where
  "Active r = (Status r = None)"

record Actor =
  aDid :: string
  aHandle :: string

record RepoActor =
  raRepo :: Repo
  raActor :: Actor

record InviteCode =
  icCode :: string
  icDid :: string
  icRemainingUseCount :: int
  icCreatedAt :: time
  icDisabled :: bool

record InviteCodeUse =
  iuCode :: string
  iuUsedBy :: string
  iuUsedAt :: time

record Token =
  tToken :: string
  tDid :: string
  tRefreshToken :: string
  tCreatedAt :: time
  tExpiresAt :: time

record RefreshToken =
  rtToken :: string
  rtDid :: string
  rtCreatedAt :: time
  rtExpiresAt :: time

record Record =
  recDid :: string
  recCreatedAt :: string
  recNsid :: string
  recRkey :: string
  recCid :: string
  recValue :: bytes

record Blob =
  bID :: nat
  bCreatedAt :: string
  bDid :: string
  bCid :: bytes
  bRefCount :: int
  bMimeType :: string

record EventRecord =
  evSeq :: int
  evCreatedAt :: time
  evDid :: string
  evType :: string
  evData :: bytes

record ClientAuth =
  caMethod :: string
  caAlg :: string
  caKid :: string
  caJkt :: string
  caJti :: string
  caExp :: "int option"

record ParRequest =
  pClientID :: string
  pClientAssertionType :: "string option"
  pClientAssertion :: "string option"
  pResponseType :: string
  pCodeChallenge :: "string option"
  pCodeChallengeMethod :: string
  pState :: string
  pRedirectURI :: string
  pScope :: string
  pLoginHint :: "string option"
  pDpopJkt :: "string option"
  pResponseMode :: "string option"

record OauthToken =
  otID :: nat
  otCreatedAt :: time
  otUpdatedAt :: time
  otClientId :: string
  otClientAuth :: ClientAuth
  otParameters :: ParRequest
  otExpiresAt :: time
  otDeviceId :: string
  otSub :: string
  otCode :: string
  otToken :: string
  otRefreshToken :: string
  otIp :: string

record OauthAuthorizationRequest =
  arRequestId :: string
  arClientId :: string
  arClientAuth :: ClientAuth
  arParameters :: ParRequest
  arExpiresAt :: time
  arDeviceId :: "string option"
  arSub :: "string option"
  arCode :: "string option"
  arAccepted :: "bool option"
  arIp :: string

text \<open>The zero values a scan leaves when no row matches.\<close>

definition zeroRepo :: Repo where
  "zeroRepo = \<lparr>rDid = '''', rCreatedAt = 0, rEmail = '''', rEmailConfirmedAt = None,
     rEmailVerificationCode = None, rEmailVerificationCodeExpiresAt = None,
     rEmailUpdateCode = None, rEmailUpdateCodeExpiresAt = None,
     rPasswordResetCode = None, rPasswordResetCodeExpiresAt = None,
     rPlcOperationCode = None, rPlcOperationCodeExpiresAt = None, rPassword = '''',
     rAuthPublicKey = [], rSigningPublicKey = [], rCredentialID = [], rCompatMode = False,
     rRev = '''', rRoot = [], rPreferences = [], rDeactivated = False\<rparr>"

definition zeroRepoActor :: RepoActor where
  "zeroRepoActor = \<lparr>raRepo = zeroRepo, raActor = \<lparr>aDid = '''', aHandle = ''''\<rparr>\<rparr>"

lemma zeroRepo_simps [simp]: "rDid zeroRepo = ''''" "rPassword zeroRepo = ''''"
  by (simp_all add: zeroRepo_def)

section \<open>The database\<close>

record db =
  repos :: "Repo table"
  actors :: "Actor table"
  inviteCodes :: "InviteCode table"
  inviteCodeUses :: "InviteCodeUse table"
  tokens :: "Token table"
  refreshTokens :: "RefreshToken table"
  records :: "Record table"
  blobs :: "Blob table"
  eventRecords :: "EventRecord table"
  oauthTokens :: "OauthToken table"
  authRequests :: "OauthAuthorizationRequest table"

definition emptyDb :: db where
  "emptyDb = \<lparr>repos = [], actors = [], inviteCodes = [], inviteCodeUses = [], tokens = [],
     refreshTokens = [], records = [], blobs = [], eventRecords = [], oauthTokens = [],
     authRequests = []\<rparr>"

text \<open>Primary and unique keys.\<close>

definition db_ok :: "db \<Rightarrow> bool" where
  "db_ok d \<longleftrightarrow> keyed rDid (repos d) \<and> keyed rEmail (repos d) \<and> keyed aDid (actors d) \<and>
     keyed aHandle (actors d) \<and> keyed icCode (inviteCodes d) \<and> keyed tToken (tokens d) \<and>
     keyed rtToken (refreshTokens d) \<and> keyed evSeq (eventRecords d) \<and>
     keyed otToken (oauthTokens d) \<and> keyed otRefreshToken (oauthTokens d) \<and>
     keyed arRequestId (authRequests d)"

text \<open>
  A statement that the database refuses has no effect and returns an error.  Which statements
  fail is a parameter: a predicate on the name this development gives to each statement.
\<close>

type_synonym faults = "string \<Rightarrow> bool"

section \<open>Lookups\<close>

text \<open>The row of repos joined with the handle of the actor of the same did.\<close>

definition joined :: "db \<Rightarrow> Repo \<Rightarrow> RepoActor" where
  "joined d r = \<lparr>raRepo = r, raActor = (case sql_first (\<lambda>a. aDid a = rDid r) (actors d) of
      None \<Rightarrow> \<lparr>aDid = '''', aHandle = ''''\<rparr> | Some a \<Rightarrow> a)\<rparr>"

definition getRepoActor :: "faults \<Rightarrow> db \<Rightarrow> (RepoActor \<Rightarrow> bool) \<Rightarrow> goerr + RepoActor" where
  "getRepoActor fails d P =
     (if fails ''getRepoActor'' then Inl (ErrDb ''getRepoActor'')
      else (case sql_first (\<lambda>r. P (joined d r)) (repos d) of
              None \<Rightarrow> Inl ErrRecordNotFound
            | Some r \<Rightarrow>
                if rDid r = '''' then Inl ErrRecordNotFound else Inr (joined d r)))"

definition getRepoActorByEmail :: "faults \<Rightarrow> db \<Rightarrow> string \<Rightarrow> goerr + RepoActor" where
  "getRepoActorByEmail fails d email = getRepoActor fails d (\<lambda>x. rEmail (raRepo x) = email)"

definition getRepoActorByDid :: "faults \<Rightarrow> db \<Rightarrow> string \<Rightarrow> goerr + RepoActor" where
  "getRepoActorByDid fails d did = getRepoActor fails d (\<lambda>x. rDid (raRepo x) = did)"

definition getRepoActorByIdentifier :: "faults \<Rightarrow> db \<Rightarrow> string \<Rightarrow> goerr + RepoActor" where
  "getRepoActorByIdentifier fails d identifier =
     (if HasPrefix identifier ''did:'' then getRepoActorByDid fails d identifier
      else if CHR ''@'' \<in> set identifier then
        getRepoActor fails d (\<lambda>x. rEmail (raRepo x) = identifier)
      else getRepoActor fails d (\<lambda>x. aHandle (raActor x) = identifier))"

text \<open>
  \<open>First\<close> with a struct condition compares the non-zero fields only: an empty handle or e-mail
  address matches the first row of the table.
\<close>

definition getActorByHandle :: "faults \<Rightarrow> db \<Rightarrow> string \<Rightarrow> goerr + Actor" where
  "getActorByHandle fails d handle =
     (if fails ''getActorByHandle'' then Inl (ErrDb ''getActorByHandle'')
      else (case sql_first (\<lambda>a. handle = '''' \<or> aHandle a = handle) (actors d) of
              None \<Rightarrow> Inl ErrRecordNotFound
            | Some a \<Rightarrow> if aDid a = '''' then Inl ErrRecordNotFound else Inr a))"

definition getRepoByEmail :: "faults \<Rightarrow> db \<Rightarrow> string \<Rightarrow> goerr + Repo" where
  "getRepoByEmail fails d email =
     (if fails ''getRepoByEmail'' then Inl (ErrDb ''getRepoByEmail'')
      else (case sql_first (\<lambda>r. email = '''' \<or> rEmail r = email) (repos d) of
              None \<Rightarrow> Inl ErrRecordNotFound
            | Some r \<Rightarrow> if rDid r = '''' then Inl ErrRecordNotFound else Inr r))"

lemma joined_raRepo [simp]: "raRepo (joined d r) = r"
  by (simp add: joined_def)

lemma getRepoActor_Inr:
  "getRepoActor fails d P = Inr x \<Longrightarrow>
   \<not> fails ''getRepoActor'' \<and> raRepo x \<in> set (repos d) \<and> x = joined d (raRepo x) \<and> P x \<and>
   rDid (raRepo x) \<noteq> ''''"
  by (auto simp: getRepoActor_def split: if_splits option.splits dest!: sql_first_Some)

lemma getRepoActorByDid_Inr:
  "getRepoActorByDid fails d did = Inr x \<Longrightarrow>
   raRepo x \<in> set (repos d) \<and> rDid (raRepo x) = did \<and> did \<noteq> ''''"
  by (auto simp: getRepoActorByDid_def dest!: getRepoActor_Inr)

text \<open>Looking a stored account up by its did finds that account.\<close>

lemma getRepoActorByDid_found:
  assumes "keyed rDid (repos d)" and "r \<in> set (repos d)" and "rDid r \<noteq> ''''" and "\<not> fails ''getRepoActor''"
  shows "getRepoActorByDid fails d (rDid r) = Inr (joined d r)"
  using sql_first_keyed [OF assms(1,2)] assms(3,4)
  by (simp add: getRepoActorByDid_def getRepoActor_def)

section \<open>The text of JSON values\<close>

fun nat_digits :: "nat \<Rightarrow> string" where
  "nat_digits n = (if n < 10 then [char_of (48 + n)] else nat_digits (n div 10) @ [char_of (48 + n mod 10)])"

declare nat_digits.simps [simp del]

definition show_int :: "int \<Rightarrow> string" where
  "show_int n = (if n < 0 then CHR ''-'' # nat_digits (nat (- n)) else nat_digits (nat n))"

definition json_escape_char :: "char \<Rightarrow> string" where
  "json_escape_char c = (let n = (of_char c :: nat) in
     if n = 34 then [char_of (92 :: nat), char_of (34 :: nat)]
     else if n = 92 then [char_of (92 :: nat), char_of (92 :: nat)]
     else if n = 8 then [char_of (92 :: nat), CHR ''b'']
     else if n = 12 then [char_of (92 :: nat), CHR ''f'']
     else if n = 10 then [char_of (92 :: nat), CHR ''n'']
     else if n = 13 then [char_of (92 :: nat), CHR ''r'']
     else if n = 9 then [char_of (92 :: nat), CHR ''t'']
     else if n < 32 \<or> n \<in> {38, 60, 62} then char_of (92 :: nat) # ''u00'' @ hex_byte (of_nat n)
     else [c])"

definition json_string :: "string \<Rightarrow> string" where
  "json_string s = [char_of (34 :: nat)] @ concat (map json_escape_char s) @ [char_of (34 :: nat)]"

fun json_text :: "json \<Rightarrow> string" where
  "json_text JNull = ''null''"
| "json_text (JBool b) = (if b then ''true'' else ''false'')"
| "json_text (JNum n) = show_int n"
| "json_text (JStr s) = json_string s"
| "json_text (JArr vs) = ''['' @ JoinWith '','' (map json_text vs) @ '']''"
| "json_text (JObj kvs) = ''{'' @ JoinWith '','' (map (\<lambda>(k, v). json_string k @ '':'' @ json_text v) kvs) @ ''}''"

end
