(* ===== verification/Session.thy ===== *)
theory Session
  imports Models
begin

text \<open>
  Legacy sessions: server/session.go (tokens signed by the server and stored in pairs) and the
  handlers createSession, refreshSession, deleteSession and getSession.
\<close>

section \<open>What the handlers take from the server\<close>

text \<open>
  Configuration, the clock, the failing statements, and the cryptographic libraries: signing
  with the server's key, bcrypt, random identifiers (one per use within a request).
\<close>

record server =
  sHostname :: string
  sDid :: string
  sAdminPassword :: string
  sRequireInvite :: bool
  sNow :: time
  sFails :: faults
  sSignATP :: "bytes \<Rightarrow> bytes option"
  sUuid :: "nat \<Rightarrow> string"
  sBcryptOk :: "string \<Rightarrow> string \<Rightarrow> bool"
  sBcrypt :: "string \<Rightarrow> string option"

record Session =
  AccessToken :: string
  RefreshTokenStr :: string

text \<open>Sending a statement that may fail.\<close>

definition db_exec :: "server \<Rightarrow> string \<Rightarrow> (db \<Rightarrow> db) \<Rightarrow> db \<Rightarrow> goerr + db" where
  "db_exec sv label f d = (if sFails sv label then Inl (ErrDb label) else Inr (f d))"

text \<open>An insert is also refused when it repeats a primary key.\<close>

definition db_create ::
  "server \<Rightarrow> string \<Rightarrow> ('r \<Rightarrow> 'k) \<Rightarrow> (db \<Rightarrow> 'r table) \<Rightarrow> ('r table \<Rightarrow> db \<Rightarrow> db) \<Rightarrow> 'r \<Rightarrow> db \<Rightarrow> goerr + db"
where
  "db_create sv label key get put r d =
     (if sFails sv label then Inl (ErrDb label)
      else (case sql_insert key r (get d) of
              None \<Rightarrow> Inl (ErrDb label)
            | Some t \<Rightarrow> Inr (put t d)))"

section \<open>Tokens\<close>

definition jwt_header :: "string \<Rightarrow> json" where
  "jwt_header alg = JObj [(''alg'', JStr alg), (''typ'', JStr ''JWT'')]"

definition signInternalJWT :: "server \<Rightarrow> json \<Rightarrow> goerr + string" where
  "signInternalJWT sv claims =
     (let encheader = b64_encode (to_bytes (json_text (jwt_header ''ES256'')));
          encpayload = b64_encode (to_bytes (json_text claims));
          signingString = encheader @ ''.'' @ encpayload
      in case sSignATP sv (to_bytes signingString) of
           None \<Rightarrow> Inl (Err ''signing failed'')
         | Some sg \<Rightarrow> Inr (signingString @ ''.'' @ b64_encode sg))"

text \<open>The encoder writes the keys of a map in sorted order.\<close>

definition session_claims :: "server \<Rightarrow> string \<Rightarrow> string \<Rightarrow> time \<Rightarrow> string \<Rightarrow> json" where
  "session_claims sv did scope ex jti =
     JObj [(''aud'', JStr (sDid sv)), (''exp'', JNum (Unix ex)), (''iat'', JNum (Unix (sNow sv))),
           (''jti'', JStr jti), (''scope'', JStr scope), (''sub'', JStr did)]"

definition createSession :: "server \<Rightarrow> Repo \<Rightarrow> db \<Rightarrow> (goerr + Session) \<times> db" where
  "createSession sv repo d =
     (let now = sNow sv; accexp = now + 3 * Hour; refexp = now + 7 * 24 * Hour;
          jti = sUuid sv 0
      in case signInternalJWT sv (session_claims sv (rDid repo) ''com.atproto.access'' accexp jti) of
           Inl e \<Rightarrow> (Inl e, d)
         | Inr accessString \<Rightarrow>
             (case signInternalJWT sv (session_claims sv (rDid repo) ''com.atproto.refresh'' refexp jti) of
                Inl e \<Rightarrow> (Inl e, d)
              | Inr refreshString \<Rightarrow>
                  (case db_create sv ''createSession.token'' tToken tokens (\<lambda>t d. d\<lparr>tokens := t\<rparr>)
                          \<lparr>tToken = accessString, tDid = rDid repo, tRefreshToken = refreshString,
                           tCreatedAt = now, tExpiresAt = accexp\<rparr> d of
                     Inl e \<Rightarrow> (Inl e, d)
                   | Inr d1 \<Rightarrow>
                       (case db_create sv ''createSession.refresh'' rtToken refreshTokens
                               (\<lambda>t d. d\<lparr>refreshTokens := t\<rparr>)
                               \<lparr>rtToken = refreshString, rtDid = rDid repo, rtCreatedAt = now,
                                rtExpiresAt = refexp\<rparr> d1 of
                          Inl e \<Rightarrow> (Inl e, d1)
                        | Inr d2 \<Rightarrow>
                            (Inr \<lparr>AccessToken = accessString, RefreshTokenStr = refreshString\<rparr>, d2)))))"

section \<open>Handlers\<close>

definition opt_json :: "string \<Rightarrow> string option \<Rightarrow> (string \<times> json) list" where
  "opt_json k v = (case v of None \<Rightarrow> [] | Some s \<Rightarrow> [(k, JStr s)])"

definition account_fields :: "RepoActor \<Rightarrow> (string \<times> json) list" where
  "account_fields x =
     [(''handle'', JStr (aHandle (raActor x))), (''did'', JStr (rDid (raRepo x))),
      (''email'', JStr (rEmail (raRepo x))),
      (''emailConfirmed'', JBool (rEmailConfirmedAt (raRepo x) \<noteq> None)),
      (''active'', JBool (Active (raRepo x)))] @ opt_json ''status'' (Status (raRepo x))"

definition session_json :: "Session \<Rightarrow> (string \<times> json) list" where
  "session_json s = [(''accessJwt'', JStr (AccessToken s)), (''refreshJwt'', JStr (RefreshTokenStr s))]"

text \<open>
  \<open>req\<close> is the decoded body, \<open>None\<close> when it does not decode; \<open>is_did\<close> and \<open>is_handle\<close> are the
  syntax checks of the atproto library.  The lookup of a handle joins from actors.
\<close>

definition find_login :: "(string \<Rightarrow> bool) \<Rightarrow> (string \<Rightarrow> bool) \<Rightarrow> string \<Rightarrow> db \<Rightarrow> RepoActor" where
  "find_login is_did is_handle ident d =
     (if is_did ident then
        (case sql_first (\<lambda>r. rDid r = ident) (repos d) of None \<Rightarrow> zeroRepoActor | Some r \<Rightarrow> joined d r)
      else if is_handle ident then
        (case sql_first (\<lambda>a. aHandle a = ident) (actors d) of
           None \<Rightarrow> zeroRepoActor
         | Some a \<Rightarrow> \<lparr>raRepo = (case sql_first (\<lambda>r. rDid r = aDid a) (repos d) of
                                 None \<Rightarrow> zeroRepo | Some r \<Rightarrow> r), raActor = a\<rparr>)
      else
        (case sql_first (\<lambda>r. rEmail r = ident) (repos d) of None \<Rightarrow> zeroRepoActor | Some r \<Rightarrow> joined d r))"

definition handleCreateSession ::
  "server \<Rightarrow> (string \<Rightarrow> bool) \<Rightarrow> (string \<Rightarrow> bool) \<Rightarrow> (string \<times> string) option \<Rightarrow> db \<Rightarrow> outcome \<times> db" where
  "handleCreateSession sv is_did is_handle req d =
     (case req of
        None \<Rightarrow> (ServerError None, d)
      | Some (identifier, password) \<Rightarrow>
          if identifier = '''' \<or> password = '''' then (InputError None, d)
          else if sFails sv ''createSession.lookup'' then (ServerError None, d)
          else let repo = find_login is_did is_handle (ToLower identifier) d in
          if \<not> sBcryptOk sv (rPassword (raRepo repo)) password
          then (InputError (Some ''InvalidRequest''), d)
          else (case createSession sv (raRepo repo) d of
                  (Inl e, d') \<Rightarrow> (ServerError None, d')
                | (Inr sess, d') \<Rightarrow>
                    (writeJSON 200 (JObj (session_json sess @ account_fields repo)), d')))"

text \<open>The token and the account come from the middleware.\<close>

definition handleRefreshSession :: "server \<Rightarrow> string \<Rightarrow> RepoActor \<Rightarrow> db \<Rightarrow> outcome \<times> db" where
  "handleRefreshSession sv token repo d =
     (case db_exec sv ''refresh.delete_refresh''
             (\<lambda>d. d\<lparr>refreshTokens := sql_delete (\<lambda>t. rtToken t = token) (refreshTokens d)\<rparr>) d of
        Inl e \<Rightarrow> (ServerError None, d)
      | Inr d1 \<Rightarrow>
          (case db_exec sv ''refresh.delete_token''
                  (\<lambda>d. d\<lparr>tokens := sql_delete (\<lambda>t. tRefreshToken t = token) (tokens d)\<rparr>) d1 of
             Inl e \<Rightarrow> (ServerError None, d1)
           | Inr d2 \<Rightarrow>
               (case createSession sv (raRepo repo) d2 of
                  (Inl e, d3) \<Rightarrow> (ServerError None, d3)
                | (Inr sess, d3) \<Rightarrow>
                    (writeJSON 200 (JObj (session_json sess @
                       [(''handle'', JStr (aHandle (raActor repo))), (''did'', JStr (rDid (raRepo repo))),
                        (''active'', JBool (Active (raRepo repo)))] @
                       opt_json ''status'' (Status (raRepo repo)))), d3))))"

definition handleDeleteSession :: "server \<Rightarrow> string \<Rightarrow> db \<Rightarrow> outcome \<times> db" where
  "handleDeleteSession sv token d =
     (if sFails sv ''deleteSession.token'' then (ServerError None, d)
      else let acc = sql_first (\<lambda>t. tToken t = token) (tokens d);
               refresh = (case acc of None \<Rightarrow> '''' | Some t \<Rightarrow> tRefreshToken t);
               d1 = d\<lparr>tokens := sql_delete (\<lambda>t. tToken t = token) (tokens d)\<rparr>
      in case db_exec sv ''deleteSession.refresh''
                (\<lambda>d. d\<lparr>refreshTokens := sql_delete (\<lambda>t. rtToken t = refresh) (refreshTokens d)\<rparr>) d1 of
           Inl e \<Rightarrow> (ServerError None, d1)
         | Inr d2 \<Rightarrow> (writeHeader 200, d2))"

definition handleGetSession :: "RepoActor option \<Rightarrow> outcome" where
  "handleGetSession repo =
     (case repo of
        None \<Rightarrow> UnauthorizedError None
      | Some x \<Rightarrow> writeJSON 200 (JObj (account_fields x)))"

section \<open>Facts\<close>

lemma db_create_Inr:
  "db_create sv l key get put r d = Inr d' \<Longrightarrow>
   \<exists>t. sql_insert key r (get d) = Some t \<and> d' = put t d \<and> \<not> sFails sv l"
  by (auto simp: db_create_def split: if_splits option.splits)

lemma createSession_Inr:
  assumes "createSession sv repo d = (Inr s, d')"
  shows "d' = d\<lparr>tokens := tokens d @ [\<lparr>tToken = AccessToken s, tDid = rDid repo,
            tRefreshToken = RefreshTokenStr s, tCreatedAt = sNow sv, tExpiresAt = sNow sv + 3 * Hour\<rparr>],
          refreshTokens := refreshTokens d @ [\<lparr>rtToken = RefreshTokenStr s, rtDid = rDid repo,
            rtCreatedAt = sNow sv, rtExpiresAt = sNow sv + 7 * 24 * Hour\<rparr>]\<rparr>"
    and "AccessToken s \<notin> tToken ` set (tokens d)" and "RefreshTokenStr s \<notin> rtToken ` set (refreshTokens d)"
  using assms
  by (auto simp: createSession_def Let_def sql_insert_def dest!: db_create_Inr
      split: sum.splits if_splits)

end
