(* ===== verification/Middleware.thy ===== *)
theory Middleware
  imports Session Dpop
begin

text \<open>
  server/middleware.go: the four authentication middlewares and their composition, the CORS
  middleware of server/server.go and the provider's BaseMiddleware.  A middleware either
  answers the request itself or hands it on with the values it puts into the context.
\<close>

record reqContext =
  cRepo :: "RepoActor option"
  cDid :: "string option"
  cToken :: "string option"
  cScopes :: "string list option"

definition noContext :: reqContext where
  "noContext = \<lparr>cRepo = None, cDid = None, cToken = None, cScopes = None\<rparr>"

datatype verdict = Stop outcome | Pass reqContext

text \<open>
  The JWT library: \<open>jlClaims\<close> parses without verifying, \<open>jlParse\<close> parses and verifies with
  the key its key function gives for the header and tells whether the token is valid.  The
  passport fetches a DID document, from which the account's own key is read.
\<close>

record ('k, 'doc) jwtLib =
  jlClaims :: "string \<Rightarrow> obj option"
  jlParse :: "(obj \<Rightarrow> goerr + 'k) \<Rightarrow> string \<Rightarrow> bool option"
  jlPdsKey :: 'k
  fetchDoc :: "string \<Rightarrow> 'doc option"
  docPublicKey :: "'doc \<Rightarrow> 'k option"

definition unauthorized_json :: outcome where
  "unauthorized_json = writeJSON 401 (JObj [(''error'', JStr ''Unauthorized'')])"

section \<open>Admin and web session\<close>

text \<open>\<open>auth\<close> is the result of BasicAuth.\<close>

definition handleAdminMiddleware :: "server \<Rightarrow> (string \<times> string) option \<Rightarrow> verdict" where
  "handleAdminMiddleware sv auth =
     (case auth of
        None \<Rightarrow> Stop (InputError (Some ''Unauthorized''))
      | Some (username, password) \<Rightarrow>
          if username \<noteq> ''admin'' \<or> password \<noteq> sAdminPassword sv
          then Stop (InputError (Some ''Unauthorized''))
          else Pass noContext)"

text \<open>\<open>sess\<close> are the values of the session cookie, \<open>None\<close> when it does not decode.\<close>

definition handleWebSessionMiddleware :: "server \<Rightarrow> obj option \<Rightarrow> db \<Rightarrow> verdict" where
  "handleWebSessionMiddleware sv sess d =
     (case sess of
        None \<Rightarrow> Stop unauthorized_json
      | Some vals \<Rightarrow>
          (case jstr vals ''did'' of
             None \<Rightarrow> Stop unauthorized_json
           | Some did \<Rightarrow>
               if did = '''' then Stop unauthorized_json
               else (case getRepoActorByDid (sFails sv) d did of
                       Inl e \<Rightarrow> Stop unauthorized_json
                     | Inr repo \<Rightarrow> Pass (noContext\<lparr>cRepo := Some repo, cDid := Some did\<rparr>))))"

section \<open>Bearer tokens\<close>

definition ecdsa_algs :: "string list" where
  "ecdsa_algs = [''ES256'', ''ES384'', ''ES512'']"

definition pds_keyfunc :: "('k, 'doc) jwtLib \<Rightarrow> obj \<Rightarrow> goerr + 'k" where
  "pds_keyfunc J h =
     (if jstr0 h ''alg'' \<in> set ecdsa_algs then Inr (jlPdsKey J)
      else Inl (Err ''unsupported signing method''))"

text \<open>The Authorization header, or the query parameter access_token in its place.\<close>

definition auth_header :: "request \<Rightarrow> string" where
  "auth_header r =
     (let h = header_get r ''authorization'' in
      if h = '''' then (let qt = get_value (qQuery r) ''access_token'' in
                      if qt \<noteq> '''' then ''Bearer '' @ qt else '''')
      else h)"

text \<open>
  The block for a token with a claim lxm: the method must be the last segment of the URL, and
  the issuer must have an account here.
\<close>

definition service_auth_repo ::
  "server \<Rightarrow> request \<Rightarrow> obj \<Rightarrow> json \<Rightarrow> db \<Rightarrow> outcome + (string \<times> RepoActor)" where
  "service_auth_repo sv r claims lxm d =
     (if lxm \<noteq> JStr (last (SplitOn (CHR ''/'') (qString r))) then Inl (InputError None)
      else (case jstr claims ''iss'' of
              None \<Rightarrow> Inl (InputError None)
            | Some did \<Rightarrow>
                (case getRepoActorByDid (sFails sv) d did of
                   Inl e \<Rightarrow> Inl (ServerError None)
                 | Inr repo \<Rightarrow> Inr (did, repo))))"

text \<open>Verification with the account's own key in compat mode, with the server's key otherwise.\<close>

definition verify_bearer ::
  "('k, 'doc) jwtLib \<Rightarrow> (string \<times> RepoActor) option \<Rightarrow> string \<Rightarrow> outcome option" where
  "verify_bearer J svc tok =
     (case svc of
        Some (did, repo) \<Rightarrow>
          if rCompatMode (raRepo repo) then
            (case fetchDoc J did of
               None \<Rightarrow> Some (InputError None)
             | Some doc \<Rightarrow>
                 (case docPublicKey J doc of
                    None \<Rightarrow> Some (InputError None)
                  | Some key \<Rightarrow>
                      (case jlParse J (\<lambda>_. Inr key) tok of
                         None \<Rightarrow> Some ExpiredTokenError
                       | Some valid \<Rightarrow> if valid then None else Some InvalidTokenError)))
          else (case jlParse J (pds_keyfunc J) tok of
                  None \<Rightarrow> Some ExpiredTokenError
                | Some valid \<Rightarrow> if valid then None else Some InvalidTokenError)
      | None \<Rightarrow> (case jlParse J (pds_keyfunc J) tok of
                  None \<Rightarrow> Some ExpiredTokenError
                | Some valid \<Rightarrow> if valid then None else Some InvalidTokenError))"

text \<open>From the scope check to the end.\<close>

definition bearer_account ::
  "server \<Rightarrow> request \<Rightarrow> obj \<Rightarrow> (string \<times> RepoActor) option \<Rightarrow> string \<Rightarrow> db \<Rightarrow> verdict" where
  "bearer_account sv r claims svc tok d =
     (let isRefresh = (qPath r = ''/xrpc/com.atproto.server.refreshSession'');
          scope = jstr0 claims ''scope''
      in if isRefresh \<and> scope \<noteq> ''com.atproto.refresh'' then Stop InvalidTokenError
         else if svc = None \<and> \<not> isRefresh \<and> scope \<noteq> ''com.atproto.access'' then Stop InvalidTokenError
         else if isRefresh \<and> sFails sv ''bearer.refresh_exists'' then Stop (ServerError None)
         else if isRefresh \<and> sql_first (\<lambda>t. rtToken t = tok) (refreshTokens d) = None
         then Stop InvalidTokenError
         else (case jnum claims ''exp'' of
                 None \<Rightarrow> Stop (ServerError None)
               | Some ex \<Rightarrow>
                   if ex < Unix (sNow sv) then Stop ExpiredTokenError
                   else (case svc of
                           Some (did, repo) \<Rightarrow>
                             Pass (noContext\<lparr>cRepo := Some repo, cDid := Some did, cToken := Some tok\<rparr>)
                         | None \<Rightarrow>
                             (case jstr claims ''sub'' of
                                None \<Rightarrow> Stop Panic
                              | Some sub \<Rightarrow>
                                  (case getRepoActorByDid (sFails sv) d sub of
                                     Inl e \<Rightarrow> Stop (ServerError None)
                                   | Inr repo \<Rightarrow>
                                       Pass (noContext\<lparr>cRepo := Some repo,
                                         cDid := Some (rDid (raRepo repo)), cToken := Some tok\<rparr>))))))"

definition handleLegacySessionMiddleware ::
  "server \<Rightarrow> ('k, 'doc) jwtLib \<Rightarrow> request \<Rightarrow> db \<Rightarrow> verdict" where
  "handleLegacySessionMiddleware sv J r d =
     (let authheader = auth_header r in
      if authheader = '''' then Stop unauthorized_json
      else (case SplitOn (CHR '' '') authheader of
        [scheme, tok] \<Rightarrow>
          if scheme = ''DPoP'' then Pass noContext
          else (case jlClaims J tok of
            None \<Rightarrow> Stop InvalidTokenError
          | Some claims \<Rightarrow>
              (case jget claims ''lxm'' of
                 None \<Rightarrow>
                   (case verify_bearer J None tok of
                      Some w \<Rightarrow> Stop w
                    | None \<Rightarrow> bearer_account sv r claims None tok d)
               | Some lxm \<Rightarrow>
                   (case service_auth_repo sv r claims lxm d of
                      Inl w \<Rightarrow> Stop w
                    | Inr svc \<Rightarrow>
                        (case verify_bearer J (Some svc) tok of
                           Some w \<Rightarrow> Stop w
                         | None \<Rightarrow> bearer_account sv r claims (Some svc) tok d))))
      | _ \<Rightarrow> Stop (ServerError None)))"

section \<open>DPoP tokens\<close>

definition dpop_headers :: "string \<Rightarrow> (string \<times> string) list" where
  "dpop_headers nonce =
     (if nonce \<noteq> '''' then [(''DPoP-Nonce'', nonce), (''access-control-expose-headers'', ''DPoP-Nonce'')]
      else [])"

text \<open>From the lookup of the token to the end; \<open>hs\<close> are the headers set so far.\<close>

definition dpop_account ::
  "server \<Rightarrow> string \<Rightarrow> Proof \<Rightarrow> (string \<times> string) list \<Rightarrow> db \<Rightarrow> verdict" where
  "dpop_account sv accessToken p hs d =
     (if sFails sv ''dpop.token'' then Stop (with_headers hs (InputError None))
      else (case sql_first (\<lambda>t. otToken t = accessToken) (oauthTokens d) of
        None \<Rightarrow> Stop (with_headers hs InvalidTokenError)
      | Some t \<Rightarrow>
          if otToken t = '''' then Stop (with_headers hs InvalidTokenError)
          else (case pDpopJkt (otParameters t) of
            None \<Rightarrow> Stop (with_headers hs (InputError (Some ''token not bound to dpop'')))
          | Some jkt \<Rightarrow>
              if jkt \<noteq> JKT p then Stop (with_headers hs (InputError (Some ''dpop jkt mismatch'')))
              else if sNow sv > otExpiresAt t then
                Stop (with_headers (hs @ [(''WWW-Authenticate'',
                      ''DPoP error=invalid_token, error_description=Token expired''),
                      (''access-control-expose-headers'', ''WWW-Authenticate'')])
                  (writeJSON 401 (JObj [(''error'', JStr ''invalid_token''),
                     (''error_description'', JStr ''Token expired'')])))
              else (case getRepoActorByDid (sFails sv) d (otSub t) of
                Inl e \<Rightarrow> Stop (with_headers hs (ServerError None))
              | Inr repo \<Rightarrow>
                  Pass \<lparr>cRepo = Some repo, cDid = Some (rDid (raRepo repo)),
                    cToken = Some accessToken,
                    cScopes = Some (SplitOn (CHR '' '') (pScope (otParameters t)))\<rparr>))))"

definition handleOauthSessionMiddleware ::
  "server \<Rightarrow> ('k, 'c) dpopLib \<Rightarrow> request \<Rightarrow> db \<Rightarrow> reqContext \<Rightarrow> 'c dpopManager \<Rightarrow>
   verdict \<times> 'c dpopManager" where
  "handleOauthSessionMiddleware sv L r d ctx dm =
     (let authheader = header_get r ''authorization'' in
      if authheader = '''' then (Stop unauthorized_json, dm)
      else (case SplitOn (CHR '' '') authheader of
        [scheme, accessToken] \<Rightarrow>
          if scheme \<noteq> ''DPoP'' then (Pass ctx, dm)
          else let (nonce, n) = NextNonce (hmacSha256 L) (sNow sv) (dmNonce dm);
                   hs = dpop_headers nonce
               in (case CheckProof L (sNow sv) (qMethod r) (RequestURL r) (header_values r ''dpop'')
                         (Some accessToken) (dm\<lparr>dmNonce := n\<rparr>) of
                 (Crash, dm') \<Rightarrow> (Stop Panic, dm')
               | (Fail e, dm') \<Rightarrow>
                   (if errors_is e ErrUseDpopNonce then
                      (Stop (with_headers (hs @ [(''WWW-Authenticate'', ''DPoP error=use_dpop_nonce''),
                          (''access-control-expose-headers'', ''WWW-Authenticate'')])
                        (writeJSON 401 (JObj [(''error'', JStr ''use_dpop_nonce'')]))), dm')
                    else (Stop (with_headers hs (InputError None)), dm'))
               | (Ret None, dm') \<Rightarrow>
                   (Stop (with_headers hs (InputError (Some ''missing dpop proof''))), dm')
               | (Ret (Some p), dm') \<Rightarrow> (dpop_account sv accessToken p hs d, dm'))
      | _ \<Rightarrow> (Stop (ServerError None), dm)))"

text \<open>The composition the authenticated routes use.\<close>

definition authed ::
  "server \<Rightarrow> ('k, 'doc) jwtLib \<Rightarrow> ('p, 'c) dpopLib \<Rightarrow> request \<Rightarrow> db \<Rightarrow> 'c dpopManager \<Rightarrow>
   verdict \<times> 'c dpopManager" where
  "authed sv J L r d dm =
     (case handleLegacySessionMiddleware sv J r d of
        Stop w \<Rightarrow> (Stop w, dm)
      | Pass ctx \<Rightarrow> handleOauthSessionMiddleware sv L r d ctx dm)"

section \<open>Header-only middlewares\<close>

definition cors_headers :: "(string \<times> string) list" where
  "cors_headers = [(''Access-Control-Allow-Origin'', ''*''), (''Access-Control-Allow-Headers'', ''*''),
     (''Access-Control-Allow-Methods'', ''*''), (''Access-Control-Allow-Credentials'', ''true''),
     (''Access-Control-Expose-Headers'', ''Atproto-Proxy-Type,Atproto-Repo-Rev,Atproto-Content-Type,Content-Type,Content-Length,WWW-Authenticate,DPoP-Nonce,X-Ratelimit-Limit,X-Ratelimit-Remaining,X-Ratelimit-Reset''),
     (''Access-Control-Max-Age'', ''100000000'')]"

definition corsMiddleware :: "request \<Rightarrow> outcome \<Rightarrow> outcome" where
  "corsMiddleware r inner =
     with_headers cors_headers (if qMethod r = ''OPTIONS'' then writeHeader 204 else inner)"

definition BaseMiddleware ::
  "(bytes \<Rightarrow> bytes \<Rightarrow> bytes) \<Rightarrow> time \<Rightarrow> (Nonce \<Rightarrow> outcome \<times> 'a) \<Rightarrow> Nonce \<Rightarrow> outcome \<times> 'a" where
  "BaseMiddleware hmac now inner n =
     (let (nonce, n1) = NextNonce hmac now n; (w, s) = inner n1
      in (with_headers ([(''cache-control'', ''no-store''), (''pragma'', ''no-cache'')] @ dpop_headers nonce) w, s))"

section \<open>Facts\<close>

lemma with_headers_Stop [simp]: "Stop (with_headers hs w) \<noteq> Pass ctx"
  by simp

lemma service_auth_repo_Inr:
  "service_auth_repo sv r claims lxm d = Inr (did, repo) \<Longrightarrow>
   jstr claims ''iss'' = Some did \<and> raRepo repo \<in> set (repos d) \<and> rDid (raRepo repo) = did \<and>
   lxm = JStr (last (SplitOn (CHR ''/'') (qString r)))"
  by (auto simp: service_auth_repo_def split: if_splits option.splits sum.splits
      dest: getRepoActorByDid_Inr)

definition bearer_key :: "('k, 'doc) jwtLib \<Rightarrow> (string \<times> RepoActor) option \<Rightarrow> (obj \<Rightarrow> goerr + 'k) \<Rightarrow> bool" where
  "bearer_key J svc kf \<longleftrightarrow>
     (case svc of
        Some (did, repo) \<Rightarrow>
          (if rCompatMode (raRepo repo)
           then (\<exists>doc key. fetchDoc J did = Some doc \<and> docPublicKey J doc = Some key \<and> kf = (\<lambda>_. Inr key))
           else kf = pds_keyfunc J)
      | None \<Rightarrow> kf = pds_keyfunc J)"

lemma verify_bearer_None:
  "verify_bearer J svc tok = None \<Longrightarrow> \<exists>kf. bearer_key J svc kf \<and> jlParse J kf tok = Some True"
  by (auto simp: verify_bearer_def bearer_key_def split: option.splits prod.splits if_splits)

lemma bearer_account_Pass:
  assumes "bearer_account sv r claims svc tok d = Pass ctx"
  shows "(\<exists>ex. jnum claims ''exp'' = Some ex \<and> Unix (sNow sv) \<le> ex) \<and> cToken ctx = Some tok \<and>
    (qPath r = ''/xrpc/com.atproto.server.refreshSession'' \<longrightarrow>
       jstr0 claims ''scope'' = ''com.atproto.refresh'' \<and> (\<exists>t \<in> set (refreshTokens d). rtToken t = tok)) \<and>
    (case svc of
       Some (did, repo) \<Rightarrow> cRepo ctx = Some repo \<and> cDid ctx = Some did
     | None \<Rightarrow>
         (qPath r \<noteq> ''/xrpc/com.atproto.server.refreshSession'' \<longrightarrow>
            jstr0 claims ''scope'' = ''com.atproto.access'') \<and>
         (\<exists>repo. cRepo ctx = Some repo \<and> cDid ctx = jstr claims ''sub'' \<and>
            raRepo repo \<in> set (repos d) \<and> jstr claims ''sub'' = Some (rDid (raRepo repo))))"
  using assms unfolding bearer_account_def Let_def
  by (auto simp: sql_first_None split: if_splits option.splits sum.splits
      dest: getRepoActorByDid_Inr)

lemma dpop_account_Pass:
  assumes "dpop_account sv tok p hs d = Pass ctx"
  shows "\<exists>t repo. t \<in> set (oauthTokens d) \<and> otToken t = tok \<and> pDpopJkt (otParameters t) = Some (JKT p) \<and>
    sNow sv \<le> otExpiresAt t \<and> cRepo ctx = Some repo \<and> raRepo repo \<in> set (repos d) \<and>
    rDid (raRepo repo) = otSub t \<and> cDid ctx = Some (otSub t) \<and> cToken ctx = Some tok \<and>
    cScopes ctx = Some (SplitOn (CHR '' '') (pScope (otParameters t)))"
  using assms unfolding dpop_account_def
  by (fastforce split: if_splits option.splits sum.splits dest!: sql_first_Some getRepoActorByDid_Inr)

text \<open>The verdict on a Bearer token, from its parts.\<close>

lemma legacy_Pass:
  assumes "handleLegacySessionMiddleware sv J r d = Pass ctx"
  shows "\<exists>scheme tok. SplitOn (CHR '' '') (auth_header r) = [scheme, tok] \<and>
    (if scheme = ''DPoP'' then ctx = noContext
     else (\<exists>claims svc kf. jlClaims J tok = Some claims \<and>
       (case jget claims ''lxm'' of
          None \<Rightarrow> svc = None
        | Some lxm \<Rightarrow> \<exists>p. svc = Some p \<and> service_auth_repo sv r claims lxm d = Inr p) \<and>
       bearer_key J svc kf \<and> jlParse J kf tok = Some True \<and>
       bearer_account sv r claims svc tok d = Pass ctx))"
proof -
  have ne: "auth_header r \<noteq> ''''"
    using assms by (auto simp: handleLegacySessionMiddleware_def Let_def)
  obtain scheme tok where st: "SplitOn (CHR '' '') (auth_header r) = [scheme, tok]"
    using assms ne
    by (auto simp: handleLegacySessionMiddleware_def Let_def split: list.splits)
  show ?thesis
  proof (cases "scheme = ''DPoP''")
    case True
    then show ?thesis
      using assms ne st by (auto simp: handleLegacySessionMiddleware_def Let_def)
  next
    case False
    with assms ne st obtain claims where c: "jlClaims J tok = Some claims"
      by (auto simp: handleLegacySessionMiddleware_def Let_def split: option.splits)
    show ?thesis
    proof (cases "jget claims ''lxm''")
      case None
      with assms ne st False c have "verify_bearer J None tok = None"
        and b: "bearer_account sv r claims None tok d = Pass ctx"
        by (auto simp: handleLegacySessionMiddleware_def Let_def split: option.splits)
      then obtain kf where kf: "bearer_key J None kf" "jlParse J kf tok = Some True"
        using verify_bearer_None by blast
      show ?thesis
        by (rule exI [of _ scheme], rule exI [of _ tok], simp only: st False if_False simp_thms,
            rule exI [of _ claims], rule exI [of _ None], rule exI [of _ kf])
           (simp add: c None b kf)
    next
      case (Some lxm)
      with assms ne st False c obtain svc where s: "service_auth_repo sv r claims lxm d = Inr svc"
        by (auto simp: handleLegacySessionMiddleware_def Let_def split: sum.splits)
      with assms ne st False c Some have "verify_bearer J (Some svc) tok = None"
        and b: "bearer_account sv r claims (Some svc) tok d = Pass ctx"
        by (auto simp: handleLegacySessionMiddleware_def Let_def split: option.splits)
      then obtain kf where kf: "bearer_key J (Some svc) kf" "jlParse J kf tok = Some True"
        using verify_bearer_None by blast
      show ?thesis
        by (rule exI [of _ scheme], rule exI [of _ tok], simp only: st False if_False simp_thms,
            rule exI [of _ claims], rule exI [of _ "Some svc"], rule exI [of _ kf])
           (simp add: c Some b kf s)
    qed
  qed
qed

lemma oauth_Pass:
  assumes "handleOauthSessionMiddleware sv L r d ctx0 dm = (Pass ctx, dm')"
  shows "\<exists>scheme tok. SplitOn (CHR '' '') (header_get r ''authorization'') = [scheme, tok] \<and>
    header_get r ''authorization'' \<noteq> '''' \<and>
    (if scheme = ''DPoP''
     then (\<exists>p dm1 hs. CheckProof L (sNow sv) (qMethod r) (RequestURL r) (header_values r ''dpop'') (Some tok)
             (dm\<lparr>dmNonce := snd (NextNonce (hmacSha256 L) (sNow sv) (dmNonce dm))\<rparr>) = (Ret (Some p), dm1) \<and>
             dpop_account sv tok p hs d = Pass ctx)
     else ctx = ctx0)"
  using assms unfolding handleOauthSessionMiddleware_def Let_def
  by (auto split: if_splits list.splits option.splits prod.splits result.splits)

section \<open>A small server\<close>

definition demo_server :: server where
  "demo_server = \<lparr>sHostname = ''pds'', sDid = ''did:web:pds'', sAdminPassword = ''pw'',
     sRequireInvite = True, sNow = 110 * Second, sFails = (\<lambda>_. False), sSignATP = (\<lambda>_. Some [7]),
     sUuid = (\<lambda>_. ''u''), sBcryptOk = (\<lambda>h p. h = p), sBcrypt = Some\<rparr>"

definition demo_repo :: Repo where
  "demo_repo = zeroRepo\<lparr>rDid := ''did:plc:a'', rEmail := ''a@x''\<rparr>"

definition demo_account :: RepoActor where
  "demo_account = \<lparr>raRepo = demo_repo, raActor = \<lparr>aDid = ''did:plc:a'', aHandle = ''a.pds''\<rparr>\<rparr>"

definition demo_db :: db where
  "demo_db = emptyDb\<lparr>repos := [demo_repo], actors := [\<lparr>aDid = ''did:plc:a'', aHandle = ''a.pds''\<rparr>],
     refreshTokens := [\<lparr>rtToken = ''old'', rtDid = ''did:plc:a'', rtCreatedAt = 0, rtExpiresAt = 0\<rparr>],
     tokens := [\<lparr>tToken = ''acc'', tDid = ''did:plc:a'', tRefreshToken = ''old'', tCreatedAt = 0, tExpiresAt = 0\<rparr>]\<rparr>"

definition demo_jwt :: "(unit, unit) jwtLib" where
  "demo_jwt = \<lparr>jlClaims = (\<lambda>t. Some [(''sub'', JStr ''did:plc:a''), (''exp'', JNum 500),
       (''scope'', JStr (if t = ''acc'' then ''com.atproto.access'' else ''com.atproto.refresh''))]),
     jlParse = (\<lambda>kf t. Some True), jlPdsKey = (), fetchDoc = Map.empty, docPublicKey = (\<lambda>_. None)\<rparr>"

definition demo_request :: "string \<Rightarrow> (string \<times> string) list \<Rightarrow> request" where
  "demo_request path hs = \<lparr>qMethod = ''POST'', qHost = ''pds'', qTLS = True, qHeaders = hs,
     qString = path, qPath = path, qQuery = [], qForm = [], qRemoteAddr = ''''\<rparr>"

definition get_session_request :: request where
  "get_session_request =
     demo_request ''/xrpc/com.atproto.server.getSession'' [(''Authorization'', ''Bearer acc'')]"

lemma get_session_passes:
  "authed demo_server demo_jwt demo_lib get_session_request demo_db demo_manager =
   (Pass \<lparr>cRepo = Some demo_account, cDid = Some ''did:plc:a'', cToken = Some ''acc'', cScopes = None\<rparr>,
    demo_manager)"
  by code_simp

section \<open>Properties of the authenticated routes\<close>

text \<open>What must hold of a Bearer token, and of a DPoP token, for the account it gives.\<close>

definition bearer_grant ::
  "server \<Rightarrow> ('k, 'doc) jwtLib \<Rightarrow> request \<Rightarrow> db \<Rightarrow> string \<Rightarrow> string \<Rightarrow> bool" where
  "bearer_grant sv J r d tok did \<longleftrightarrow>
     (\<exists>claims svc kf ex. jlClaims J tok = Some claims \<and> bearer_key J svc kf \<and>
        jlParse J kf tok = Some True \<and> jnum claims ''exp'' = Some ex \<and> Unix (sNow sv) \<le> ex \<and>
        (qPath r = ''/xrpc/com.atproto.server.refreshSession'' \<longrightarrow>
           jstr0 claims ''scope'' = ''com.atproto.refresh'' \<and> tok \<in> rtToken ` set (refreshTokens d)) \<and>
        (if jget claims ''lxm'' = None
         then svc = None \<and> jstr claims ''sub'' = Some did \<and>
           (qPath r \<noteq> ''/xrpc/com.atproto.server.refreshSession'' \<longrightarrow>
              jstr0 claims ''scope'' = ''com.atproto.access'')
         else jstr claims ''iss'' = Some did \<and>
           jstr claims ''lxm'' = Some (last (SplitOn (CHR ''/'') (qString r)))))"

definition dpop_grant ::
  "server \<Rightarrow> ('k, 'c) dpopLib \<Rightarrow> request \<Rightarrow> db \<Rightarrow> string \<Rightarrow> string \<Rightarrow> bool" where
  "dpop_grant sv L r d tok did \<longleftrightarrow>
     (\<exists>p dm1 dm2. \<exists>t \<in> set (oauthTokens d). otToken t = tok \<and> otSub t = did \<and>
        sNow sv \<le> otExpiresAt t \<and> pDpopJkt (otParameters t) = Some (JKT p) \<and>
        CheckProof L (sNow sv) (qMethod r) (RequestURL r) (header_values r ''dpop'') (Some tok) dm1 =
          (Ret (Some p), dm2))"

lemma dpop_pass:
  assumes "CheckProof L (sNow sv) (qMethod r) (RequestURL r) (header_values r ''dpop'') (Some tok) dm1 = (Ret (Some p), dm2)"
    and "dpop_account sv tok p hs d = Pass ctx"
  shows "\<exists>repo. cToken ctx = Some tok \<and> cRepo ctx = Some repo \<and> cDid ctx = Some (rDid (raRepo repo)) \<and>
    raRepo repo \<in> set (repos d) \<and> dpop_grant sv L r d tok (rDid (raRepo repo))"
proof -
  from dpop_account_Pass [OF assms(2)] obtain t repo where
    "t \<in> set (oauthTokens d)" "otToken t = tok" "pDpopJkt (otParameters t) = Some (JKT p)"
    "sNow sv \<le> otExpiresAt t" "cRepo ctx = Some repo" "raRepo repo \<in> set (repos d)"
    "rDid (raRepo repo) = otSub t" "cDid ctx = Some (otSub t)" "cToken ctx = Some tok" by blast
  moreover from this assms(1) have "dpop_grant sv L r d tok (rDid (raRepo repo))"
    unfolding dpop_grant_def by metis
  ultimately show ?thesis by (intro exI [of _ repo]) simp
qed

text \<open>The account a Bearer token names, by its sub or, for a service token, by its iss.\<close>

definition bearer_names :: "request \<Rightarrow> (string \<times> json) list \<Rightarrow> 'a option \<Rightarrow> string \<Rightarrow> bool" where
  "bearer_names r claims svc did \<longleftrightarrow>
     (if jget claims ''lxm'' = None
      then svc = None \<and> jstr claims ''sub'' = Some did \<and>
        (qPath r \<noteq> ''/xrpc/com.atproto.server.refreshSession'' \<longrightarrow> jstr0 claims ''scope'' = ''com.atproto.access'')
      else jstr claims ''iss'' = Some did \<and> jstr claims ''lxm'' = Some (last (SplitOn (CHR ''/'') (qString r))))"

lemma bearer_account_names:
  assumes "bearer_account sv r claims svc tok d = Pass ctx"
    and "case jget claims ''lxm'' of None \<Rightarrow> svc = None
      | Some lxm \<Rightarrow> \<exists>p. svc = Some p \<and> service_auth_repo sv r claims lxm d = Inr p"
  shows "\<exists>repo. cToken ctx = Some tok \<and> cRepo ctx = Some repo \<and> cDid ctx = Some (rDid (raRepo repo)) \<and>
    raRepo repo \<in> set (repos d) \<and> bearer_names r claims svc (rDid (raRepo repo))"
proof (cases "jget claims ''lxm''")
  case None
  with assms(2) bearer_account_Pass [OF assms(1)] show ?thesis by (auto simp: bearer_names_def)
next
  case (Some lxm)
  with assms(2) obtain did repo where s: "svc = Some (did, repo)"
    "service_auth_repo sv r claims lxm d = Inr (did, repo)" by auto
  with service_auth_repo_Inr [OF s(2)] bearer_account_Pass [OF assms(1)] Some show ?thesis
    by (auto simp: jstr_def bearer_names_def)
qed

lemma bearer_pass:
  assumes "jlClaims J tok = Some claims" "bearer_key J svc kf" "jlParse J kf tok = Some True"
    and "bearer_account sv r claims svc tok d = Pass ctx"
    and "case jget claims ''lxm'' of None \<Rightarrow> svc = None
      | Some lxm \<Rightarrow> \<exists>p. svc = Some p \<and> service_auth_repo sv r claims lxm d = Inr p"
  shows "\<exists>repo. cToken ctx = Some tok \<and> cRepo ctx = Some repo \<and> cDid ctx = Some (rDid (raRepo repo)) \<and>
    raRepo repo \<in> set (repos d) \<and> bearer_grant sv J r d tok (rDid (raRepo repo))"
proof -
  note b = bearer_account_Pass [OF assms(4)]
  then obtain ex where ex: "jnum claims ''exp'' = Some ex" "Unix (sNow sv) \<le> ex" by blast
  have rf: "qPath r = ''/xrpc/com.atproto.server.refreshSession'' \<Longrightarrow>
      jstr0 claims ''scope'' = ''com.atproto.refresh'' \<and> tok \<in> rtToken ` set (refreshTokens d)"
    using b by blast
  from bearer_account_names [OF assms(4,5)] obtain repo where repo: "cToken ctx = Some tok"
    "cRepo ctx = Some repo" "cDid ctx = Some (rDid (raRepo repo))" "raRepo repo \<in> set (repos d)"
    "bearer_names r claims svc (rDid (raRepo repo))" by blast
  have "bearer_grant sv J r d tok (rDid (raRepo repo))"
    unfolding bearer_grant_def
  proof (intro exI conjI)
    show "jlClaims J tok = Some claims" "bearer_key J svc kf" "jlParse J kf tok = Some True"
      "jnum claims ''exp'' = Some ex" "Unix (sNow sv) \<le> ex" by (fact assms ex)+
  qed (use rf repo(5) bearer_names_def [of r claims svc "rDid (raRepo repo)"] in blast)+
  with repo show ?thesis by blast
qed

text \<open>
  C9: a request that reaches an authenticated handler carries a token in its Authorization
  header.  A DPoP token is a stored, unexpired OAuth token bound to the key of a proof that was
  checked for this method, this URL and this token, and the account is the token's subject.
  Any other token was verified by the JWT library, with the server's key or, for a service
  token of an account in compat mode, with the account's own key; it has not expired, has the
  right scope for its use, is a stored refresh token when it refreshes, and the account in the
  context is a stored one named by its sub or iss.
\<close>

theorem authed_sound:
  assumes "authed sv J L r d dm = (Pass ctx, dm')"
  shows "\<exists>scheme tok repo. SplitOn (CHR '' '') (header_get r ''authorization'') = [scheme, tok] \<and>
    cToken ctx = Some tok \<and> cRepo ctx = Some repo \<and> cDid ctx = Some (rDid (raRepo repo)) \<and>
    raRepo repo \<in> set (repos d) \<and>
    (if scheme = ''DPoP'' then dpop_grant sv L r d tok (rDid (raRepo repo))
     else bearer_grant sv J r d tok (rDid (raRepo repo)))"
proof -
  obtain ctx0 where l: "handleLegacySessionMiddleware sv J r d = Pass ctx0"
    and o: "handleOauthSessionMiddleware sv L r d ctx0 dm = (Pass ctx, dm')"
    using assms by (auto simp: authed_def split: verdict.splits)
  from oauth_Pass [OF o] obtain scheme tok where st:
    "SplitOn (CHR '' '') (header_get r ''authorization'') = [scheme, tok]"
    "header_get r ''authorization'' \<noteq> ''''"
    and rest: "if scheme = ''DPoP''
     then (\<exists>p dm1 hs. CheckProof L (sNow sv) (qMethod r) (RequestURL r) (header_values r ''dpop'') (Some tok)
             (dm\<lparr>dmNonce := snd (NextNonce (hmacSha256 L) (sNow sv) (dmNonce dm))\<rparr>) = (Ret (Some p), dm1) \<and>
             dpop_account sv tok p hs d = Pass ctx)
     else ctx = ctx0" by blast
  have ah: "auth_header r = header_get r ''authorization''" using st(2) by (simp add: auth_header_def Let_def)
  have "\<exists>repo. cToken ctx = Some tok \<and> cRepo ctx = Some repo \<and> cDid ctx = Some (rDid (raRepo repo)) \<and>
      raRepo repo \<in> set (repos d) \<and>
      (if scheme = ''DPoP'' then dpop_grant sv L r d tok (rDid (raRepo repo))
       else bearer_grant sv J r d tok (rDid (raRepo repo)))"
  proof (cases "scheme = ''DPoP''")
    case True
    with rest obtain p dm1 dm2 hs where "CheckProof L (sNow sv) (qMethod r) (RequestURL r)
        (header_values r ''dpop'') (Some tok) dm1 = (Ret (Some p), dm2)" "dpop_account sv tok p hs d = Pass ctx" by auto
    from dpop_pass [OF this] True show ?thesis by simp
  next
    case False
    with legacy_Pass [OF l] st(1) ah obtain claims svc kf where "jlClaims J tok = Some claims"
      "bearer_key J svc kf" "jlParse J kf tok = Some True" "bearer_account sv r claims svc tok d = Pass ctx0"
      "case jget claims ''lxm'' of None \<Rightarrow> svc = None
        | Some lxm \<Rightarrow> \<exists>p. svc = Some p \<and> service_auth_repo sv r claims lxm d = Inr p"
      by auto
    from bearer_pass [OF this] False rest show ?thesis by simp
  qed
  with st(1) show ?thesis by blast
qed

theorem authed_sound_witness:
  "bearer_grant demo_server demo_jwt get_session_request demo_db ''acc'' ''did:plc:a''"
proof -
  have h: "SplitOn (CHR '' '') (header_get get_session_request ''authorization'') = [''Bearer'', ''acc'']"
    by code_simp
  have "demo_account = demo_account \<and> rDid (raRepo demo_account) = ''did:plc:a''"
    by (simp add: demo_account_def demo_repo_def)
  with authed_sound [OF get_session_passes] h show ?thesis by auto
qed

text \<open>
  The access token in the query string, which the first middleware accepts for WebSocket
  upgrades, is refused by the second one: an authenticated route never passes a request
  without an Authorization header, and answers 401 exactly where the first middleware had
  accepted it.
\<close>

theorem query_token_refused:
  assumes "header_get r ''authorization'' = ''''"
  shows "fst (authed sv J L r d dm) =
    (case handleLegacySessionMiddleware sv J r d of Stop w \<Rightarrow> Stop w | Pass _ \<Rightarrow> Stop unauthorized_json)"
  using assms by (simp add: authed_def handleOauthSessionMiddleware_def split: verdict.splits)

theorem query_token_refused_witness:
  "(\<exists>ctx. handleLegacySessionMiddleware demo_server demo_jwt
       ((demo_request ''/xrpc/com.atproto.server.signerConnect'' [])\<lparr>qQuery := [(''access_token'', ''acc'')]\<rparr>)
       demo_db = Pass ctx) \<and>
   fst (authed demo_server demo_jwt demo_lib
       ((demo_request ''/xrpc/com.atproto.server.signerConnect'' [])\<lparr>qQuery := [(''access_token'', ''acc'')]\<rparr>)
       demo_db demo_manager) = Stop unauthorized_json"
proof -
  let ?r = "(demo_request ''/xrpc/com.atproto.server.signerConnect'' [])\<lparr>qQuery := [(''access_token'', ''acc'')]\<rparr>"
  have "header_get ?r ''authorization'' = ''''" by code_simp
  moreover have "handleLegacySessionMiddleware demo_server demo_jwt ?r demo_db =
      Pass \<lparr>cRepo = Some demo_account, cDid = Some ''did:plc:a'', cToken = Some ''acc'', cScopes = None\<rparr>"
    by code_simp
  moreover have "fst (authed demo_server demo_jwt demo_lib ?r demo_db demo_manager) =
      (case handleLegacySessionMiddleware demo_server demo_jwt ?r demo_db of
         Stop w \<Rightarrow> Stop w | Pass _ \<Rightarrow> Stop unauthorized_json)"
    by (rule query_token_refused) code_simp
  ultimately show ?thesis by simp
qed

lemma lookup_frame:
  "repos d' = repos d \<Longrightarrow> actors d' = actors d \<Longrightarrow>
   getRepoActorByDid f d' = getRepoActorByDid f d"
proof -
  assume a: "repos d' = repos d" "actors d' = actors d"
  have j: "joined d' = joined d" by (simp add: fun_eq_iff joined_def a(2))
  show ?thesis unfolding fun_eq_iff getRepoActorByDid_def getRepoActor_def j a(1) by simp
qed

text \<open>Outside of refreshing, the verdict on a Bearer token depends on the accounts only.\<close>

lemma legacy_frame:
  assumes "qPath r \<noteq> ''/xrpc/com.atproto.server.refreshSession''" "repos d' = repos d" "actors d' = actors d"
  shows "handleLegacySessionMiddleware sv J r d' = handleLegacySessionMiddleware sv J r d"
proof -
  note e = lookup_frame [OF assms(2,3)]
  have b: "bearer_account sv r claims svc tok d' = bearer_account sv r claims svc tok d" for claims svc tok
    unfolding bearer_account_def e Let_def using assms(1) by auto
  have s: "service_auth_repo sv r claims lxm d' = service_auth_repo sv r claims lxm d" for claims lxm
    unfolding service_auth_repo_def e by (rule refl)
  show ?thesis unfolding handleLegacySessionMiddleware_def b s by (rule refl)
qed

lemma deleteSession_accounts:
  "handleDeleteSession sv tok d = (w, d') \<Longrightarrow>
   repos d' = repos d \<and> actors d' = actors d \<and> oauthTokens d' = oauthTokens d"
  by (auto simp: handleDeleteSession_def db_exec_def Let_def split: if_splits sum.splits)

text \<open>
  Signing out does not revoke the access token.  deleteSession removes the stored pair, but
  no later request other than a refresh is judged differently: the token keeps working until
  it expires.
\<close>

theorem signout_keeps_access:
  assumes "handleDeleteSession sv tok d = (w, d')"
    and "qPath r \<noteq> ''/xrpc/com.atproto.server.refreshSession''"
  shows "authed sv' J L r d' dm = authed sv' J L r d dm"
proof -
  have f: "repos d' = repos d" "actors d' = actors d" "oauthTokens d' = oauthTokens d"
    using deleteSession_accounts [OF assms(1)] by auto
  have p: "dpop_account sv' a p hs d' = dpop_account sv' a p hs d" for a p hs
    unfolding dpop_account_def lookup_frame [OF f(1,2)] f(3) by (rule refl)
  have o: "handleOauthSessionMiddleware sv' L r d' ctx dm = handleOauthSessionMiddleware sv' L r d ctx dm" for ctx
    unfolding handleOauthSessionMiddleware_def p by (rule refl)
  show ?thesis unfolding authed_def o legacy_frame [OF assms(2) f(1,2)] by (rule refl)
qed

theorem signout_keeps_access_witness:
  "\<exists>d'. handleDeleteSession demo_server ''acc'' demo_db = (writeHeader 200, d') \<and> tokens d' = [] \<and>
     refreshTokens d' = [] \<and> (\<exists>ctx. fst (authed demo_server demo_jwt demo_lib get_session_request d' demo_manager) = Pass ctx)"
proof -
  let ?d = "snd (handleDeleteSession demo_server ''acc'' demo_db)"
  have "handleDeleteSession demo_server ''acc'' demo_db = (writeHeader 200, ?d)" by code_simp
  moreover have "tokens ?d = [] \<and> refreshTokens ?d = []" by code_simp
  moreover have "qPath get_session_request \<noteq> ''/xrpc/com.atproto.server.refreshSession''" by code_simp
  ultimately show ?thesis
    using signout_keeps_access [of demo_server "''acc''" demo_db "writeHeader 200" ?d get_session_request
        demo_server demo_jwt demo_lib demo_manager] get_session_passes
    by (intro exI [of _ ?d]) simp
qed

text \<open>
  Refreshing rotates the pair.  After a successful refresh the tables hold the old pairs
  except the one just used, plus a new pair; unless the new token repeats it, the used refresh
  token no longer passes the middleware, so it cannot be used a second time.
\<close>

theorem refresh_rotates:
  assumes "handleRefreshSession sv token repo d = (w, d')" and "status_of w = 200"
  shows "\<exists>s :: Session. refreshTokens d' = sql_delete (\<lambda>t. rtToken t = token) (refreshTokens d) @
        [\<lparr>rtToken = RefreshTokenStr s, rtDid = rDid (raRepo repo), rtCreatedAt = sNow sv,
          rtExpiresAt = sNow sv + 7 * 24 * Hour\<rparr>] \<and>
    tokens d' = sql_delete (\<lambda>t. tRefreshToken t = token) (tokens d) @
        [\<lparr>tToken = AccessToken s, tDid = rDid (raRepo repo), tRefreshToken = RefreshTokenStr s,
          tCreatedAt = sNow sv, tExpiresAt = sNow sv + 3 * Hour\<rparr>] \<and>
    (RefreshTokenStr s \<noteq> token \<longrightarrow> qPath r = ''/xrpc/com.atproto.server.refreshSession'' \<longrightarrow>
       \<not> (\<exists>ctx. bearer_account sv' r claims svc token d' = Pass ctx))"
proof -
  let ?d2 = "d\<lparr>refreshTokens := sql_delete (\<lambda>t. rtToken t = token) (refreshTokens d),
      tokens := sql_delete (\<lambda>t. tRefreshToken t = token) (tokens d)\<rparr>"
  obtain s where "createSession sv (raRepo repo) ?d2 = (Inr s, d')"
    using assms
    by (auto simp: handleRefreshSession_def db_exec_def split: sum.splits prod.splits if_splits)
  then obtain d2 where d2: "refreshTokens d2 = sql_delete (\<lambda>t. rtToken t = token) (refreshTokens d)"
    "tokens d2 = sql_delete (\<lambda>t. tRefreshToken t = token) (tokens d)"
    "createSession sv (raRepo repo) d2 = (Inr s, d')"
    by (intro that [of ?d2]) simp_all
  note c = createSession_Inr [OF d2(3)]
  have "\<not> (\<exists>ctx. bearer_account sv' r claims svc token d' = Pass ctx)"
    if "RefreshTokenStr s \<noteq> token" "qPath r = ''/xrpc/com.atproto.server.refreshSession''"
  proof
    assume "\<exists>ctx. bearer_account sv' r claims svc token d' = Pass ctx"
    then obtain ctx where "bearer_account sv' r claims svc token d' = Pass ctx" ..
    from bearer_account_Pass [OF this] that(2) have "\<exists>t \<in> set (refreshTokens d'). rtToken t = token" by blast
    with c(1) d2(1) that(1) show False by (auto simp: sql_delete_def)
  qed
  with c(1) d2(1,2) show ?thesis by (intro exI [of _ s]) simp
qed

theorem refresh_rotates_witness:
  "\<exists>w d'. handleRefreshSession demo_server ''old'' demo_account demo_db = (w, d') \<and> status_of w = 200 \<and>
     (\<exists>s :: Session. tokens d' = [\<lparr>tToken = AccessToken s, tDid = ''did:plc:a'', tRefreshToken = RefreshTokenStr s,
          tCreatedAt = 110 * Second, tExpiresAt = 110 * Second + 3 * Hour\<rparr>])"
proof -
  obtain w d' where x: "handleRefreshSession demo_server ''old'' demo_account demo_db = (w, d')"
    by (cases "handleRefreshSession demo_server ''old'' demo_account demo_db")
  have st: "status_of w = 200"
    using x by (auto simp: handleRefreshSession_def db_exec_def createSession_def signInternalJWT_def
        db_create_def sql_insert_def sql_delete_def Let_def demo_server_def demo_db_def emptyDb_def)
  have "sql_delete (\<lambda>t. tRefreshToken t = ''old'') (tokens demo_db) = []" by code_simp
  moreover have "sNow demo_server = 110 * Second" "rDid (raRepo demo_account) = ''did:plc:a''"
    by (simp_all add: demo_server_def demo_account_def demo_repo_def)
  moreover obtain s :: Session where "tokens d' = sql_delete (\<lambda>t. tRefreshToken t = ''old'') (tokens demo_db) @
      [\<lparr>tToken = AccessToken s, tDid = rDid (raRepo demo_account), tRefreshToken = RefreshTokenStr s,
        tCreatedAt = sNow demo_server, tExpiresAt = sNow demo_server + 3 * Hour\<rparr>]"
    using refresh_rotates [OF x st] by blast
  ultimately have "\<exists>s :: Session. tokens d' = [\<lparr>tToken = AccessToken s, tDid = ''did:plc:a'',
      tRefreshToken = RefreshTokenStr s, tCreatedAt = 110 * Second, tExpiresAt = 110 * Second + 3 * Hour\<rparr>]"
    by auto
  with x st show ?thesis by blast
qed

end
