(* ===== verification/Webauthn.thy ===== *)
theory Webauthn
  imports Middleware
begin

unbundle bit_operations_syntax

text \<open>
  server/webauthn.go: registration data (authenticatorData, COSE keys), assertions, and the
  conversion of DER signatures; the challenge endpoints; and the check of a signer's answer
  with the token expiry test of server/handle_signer_connect.go.  CBOR and JSON decoding,
  SHA-256 and the elliptic curve operations are parameters; the DER subset encoding/asn1
  accepts for a pair of integers is spelled out.
\<close>

section \<open>Parameters\<close>

text \<open>A decoded COSE map: each value can be read as an integer, as a byte string, or neither.\<close>

record coseValue =
  asInt :: "int option"
  asBytes :: "bytes option"

record ('pub, 'kpub) webauthnLib =
  cborAuthData :: "bytes \<Rightarrow> bytes option"
  cborCose :: "bytes \<Rightarrow> (int \<rightharpoonup> coseValue) option"
  jsonClientData :: "bytes \<Rightarrow> (string \<times> string) option"
  waSha256 :: "bytes \<Rightarrow> bytes"
  unmarshalP256 :: "bytes \<Rightarrow> 'pub option"
  ecdsaVerify :: "'pub \<Rightarrow> bytes \<Rightarrow> nat \<Rightarrow> nat \<Rightarrow> bool"
  parseK256 :: "bytes \<Rightarrow> 'kpub option"
  verifyK256 :: "'kpub \<Rightarrow> bytes \<Rightarrow> bytes \<Rightarrow> bool"

section \<open>Registration\<close>

text \<open>A map entry that is absent leaves the zero value; one of the wrong type is an error.\<close>

definition cose_int :: "(int \<rightharpoonup> coseValue) \<Rightarrow> int \<Rightarrow> goerr + int" where
  "cose_int m k = (case m k of None \<Rightarrow> Inr 0
     | Some v \<Rightarrow> (case asInt v of None \<Rightarrow> Inl (Err ''decode'') | Some n \<Rightarrow> Inr n))"

definition cose_bytes :: "(int \<rightharpoonup> coseValue) \<Rightarrow> int \<Rightarrow> goerr + bytes" where
  "cose_bytes m k = (case m k of None \<Rightarrow> Inr []
     | Some v \<Rightarrow> (case asBytes v of None \<Rightarrow> Inl (Err ''decode'') | Some b \<Rightarrow> Inr b))"

definition parseCOSEKey :: "('pub, 'kpub) webauthnLib \<Rightarrow> bytes \<Rightarrow> goerr + bytes" where
  "parseCOSEKey W coseKey =
     (case cborCose W coseKey of
        None \<Rightarrow> Inl (Err ''unmarshal COSE_Key'')
      | Some m \<Rightarrow>
          (case cose_int m 1 of Inl e \<Rightarrow> Inl e | Inr kty \<Rightarrow>
          if kty \<noteq> 2 then Inl (Err ''unsupported COSE key type'')
          else (case cose_int m (-1) of Inl e \<Rightarrow> Inl e | Inr crv \<Rightarrow>
          if crv \<noteq> 1 then Inl (Err ''unsupported COSE curve'')
          else (case cose_bytes m (-2) of Inl e \<Rightarrow> Inl e | Inr x \<Rightarrow>
          (case cose_bytes m (-3) of Inl e \<Rightarrow> Inl e | Inr y \<Rightarrow>
          if length x \<noteq> 32 \<or> length y \<noteq> 32 then Inl (Err ''unexpected key coordinate lengths'')
          else Inr ((if (y ! 31) AND 1 = 1 then 3 else 2) # x))))))"

definition parseAuthData :: "('pub, 'kpub) webauthnLib \<Rightarrow> bytes \<Rightarrow> goerr + (bytes \<times> bytes)" where
  "parseAuthData W authData =
     (if length authData < 37 then Inl (Err ''authData too short'')
      else if (authData ! 32) AND 0x40 = 0 then Inl (Err ''authData AT flag not set'')
      else if length authData < 55 then Inl (Err ''authData too short for attested credential data'')
      else let credIDLen = push_bit 8 (unat (authData ! 53)) OR unat (authData ! 54);
               offset = 55
      in if length authData < offset + credIDLen then Inl (Err ''authData too short for credId'')
         else let credentialID = take credIDLen (drop offset authData);
                  coseKey = drop (offset + credIDLen) authData
         in case parseCOSEKey W coseKey of
              Inl e \<Rightarrow> Inl (Wrap ''parse COSE key'' e)
            | Inr pub \<Rightarrow> Inr (pub, credentialID))"

definition parseAttestationObject :: "('pub, 'kpub) webauthnLib \<Rightarrow> string \<Rightarrow> goerr + (bytes \<times> bytes)" where
  "parseAttestationObject W b64 =
     (case b64_decode b64 of
        None \<Rightarrow> Inl (Err ''decode attestationObject'')
      | Some raw \<Rightarrow>
          (case cborAuthData W raw of
             None \<Rightarrow> Inl (Err ''unmarshal attestationObject CBOR'')
           | Some authData \<Rightarrow>
               (case parseAuthData W authData of
                  Inl e \<Rightarrow> Inl (Wrap ''parse authData'' e)
                | Inr r \<Rightarrow> Inr r)))"

section \<open>DER signatures\<close>

text \<open>
  The part of asn1.Unmarshal a struct of two integers needs: tags, DER lengths (short, or long
  and minimal), minimally encoded integers.  Bytes after the second integer inside the sequence
  are ignored, as the library does.
\<close>

fun der_long_len :: "nat \<Rightarrow> nat \<Rightarrow> bytes \<Rightarrow> (nat \<times> bytes) option" where
  "der_long_len 0 acc bs = (if acc < 128 then None else Some (acc, bs))"
| "der_long_len (Suc n) acc bs =
     (case bs of [] \<Rightarrow> None
      | b # rest \<Rightarrow>
          if acc \<ge> 2 ^ 23 then None
          else let acc' = acc * 256 + unat b in
               if acc' = 0 then None else der_long_len n acc' rest)"

definition der_len :: "bytes \<Rightarrow> (nat \<times> bytes) option" where
  "der_len bs =
     (case bs of [] \<Rightarrow> None
      | b # rest \<Rightarrow>
          if unat b < 128 then Some (unat b, rest)
          else if unat b = 128 then None
          else der_long_len (unat b - 128) 0 rest)"

definition der_element :: "byte \<Rightarrow> bytes \<Rightarrow> (bytes \<times> bytes) option" where
  "der_element tag bs =
     (case bs of [] \<Rightarrow> None
      | t # rest \<Rightarrow>
          if t \<noteq> tag then None
          else (case der_len rest of None \<Rightarrow> None
                | Some (n, rest') \<Rightarrow>
                    if length rest' < n then None else Some (take n rest', drop n rest')))"

fun bytes_nat :: "nat \<Rightarrow> bytes \<Rightarrow> nat" where
  "bytes_nat acc [] = acc"
| "bytes_nat acc (b # bs) = bytes_nat (acc * 256 + unat b) bs"

definition der_minimal :: "bytes \<Rightarrow> bool" where
  "der_minimal bs =
     (case bs of [] \<Rightarrow> False | [_] \<Rightarrow> True
      | a # b # _ \<Rightarrow> \<not> (a = 0 \<and> unat b < 128) \<and> \<not> (a = 255 \<and> unat b \<ge> 128))"

definition der_int :: "bytes \<Rightarrow> int option" where
  "der_int bs =
     (if \<not> der_minimal bs then None
      else let n = int (bytes_nat 0 bs) in
           Some (if unat (hd bs) \<ge> 128 then n - 2 ^ (8 * length bs) else n))"

definition asn1_pair :: "bytes \<Rightarrow> (int \<times> int \<times> bytes) option" where
  "asn1_pair der =
     (case der_element 0x30 der of None \<Rightarrow> None
      | Some (body, rest) \<Rightarrow>
          (case der_element 2 body of None \<Rightarrow> None
           | Some (rb, body') \<Rightarrow>
               (case der_int rb of None \<Rightarrow> None
                | Some r \<Rightarrow>
                    (case der_element 2 body' of None \<Rightarrow> None
                     | Some (sb, _) \<Rightarrow>
                         (case der_int sb of None \<Rightarrow> None | Some s \<Rightarrow> Some (r, s, rest))))))"

text \<open>\<open>big.Int.Bytes\<close>: the absolute value, big endian, without leading zeros.\<close>

fun nat_bytes :: "nat \<Rightarrow> bytes" where
  "nat_bytes n = (if n = 0 then [] else nat_bytes (n div 256) @ [of_nat (n mod 256)])"

declare nat_bytes.simps [simp del]

definition derToRawECDSA :: "bytes \<Rightarrow> goerr + bytes" where
  "derToRawECDSA der =
     (case asn1_pair der of
        None \<Rightarrow> Inl (Err ''asn1 unmarshal'')
      | Some (r, s, rest) \<Rightarrow>
          if rest \<noteq> [] then Inl (Err ''trailing bytes after DER signature'')
          else let rBytes = nat_bytes (nat \<bar>r\<bar>); sBytes = nat_bytes (nat \<bar>s\<bar>) in
               if length rBytes > 32 \<or> length sBytes > 32
               then Inl (Err ''r or s component exceeds 32 bytes'')
               else Inr (replicate (32 - length rBytes) 0 @ rBytes @
                         replicate (32 - length sBytes) 0 @ sBytes))"

section \<open>Assertions\<close>

definition decompressP256 :: "('pub, 'kpub) webauthnLib \<Rightarrow> bytes \<Rightarrow> goerr + 'pub" where
  "decompressP256 W compressed =
     (if length compressed \<noteq> 33 then Inl (Err ''expected 33-byte compressed key'')
      else (case unmarshalP256 W compressed of
              None \<Rightarrow> Inl (Err ''failed to unmarshal compressed P-256 key'')
            | Some pub \<Rightarrow> Inr pub))"

text \<open>\<open>base64.URLEncoding\<close>: like the raw encoding, padded to a multiple of four.\<close>

definition b64_decode_padded :: "string \<Rightarrow> bytes option" where
  "b64_decode_padded s =
     (let t = filter (\<lambda>c. (of_char c :: nat) \<noteq> 10 \<and> (of_char c :: nat) \<noteq> 13) s;
          core = rev (dropWhile (\<lambda>c. c = CHR ''='') (rev t))
      in if length t mod 4 \<noteq> 0 \<or> length t - length core > 2 then None else b64_decode core)"

definition clientChallenge :: "string \<Rightarrow> bytes option" where
  "clientChallenge c = (case b64_decode c of Some b \<Rightarrow> Some b | None \<Rightarrow> b64_decode_padded c)"

definition verifyAssertion ::
  "('pub, 'kpub) webauthnLib \<Rightarrow> bytes \<Rightarrow> bytes \<Rightarrow> bytes \<Rightarrow> bytes \<Rightarrow> bytes \<Rightarrow> string \<Rightarrow> goerr + bytes" where
  "verifyAssertion W pubKey expectedChallenge clientDataBytes authBytes signatureDER rpID =
     (case jsonClientData W clientDataBytes of
        None \<Rightarrow> Inl (Err ''unmarshal clientDataJSON'')
      | Some (type, challenge) \<Rightarrow>
          if type \<noteq> ''webauthn.get'' then Inl (Err ''unexpected clientData type'')
          else (case clientChallenge challenge of
             None \<Rightarrow> Inl (Err ''decode challenge from clientDataJSON'')
           | Some got \<Rightarrow>
               if length got \<noteq> length expectedChallenge then Inl (Err ''challenge length mismatch'')
               else if got \<noteq> expectedChallenge then Inl (Err ''challenge mismatch'')
               else if length authBytes < 37 then Inl (Err ''authenticatorData too short'')
               else if take 32 authBytes \<noteq> waSha256 W (to_bytes rpID) then Inl (Err ''rpIdHash mismatch'')
               else if (authBytes ! 32) AND 1 = 0 then Inl (Err ''user presence flag not set'')
               else let signedData = authBytes @ waSha256 W clientDataBytes in
               (case derToRawECDSA signatureDER of
                  Inl e \<Rightarrow> Inl (Wrap ''parse DER signature'' e)
                | Inr raw \<Rightarrow>
                    (case decompressP256 W pubKey of
                       Inl e \<Rightarrow> Inl (Wrap ''decompress public key'' e)
                     | Inr pub \<Rightarrow>
                         if \<not> ecdsaVerify W pub (waSha256 W signedData)
                              (bytes_nat 0 (take 32 raw)) (bytes_nat 0 (drop 32 raw))
                         then Inl (Err ''signature verification failed'')
                         else Inr raw))))"

section \<open>Challenges\<close>

text \<open>\<open>rnd\<close>: the 32 random bytes, or a failing source.\<close>

definition handlePasskeyChallenge :: "server \<Rightarrow> bytes option \<Rightarrow> RepoActor option \<Rightarrow> outcome" where
  "handlePasskeyChallenge sv rnd repo =
     (case repo of
        None \<Rightarrow> UnauthorizedError None
      | Some x \<Rightarrow>
          (case rnd of
             None \<Rightarrow> ServerError None
           | Some bs \<Rightarrow>
               writeJSON 200 (JObj
                 [(''rp'', JObj [(''id'', JStr (sHostname sv)), (''name'', JStr ''Vow PDS'')]),
                  (''user'', JObj [(''id'', JStr (b64_encode (to_bytes (rDid (raRepo x))))),
                     (''name'', JStr (aHandle (raActor x))), (''displayName'', JStr (aHandle (raActor x)))]),
                  (''challenge'', JStr (b64_encode bs)),
                  (''pubKeyCredParams'', JArr [JObj [(''type'', JStr ''public-key''), (''alg'', JNum (-7))]]),
                  (''authenticatorSelection'', JObj [(''userVerification'', JStr ''preferred''),
                     (''residentKey'', JStr ''preferred'')]),
                  (''attestation'', JStr ''none''), (''timeout'', JNum 60000)])))"

definition deletion_challenge :: "('pub, 'kpub) webauthnLib \<Rightarrow> string \<Rightarrow> bytes" where
  "deletion_challenge W did = waSha256 W (to_bytes (''Delete account: '' @ did))"

definition handlePasskeyAssertionChallenge ::
  "server \<Rightarrow> ('pub, 'kpub) webauthnLib \<Rightarrow> RepoActor option \<Rightarrow> outcome" where
  "handlePasskeyAssertionChallenge sv W repo =
     (case repo of
        None \<Rightarrow> UnauthorizedError None
      | Some x \<Rightarrow>
          if rAuthPublicKey (raRepo x) = [] then
            writeJSON 400 (JObj [(''error'', JStr ''NoSigningKey''),
              (''message'', JStr ''No passkey is registered for this account.'')])
          else if rCredentialID (raRepo x) = [] then
            writeJSON 400 (JObj [(''error'', JStr ''NoCredentialID''),
              (''message'', JStr ''No credential ID found for this account. Please re-register your passkey.'')])
          else writeJSON 200 (JObj
            [(''challenge'', JStr (b64_encode (deletion_challenge W (rDid (raRepo x))))),
             (''allowCredentials'', JArr [JObj [(''id'', JStr (b64_encode (rCredentialID (raRepo x)))),
                (''type'', JStr ''public-key'')]]),
             (''timeout'', JNum 30000), (''userVerification'', JStr ''preferred''),
             (''rpId'', JStr (sHostname sv))]))"

section \<open>The signer's answers\<close>

record wsIncoming =
  wsType :: string
  wsRequestID :: string
  wsAuthenticatorData :: string
  wsClientDataJSON :: string
  wsSignature :: string
  wsCommitSignature :: string

definition verifyWebAuthnSignResponse ::
  "('pub, 'kpub) webauthnLib \<Rightarrow> bytes \<Rightarrow> bytes \<Rightarrow> string \<Rightarrow> wsIncoming \<Rightarrow> string \<Rightarrow> goerr + bytes" where
  "verifyWebAuthnSignResponse W authPubKey signingPubKey payloadB64 m rpID =
     (if wsAuthenticatorData m = '''' \<or> wsClientDataJSON m = '''' \<or> wsSignature m = ''''
      then Inl ErrSignerNotConnected
      else if wsCommitSignature m = '''' then Inl (Err ''missing commitSignature in sign_response'')
      else (case b64_decode payloadB64 of None \<Rightarrow> Inl (Err ''payload'') | Some expected \<Rightarrow>
           (case b64_decode (wsClientDataJSON m) of None \<Rightarrow> Inl (Err ''clientDataJSON'') | Some cd \<Rightarrow>
           (case b64_decode (wsAuthenticatorData m) of None \<Rightarrow> Inl (Err ''authenticatorData'') | Some ad \<Rightarrow>
           (case b64_decode (wsSignature m) of None \<Rightarrow> Inl (Err ''signature'') | Some der \<Rightarrow>
           (case verifyAssertion W authPubKey expected cd ad der rpID of Inl e \<Rightarrow> Inl e | Inr _ \<Rightarrow>
           (case b64_decode (wsCommitSignature m) of
              None \<Rightarrow> Inl (Err ''invalid commitSignature encoding'') | Some commitSig \<Rightarrow>
              if length commitSig \<noteq> 64 then Inl (Err ''invalid commitSignature length'')
              else (case parseK256 W signingPubKey of
                      None \<Rightarrow> Inl (Err ''failed to parse registered signing key'')
                    | Some k \<Rightarrow>
                        if \<not> verifyK256 W k expected commitSig
                        then Inl (Err ''commit signature verification failed'')
                        else Inr commitSig))))))))"

text \<open>\<open>json_exp\<close> decodes the claim exp (zero when absent), \<open>None\<close> when the payload is no JSON.\<close>

fun split_n :: "char \<Rightarrow> nat \<Rightarrow> string \<Rightarrow> string list" where
  "split_n c 0 s = []"
| "split_n c (Suc 0) s = [s]"
| "split_n c (Suc (Suc n)) s =
     (case dropWhile (\<lambda>x. x \<noteq> c) s of
        [] \<Rightarrow> [s]
      | _ # rest \<Rightarrow> takeWhile (\<lambda>x. x \<noteq> c) s # split_n c (Suc n) rest)"

definition isTokenExpired :: "(bytes \<Rightarrow> int option) \<Rightarrow> time \<Rightarrow> string \<Rightarrow> bool" where
  "isTokenExpired json_exp now tokenStr =
     (case split_n (CHR ''.'') 3 tokenStr of
        [_, p, _] \<Rightarrow>
          (case b64_decode p of
             None \<Rightarrow> True
           | Some pl \<Rightarrow>
               (case json_exp pl of None \<Rightarrow> True | Some ex \<Rightarrow> ex > 0 \<and> Unix now > ex))
      | _ \<Rightarrow> True)"

section \<open>Numbers and bytes\<close>

lemma bytes_nat_append: "bytes_nat acc (xs @ ys) = bytes_nat (bytes_nat acc xs) ys"
  by (induction xs arbitrary: acc) auto

lemma bytes_nat_zeros [simp]: "bytes_nat 0 (replicate k 0 @ xs) = bytes_nat 0 xs"
  by (induction k) auto

lemma bytes_nat_nat_bytes [simp]: "bytes_nat 0 (nat_bytes n) = n"
proof (induction n rule: nat_bytes.induct)
  case (1 n)
  show ?case
  proof (cases "n = 0")
    case False
    have "unat (of_nat (n mod 256) :: byte) = n mod 256"
      by (simp add: unsigned_of_nat take_bit_eq_mod)
    with 1 False show ?thesis by (subst nat_bytes.simps) (simp add: bytes_nat_append)
  qed (simp add: nat_bytes.simps)
qed

lemma length_nat_bytes: "n < 256 ^ k \<Longrightarrow> length (nat_bytes n) \<le> k"
proof (induction k arbitrary: n)
  case 0
  then show ?case by (simp add: nat_bytes.simps)
next
  case (Suc k)
  then have "n div 256 < 256 ^ k" by (simp add: less_mult_imp_div_less)
  from Suc.IH [OF this] show ?case by (subst nat_bytes.simps) simp
qed

lemma hd_nat_bytes: "n \<noteq> 0 \<Longrightarrow> nat_bytes n \<noteq> [] \<and> hd (nat_bytes n) \<noteq> 0"
proof (induction n rule: nat_bytes.induct)
  case (1 n)
  show ?case
  proof (cases "n div 256 = 0")
    case True
    then have lt: "n < 256" by (simp add: div_eq_0_iff)
    have "nat_bytes n = [of_nat n]"
      using 1(2) lt by (subst nat_bytes.simps) (simp add: nat_bytes.simps)
    moreover have "(of_nat n :: byte) \<noteq> 0"
    proof
      assume "(of_nat n :: byte) = 0"
      then have "unat (of_nat n :: byte) = 0" by simp
      with lt have "n = 0" by (simp add: unsigned_of_nat take_bit_eq_mod)
      with 1(2) show False by simp
    qed
    ultimately show ?thesis by simp
  next
    case False
    with 1 have "nat_bytes (n div 256) \<noteq> [] \<and> hd (nat_bytes (n div 256)) \<noteq> 0" by simp
    then show ?thesis using 1(2) by (subst (1 2) nat_bytes.simps) simp
  qed
qed

section \<open>DER round trip\<close>

definition der_int_enc :: "nat \<Rightarrow> bytes" where
  "der_int_enc n = (let bs = nat_bytes n in
     if bs = [] then [0] else if unat (hd bs) \<ge> 128 then 0 # bs else bs)"

definition der_tlv :: "byte \<Rightarrow> bytes \<Rightarrow> bytes" where
  "der_tlv tag bs = tag # of_nat (length bs) # bs"

text \<open>The encoding of a signature (r, s), as an authenticator writes it.\<close>

definition der_sig :: "nat \<Rightarrow> nat \<Rightarrow> bytes" where
  "der_sig r s = der_tlv 0x30 (der_tlv 2 (der_int_enc r) @ der_tlv 2 (der_int_enc s))"

lemma der_element_tlv: "length bs < 128 \<Longrightarrow> der_element tag (der_tlv tag bs @ rest) = Some (bs, rest)"
proof -
  assume l: "length bs < 128"
  then have "unat (of_nat (length bs) :: byte) = length bs"
    by (simp add: unsigned_of_nat take_bit_eq_mod)
  with l show ?thesis by (simp add: der_element_def der_tlv_def der_len_def)
qed

lemma der_int_enc_int: "der_int (der_int_enc n) = Some (int n)"
proof (cases "n = 0")
  case True
  then show ?thesis by (simp add: der_int_enc_def der_int_def der_minimal_def nat_bytes.simps)
next
  case False
  then obtain b bs where n: "nat_bytes n = b # bs" "b \<noteq> 0"
    using hd_nat_bytes [OF False] by (cases "nat_bytes n") auto
  have v: "bytes_nat (unat b) bs = n" using bytes_nat_nat_bytes [of n] n(1) by simp
  show ?thesis
  proof (cases "unat b \<ge> 128")
    case True
    with n v show ?thesis by (simp add: der_int_enc_def der_int_def der_minimal_def)
  next
    case False
    then have "b \<noteq> 255" by auto
    with False n v show ?thesis
      by (auto simp: der_int_enc_def der_int_def der_minimal_def split: list.splits)
  qed
qed

lemma length_der_int_enc: "n < 256 ^ k \<Longrightarrow> length (der_int_enc n) \<le> k + 1"
  using length_nat_bytes [of n k] by (auto simp: der_int_enc_def Let_def)

lemma asn1_pair_der_sig:
  assumes "r < 2 ^ 256" and "s < 2 ^ 256"
  shows "asn1_pair (der_sig r s) = Some (int r, int s, [])"
proof -
  have "r < 256 ^ 32" "s < 256 ^ 32" using assms by simp_all
  then have l: "length (der_int_enc r) \<le> 33" "length (der_int_enc s) \<le> 33"
    using length_der_int_enc [of r 32] length_der_int_enc [of s 32] by simp_all
  let ?body = "der_tlv 2 (der_int_enc r) @ der_tlv 2 (der_int_enc s)"
  have "length ?body < 128" using l by (simp add: der_tlv_def)
  then have "der_element 0x30 (der_sig r s) = Some (?body, [])"
    using der_element_tlv [of ?body "0x30" "[]"] by (simp add: der_sig_def)
  moreover have "der_element 2 ?body = Some (der_int_enc r, der_tlv 2 (der_int_enc s))"
    using l by (intro der_element_tlv) simp
  moreover have "der_element 2 (der_tlv 2 (der_int_enc s)) = Some (der_int_enc s, [])"
    using l der_element_tlv [of "der_int_enc s" 2 "[]"] by simp
  ultimately show ?thesis by (simp add: asn1_pair_def der_int_enc_int)
qed

lemma derToRaw_length: "derToRawECDSA der = Inr out \<Longrightarrow> length out = 64"
  by (auto simp: derToRawECDSA_def Let_def split: option.splits if_splits prod.splits)

section \<open>Properties\<close>

text \<open>
  C11: \<open>derToRawECDSA\<close> inverts the DER encoding of every signature with 256-bit components: the
  result has 64 bytes, whose halves are r and s in big-endian order.
\<close>

theorem der_round_trip:
  assumes "r < 2 ^ 256" and "s < 2 ^ 256"
  shows "\<exists>out. derToRawECDSA (der_sig r s) = Inr out \<and> length out = 64 \<and>
    bytes_nat 0 (take 32 out) = r \<and> bytes_nat 0 (drop 32 out) = s"
proof -
  have "r < 256 ^ 32" "s < 256 ^ 32" using assms by simp_all
  then have l: "length (nat_bytes r) \<le> 32" "length (nat_bytes s) \<le> 32"
    by (simp_all only: length_nat_bytes)
  let ?pad = "\<lambda>n. replicate (32 - length (nat_bytes n)) 0 @ nat_bytes n"
  have len: "length (?pad r) = 32" "length (?pad s) = 32" using l by simp_all
  have "derToRawECDSA (der_sig r s) = Inr (?pad r @ ?pad s)"
    using l by (simp add: derToRawECDSA_def asn1_pair_der_sig [OF assms] Let_def)
  moreover have "take 32 (?pad r @ ?pad s) = ?pad r" "drop 32 (?pad r @ ?pad s) = ?pad s"
    using l by simp_all
  ultimately show ?thesis
    using len by (intro exI [of _ "?pad r @ ?pad s"]) (simp del: append_assoc)
qed

theorem der_round_trip_witness:
  "\<exists>out. derToRawECDSA (der_sig 200 1) = Inr out \<and> bytes_nat 0 (take 32 out) = 200"
  using der_round_trip [of 200 1] by auto

text \<open>
  C12: a signature accepted from a signer is 64 bytes that verify with the account's signing key
  over the very payload that was sent; and the passkey signed, in a webauthn.get ceremony for
  this host with the user present, a challenge equal to that payload, with the P-256 key
  registered for the account.
\<close>

theorem sign_response_sound:
  assumes "verifyWebAuthnSignResponse W authPubKey signingPubKey payloadB64 m rpID = Inr sg"
  shows "\<exists>expected cd ad der ch raw pub k. b64_decode payloadB64 = Some expected \<and>
    b64_decode (wsClientDataJSON m) = Some cd \<and> b64_decode (wsAuthenticatorData m) = Some ad \<and>
    b64_decode (wsSignature m) = Some der \<and>
    jsonClientData W cd = Some (''webauthn.get'', ch) \<and> clientChallenge ch = Some expected \<and>
    take 32 ad = waSha256 W (to_bytes rpID) \<and> (ad ! 32) AND 1 \<noteq> 0 \<and>
    derToRawECDSA der = Inr raw \<and> unmarshalP256 W authPubKey = Some pub \<and>
    ecdsaVerify W pub (waSha256 W (ad @ waSha256 W cd)) (bytes_nat 0 (take 32 raw)) (bytes_nat 0 (drop 32 raw)) \<and>
    parseK256 W signingPubKey = Some k \<and> verifyK256 W k expected sg \<and> length sg = 64"
proof -
  obtain expected cd ad der raw where d: "b64_decode payloadB64 = Some expected"
    "b64_decode (wsClientDataJSON m) = Some cd" "b64_decode (wsAuthenticatorData m) = Some ad"
    "b64_decode (wsSignature m) = Some der"
    "verifyAssertion W authPubKey expected cd ad der rpID = Inr raw"
    using assms by (auto simp: verifyWebAuthnSignResponse_def split: if_splits option.splits sum.splits)
  then obtain k where k: "parseK256 W signingPubKey = Some k" "verifyK256 W k expected sg" "length sg = 64"
    using assms by (auto simp: verifyWebAuthnSignResponse_def split: if_splits option.splits)
  obtain ch pub where v: "jsonClientData W cd = Some (''webauthn.get'', ch)" "clientChallenge ch = Some expected"
    "take 32 ad = waSha256 W (to_bytes rpID)" "(ad ! 32) AND 1 \<noteq> 0" "derToRawECDSA der = Inr raw"
    "unmarshalP256 W authPubKey = Some pub"
    "ecdsaVerify W pub (waSha256 W (ad @ waSha256 W cd)) (bytes_nat 0 (take 32 raw)) (bytes_nat 0 (drop 32 raw))"
    using d(5) unfolding verifyAssertion_def Let_def
    by (auto simp: decompressP256_def split: if_splits option.splits sum.splits prod.splits)
  show ?thesis
    by (intro exI conjI) (fact d(1) d(2) d(3) d(4) v k)+
qed

definition demo_webauthn :: "(unit, unit) webauthnLib" where
  "demo_webauthn = \<lparr>cborAuthData = Some, cborCose = (\<lambda>_. Some [1 \<mapsto> \<lparr>asInt = Some 2, asBytes = None\<rparr>,
       -1 \<mapsto> \<lparr>asInt = Some 1, asBytes = None\<rparr>, -2 \<mapsto> \<lparr>asInt = None, asBytes = Some (replicate 32 5)\<rparr>,
       -3 \<mapsto> \<lparr>asInt = None, asBytes = Some (replicate 32 7)\<rparr>]),
     jsonClientData = (\<lambda>_. Some (''webauthn.get'', ''AQI'')), waSha256 = (\<lambda>_. replicate 32 9),
     unmarshalP256 = (\<lambda>_. Some ()), ecdsaVerify = (\<lambda>_ _ _ _. True), parseK256 = (\<lambda>_. Some ()),
     verifyK256 = (\<lambda>_ _ _. True)\<rparr>"

definition demo_answer :: wsIncoming where
  "demo_answer = \<lparr>wsType = ''sign_response'', wsRequestID = ''r'',
     wsAuthenticatorData = b64_encode (replicate 32 9 @ [1, 0, 0, 0, 0]),
     wsClientDataJSON = ''AA'', wsSignature = b64_encode (der_sig 3 4),
     wsCommitSignature = b64_encode (replicate 64 8)\<rparr>"

theorem sign_response_sound_witness:
  "\<exists>expected. verifyWebAuthnSignResponse demo_webauthn (replicate 33 2) (replicate 33 2) ''AQI'' demo_answer ''pds''
     = Inr (replicate 64 8) \<and> b64_decode ''AQI'' = Some expected"
proof -
  have "verifyWebAuthnSignResponse demo_webauthn (replicate 33 2) (replicate 33 2) ''AQI'' demo_answer ''pds''
     = Inr (replicate 64 8)" by code_simp
  from this sign_response_sound [OF this] show ?thesis by blast
qed

text \<open>
  Registration data round trip.  From authenticatorData that is built as the WebAuthn
  layout prescribes, with the AT flag set and a credential id of at most 65535 bytes,
  \<open>parseAuthData\<close> recovers the credential id and the compressed form of the COSE key.
\<close>

theorem auth_data_round_trip:
  assumes "length rp = 32" and "flags AND 0x40 \<noteq> 0" and "length cnt = 4" and "length aaguid = 16"
    and "length cid < 65536"
    and "cborCose W cose = Some m" and "m 1 = Some kv" and "asInt kv = Some 2"
    and "m (-1) = Some cv" and "asInt cv = Some 1" and "m (-2) = Some xv" and "asBytes xv = Some x"
    and "m (-3) = Some yv" and "asBytes yv = Some y" and "length x = 32" and "length y = 32"
  shows "parseAuthData W (rp @ [flags] @ cnt @ aaguid @
      [of_nat (length cid div 256), of_nat (length cid mod 256)] @ cid @ cose) =
    Inr ((if (last y) AND 1 = 1 then 3 else 2) # x, cid)"
proof -
  let ?hi = "of_nat (length cid div 256) :: byte" and ?lo = "of_nat (length cid mod 256) :: byte"
  let ?ad = "rp @ [flags] @ cnt @ aaguid @ [?hi, ?lo] @ cid @ cose"
  have pre: "length (rp @ [flags] @ cnt @ aaguid) = 53" using assms(1,3,4) by simp
  have n53: "?ad ! 53 = ?hi" "?ad ! 54 = ?lo"
    using nth_append [of "rp @ [flags] @ cnt @ aaguid" "[?hi, ?lo] @ cid @ cose"] pre by simp_all
  have n32: "?ad ! 32 = flags" using assms(1) by (simp add: nth_append)
  have "length cid div 256 < 256" using assms(5) by (simp add: div_less_iff_less_mult)
  then have hi: "unat ?hi = length cid div 256" by (simp add: unsigned_of_nat take_bit_eq_mod)
  have lo: "unat ?lo = length cid mod 256" by (simp add: unsigned_of_nat take_bit_eq_mod)
  have "push_bit 8 (drop_bit 8 (length cid)) OR take_bit 8 (length cid) = length cid"
    by (rule bit_eqI) (auto simp: bit_simps)
  then have len: "push_bit 8 (unat (?ad ! 53)) OR unat (?ad ! 54) = length cid"
    unfolding n53 hi lo by (simp add: drop_bit_eq_div take_bit_eq_mod)
  have dr: "drop 55 ?ad = cid @ cose"
    using drop_append [of 55 "rp @ [flags] @ cnt @ aaguid @ [?hi, ?lo]" "cid @ cose"] assms(1,3,4) by simp
  then have dr2: "drop (55 + length cid) ?ad = cose"
  proof -
    have "drop (55 + length cid) ?ad = drop (length cid) (drop 55 ?ad)"
      by (simp only: drop_drop add.commute)
    then show ?thesis unfolding dr by simp
  qed
  have "y \<noteq> []" using assms(16) by auto
  then have "last y = y ! 31" using assms(16) by (simp add: last_conv_nth)
  then have key: "parseCOSEKey W cose = Inr ((if (last y) AND 1 = 1 then 3 else 2) # x)"
    using assms(6-16) by (simp add: parseCOSEKey_def cose_int_def cose_bytes_def)
  have "length ?ad = 55 + length cid + length cose" using assms(1,3,4) by simp
  then show ?thesis
    unfolding parseAuthData_def Let_def len n32 dr dr2 key using assms(2) by simp
qed

theorem auth_data_round_trip_witness:
  "parseAuthData demo_webauthn (replicate 32 9 @ [0x41] @ replicate 4 0 @ replicate 16 1 @ [0, 2] @ [10, 11] @ [])
   = Inr (3 # replicate 32 5, [10, 11])"
proof -
  let ?m = "[1 \<mapsto> \<lparr>asInt = Some 2, asBytes = None\<rparr>,
       -1 \<mapsto> \<lparr>asInt = Some 1, asBytes = None\<rparr>, -2 \<mapsto> \<lparr>asInt = None, asBytes = Some (replicate 32 5)\<rparr>,
       -3 \<mapsto> \<lparr>asInt = None, asBytes = Some (replicate 32 7)\<rparr>] :: int \<rightharpoonup> coseValue"
  have m: "cborCose demo_webauthn [] = Some ?m" by (simp add: demo_webauthn_def)
  have l: "(last (replicate 32 7 :: bytes)) AND 1 = 1" by simp
  have "parseAuthData demo_webauthn (replicate 32 9 @ [0x41] @ replicate 4 0 @ replicate 16 1 @
      [of_nat (length [10, 11 :: byte] div 256), of_nat (length [10, 11 :: byte] mod 256)] @ [10, 11] @ []) =
    Inr ((if (last (replicate 32 7 :: bytes)) AND 1 = 1 then 3 else 2) # replicate 32 5, [10, 11])"
    by (rule auth_data_round_trip [where kv = "\<lparr>asInt = Some 2, asBytes = None\<rparr>"
          and cv = "\<lparr>asInt = Some 1, asBytes = None\<rparr>" and xv = "\<lparr>asInt = None, asBytes = Some (replicate 32 5)\<rparr>"
          and yv = "\<lparr>asInt = None, asBytes = Some (replicate 32 7)\<rparr>", OF _ _ _ _ _ m]) simp_all
  then show ?thesis using l by simp
qed

end
