(* ===== verification/SignerConnect.thy ===== *)
theory SignerConnect
  imports Webauthn SignerGuarantees
begin

text \<open>
  The WebSocket ends of the signer (server/handle_signer_connect.go and
  server/handle_account_signer.go) as functions: opening a connection, and one iteration of
  the select loop; the messages they send; and the service-auth tokens made with them
  (server/handle_server_get_service_auth.go, server/service_auth.go).
\<close>

section \<open>Messages\<close>

definition buildSignRequestMsg ::
  "(time \<Rightarrow> string) \<Rightarrow> string \<Rightarrow> string \<Rightarrow> string \<Rightarrow> json list \<Rightarrow> time \<Rightarrow> string" where
  "buildSignRequestMsg rfc3339 rid did payloadB64 ops expiresAt =
     json_text (JObj [(''type'', JStr ''sign_request''), (''requestId'', JStr rid), (''did'', JStr did),
       (''payload'', JStr payloadB64), (''ops'', JArr ops), (''expiresAt'', JStr (rfc3339 expiresAt))])"

text \<open>One line of the summary shown before the passkey prompt.\<close>

definition pending_op :: "string \<Rightarrow> string \<Rightarrow> string \<Rightarrow> json" where
  "pending_op t collection rkey = JObj ([(''type'', JStr t), (''collection'', JStr collection)] @
     (if rkey \<noteq> '''' then [(''rkey'', JStr rkey)] else []))"

definition signerRequestTimeout :: duration where
  "signerRequestTimeout = 30 * Second"

definition buildSignJWTRequestMsg :: "string \<Rightarrow> string \<Rightarrow> string \<Rightarrow> string \<Rightarrow> string" where
  "buildSignJWTRequestMsg rid payloadB64 aud lxm =
     json_text (JObj [(''type'', JStr ''sign_jwt_request''), (''requestId'', JStr rid),
       (''jwtPayload'', JStr payloadB64), (''aud'', JStr aud), (''lxm'', JStr lxm)])"

text \<open>\<open>json_payloads\<close> decodes the fields payload and jwtPayload (empty when absent).\<close>

definition extractPayloadFromMsg :: "(string \<Rightarrow> (string \<times> string) option) \<Rightarrow> string \<Rightarrow> goerr + string" where
  "extractPayloadFromMsg json_payloads m =
     (case json_payloads m of
        None \<Rightarrow> Inl (Err ''json'')
      | Some (p, jp) \<Rightarrow>
          if p \<noteq> '''' then Inr p
          else if jp \<noteq> '''' then Inr jp
          else Inl (Err ''no payload in sign_request''))"

section \<open>Opening a connection\<close>

datatype opened = Refused outcome | UpgradeFailed | Opened nat signerHub

definition handleSignerConnect :: "RepoActor option \<Rightarrow> bool \<Rightarrow> signerHub \<Rightarrow> opened option" where
  "handleSignerConnect repo upgrade_ok h =
     (case repo of
        None \<Rightarrow> Some (Refused (UnauthorizedError None))
      | Some x \<Rightarrow>
          if rAuthPublicKey (raRepo x) = []
          then Some (Refused (InputError (Some ''no signing key registered for this account'')))
          else if \<not> upgrade_ok then Some UpgradeFailed
          else (case Register (rDid (raRepo x)) h of
                  None \<Rightarrow> None
                | Some (c, h') \<Rightarrow> Some (Opened c h')))"

text \<open>The browser's variant: the account comes from the session cookie, or an error does.\<close>

definition handleAccountSigner :: "(goerr + RepoActor) \<Rightarrow> bool \<Rightarrow> signerHub \<Rightarrow> opened option" where
  "handleAccountSigner session upgrade_ok h =
     (case session of
        Inl e \<Rightarrow> Some (Refused (httpError ''Unauthorized'' 401))
      | Inr x \<Rightarrow>
          if rAuthPublicKey (raRepo x) = []
          then Some (Refused (httpError ''no signing key registered for this account'' 400))
          else if \<not> upgrade_ok then Some UpgradeFailed
          else (case Register (rDid (raRepo x)) h of
                  None \<Rightarrow> None
                | Some (c, h') \<Rightarrow> Some (Opened c h')))"

section \<open>One iteration of the loop\<close>

text \<open>
  What the select can receive; the flags tell whether writing to the WebSocket succeeds.  The
  loop goes on, or the handler returns (with the close code it sent, if any); then its deferred
  calls unregister the connection and fail its requests.
\<close>

datatype ws_event =
    PingTick bool
  | TokenTick
  | Inbound wsIncoming
  | NextReq signerRequest bool
  | ReadErr
  | CtxEnd

datatype loop = Continue | Leave "nat option"

text \<open>A received message; \<open>None\<close> is a blocked delivery.\<close>

definition signer_message ::
  "('pub, 'kpub) webauthnLib \<Rightarrow> string \<Rightarrow> string \<Rightarrow> bytes \<Rightarrow> bytes \<Rightarrow> wsIncoming \<Rightarrow>
   (string \<times> string) list \<times> signerHub \<Rightarrow> ((string \<times> string) list \<times> signerHub) option" where
  "signer_message W hostname did authKey signKey m st =
     (let (payloads, h) = st in
      if wsType m = ''sign_response'' then
        (case map_of payloads (wsRequestID m) of
           None \<Rightarrow> Some (payloads, h)
         | Some pl \<Rightarrow>
             let payloads' = AList.delete (wsRequestID m) payloads in
             (case verifyWebAuthnSignResponse W authKey signKey pl m hostname of
                Inl e \<Rightarrow> Some (payloads', h)
              | Inr rawSig \<Rightarrow>
                  map_option (\<lambda>(_, h'). (payloads', h')) (DeliverSignature did (wsRequestID m) rawSig h)))
      else if wsType m = ''sign_reject'' then
        map_option (\<lambda>(_, h'). (AList.delete (wsRequestID m) payloads, h'))
          (DeliverRejection did (wsRequestID m) h)
      else Some (payloads, h))"

definition signerConnect_event ::
  "('pub, 'kpub) webauthnLib \<Rightarrow> (string \<Rightarrow> (string \<times> string) option) \<Rightarrow> (bytes \<Rightarrow> int option) \<Rightarrow> time \<Rightarrow>
   string \<Rightarrow> string \<Rightarrow> bytes \<Rightarrow> bytes \<Rightarrow> string \<Rightarrow> ws_event \<Rightarrow>
   (string \<times> string) list \<times> signerHub \<Rightarrow> (loop \<times> (string \<times> string) list \<times> signerHub) option" where
  "signerConnect_event W json_payloads json_exp now hostname did authKey signKey sessionToken ev st =
     (case ev of
        PingTick ok \<Rightarrow> Some (if ok then Continue else Leave None, st)
      | TokenTick \<Rightarrow>
          Some (if sessionToken \<noteq> '''' \<and> isTokenExpired json_exp now sessionToken
                then Leave (Some 4001) else Continue, st)
      | Inbound m \<Rightarrow>
          map_option (\<lambda>st'. (Continue, st')) (signer_message W hostname did authKey signKey m st)
      | NextReq req ok \<Rightarrow>
          (if \<not> ok then
             map_option (\<lambda>h'. (Leave None, fst st, h'))
               (send (reply req) \<lparr>sig = None, err = Some ErrSignerNotConnected\<rparr> (snd st))
           else (case extractPayloadFromMsg json_payloads (msg req) of
                   Inr p \<Rightarrow> Some (Continue, AList.update (requestID req) p (fst st), snd st)
                 | Inl e \<Rightarrow> Some (Continue, st)))
      | ReadErr \<Rightarrow> Some (Leave None, st)
      | CtxEnd \<Rightarrow> Some (Leave None, st))"

text \<open>The same loop without a token to watch.\<close>

definition accountSigner_event ::
  "('pub, 'kpub) webauthnLib \<Rightarrow> (string \<Rightarrow> (string \<times> string) option) \<Rightarrow>
   string \<Rightarrow> string \<Rightarrow> bytes \<Rightarrow> bytes \<Rightarrow> ws_event \<Rightarrow>
   (string \<times> string) list \<times> signerHub \<Rightarrow> (loop \<times> (string \<times> string) list \<times> signerHub) option" where
  "accountSigner_event W json_payloads hostname did authKey signKey ev st =
     (case ev of
        PingTick ok \<Rightarrow> Some (if ok then Continue else Leave None, st)
      | TokenTick \<Rightarrow> Some (Continue, st)
      | Inbound m \<Rightarrow>
          map_option (\<lambda>st'. (Continue, st')) (signer_message W hostname did authKey signKey m st)
      | NextReq req ok \<Rightarrow>
          (if \<not> ok then
             map_option (\<lambda>h'. (Leave None, fst st, h'))
               (send (reply req) \<lparr>sig = None, err = Some ErrSignerNotConnected\<rparr> (snd st))
           else (case extractPayloadFromMsg json_payloads (msg req) of
                   Inr p \<Rightarrow> Some (Continue, AList.update (requestID req) p (fst st), snd st)
                 | Inl e \<Rightarrow> Some (Continue, st)))
      | ReadErr \<Rightarrow> Some (Leave None, st)
      | CtxEnd \<Rightarrow> Some (Leave None, st))"

section \<open>Service-auth tokens\<close>

definition service_header :: "string \<Rightarrow> string \<Rightarrow> json" where
  "service_header alg kid = JObj [(''alg'', JStr alg), (''kid'', JStr kid), (''typ'', JStr ''JWT'')]"

definition service_claims :: "server \<Rightarrow> string \<Rightarrow> string \<Rightarrow> int \<Rightarrow> string \<Rightarrow> json" where
  "service_claims sv did aud ex lxm =
     JObj ([(''aud'', JStr aud), (''exp'', JNum ex), (''iat'', JNum (Unix (sNow sv))),
        (''iss'', JStr did), (''jti'', JStr (sUuid sv 0))] @
       (if lxm \<noteq> '''' then [(''lxm'', JStr lxm)] else []))"

definition signing_string :: "json \<Rightarrow> json \<Rightarrow> string" where
  "signing_string header claims =
     b64_encode (to_bytes (json_text header)) @ ''.'' @ b64_encode (to_bytes (json_text claims))"

definition default_exp :: "server \<Rightarrow> int \<Rightarrow> int" where
  "default_exp sv ex = (if ex = 0 then Unix (sNow sv) + 300 else ex)"

text \<open>\<open>ask\<close> is \<open>RequestSignature\<close>: account, request id, message.\<close>

definition requestUserSignedServiceAuthJWT ::
  "server \<Rightarrow> (string \<Rightarrow> string \<Rightarrow> string \<Rightarrow> goerr + bytes) \<Rightarrow> RepoActor \<Rightarrow> string \<Rightarrow> string \<Rightarrow> int \<Rightarrow> goerr + string" where
  "requestUserSignedServiceAuthJWT sv ask repo aud lxm ex0 =
     (let did = rDid (raRepo repo); ex = default_exp sv ex0;
          s = signing_string (service_header ''ES256K'' (did @ ''#atproto'')) (service_claims sv did aud ex lxm);
          rid = sUuid sv 1
      in case ask did rid (buildSignJWTRequestMsg rid (b64_encode (to_bytes s)) aud lxm) of
           Inl e \<Rightarrow> Inl e
         | Inr sg \<Rightarrow> Inr (s @ ''.'' @ b64_encode sg))"

definition signServiceAuthJWT ::
  "server \<Rightarrow> RepoActor \<Rightarrow> string \<Rightarrow> string \<Rightarrow> int \<Rightarrow> goerr + string" where
  "signServiceAuthJWT sv repo aud lxm ex0 =
     (let did = rDid (raRepo repo); ex = default_exp sv ex0;
          s = signing_string (service_header ''ES256'' (did @ ''#atproto_service'')) (service_claims sv did aud ex lxm)
      in case sSignATP sv (to_bytes s) of
           None \<Rightarrow> Inl (Err ''signing failed'')
         | Some sg \<Rightarrow> Inr (s @ ''.'' @ b64_encode sg))"

text \<open>\<open>scan_float\<close> reads a number and truncates it; \<open>is_did\<close> is the syntax check.\<close>

definition handleServerGetServiceAuth ::
  "server \<Rightarrow> (string \<Rightarrow> int option) \<Rightarrow> (string \<Rightarrow> bool) \<Rightarrow> (string \<Rightarrow> string \<Rightarrow> string \<Rightarrow> goerr + bytes) \<Rightarrow>
   request \<Rightarrow> RepoActor \<Rightarrow> outcome" where
  "handleServerGetServiceAuth sv scan_float is_did ask r repo =
     (let aud = get_value (qQuery r) ''aud''; lxm = get_value (qQuery r) ''lxm'';
          v = get_value (qQuery r) ''exp'';
          ex0 = (if v \<noteq> '''' then (case scan_float v of None \<Rightarrow> 0 | Some n \<Rightarrow> n) else 0);
          now = Unix (sNow sv)
      in if aud = '''' \<or> \<not> is_did aud then InputError None
         else let ex = (if ex0 = 0 then now + 60 else ex0) in
         if lxm = ''com.atproto.server.getServiceAuth''
         then InputError (Some ''may not generate auth tokens recursively'')
         else if ex > (if lxm \<noteq> '''' then now + 60 * 60 else now + 60)
         then InputError (Some ''expiration too big. smoller please'')
         else let token = (if rCompatMode (raRepo repo)
                           then requestUserSignedServiceAuthJWT sv ask repo aud lxm ex
                           else signServiceAuthJWT sv repo aud lxm ex)
         in case HandleSignerError (case token of Inl e \<Rightarrow> Some e | Inr _ \<Rightarrow> None) of
              Some w \<Rightarrow> w
            | None \<Rightarrow>
                (case token of
                   Inl e \<Rightarrow> ServerError None
                 | Inr t \<Rightarrow> writeJSON 200 (JObj [(''token'', JStr t)])))"

text \<open>
  \<open>validateServiceAuth\<close>: the key is looked up in the issuer's document: \<open>docKey doc name\<close> is
  the key called name, \<open>docPublicKey\<close> the key \<open>#atproto\<close>; the local account decides.
\<close>

definition service_auth_keyfunc ::
  "('k, 'doc) jwtLib \<Rightarrow> ('doc \<Rightarrow> string \<Rightarrow> 'k option) \<Rightarrow> faults \<Rightarrow> db \<Rightarrow> obj \<Rightarrow> goerr + 'k" where
  "service_auth_keyfunc J docKey fails d claims =
     (case jstr claims ''iss'' of
        None \<Rightarrow> Inl (Err ''missing iss claim in token'')
      | Some did \<Rightarrow>
          (case fetchDoc J did of
             None \<Rightarrow> Inl (Err ''unable to resolve did'')
           | Some doc \<Rightarrow>
               (let compat = (case getRepoActorByDid fails d did of
                      Inl _ \<Rightarrow> False | Inr repo \<Rightarrow> rCompatMode (raRepo repo));
                    key = (if compat then docPublicKey J doc
                           else (case docKey doc ''atproto_service'' of
                                   Some k \<Rightarrow> Some k | None \<Rightarrow> docPublicKey J doc))
                in case key of None \<Rightarrow> Inl (Err ''signing key not found'') | Some k \<Rightarrow> Inr k)))"

definition validateServiceAuth ::
  "('k, 'doc) jwtLib \<Rightarrow> ('doc \<Rightarrow> string \<Rightarrow> 'k option) \<Rightarrow> faults \<Rightarrow> db \<Rightarrow> string \<Rightarrow> string \<Rightarrow> goerr + string" where
  "validateServiceAuth J docKey fails d rawToken nsid =
     (let token = TrimSpace rawToken in
      case jlClaims J token of
        None \<Rightarrow> Inl (Err ''invalid token'')
      | Some claims \<Rightarrow>
          (case jlParse J (\<lambda>_. service_auth_keyfunc J docKey fails d claims) token of
             None \<Rightarrow> Inl (Err ''invalid token'')
           | Some _ \<Rightarrow>
               if jget claims ''lxm'' \<noteq> Some (JStr nsid) then Inl (Err ''bad jwt lexicon method'')
               else (case jstr claims ''iss'' of
                       None \<Rightarrow> Inl (Err ''missing iss claim in token'')
                     | Some iss \<Rightarrow> Inr iss)))"

section \<open>Facts and properties\<close>

text \<open>A delivered signature was verified for the payload stored under its request id.\<close>

lemma signer_message_delivers:
  assumes "signer_message W hostname did authKey signKey m (payloads, h) = Some (payloads', h')"
    and "chan h' k = [\<lparr>sig = Some s, err = None\<rparr>]" and "chan h k = []"
  shows "\<exists>pl. map_of payloads (wsRequestID m) = Some pl \<and>
    verifyWebAuthnSignResponse W authKey signKey pl m hostname = Inr s"
  using assms
  by (auto simp: signer_message_def DeliverSignature_def DeliverRejection_def deliver_def Let_def
      send_def wake_def take_inflight_def split: if_splits option.splits sum.splits prod.splits)



text \<open>
  C14: a service-auth token is handed out only for a well-formed audience, never for
  getServiceAuth itself, and its expiry lies at most an hour ahead, or a minute when it is not
  restricted to one method; it is issued in the account's name for that audience and method.
\<close>

theorem service_auth_bounded:
  assumes "handleServerGetServiceAuth sv scan_float is_did ask r repo = w" and "status_of w = 200"
    and "0 \<le> Unix (sNow sv)"
  shows "\<exists>ex alg kid sg. w = writeJSON 200 (JObj [(''token'', JStr (signing_string (service_header alg kid)
          (service_claims sv (rDid (raRepo repo)) (get_value (qQuery r) ''aud'') ex (get_value (qQuery r) ''lxm''))
          @ ''.'' @ b64_encode sg))]) \<and>
    is_did (get_value (qQuery r) ''aud'') \<and>
    get_value (qQuery r) ''lxm'' \<noteq> ''com.atproto.server.getServiceAuth'' \<and>
    ex \<le> Unix (sNow sv) + (if get_value (qQuery r) ''lxm'' \<noteq> '''' then 3600 else 60)"
proof -
  let ?aud = "get_value (qQuery r) ''aud''" and ?lxm = "get_value (qQuery r) ''lxm''" and ?now = "Unix (sNow sv)"
  define ex0 where "ex0 = (let v = get_value (qQuery r) ''exp'' in
      if v \<noteq> '''' then (case scan_float v of None \<Rightarrow> 0 | Some n \<Rightarrow> n) else 0)"
  define ex where "ex = (if ex0 = 0 then ?now + 60 else ex0)"
  define token where "token = (if rCompatMode (raRepo repo)
      then requestUserSignedServiceAuthJWT sv ask repo ?aud ?lxm ex else signServiceAuthJWT sv repo ?aud ?lxm ex)"
  have w: "w = (if ?aud = '''' \<or> \<not> is_did ?aud then InputError None
         else if ?lxm = ''com.atproto.server.getServiceAuth''
         then InputError (Some ''may not generate auth tokens recursively'')
         else if ex > (if ?lxm \<noteq> '''' then ?now + 60 * 60 else ?now + 60)
         then InputError (Some ''expiration too big. smoller please'')
         else case HandleSignerError (case token of Inl e \<Rightarrow> Some e | Inr _ \<Rightarrow> None) of
              Some w \<Rightarrow> w
            | None \<Rightarrow> (case token of Inl e \<Rightarrow> ServerError None | Inr t \<Rightarrow> writeJSON 200 (JObj [(''token'', JStr t)])))"
    using assms(1) unfolding handleServerGetServiceAuth_def Let_def token_def ex_def ex0_def by simp
  have c: "is_did ?aud" "?lxm \<noteq> ''com.atproto.server.getServiceAuth''"
    "ex \<le> ?now + (if ?lxm \<noteq> '''' then 3600 else 60)"
    using w assms(2) by (auto split: if_splits)
  obtain t where t: "token = Inr t" "w = writeJSON 200 (JObj [(''token'', JStr t)])"
  proof (cases token)
    case (Inl e)
    then have "status_of w \<noteq> 200"
      using w by (auto simp: HandleSignerError_def)
    with assms(2) show ?thesis by simp
  next
    case (Inr t)
    with w assms(2) have "w = writeJSON 200 (JObj [(''token'', JStr t)])"
      by (auto simp: HandleSignerError_def split: if_splits)
    with Inr show ?thesis by (rule that)
  qed
  have "default_exp sv ex = ex" using assms(3) by (auto simp: default_exp_def ex_def)
  then obtain alg kid sg where "t = signing_string (service_header alg kid)
      (service_claims sv (rDid (raRepo repo)) ?aud ex ?lxm) @ ''.'' @ b64_encode sg"
    using t(1)
    by (auto simp: token_def requestUserSignedServiceAuthJWT_def signServiceAuthJWT_def Let_def
        split: if_splits sum.splits option.splits)
  with t(2) c show ?thesis by blast
qed

theorem service_auth_bounded_witness:
  "\<exists>w. handleServerGetServiceAuth demo_server (\<lambda>_. None) (\<lambda>_. True) (\<lambda>_ _ _. Inl ErrSignerTimeout)
      ((demo_request ''/'' [])\<lparr>qQuery := [(''aud'', ''did:web:x'')]\<rparr>) demo_account = w \<and> status_of w = 200 \<and>
    (\<exists>ex alg kid sg. w = writeJSON 200 (JObj [(''token'', JStr (signing_string (service_header alg kid)
          (service_claims demo_server (rDid (raRepo demo_account)) ''did:web:x'' ex '''')
          @ ''.'' @ b64_encode sg))]) \<and> ex \<le> 170)"
proof -
  let ?r = "(demo_request ''/'' [])\<lparr>qQuery := [(''aud'', ''did:web:x'')]\<rparr>"
  let ?w = "handleServerGetServiceAuth demo_server (\<lambda>_. None) (\<lambda>_. True) (\<lambda>_ _ _. Inl ErrSignerTimeout) ?r demo_account"
  have q: "get_value (qQuery ?r) ''aud'' = ''did:web:x''" "get_value (qQuery ?r) ''lxm'' = ''''"
    "get_value (qQuery ?r) ''exp'' = ''''" by (simp_all add: get_value_def)
  have s: "Unix (sNow demo_server) = 110" "sSignATP demo_server = (\<lambda>_. Some [7])"
    by (simp_all add: demo_server_def Unix_def)
  have m: "\<not> rCompatMode (raRepo demo_account)" by (simp add: demo_account_def demo_repo_def zeroRepo_def)
  have st: "status_of ?w = 200"
    using m by (simp add: handleServerGetServiceAuth_def s signServiceAuthJWT_def Let_def HandleSignerError_def get_value_def)
  from service_auth_bounded [OF refl st] obtain ex alg kid sg where
    "?w = writeJSON 200 (JObj [(''token'', JStr (signing_string (service_header alg kid)
          (service_claims demo_server (rDid (raRepo demo_account)) ''did:web:x'' ex '''')
          @ ''.'' @ b64_encode sg))])" "ex \<le> 170"
    unfolding q s by auto
  with st show ?thesis by blast
qed

end
