(* ===== verification/OauthClient.thy ===== *)
theory OauthClient
  imports Models
begin

text \<open>
  oauth/client: fetching, validating and caching the metadata of an OAuth client, and choosing
  its key.  Decoding JSON, fetching over HTTP, parsing URLs and JWKs are parameters; so is the
  set of cache entries that have expired or been evicted.
\<close>

section \<open>Data\<close>

record Metadata =
  mClientID :: string
  mClientName :: string
  mClientURI :: string
  mRedirectURIs :: "string list"
  mGrantTypes :: "string list"
  mResponseTypes :: "string list"
  mApplicationType :: string
  mDpopBoundAccessTokens :: bool
  mJWKSURI :: "string option"
  mJWKS :: "json list option"
  mScope :: string
  mTokenEndpointAuthMethod :: string
  mTokenEndpointAuthSigningAlg :: string

record 'k Client =
  clMetadata :: Metadata
  clJWKS :: "'k option"

record clientLib =
  decodeMap :: "bytes \<Rightarrow> obj option"
  decodeMetadata :: "bytes \<Rightarrow> Metadata option"
  clUrlParse :: "string \<Rightarrow> url option"
  clUrlString :: "url \<Rightarrow> string"
  clUrlBare :: "url \<Rightarrow> string" \<comment> \<open>the URL without escaped path and query\<close>

section \<open>Scopes and host names\<close>

definition supportedScopes :: "string list" where
  "supportedScopes = [''atproto'']"

definition supportedScopePrefixes :: "string list" where
  "supportedScopePrefixes =
     [''blob:'', ''account:'', ''identity:'', ''repo:'', ''rpc:'', ''include:'', ''transition:'']"

definition isScopeSupported :: "string \<Rightarrow> bool" where
  "isScopeSupported scope =
     (scope \<in> set supportedScopes \<or> list_ex (HasPrefix scope) supportedScopePrefixes)"

definition isLocalHostname :: "string \<Rightarrow> bool" where
  "isLocalHostname hostname =
     (let pts = SplitOn (CHR ''.'') hostname in
      if length pts < 2 then True
      else ToLower (last pts) \<in> {''test'', ''local'', ''localhost'', ''invalid'', ''example''})"

definition reverseDomain :: "string \<Rightarrow> string" where
  "reverseDomain domain = JoinWith ''.'' (rev (SplitOn (CHR ''.'') domain))"

text \<open>\<open>URL.Hostname\<close> and \<open>URL.Port\<close>: the port is what follows the last colon, if only digits do.\<close>

definition last_colon :: "string \<Rightarrow> (string \<times> string) option" where
  "last_colon h =
     (if CHR '':'' \<in> set h
      then Some (rev (drop 1 (dropWhile (\<lambda>c. c \<noteq> CHR '':'') (rev h))),
                 rev (takeWhile (\<lambda>c. c \<noteq> CHR '':'') (rev h)))
      else None)"

definition is_digit :: "char \<Rightarrow> bool" where
  "is_digit c = (48 \<le> (of_char c :: nat) \<and> (of_char c :: nat) \<le> 57)"

definition split_port :: "string \<Rightarrow> string \<times> string" where
  "split_port h =
     (let (host, port) = (case last_colon h of
            None \<Rightarrow> (h, '''')
          | Some (a, p) \<Rightarrow> if list_all is_digit p then (a, p) else (h, ''''))
      in (if HasPrefix host ''['' \<and> HasSuffix host '']'' then butlast (drop 1 host) else host, port))"

definition Hostname :: "url \<Rightarrow> string" where
  "Hostname u = fst (split_port (uHost u))"

definition Port :: "url \<Rightarrow> string" where
  "Port u = snd (split_port (uHost u))"

section \<open>Choosing a key\<close>

definition kid_is :: "string \<Rightarrow> json \<Rightarrow> bool" where
  "kid_is hint k = (case k of JObj m \<Rightarrow> jget m ''kid'' = Some (JStr hint) | _ \<Rightarrow> False)"

definition use_is_sig :: "json \<Rightarrow> bool" where
  "use_is_sig k = (case k of JObj m \<Rightarrow> jstr0 m ''use'' = ''sig'' | _ \<Rightarrow> False)"

definition selectKey :: "(obj \<Rightarrow> 'k option) \<Rightarrow> json list \<Rightarrow> string \<Rightarrow> goerr + 'k" where
  "selectKey parse_jwk keys kidHint =
     (if keys = [] then Inl (Err ''empty jwks'')
      else let c1 = (if kidHint \<noteq> '''' then find (kid_is kidHint) keys else None);
               c2 = (case c1 of Some k \<Rightarrow> Some k | None \<Rightarrow> find use_is_sig keys);
               c3 = (case c2 of Some k \<Rightarrow> k | None \<Rightarrow> hd keys)
      in case c3 of
           JObj m \<Rightarrow> (case parse_jwk m of None \<Rightarrow> Inl (Err ''parse jwk'') | Some k \<Rightarrow> Inr k)
         | _ \<Rightarrow> Inl (Err ''jwks contains no usable keys''))"

section \<open>Validation\<close>

definition unsupported_parameters :: "string list" where
  "unsupported_parameters = [''default_max_age'', ''userinfo_signed_response_alg'',
     ''id_token_signed_response_alg'', ''userinfo_encrypted_response_alg'',
     ''authorization_encrypted_response_enc'', ''authorization_encrypted_response_alg'',
     ''tls_client_certificate_bound_access_tokens'']"

text \<open>The loops over the scopes and grant types, with the entries seen so far.\<close>

fun check_scopes :: "string list \<Rightarrow> string list \<Rightarrow> goerr option" where
  "check_scopes seen [] = None"
| "check_scopes seen (s # ss) =
     (if s \<in> set seen then Some (Err ''duplicate scope'')
      else if \<not> isScopeSupported s then Some (Err ''unsupported scope'')
      else check_scopes (s # seen) ss)"

fun check_grants :: "string list \<Rightarrow> string list \<Rightarrow> goerr option" where
  "check_grants seen [] = None"
| "check_grants seen (g # gs) =
     (if g \<in> set seen then Some (Err ''duplicate grant type'')
      else if g = ''implicit'' then Some (Err ''grant type implicit is not allowed'')
      else if g \<noteq> ''authorization_code'' \<and> g \<noteq> ''refresh_token''
      then Some (Err ''grant type is not supported'')
      else check_grants (g # seen) gs)"

definition check_auth_method :: "Metadata \<Rightarrow> goerr option" where
  "check_auth_method m =
     (if mTokenEndpointAuthMethod m = ''none'' then
        (if mTokenEndpointAuthSigningAlg m \<noteq> '''' then Some (Err ''none must not have signing alg'') else None)
      else if mTokenEndpointAuthMethod m = ''private_key_jwt'' then
        (if mJWKS m = None \<and> mJWKSURI m = None then Some (Err ''requires jwks or jwks_uri'')
         else if mJWKS m = Some [] then Some (Err ''requires atleast one key in jwks'')
         else if mTokenEndpointAuthSigningAlg m = '''' then Some (Err ''missing token_endpoint_auth_signing_alg'')
         else None)
      else Some (Err ''unsupported client authentication method''))"

definition check_redirect :: "clientLib \<Rightarrow> Metadata \<Rightarrow> string \<Rightarrow> goerr option" where
  "check_redirect L m ruri =
     (case clUrlParse L ruri of
        None \<Rightarrow> Some (Err ''error parsing redirect uri'')
      | Some u \<Rightarrow>
          if (case uUser u of None \<Rightarrow> False | Some (name, pass) \<Rightarrow> name \<noteq> '''' \<or> pass \<noteq> None)
          then Some (Err ''redirect uri must not contain credentials'')
          else if Hostname u = ''localhost'' then Some (Err ''loopback redirect uri is not allowed'')
          else if Hostname u = ''127.0.0.1'' \<or> Hostname u = ''[::1]'' then
            (if mApplicationType m \<noteq> ''native''
             then Some (Err ''loopback redirect uris are only allowed for native apps'')
             else if uScheme u \<noteq> ''http'' then Some (Err ''loopback redirect uri must use http'')
             else None)
          else if uScheme u = ''http''
          then Some (Err ''only loopback redirect uris are allowed to use the http scheme'')
          else if uScheme u = ''https'' then
            (if isLocalHostname (Hostname u) then Some (Err ''domain must not be a local hostname'') else None)
          else if CHR ''.'' \<in> set (uScheme u) then
            (if mApplicationType m \<noteq> ''native''
             then Some (Err ''private-use uri scheme redirect uris are only allowed for native apps'')
             else if isLocalHostname (reverseDomain (uScheme u))
             then Some (Err ''private use uri scheme redirect uris must not be local hostnames'')
             else if HasPrefix (clUrlString L u) (uScheme u @ ''://'') \<or> Hostname u \<noteq> '''' \<or> Port u \<noteq> ''''
             then Some (Err ''private use uri scheme must be in the form'')
             else None)
          else Some (Err ''invalid redirect uri scheme''))"

fun first_error :: "('a \<Rightarrow> goerr option) \<Rightarrow> 'a list \<Rightarrow> goerr option" where
  "first_error f [] = None"
| "first_error f (x # xs) = (case f x of Some e \<Rightarrow> Some e | None \<Rightarrow> first_error f xs)"

text \<open>The extra check of redirect URIs of web clients with the implicit grant.\<close>

definition check_web_redirect :: "clientLib \<Rightarrow> string \<Rightarrow> goerr option" where
  "check_web_redirect L ruri =
     (case clUrlParse L ruri of
        None \<Rightarrow> Some (Err ''error parsing redirect uri'')
      | Some u \<Rightarrow>
          if uScheme u \<noteq> ''https'' then Some (Err ''web clients must use https redirect uris'')
          else if Hostname u = ''localhost'' then Some (Err ''web clients must not use localhost as the hostname'')
          else None)"

text \<open>The checks from the client id to the redirect URIs, in the order of the source.\<close>

definition check_rest :: "clientLib \<Rightarrow> string \<Rightarrow> obj \<Rightarrow> Metadata \<Rightarrow> goerr + Metadata" where
  "check_rest L clientId mm m =
     (if mClientID m \<noteq> clientId then Inl (Err ''client_id does not match'')
      else if (case jstr mm ''subject_type'' of None \<Rightarrow> False | Some t \<Rightarrow> t \<noteq> ''public'')
      then Inl (Err ''only public subject_type is supported'')
      else (case check_auth_method m of Some e \<Rightarrow> Inl e | None \<Rightarrow>
      if \<not> mDpopBoundAccessTokens m then Inl (Err ''dpop_bound_access_tokens must be true'')
      else if ''code'' \<notin> set (mResponseTypes m) then Inl (Err ''response_types must include code'')
      else if ''authorization_code'' \<notin> set (mGrantTypes m)
      then Inl (Err ''grant_types must contain authorization_code'')
      else if mRedirectURIs m = [] then Inl (Err ''at least one redirect_uri is required'')
      else if mApplicationType m = ''native'' \<and> mTokenEndpointAuthMethod m \<noteq> ''none''
      then Inl (Err ''native clients must authenticate using none method'')
      else (case (if mApplicationType m = ''web'' \<and> ''implicit'' \<in> set (mGrantTypes m)
                  then first_error (check_web_redirect L) (mRedirectURIs m) else None) of
              Some e \<Rightarrow> Inl e
            | None \<Rightarrow>
                (case first_error (check_redirect L m) (mRedirectURIs m) of
                   Some e \<Rightarrow> Inl e
                 | None \<Rightarrow> Inr m))))"

text \<open>The client URI: as given, or derived from the client id.\<close>

definition with_client_uri :: "clientLib \<Rightarrow> Metadata \<Rightarrow> Metadata option" where
  "with_client_uri L m =
     (if mClientURI m = '''' then
        map_option (\<lambda>u. m\<lparr>mClientURI := clUrlBare L u\<rparr>) (clUrlParse L (mClientID m))
      else Some m)"

definition validateAndParseMetadata :: "clientLib \<Rightarrow> string \<Rightarrow> bytes \<Rightarrow> goerr + Metadata" where
  "validateAndParseMetadata L clientId b =
     (case decodeMap L b of
        None \<Rightarrow> Inl (Err ''error unmarshaling metadata'')
      | Some mm \<Rightarrow>
          if jstr mm ''jwks'' \<noteq> None \<and> jstr mm ''jwks_uri'' \<noteq> None
          then Inl (Err ''jwks_uri and jwks are mutually exclusive'')
          else if list_ex (\<lambda>k. jget mm k \<noteq> None) unsupported_parameters
          then Inl (Err ''unsupported parameter'')
          else (case decodeMetadata L b of
            None \<Rightarrow> Inl (Err ''error unmarshaling metadata'')
          | Some m0 \<Rightarrow>
              (case with_client_uri L m0 of
                 None \<Rightarrow> Inl (Err ''unable to parse client id'')
               | Some m1 \<Rightarrow>
                   (case clUrlParse L (mClientURI m1) of
                      None \<Rightarrow> Inl (Err ''unable to parse client uri'')
                    | Some u \<Rightarrow>
                        let m = (if mClientName m1 = '''' then m1\<lparr>mClientName := mClientURI m1\<rparr> else m1) in
                        if isLocalHostname (Hostname u) then Inl (Err ''client_uri hostname is invalid'')
                        else if mScope m = '''' then Inl (Err ''missing scopes scope'')
                        else let scopes = SplitOn (CHR '' '') (mScope m) in
                        if ''atproto'' \<notin> set scopes then Inl (Err ''missing atproto scope'')
                        else (case check_scopes [] scopes of Some e \<Rightarrow> Inl e | None \<Rightarrow>
                             (case check_grants [] (mGrantTypes m) of Some e \<Rightarrow> Inl e | None \<Rightarrow>
                               check_rest L clientId mm m))))))"

section \<open>The manager\<close>

text \<open>
  The two caches; \<open>gone\<close> tells which entries have expired or been evicted.  \<open>get\<close> is an HTTP
  GET: status and body.
\<close>

record 'k Manager =
  jwksCache :: "string \<rightharpoonup> 'k"
  metadataCache :: "string \<rightharpoonup> Metadata"

definition getClientMetadata ::
  "clientLib \<Rightarrow> (string \<Rightarrow> (nat \<times> bytes) option) \<Rightarrow> (string \<Rightarrow> bool) \<Rightarrow> string \<Rightarrow> 'k Manager \<Rightarrow>
   (goerr + Metadata) \<times> 'k Manager" where
  "getClientMetadata L get gone clientId cm =
     (case (if gone clientId then None else metadataCache cm clientId) of
        Some m \<Rightarrow> (Inr m, cm)
      | None \<Rightarrow>
          (case get clientId of
             None \<Rightarrow> (Inl (Err ''http''), cm)
           | Some (status, b) \<Rightarrow>
               if status \<noteq> 200 then (Inl (Err ''fetching client metadata returned response code''), cm)
               else (case validateAndParseMetadata L clientId b of
                       Inl e \<Rightarrow> (Inl e, cm)
                     | Inr m \<Rightarrow> (Inr m, cm\<lparr>metadataCache := (metadataCache cm)(clientId \<mapsto> m)\<rparr>))))"

text \<open>\<open>decode_keys\<close> reads the field keys of a JWKS document.\<close>

definition getClientJwks ::
  "(obj \<Rightarrow> 'k option) \<Rightarrow> (bytes \<Rightarrow> json list option) \<Rightarrow> (string \<Rightarrow> (nat \<times> bytes) option) \<Rightarrow> (string \<Rightarrow> bool) \<Rightarrow>
   string \<Rightarrow> string \<Rightarrow> 'k Manager \<Rightarrow> (goerr + 'k) \<times> 'k Manager" where
  "getClientJwks parse_jwk decode_keys get gone clientId jwksUri cm =
     (case (if gone clientId then None else jwksCache cm clientId) of
        Some k \<Rightarrow> (Inr k, cm)
      | None \<Rightarrow>
          (case get jwksUri of
             None \<Rightarrow> (Inl (Err ''http''), cm)
           | Some (status, b) \<Rightarrow>
               if status \<noteq> 200 then (Inl (Err ''fetching client jwks returned response code''), cm)
               else (case decode_keys b of
                       None \<Rightarrow> (Inl (Err ''error unmarshaling keys response''), cm)
                     | Some keys \<Rightarrow>
                         if keys = [] then (Inl (Err ''no keys in jwks response''), cm)
                         else (selectKey parse_jwk keys '''', cm))))"

definition GetClient ::
  "clientLib \<Rightarrow> (obj \<Rightarrow> 'k option) \<Rightarrow> (bytes \<Rightarrow> json list option) \<Rightarrow> (string \<Rightarrow> (nat \<times> bytes) option) \<Rightarrow>
   (string \<Rightarrow> bool) \<Rightarrow> string \<Rightarrow> 'k Manager \<Rightarrow> (goerr + 'k Client) \<times> 'k Manager" where
  "GetClient L parse_jwk decode_keys get gone clientId cm =
     (case getClientMetadata L get gone clientId cm of
        (Inl e, cm1) \<Rightarrow> (Inl e, cm1)
      | (Inr m, cm1) \<Rightarrow>
          if mTokenEndpointAuthMethod m = ''private_key_jwt'' then
            (case mJWKS m of
               Some (k # ks) \<Rightarrow>
                 (case selectKey parse_jwk (k # ks) (mTokenEndpointAuthSigningAlg m) of
                    Inl e \<Rightarrow> (Inl e, cm1)
                  | Inr key \<Rightarrow> (Inr \<lparr>clMetadata = m, clJWKS = Some key\<rparr>, cm1))
             | _ \<Rightarrow>
                 (case mJWKSURI m of
                    Some uri \<Rightarrow>
                      (case getClientJwks parse_jwk decode_keys get gone clientId uri cm1 of
                         (Inl e, cm2) \<Rightarrow> (Inl e, cm2)
                       | (Inr key, cm2) \<Rightarrow> (Inr \<lparr>clMetadata = m, clJWKS = Some key\<rparr>, cm2))
                  | None \<Rightarrow> (Inl (Err ''no valid jwks found in oauth client metadata''), cm1)))
          else (Inr \<lparr>clMetadata = m, clJWKS = None\<rparr>, cm1))"

section \<open>Facts\<close>

lemma check_scopes_None:
  "check_scopes seen ss = None \<longleftrightarrow>
   distinct ss \<and> set ss \<inter> set seen = {} \<and> (\<forall>s \<in> set ss. isScopeSupported s)"
  by (induction ss arbitrary: seen) auto

lemma check_grants_None:
  "check_grants seen gs = None \<longleftrightarrow>
   distinct gs \<and> set gs \<inter> set seen = {} \<and> set gs \<subseteq> {''authorization_code'', ''refresh_token''}"
  by (induction gs arbitrary: seen) auto

lemma first_error_None: "first_error f xs = None \<longleftrightarrow> (\<forall>x \<in> set xs. f x = None)"
  by (induction xs) (auto split: option.splits)

text \<open>What validated metadata satisfies.\<close>

definition redirect_ok :: "clientLib \<Rightarrow> Metadata \<Rightarrow> string \<Rightarrow> bool" where
  "redirect_ok L m ruri \<longleftrightarrow> (\<exists>u. clUrlParse L ruri = Some u \<and> Hostname u \<noteq> ''localhost'' \<and>
     (uUser u = None \<or> uUser u = Some ('''', None)) \<and>
     (uScheme u = ''http'' \<and> mApplicationType m = ''native'' \<and> Hostname u \<in> {''127.0.0.1'', ''[::1]''} \<or>
      uScheme u = ''https'' \<and> \<not> isLocalHostname (Hostname u) \<or>
      uScheme u \<noteq> ''http'' \<and> uScheme u \<noteq> ''https'' \<and> CHR ''.'' \<in> set (uScheme u) \<and>
        mApplicationType m = ''native'' \<and> Hostname u = '''' \<and> Port u = ''''))"

definition metadata_ok :: "clientLib \<Rightarrow> string \<Rightarrow> Metadata \<Rightarrow> bool" where
  "metadata_ok L clientId m \<longleftrightarrow> mClientID m = clientId \<and> mDpopBoundAccessTokens m \<and>
     ''atproto'' \<in> set (SplitOn (CHR '' '') (mScope m)) \<and>
     distinct (SplitOn (CHR '' '') (mScope m)) \<and>
     (\<forall>s \<in> set (SplitOn (CHR '' '') (mScope m)). isScopeSupported s) \<and>
     ''authorization_code'' \<in> set (mGrantTypes m) \<and>
     set (mGrantTypes m) \<subseteq> {''authorization_code'', ''refresh_token''} \<and>
     ''code'' \<in> set (mResponseTypes m) \<and> mRedirectURIs m \<noteq> [] \<and>
     (\<forall>r \<in> set (mRedirectURIs m). redirect_ok L m r) \<and>
     (mTokenEndpointAuthMethod m = ''none'' \<or>
      mTokenEndpointAuthMethod m = ''private_key_jwt'' \<and> mApplicationType m \<noteq> ''native'' \<and>
      (mJWKS m \<noteq> None \<or> mJWKSURI m \<noteq> None) \<and> mJWKS m \<noteq> Some [])"

lemma check_redirect_None: "check_redirect L m r = None \<Longrightarrow> redirect_ok L m r"
  unfolding check_redirect_def redirect_ok_def
  by (fastforce split: option.splits if_splits prod.splits)

lemma check_rest_Inr:
  assumes "check_rest L clientId mm m = Inr m'"
  shows "m' = m \<and> mClientID m = clientId \<and> mDpopBoundAccessTokens m \<and> check_auth_method m = None \<and>
    ''code'' \<in> set (mResponseTypes m) \<and> ''authorization_code'' \<in> set (mGrantTypes m) \<and>
    mRedirectURIs m \<noteq> [] \<and> (mApplicationType m = ''native'' \<longrightarrow> mTokenEndpointAuthMethod m = ''none'') \<and>
    first_error (check_redirect L m) (mRedirectURIs m) = None"
  using assms by (auto simp: check_rest_def split: if_splits option.splits)

lemma check_auth_method_None:
  "check_auth_method m = None \<Longrightarrow>
   mTokenEndpointAuthMethod m = ''none'' \<or>
   mTokenEndpointAuthMethod m = ''private_key_jwt'' \<and> (mJWKS m \<noteq> None \<or> mJWKSURI m \<noteq> None) \<and> mJWKS m \<noteq> Some []"
  by (auto simp: check_auth_method_def split: if_splits)

lemma validate_Inr:
  assumes "validateAndParseMetadata L clientId b = Inr m"
  shows "metadata_ok L clientId m"
proof -
  obtain mm m0 where a: "check_rest L clientId mm m0 = Inr m" "check_grants [] (mGrantTypes m0) = None"
    "check_scopes [] (SplitOn (CHR '' '') (mScope m0)) = None" "''atproto'' \<in> set (SplitOn (CHR '' '') (mScope m0))"
    using assms unfolding validateAndParseMetadata_def Let_def
    by (auto split: option.splits if_splits)
  have "m0 = m" using check_rest_Inr [OF a(1)] by simp
  note c = a [unfolded this]
  note r = check_rest_Inr [OF c(1)]
  have "redirect_ok L m x" if "x \<in> set (mRedirectURIs m)" for x
    using r that by (auto simp: first_error_None intro: check_redirect_None)
  with r c(2-4) check_auth_method_None [of m] show ?thesis
    by (auto simp: metadata_ok_def check_grants_None check_scopes_None)
qed

lemma selectKey_Inr: "selectKey p ks h = Inr k \<Longrightarrow> \<exists>m. JObj m \<in> set ks \<and> p m = Some k"
proof -
  assume a: "selectKey p ks h = Inr k"
  then have ne: "ks \<noteq> []" by (auto simp: selectKey_def)
  define c where "c = (case (case (if h \<noteq> '''' then find (kid_is h) ks else None) of
      Some k \<Rightarrow> Some k | None \<Rightarrow> find use_is_sig ks) of Some k \<Rightarrow> k | None \<Rightarrow> hd ks)"
  have "c \<in> set ks"
    using ne by (auto simp: c_def find_Some_iff split: option.splits if_splits)
  moreover obtain m where "c = JObj m" "p m = Some k"
    using a ne unfolding selectKey_def Let_def c_def [symmetric]
    by (auto split: json.splits option.splits)
  ultimately show ?thesis by blast
qed

text \<open>What the metadata cache holds at any time: metadata valid for the client id it is stored under.\<close>

definition cache_ok :: "clientLib \<Rightarrow> 'k Manager \<Rightarrow> bool" where
  "cache_ok L cm \<longleftrightarrow> (\<forall>i m. metadataCache cm i = Some m \<longrightarrow> metadata_ok L i m)"

lemma cache_okD: "cache_ok L cm \<Longrightarrow> metadataCache cm i = Some m \<Longrightarrow> metadata_ok L i m"
  by (simp add: cache_ok_def)

lemma cache_ok_update:
  "cache_ok L cm \<Longrightarrow> metadata_ok L i m \<Longrightarrow> cache_ok L (cm\<lparr>metadataCache := (metadataCache cm)(i \<mapsto> m)\<rparr>)"
  by (simp add: cache_ok_def)

lemma getClientMetadata_ok:
  assumes "cache_ok L cm" and "getClientMetadata L get gone i cm = (res, cm')"
  shows "cache_ok L cm' \<and> (case res of Inl e \<Rightarrow> True | Inr m \<Rightarrow> metadata_ok L i m)"
  using assms unfolding getClientMetadata_def
  by (auto split: option.splits if_splits sum.splits prod.splits
      intro: cache_okD cache_ok_update [OF _ validate_Inr] validate_Inr)

lemma getClientJwks_state: "snd (getClientJwks pj dk get gone i uri cm) = cm"
  by (auto simp: getClientJwks_def split: option.splits)

lemma getClientMetadata_jwks: "jwksCache (snd (getClientMetadata L get gone i cm)) = jwksCache cm"
  by (auto simp: getClientMetadata_def split: option.splits sum.splits)

text \<open>No operation stores into the key cache.\<close>

lemma GetClient_state: "snd (GetClient L pj dk get gone i cm) = snd (getClientMetadata L get gone i cm)"
proof -
  obtain res cm1 where g: "getClientMetadata L get gone i cm = (res, cm1)" by force
  have j: "snd (case getClientJwks pj dk get gone i u cm1 of (Inl e, cm2) \<Rightarrow> (Inl e, cm2)
      | (Inr key, cm2) \<Rightarrow> (Inr \<lparr>clMetadata = m, clJWKS = Some key\<rparr>, cm2)) = cm1" for u m
    using getClientJwks_state [of pj dk get gone i u cm1] by (auto split: prod.split sum.split)
  show ?thesis
    by (cases res) (simp_all add: GetClient_def g j split: option.split list.split sum.split)
qed

lemma jwks_never_cached: "jwksCache (snd (GetClient L pj dk get gone i cm)) = jwksCache cm"
  by (simp add: GetClient_state getClientMetadata_jwks)

lemma GetClient_Inr:
  assumes "GetClient L pj dk get gone i cm = (Inr c, cm')"
  shows "getClientMetadata L get gone i cm = (Inr (clMetadata c), cm') \<and>
    (mTokenEndpointAuthMethod (clMetadata c) = ''private_key_jwt'' \<longrightarrow> clJWKS c \<noteq> None)"
proof -
  obtain res cm1 where g: "getClientMetadata L get gone i cm = (res, cm1)" by force
  have "cm' = cm1"
    using GetClient_state [of L pj dk get gone i cm] by (simp add: assms g)
  then show ?thesis
    using assms unfolding GetClient_def g
    by (cases res) (auto split: sum.splits option.splits list.splits prod.splits if_splits)
qed


definition demo_metadata :: Metadata where
  "demo_metadata = \<lparr>mClientID = ''https://app.org/m'', mClientName = '''', mClientURI = '''',
     mRedirectURIs = [''https://app.org/cb''], mGrantTypes = [''authorization_code'', ''refresh_token''],
     mResponseTypes = [''code''], mApplicationType = ''web'', mDpopBoundAccessTokens = True,
     mJWKSURI = None, mJWKS = Some [JObj [(''kid'', JStr ''k'')]], mScope = ''atproto transition:generic'',
     mTokenEndpointAuthMethod = ''private_key_jwt'', mTokenEndpointAuthSigningAlg = ''ES256''\<rparr>"

definition demo_client_lib :: clientLib where
  "demo_client_lib = \<lparr>decodeMap = (\<lambda>_. Some []), decodeMetadata = (\<lambda>_. Some demo_metadata),
     clUrlParse = (\<lambda>_. Some \<lparr>uScheme = ''https'', uUser = None, uHost = ''app.org'', uPath = '''', uRawPath = ''''\<rparr>),
     clUrlString = (\<lambda>_. ''https://app.org/''), clUrlBare = (\<lambda>_. ''https://app.org'')\<rparr>"


end
