(* ===== verification/OauthProvider.thy ===== *)
theory OauthProvider
  imports OauthClient Middleware "HOL-Library.List_Lexorder" "HOL-Library.Char_ord"
begin

text \<open>
  oauth/provider/client_auth.go (how a client authenticates itself), oauth/helpers.go (random
  identifiers, request URIs, the age of a session) and the session cookie of the account pages
  (server/handle_account_signin.go).  The JWT library, the raw form of a key and its thumbprint
  are parameters; the clock is read once per request.
\<close>

section \<open>Constants\<close>

abbreviation ParExpiresIn :: duration where "ParExpiresIn \<equiv> 5 * Minute"
abbreviation ClientAssertionMaxAge :: duration where "ClientAssertionMaxAge \<equiv> Minute"
abbreviation TokenMaxAge :: duration where "TokenMaxAge \<equiv> 60 * Minute"
abbreviation ConfidentialClientSessionLifetime :: duration where
  "ConfidentialClientSessionLifetime \<equiv> 2 * 365 * 24 * Hour"
abbreviation ConfidentialClientRefreshLifetime :: duration where
  "ConfidentialClientRefreshLifetime \<equiv> 3 * 30 * 24 * Hour"
abbreviation PublicClientSessionLifetime :: duration where
  "PublicClientSessionLifetime \<equiv> 2 * 7 * 24 * Hour"

definition ClientAssertionTypeJwtBearer :: string where
  "ClientAssertionTypeJwtBearer = ''urn:ietf:params:oauth:client-assertion-type:jwt-bearer''"

definition RequestUriPrefix :: string where
  "RequestUriPrefix = ''urn:ietf:params:oauth:request_uri:''"

section \<open>Random identifiers and request URIs\<close>

text \<open>\<open>rnd\<close> are the bytes drawn; \<open>None\<close> (the random source failed) is a panic in every caller.\<close>

definition with_prefix :: "string \<Rightarrow> bytes option \<Rightarrow> string option" where
  "with_prefix prefix rnd = (case RandomHex rnd of Inl e \<Rightarrow> None | Inr h \<Rightarrow> Some (prefix @ h))"

definition GenerateCode :: "bytes option \<Rightarrow> string option" where
  "GenerateCode = with_prefix ''cod-''"

definition GenerateTokenId :: "bytes option \<Rightarrow> string option" where
  "GenerateTokenId = with_prefix ''tok-''"

definition GenerateRefreshToken :: "bytes option \<Rightarrow> string option" where
  "GenerateRefreshToken = with_prefix ''ref-''"

definition GenerateRequestId :: "bytes option \<Rightarrow> string option" where
  "GenerateRequestId = with_prefix ''req-''"

definition EncodeRequestUri :: "string \<Rightarrow> string" where
  "EncodeRequestUri reqId = RequestUriPrefix @ QueryEscape reqId"

definition DecodeRequestUri :: "string \<Rightarrow> goerr + string" where
  "DecodeRequestUri reqUri =
     (if length reqUri < length RequestUriPrefix then Inl (Err ''invalid request uri'')
      else (case QueryUnescape (drop (length RequestUriPrefix) reqUri) of
              None \<Rightarrow> Inl (Err ''could not unescape request id'')
            | Some reqId \<Rightarrow> Inr reqId))"

section \<open>The age of a session\<close>

record SessionAgeResult =
  SessionAge :: duration
  RefreshAge :: duration
  SessionExpired :: bool
  RefreshExpired :: bool

definition GetSessionAgeFromToken :: "time \<Rightarrow> OauthToken \<Rightarrow> SessionAgeResult" where
  "GetSessionAgeFromToken now t =
     (let public = (caMethod (otClientAuth t) = ''none'');
          sessionLifetime = (if public then PublicClientSessionLifetime else ConfidentialClientSessionLifetime);
          refreshLifetime = (if public then PublicClientSessionLifetime else ConfidentialClientRefreshLifetime)
      in \<lparr>SessionAge = now - otCreatedAt t, RefreshAge = 0,
          SessionExpired = (now - otCreatedAt t > sessionLifetime),
          RefreshExpired = (now - otUpdatedAt t > refreshLifetime)\<rparr>)"

section \<open>Client authentication\<close>

record ('k, 'raw) assertLib =
  alHeader :: "string \<Rightarrow> obj option" \<comment> \<open>the header of a JWT, parsed without verifying\<close>
  alParse :: "(obj \<Rightarrow> goerr + 'raw) \<Rightarrow> string \<Rightarrow> (obj \<times> obj \<times> bool) option" \<comment> \<open>header, claims, validity\<close>
  alRaw :: "'k \<Rightarrow> 'raw option"
  alThumbprint :: "'k \<Rightarrow> bytes option"

definition publicClientAuth :: ClientAuth where
  "publicClientAuth = \<lparr>caMethod = ''none'', caAlg = '''', caKid = '''', caJkt = '''', caJti = '''', caExp = None\<rparr>"

definition assertion_keyfunc :: "'raw \<Rightarrow> obj \<Rightarrow> goerr + 'raw" where
  "assertion_keyfunc rawKey h =
     (if jstr0 h ''alg'' \<noteq> ''ES256'' then Inl (Err ''unexpected signing method'') else Inr rawKey)"

text \<open>The claims of the assertion, checked in the order of the source.\<close>

definition assertion_error :: "string \<Rightarrow> time \<Rightarrow> string \<Rightarrow> obj \<Rightarrow> goerr option" where
  "assertion_error hostname now clientId claims =
     (if jstr0 claims ''sub'' \<noteq> clientId then Some (Err ''subject must be client_id'')
      else if jstr0 claims ''aud'' \<noteq> '''' \<and> jstr0 claims ''aud'' \<noteq> ''https://'' @ hostname
      then Some (Err ''audience must be the hostname'')
      else (case jnum claims ''iat'' of
              None \<Rightarrow> Some (Err ''iat is missing'')
            | Some iat \<Rightarrow>
                if now - fromUnix iat > ClientAssertionMaxAge then Some (Err ''client_assertion jwt too old'')
                else if jstr0 claims ''jti'' = '''' then Some (Err ''jti is missing'')
                else None))"

definition Authenticate ::
  "('k, 'raw) assertLib \<Rightarrow> string \<Rightarrow> time \<Rightarrow> string option \<Rightarrow> string option \<Rightarrow> 'k Client \<Rightarrow> ClientAuth result" where
  "Authenticate A hostname now assertionType assertion cl =
     (let md = clMetadata cl in
      if mTokenEndpointAuthMethod md = ''none'' then Ret publicClientAuth
      else if mTokenEndpointAuthMethod md = ''private_key_jwt'' then
        (case assertion of
           None \<Rightarrow> Fail (Err ''requires a client_assertion'')
         | Some tok \<Rightarrow>
        (case assertionType of
           None \<Rightarrow> Crash
         | Some ty \<Rightarrow>
             if ty \<noteq> ClientAssertionTypeJwtBearer then Fail (Err ''unsupported client_assertion_type'')
             else (case alHeader A tok of
               None \<Rightarrow> Fail (Err ''error parsing client assertion'')
             | Some h \<Rightarrow>
                 let kid = jstr0 h ''kid'' in
                 if kid = '''' then Fail (Err ''kid required in client_assertion'')
                 else (case clJWKS cl of
                   None \<Rightarrow> Crash
                 | Some key \<Rightarrow>
                     (case alRaw A key of
                        None \<Rightarrow> Fail (Err ''failed to extract raw key'')
                      | Some raw \<Rightarrow>
                     (case alParse A (assertion_keyfunc raw) tok of
                        None \<Rightarrow> Fail (Err ''unable to verify client_assertion jwt'')
                      | Some (h', claims, valid) \<Rightarrow>
                          if \<not> valid then Fail (Err ''client_assertion jwt is invalid'')
                          else (case assertion_error hostname now (mClientID md) claims of
                            Some e \<Rightarrow> Fail e
                          | None \<Rightarrow>
                              (case jstr h' ''alg'' of
                                 None \<Rightarrow> Crash
                               | Some alg \<Rightarrow>
                                   (case alThumbprint A key of
                                      None \<Rightarrow> Fail (Err ''failed to calculate thumbprint'')
                                    | Some t \<Rightarrow>
                                        Ret \<lparr>caMethod = ''private_key_jwt'', caAlg = alg, caKid = kid,
                                             caJkt = b64_encode t, caJti = jstr0 claims ''jti'',
                                             caExp = jnum claims ''exp''\<rparr>)))))))))
      else Fail (Err ''auth method is not implemented in this pds''))"

text \<open>\<open>get\<close> is the manager's GetClient, already applied to its parameters.\<close>

definition AuthenticateClient ::
  "('k, 'raw) assertLib \<Rightarrow> string \<Rightarrow> time \<Rightarrow> (string \<Rightarrow> 'm \<Rightarrow> (goerr + 'k Client) \<times> 'm) \<Rightarrow>
   string \<Rightarrow> string option \<Rightarrow> string option \<Rightarrow> Proof option \<Rightarrow> bool \<Rightarrow> 'm \<Rightarrow>
   ('k Client \<times> ClientAuth) result \<times> 'm" where
  "AuthenticateClient A hostname now get clientId assertionType assertion proof_opt allowMissing cm =
     (case get clientId cm of
        (Inl e, cm') \<Rightarrow> (Fail (Wrap ''failed to get client'' e), cm')
      | (Inr cl, cm') \<Rightarrow>
          (if mDpopBoundAccessTokens (clMetadata cl) \<and> proof_opt = None \<and> \<not> allowMissing
           then Fail (Err ''dpop proof required'')
           else if proof_opt \<noteq> None \<and> \<not> mDpopBoundAccessTokens (clMetadata cl)
           then Fail (Err ''dpop proof not allowed for this client'')
           else (case Authenticate A hostname now assertionType assertion cl of
                   Ret auth \<Rightarrow> Ret (cl, auth)
                 | Fail e \<Rightarrow> Fail e
                 | Crash \<Rightarrow> Crash), cm'))"

section \<open>The account page session\<close>

text \<open>\<open>sess\<close> are the values of the session cookie, \<open>None\<close> when it does not decode.\<close>

definition getSessionRepoOrErr :: "server \<Rightarrow> obj option \<Rightarrow> db \<Rightarrow> goerr + RepoActor" where
  "getSessionRepoOrErr sv sess d =
     (case sess of
        None \<Rightarrow> Inl (Err ''securecookie'')
      | Some vals \<Rightarrow>
          (case jstr vals ''did'' of
             None \<Rightarrow> Inl (Err ''did was not set in session'')
           | Some did \<Rightarrow> getRepoActorByDid (sFails sv) d did))"

text \<open>\<open>url.Values.Encode\<close>: sorted by key, the values of a key in order.\<close>

definition values_encode :: "(string \<times> string) list \<Rightarrow> string" where
  "values_encode kvs =
     JoinWith ''&'' (map (\<lambda>(k, v). QueryEscape k @ ''='' @ QueryEscape v) (sort_key fst kvs))"

section \<open>Facts\<close>

lemma with_prefix_Some: "with_prefix p rnd = Some s \<Longrightarrow> \<exists>b. rnd = Some b \<and> s = p @ EncodeToHex b"
  by (auto simp: with_prefix_def RandomHex_def split: option.splits)

lemmas Generate_defs = GenerateCode_def GenerateTokenId_def GenerateRefreshToken_def GenerateRequestId_def

lemma DecodeRequestUri_Encode [simp]: "DecodeRequestUri (EncodeRequestUri reqId) = Inr reqId"
  by (simp add: DecodeRequestUri_def EncodeRequestUri_def)

lemma getSessionRepoOrErr_Inr:
  "getSessionRepoOrErr sv sess d = Inr x \<Longrightarrow>
   \<exists>vals did. sess = Some vals \<and> jstr vals ''did'' = Some did \<and> raRepo x \<in> set (repos d) \<and> rDid (raRepo x) = did \<and> did \<noteq> ''''"
  by (auto simp: getSessionRepoOrErr_def split: option.splits dest: getRepoActorByDid_Inr)

lemma assertion_error_None:
  "assertion_error hostname now clientId claims = None \<longleftrightarrow>
     jstr0 claims ''sub'' = clientId \<and> jstr0 claims ''aud'' \<in> {'''', ''https://'' @ hostname} \<and>
     (\<exists>iat. jnum claims ''iat'' = Some iat \<and> now - fromUnix iat \<le> ClientAssertionMaxAge) \<and>
     jstr0 claims ''jti'' \<noteq> ''''"
  by (auto simp: assertion_error_def split: option.splits)

section \<open>Properties\<close>

text \<open>
  The request URI handed to a client decodes to the identifier of its request, whatever the
  identifier; but decoding only compares lengths, so the same identifier is read from a string
  with any other prefix of that length.
\<close>

theorem request_uri_round_trip:
  "DecodeRequestUri (EncodeRequestUri reqId) = Inr reqId \<and>
   (length p = length RequestUriPrefix \<longrightarrow> DecodeRequestUri (p @ QueryEscape reqId) = Inr reqId)"
  by (simp add: DecodeRequestUri_def EncodeRequestUri_def)

theorem request_uri_round_trip_witness:
  "DecodeRequestUri (replicate (length RequestUriPrefix) CHR ''x'' @ QueryEscape ''req 1'') = Inr ''req 1''"
  using request_uri_round_trip [of "''req 1''" "replicate (length RequestUriPrefix) CHR ''x''"] by simp

text \<open>
  C20: how a client proves who it is.  A client registered for private_key_jwt is accepted only
  with an assertion that verifies with ES256 under the client's own key, names the client as
  its subject, this server as its audience unless it names none, and was issued within the last
  minute; the result records the thumbprint of that key.  A public client is taken at its word.
\<close>

theorem client_authentication_sound:
  assumes "AuthenticateClient A hostname now get clientId ty asn pr allow cm = (Ret (cl, auth), cm')"
  shows "get clientId cm = (Inr cl, cm') \<and>
    (mDpopBoundAccessTokens (clMetadata cl) \<and> \<not> allow \<longrightarrow> pr \<noteq> None) \<and>
    (pr \<noteq> None \<longrightarrow> mDpopBoundAccessTokens (clMetadata cl)) \<and>
    (mTokenEndpointAuthMethod (clMetadata cl) = ''none'' \<and> auth = publicClientAuth \<or>
     mTokenEndpointAuthMethod (clMetadata cl) = ''private_key_jwt'' \<and> ty = Some ClientAssertionTypeJwtBearer \<and>
     (\<exists>tok h h' key raw claims t iat. asn = Some tok \<and> alHeader A tok = Some h \<and> jstr0 h ''kid'' \<noteq> '''' \<and>
        clJWKS cl = Some key \<and> alRaw A key = Some raw \<and>
        alParse A (assertion_keyfunc raw) tok = Some (h', claims, True) \<and>
        jstr0 claims ''sub'' = mClientID (clMetadata cl) \<and> jstr0 claims ''aud'' \<in> {'''', ''https://'' @ hostname} \<and>
        jnum claims ''iat'' = Some iat \<and> now - fromUnix iat \<le> Minute \<and> jstr0 claims ''jti'' \<noteq> '''' \<and>
        alThumbprint A key = Some t \<and> caMethod auth = ''private_key_jwt'' \<and> caJkt auth = b64_encode t \<and>
        caJti auth = jstr0 claims ''jti''))"
proof -
  have g: "get clientId cm = (Inr cl, cm')" and a: "Authenticate A hostname now ty asn cl = Ret auth"
    and d: "mDpopBoundAccessTokens (clMetadata cl) \<and> \<not> allow \<longrightarrow> pr \<noteq> None"
      "pr \<noteq> None \<longrightarrow> mDpopBoundAccessTokens (clMetadata cl)"
    using assms unfolding AuthenticateClient_def
    by (auto split: prod.splits sum.splits if_splits result.splits)
  show ?thesis
  proof (cases "mTokenEndpointAuthMethod (clMetadata cl) = ''none''")
    case True
    with a g d show ?thesis by (simp add: Authenticate_def Let_def)
  next
    case False
    with a have m: "mTokenEndpointAuthMethod (clMetadata cl) = ''private_key_jwt''"
      by (auto simp: Authenticate_def Let_def split: if_splits)
    obtain tok where tok: "asn = Some tok" using a m by (cases asn) (auto simp: Authenticate_def)
    have ty: "ty = Some ClientAssertionTypeJwtBearer"
      using a m tok by (cases ty) (auto simp: Authenticate_def split: if_splits)
    obtain h where h: "alHeader A tok = Some h"
      using a m tok ty by (cases "alHeader A tok") (auto simp: Authenticate_def)
    have kid: "jstr0 h ''kid'' \<noteq> ''''"
      using a m tok ty h by (auto simp: Authenticate_def Let_def split: if_splits)
    obtain key where key: "clJWKS cl = Some key"
      using a m tok ty h kid by (cases "clJWKS cl") (auto simp: Authenticate_def Let_def)
    obtain raw where raw: "alRaw A key = Some raw"
      using a m tok ty h kid key by (cases "alRaw A key") (auto simp: Authenticate_def Let_def)
    obtain h' claims v where p: "alParse A (assertion_keyfunc raw) tok = Some (h', claims, v)"
      using a m tok ty h kid key raw
      by (cases "alParse A (assertion_keyfunc raw) tok") (auto simp: Authenticate_def Let_def)
    have v: "v" using a m tok ty h kid key raw p by (auto simp: Authenticate_def Let_def split: if_splits)
    have e: "assertion_error hostname now (mClientID (clMetadata cl)) claims = None"
      using a m tok ty h kid key raw p v
      by (cases "assertion_error hostname now (mClientID (clMetadata cl)) claims") (auto simp: Authenticate_def Let_def)
    obtain alg where alg: "jstr h' ''alg'' = Some alg"
      using a m tok ty h kid key raw p v e by (cases "jstr h' ''alg''") (auto simp: Authenticate_def Let_def)
    obtain t where t: "alThumbprint A key = Some t"
      using a m tok ty h kid key raw p v e alg by (cases "alThumbprint A key") (auto simp: Authenticate_def Let_def)
    have "auth = \<lparr>caMethod = ''private_key_jwt'', caAlg = alg, caKid = jstr0 h ''kid'', caJkt = b64_encode t,
        caJti = jstr0 claims ''jti'', caExp = jnum claims ''exp''\<rparr>"
      using a m tok ty h kid key raw p v e alg t by (simp add: Authenticate_def Let_def)
    with g d m ty tok h kid key raw p v e t show ?thesis by (auto simp: assertion_error_None)
  qed
qed

definition demo_assert :: "(obj, obj) assertLib" where
  "demo_assert = \<lparr>alHeader = (\<lambda>_. Some [(''alg'', JStr ''ES256''), (''kid'', JStr ''k'')]),
     alParse = (\<lambda>_ _. Some ([(''alg'', JStr ''ES256'')],
        [(''sub'', JStr ''https://app.org/m''), (''iat'', JNum 100), (''jti'', JStr ''j'')], True)),
     alRaw = Some, alThumbprint = (\<lambda>_. Some [1])\<rparr>"

theorem client_authentication_sound_witness:
  "\<exists>cl auth. AuthenticateClient demo_assert ''pds'' (110 * Second)
      (\<lambda>i m. (Inr \<lparr>clMetadata = demo_metadata, clJWKS = Some []\<rparr>, m)) ''https://app.org/m''
      (Some ClientAssertionTypeJwtBearer) (Some ''tok'') None True () = (Ret (cl, auth), ()) \<and>
     caJkt auth = b64_encode [1]"
proof -
  let ?g = "\<lambda>i m. (Inr \<lparr>clMetadata = demo_metadata, clJWKS = Some []\<rparr> :: goerr + obj Client, m :: unit)"
  let ?a = "AuthenticateClient demo_assert ''pds'' (110 * Second) ?g ''https://app.org/m''
      (Some ClientAssertionTypeJwtBearer) (Some ''tok'') None True ()"
  have 1: "?a = (Ret (\<lparr>clMetadata = demo_metadata, clJWKS = Some []\<rparr>,
      \<lparr>caMethod = ''private_key_jwt'', caAlg = ''ES256'', caKid = ''k'', caJkt = b64_encode [1], caJti = ''j'', caExp = None\<rparr>), ())"
    by code_simp
  have "mTokenEndpointAuthMethod demo_metadata \<noteq> ''none''" by (simp add: demo_metadata_def)
  then have "\<exists>t. alThumbprint demo_assert [] = Some t \<and> b64_encode [1] = b64_encode t"
    using client_authentication_sound [OF 1] by auto
  with 1 show ?thesis by simp
qed

text \<open>
  The missing client_assertion_type.  For a client whose key was loaded, authentication ends
  in a run-time panic exactly when a confidential client sends an assertion without its type
  (the error message dereferences the absent value), or the library returned a verified token
  without an algorithm in its header.
\<close>

theorem authenticate_panics:
  assumes "clJWKS cl = Some key"
    and "\<And>kf tok h claims. alParse A kf tok = Some (h, claims, True) \<Longrightarrow> jstr h ''alg'' \<noteq> None"
  shows "Authenticate A hostname now ty asn cl = Crash \<longleftrightarrow>
    mTokenEndpointAuthMethod (clMetadata cl) = ''private_key_jwt'' \<and> asn \<noteq> None \<and> ty = None"
  using assms(1) unfolding Authenticate_def Let_def
  by (auto split: option.splits if_splits prod.splits dest: assms(2))

theorem authenticate_panics_witness:
  "Authenticate demo_assert ''pds'' 0 None (Some ''tok'') \<lparr>clMetadata = demo_metadata, clJWKS = Some []\<rparr> = Crash"
  by (subst authenticate_panics [where key = "[]"])
     (auto simp: demo_assert_def demo_metadata_def jstr_def jget_def)

end
