(* ===== verification/OauthServer.thy ===== *)
theory OauthServer
  imports OauthProvider
begin

text \<open>
  The OAuth endpoints of the server: pushed authorization requests (handle_oauth_par.go), the
  authorization page (handle_oauth_authorize.go) and the token endpoint (handle_oauth_token.go).
  A handler takes the state of the database, of the client manager and of the DPoP manager and
  gives its response and the new state.
\<close>

section \<open>State and libraries\<close>

record ('m, 'c) oauthState =
  osDb :: db
  osClients :: 'm
  osDpop :: "'c dpopManager"

text \<open>\<open>olClient\<close> is GetClient of the client manager; \<open>olRandom\<close> are the bytes of the i-th draw.\<close>

record ('k, 'raw, 'm, 'p, 'c) oauthLib =
  olServer :: server
  olDpop :: "('p, 'c) dpopLib"
  olAssert :: "('k, 'raw) assertLib"
  olClient :: "string \<Rightarrow> 'm \<Rightarrow> (goerr + 'k Client) \<times> 'm"
  olRandom :: "nat \<Rightarrow> bytes option"
  olElapsed :: duration

text \<open>The row a scan leaves when nothing matches.\<close>

definition zeroParRequest :: ParRequest where
  "zeroParRequest = \<lparr>pClientID = '''', pClientAssertionType = None, pClientAssertion = None,
     pResponseType = '''', pCodeChallenge = None, pCodeChallengeMethod = '''', pState = '''',
     pRedirectURI = '''', pScope = '''', pLoginHint = None, pDpopJkt = None, pResponseMode = None\<rparr>"

definition zeroClientAuth :: ClientAuth where
  "zeroClientAuth = \<lparr>caMethod = '''', caAlg = '''', caKid = '''', caJkt = '''', caJti = '''', caExp = None\<rparr>"

definition zeroAuthRequest :: OauthAuthorizationRequest where
  "zeroAuthRequest = \<lparr>arRequestId = '''', arClientId = '''', arClientAuth = zeroClientAuth,
     arParameters = zeroParRequest, arExpiresAt = 0, arDeviceId = None, arSub = None, arCode = None,
     arAccepted = None, arIp = ''''\<rparr>"

definition zeroOauthToken :: OauthToken where
  "zeroOauthToken = \<lparr>otID = 0, otCreatedAt = 0, otUpdatedAt = 0, otClientId = '''',
     otClientAuth = zeroClientAuth, otParameters = zeroParRequest, otExpiresAt = 0, otDeviceId = '''',
     otSub = '''', otCode = '''', otToken = '''', otRefreshToken = '''', otIp = ''''\<rparr>"

definition scan :: "'a \<Rightarrow> ('a \<Rightarrow> bool) \<Rightarrow> 'a table \<Rightarrow> 'a" where
  "scan zero P t = (case sql_first P t of None \<Rightarrow> zero | Some r \<Rightarrow> r)"

section \<open>Steps the endpoints share\<close>

text \<open>The parameters of an authorization request, without and with a client assertion.\<close>

definition par_of_query :: "(string \<times> string) list \<Rightarrow> ParRequest" where
  "par_of_query f = \<lparr>pClientID = get_value f ''client_id'', pClientAssertionType = None,
     pClientAssertion = None, pResponseType = get_value f ''response_type'',
     pCodeChallenge = opt_value f ''code_challenge'',
     pCodeChallengeMethod = get_value f ''code_challenge_method'', pState = get_value f ''state'',
     pRedirectURI = get_value f ''redirect_uri'', pScope = get_value f ''scope'',
     pLoginHint = opt_value f ''login_hint'', pDpopJkt = opt_value f ''dpop_jkt'',
     pResponseMode = opt_value f ''response_mode''\<rparr>"

definition par_of_form :: "(string \<times> string) list \<Rightarrow> ParRequest" where
  "par_of_form f = (par_of_query f)\<lparr>pClientAssertionType := opt_value f ''client_assertion_type'',
     pClientAssertion := opt_value f ''client_assertion''\<rparr>"

text \<open>The fields marked as required.\<close>

definition par_valid :: "ParRequest \<Rightarrow> bool" where
  "par_valid p = (pClientID p \<noteq> '''' \<and> pResponseType p \<noteq> '''' \<and> pCodeChallenge p \<noteq> None \<and>
     pCodeChallengeMethod p \<noteq> '''' \<and> pState p \<noteq> '''' \<and> pRedirectURI p \<noteq> '''' \<and> pScope p \<noteq> '''')"

text \<open>Checking the DPoP proof of a request to the provider, with its two error responses.\<close>

definition check_dpop ::
  "('k, 'raw, 'm, 'p, 'c) oauthLib \<Rightarrow> request \<Rightarrow> ('m, 'c) oauthState \<Rightarrow>
   (outcome + Proof option) \<times> ('m, 'c) oauthState" where
  "check_dpop E r st =
     (let L = olDpop E; now = sNow (olServer E) in
      case CheckProof L now (qMethod r) (RequestURL r) (header_values r ''dpop'') None (osDpop st) of
        (Crash, dm) \<Rightarrow> (Inl Panic, st\<lparr>osDpop := dm\<rparr>)
      | (Ret p, dm) \<Rightarrow> (Inr p, st\<lparr>osDpop := dm\<rparr>)
      | (Fail e, dm) \<Rightarrow>
          (if errors_is e ErrUseDpopNonce then
             (let (nonce, n) = NextNonce (hmacSha256 L) now (dmNonce dm) in
              (Inl (with_headers (dpop_headers nonce)
                 (writeJSON 400 (JObj [(''error'', JStr ''use_dpop_nonce'')]))),
               st\<lparr>osDpop := dm\<lparr>dmNonce := n\<rparr>\<rparr>))
           else (Inl (InputError None), st\<lparr>osDpop := dm\<rparr>)))"

definition authenticate_client ::
  "('k, 'raw, 'm, 'p, 'c) oauthLib \<Rightarrow> ParRequest \<Rightarrow> Proof option \<Rightarrow> ('m, 'c) oauthState \<Rightarrow>
   ('k Client \<times> ClientAuth) result \<times> ('m, 'c) oauthState" where
  "authenticate_client E p proof_opt st =
     (let sv = olServer E;
          (res, cm) = AuthenticateClient (olAssert E) (sHostname sv) (sNow sv) (olClient E) (pClientID p)
             (pClientAssertionType p) (pClientAssertion p) proof_opt True (osClients st)
      in (res, st\<lparr>osClients := cm\<rparr>))"

text \<open>Storing an authorization request; its composite key holds a fresh number, so it is not refused.\<close>

definition store_request ::
  "('k, 'raw, 'm, 'p, 'c) oauthLib \<Rightarrow> 'k Client \<Rightarrow> ClientAuth \<Rightarrow> ParRequest \<Rightarrow> ('m, 'c) oauthState \<Rightarrow>
   (outcome + string) \<times> ('m, 'c) oauthState" where
  "store_request E cl auth p st =
     (let sv = olServer E in
      case GenerateRequestId (olRandom E 0) of
        None \<Rightarrow> (Inl Panic, st)
      | Some i \<Rightarrow>
          (case db_exec sv ''oauth.create_request''
                  (\<lambda>d. d\<lparr>authRequests := authRequests d @
                     [\<lparr>arRequestId = i, arClientId = mClientID (clMetadata cl), arClientAuth = auth,
                       arParameters = p, arExpiresAt = sNow sv + ParExpiresIn, arDeviceId = None,
                       arSub = None, arCode = None, arAccepted = None, arIp = ''''\<rparr>]\<rparr>) (osDb st) of
             Inl e \<Rightarrow> (Inl (ServerError None), st)
           | Inr d \<Rightarrow> (Inr i, st\<lparr>osDb := d\<rparr>)))"

section \<open>Pushed authorization requests\<close>

text \<open>The key the tokens will be bound to; a missing proof is dereferenced.\<close>

definition par_jkt :: "Metadata \<Rightarrow> Proof option \<Rightarrow> ParRequest \<Rightarrow> outcome + ParRequest" where
  "par_jkt md proof_opt p =
     (case pDpopJkt p of
        None \<Rightarrow>
          if mDpopBoundAccessTokens md then
            (case proof_opt of
               None \<Rightarrow> Inl Panic
             | Some pr \<Rightarrow>
                 if JKT pr = '''' then Inl (InputError (Some ''dpop proof is required for dpop bound access tokens''))
                 else Inr (p\<lparr>pDpopJkt := Some (JKT pr)\<rparr>))
          else Inr p
      | Some jkt \<Rightarrow>
          if \<not> mDpopBoundAccessTokens md
          then Inl (InputError (Some ''dpop bound access tokens are not enabled for this client''))
          else (case proof_opt of
                  None \<Rightarrow> Inl Panic
                | Some pr \<Rightarrow>
                    if JKT pr \<noteq> jkt
                    then Inl (InputError (Some ''supplied dpop jkt does not match header dpop jkt''))
                    else Inr p))"

text \<open>\<open>form\<close> is the parsed form, \<open>None\<close> when it does not parse.\<close>

definition handleOauthPar ::
  "('k, 'raw, 'm, 'p, 'c) oauthLib \<Rightarrow> request \<Rightarrow> (string \<times> string) list option \<Rightarrow> ('m, 'c) oauthState \<Rightarrow>
   outcome \<times> ('m, 'c) oauthState" where
  "handleOauthPar E r form st =
     (case form of
        None \<Rightarrow> (ServerError None, st)
      | Some f \<Rightarrow>
          let p = par_of_form f in
          if \<not> par_valid p then (InputError None, st)
          else (case check_dpop E r st of
            (Inl w, st1) \<Rightarrow> (w, st1)
          | (Inr proof_opt, st1) \<Rightarrow>
              (case authenticate_client E p proof_opt st1 of
                 (Crash, st2) \<Rightarrow> (Panic, st2)
               | (Fail e, st2) \<Rightarrow> (InputError (Some (err_string e)), st2)
               | (Ret (cl, auth), st2) \<Rightarrow>
                   (case par_jkt (clMetadata cl) proof_opt p of
                      Inl w \<Rightarrow> (w, st2)
                    | Inr p' \<Rightarrow>
                        (case store_request E cl auth p' st2 of
                           (Inl w, st3) \<Rightarrow> (w, st3)
                         | (Inr i, st3) \<Rightarrow>
                             (writeJSON 201 (JObj [(''expires_in'', JNum 300),
                                (''request_uri'', JStr (EncodeRequestUri i))]), st3))))))"

section \<open>The authorization page\<close>

definition html :: "string \<Rightarrow> (string \<times> json) list \<Rightarrow> outcome" where
  "html name vars = Reply \<lparr>code = 200, hdrs = [(''Content-Type'', ''text/html; charset=utf-8'')], payload = BHtml name vars\<rparr>"

text \<open>A request made directly in the query string, when no request URI is given.\<close>

definition authorize_direct ::
  "('k, 'raw, 'm, 'p, 'c) oauthLib \<Rightarrow> bool \<Rightarrow> request \<Rightarrow> ('m, 'c) oauthState \<Rightarrow>
   (outcome + string) \<times> ('m, 'c) oauthState" where
  "authorize_direct E dev r st =
     (let p = par_of_query (qQuery r) in
      if \<not> par_valid p then
        (if dev \<and> pClientID p = '''' then
           (Inl (html ''authorize.html'' [(''Scopes'', JArr [JStr ''atproto'', JStr ''transition:generic'']),
              (''AppName'', JStr ''DEV MODE AUTHORIZATION PAGE''), (''Handle'', JStr ''paula.rbrt.fr''),
              (''RequestUri'', JStr '''')]), st)
         else (Inl (InputError (Some ''no request uri and invalid parameters'')), st))
      else (case authenticate_client E p None st of
              (Crash, st1) \<Rightarrow> (Inl Panic, st1)
            | (Fail e, st1) \<Rightarrow> (Inl (ServerError (Some (err_string e))), st1)
            | (Ret (cl, auth), st1) \<Rightarrow>
                if pDpopJkt p \<noteq> None \<and> \<not> mDpopBoundAccessTokens (clMetadata cl)
                then (Inl (InputError (Some ''dpop bound access tokens are not enabled for this client'')), st1)
                else store_request E cl auth p st1))"

definition handleOauthAuthorizeGet ::
  "('k, 'raw, 'm, 'p, 'c) oauthLib \<Rightarrow> bool \<Rightarrow> obj option \<Rightarrow> request \<Rightarrow> ('m, 'c) oauthState \<Rightarrow>
   outcome \<times> ('m, 'c) oauthState" where
  "handleOauthAuthorizeGet E dev sess r st =
     (let sv = olServer E; requestUri = get_value (qQuery r) ''request_uri'';
          (res, st1) = (if requestUri \<noteq> '''' then
              ((case DecodeRequestUri requestUri of
                 Inl e \<Rightarrow> Inl (InputError (Some ''no request uri''))
               | Inr i \<Rightarrow> Inr (requestUri, i)), st)
            else (case authorize_direct E dev r st of
                    (Inl w, st') \<Rightarrow> (Inl w, st')
                  | (Inr i, st') \<Rightarrow> (Inr (EncodeRequestUri i, i), st')))
      in case res of
           Inl w \<Rightarrow> (w, st1)
         | Inr (uri, reqId) \<Rightarrow>
             (case getSessionRepoOrErr sv sess (osDb st1) of
                Inl e \<Rightarrow> (Redirect (''/account/signin?'' @ values_encode (qQuery r)) 303, st1)
              | Inr repo \<Rightarrow>
                  if sFails sv ''authorize.lookup'' then (ServerError (Some ''authorize.lookup''), st1)
                  else let req = scan zeroAuthRequest (\<lambda>a. arRequestId a = reqId) (authRequests (osDb st1)) in
                  if get_value (qQuery r) ''client_id'' \<noteq> arClientId req
                  then (InputError (Some ''client id does not match the client id for the supplied request''), st1)
                  else (case olClient E (arClientId req) (osClients st1) of
                          (Inl e, cm) \<Rightarrow> (ServerError (Some (err_string e)), st1\<lparr>osClients := cm\<rparr>)
                        | (Inr cl, cm) \<Rightarrow>
                            (html ''authorize.html''
                               [(''Scopes'', JArr (map JStr (SplitOn (CHR '' '') (pScope (arParameters req))))),
                                (''AppName'', JStr (mClientName (clMetadata cl))), (''RequestUri'', JStr uri),
                                (''QueryParams'', JStr (values_encode (qQuery r))),
                                (''Handle'', JStr (aHandle (raActor repo)))], st1\<lparr>osClients := cm\<rparr>))))"

text \<open>Where the code is put in the redirect.\<close>

definition hash_or_question :: "ParRequest \<Rightarrow> string" where
  "hash_or_question p =
     (case pResponseMode p of
        Some m \<Rightarrow> if m = ''fragment'' then ''#'' else if m = ''query'' then ''?''
                  else if pResponseType p \<noteq> ''code'' then ''#'' else ''?''
      | None \<Rightarrow> if pResponseType p \<noteq> ''code'' then ''#'' else ''?'')"

definition client_ip :: "request \<Rightarrow> string" where
  "client_ip r = (let fwd = header_get r ''X-Forwarded-For'' in
     if fwd \<noteq> '''' then hd (SplitOn (CHR '','') fwd) else qRemoteAddr r)"

text \<open>Accepting: from the check of the expiry to the end.\<close>

definition authorize_accept ::
  "('k, 'raw, 'm, 'p, 'c) oauthLib \<Rightarrow> RepoActor \<Rightarrow> request \<Rightarrow> string \<Rightarrow> OauthAuthorizationRequest \<Rightarrow> db \<Rightarrow> outcome \<times> db" where
  "authorize_accept E repo r reqId authReq d =
     (let sv = olServer E in
      if sNow sv > arExpiresAt authReq then (InputError (Some ''the request has expired''), d)
      else if arSub authReq \<noteq> None \<or> arCode authReq \<noteq> None
      then (InputError (Some ''this request was already authorized''), d)
      else (case GenerateCode (olRandom E 0) of
              None \<Rightarrow> (Panic, d)
            | Some c \<Rightarrow>
                (case db_exec sv ''authorize.update''
                        (\<lambda>d. d\<lparr>authRequests := sql_update (\<lambda>a. arRequestId a = reqId)
                           (\<lambda>a. a\<lparr>arSub := Some (rDid (raRepo repo)), arCode := Some c,
                                 arAccepted := Some True, arIp := client_ip r\<rparr>) (authRequests d)\<rparr>) d of
                   Inl e \<Rightarrow> (ServerError None, d)
                 | Inr d' \<Rightarrow>
                     (Redirect (pRedirectURI (arParameters authReq) @ hash_or_question (arParameters authReq) @
                        values_encode [(''state'', pState (arParameters authReq)),
                          (''iss'', ''https://'' @ sHostname sv), (''code'', c)]) 303, d'))))"

definition handleOauthAuthorizePost ::
  "('k, 'raw, 'm, 'p, 'c) oauthLib \<Rightarrow> obj option \<Rightarrow> request \<Rightarrow> (string \<times> string) list option \<Rightarrow>
   ('m, 'c) oauthState \<Rightarrow> outcome \<times> ('m, 'c) oauthState" where
  "handleOauthAuthorizePost E sess r form st =
     (let sv = olServer E; d = osDb st in
      case getSessionRepoOrErr sv sess d of
        Inl e \<Rightarrow> (Redirect ''/account/signin'' 303, st)
      | Inr repo \<Rightarrow>
      (case form of
        None \<Rightarrow> (InputError None, st)
      | Some f \<Rightarrow>
      (case DecodeRequestUri (get_value f ''request_uri'') of
        Inl e \<Rightarrow> (InputError (Some (err_string e)), st)
      | Inr reqId \<Rightarrow>
          if sFails sv ''authorize.lookup'' then (ServerError (Some ''authorize.lookup''), st)
          else let authReq = scan zeroAuthRequest (\<lambda>a. arRequestId a = reqId) (authRequests d) in
          (case olClient E (arClientId authReq) (osClients st) of
             (Inl e, cm) \<Rightarrow> (ServerError (Some (err_string e)), st\<lparr>osClients := cm\<rparr>)
           | (Inr cl, cm) \<Rightarrow>
               if get_value f ''accept_or_reject'' = ''reject''
               then (Redirect (mClientURI (clMetadata cl)) 303, st\<lparr>osClients := cm\<rparr>)
               else (let (w, d') = authorize_accept E repo r reqId authReq d
                     in (w, st\<lparr>osClients := cm, osDb := d'\<rparr>))))))"

section \<open>The token endpoint\<close>

text \<open>The proof key of a code: the pointers of a plain challenge are never equal.\<close>

definition pkce_error :: "(bytes \<Rightarrow> bytes) \<Rightarrow> ParRequest \<Rightarrow> string option \<Rightarrow> outcome option" where
  "pkce_error sha p verifier =
     (case pCodeChallenge p of
        None \<Rightarrow>
          if verifier \<noteq> None then Some (InputError (Some ''code_challenge parameter wasnt provided'')) else None
      | Some chal \<Rightarrow>
          (case verifier of
             None \<Rightarrow> Some (InputError (Some ''code_verifier is required''))
           | Some v \<Rightarrow>
               if length v < 43 then Some (InputError (Some ''code_verifier is too short''))
               else if pCodeChallengeMethod p \<in> {'''', ''plain''}
               then Some (InputError (Some ''invalid code_verifier''))
               else if pCodeChallengeMethod p = ''S256'' then
                 (case b64_decode chal of
                    None \<Rightarrow> Some (ServerError None)
                  | Some inputChal \<Rightarrow>
                      if inputChal \<noteq> sha (to_bytes v) then Some (InputError (Some ''invalid code_verifier'')) else None)
               else Some (InputError (Some ''unsupported code_challenge_method''))))"

text \<open>The claims of an access token, with the keys in the order the encoder writes them.\<close>

definition oauth_claims :: "server \<Rightarrow> ParRequest \<Rightarrow> string \<Rightarrow> string \<Rightarrow> string \<Rightarrow> json" where
  "oauth_claims sv p clientId did jti =
     JObj ([(''aud'', JStr (sDid sv)), (''client_id'', JStr clientId)] @ opt_json ''cnf'' (pDpopJkt p) @
       [(''exp'', JNum (Unix (sNow sv + TokenMaxAge))), (''iat'', JNum (Unix (sNow sv))), (''jti'', JStr jti),
        (''scope'', JStr (pScope p)), (''sub'', JStr did)])"

text \<open>The whole seconds of a duration: the conversion rounds towards zero.\<close>

definition whole_seconds :: "duration \<Rightarrow> int" where
  "whole_seconds x = (if x < 0 then - (- x div Second) else x div Second)"

text \<open>
  The answer: expires_in counts the whole seconds left until the expiry when the answer is written, \<open>olElapsed\<close> after
  the clock was read for the expiry.
\<close>

definition token_response ::
  "('k, 'raw, 'm, 'p, 'c) oauthLib \<Rightarrow> ParRequest \<Rightarrow> string \<Rightarrow> string \<Rightarrow> string \<Rightarrow> outcome" where
  "token_response E p access refresh did =
     writeJSON 200 (JObj [(''access_token'', JStr access),
       (''token_type'', JStr (if pDpopJkt p \<noteq> None then ''DPoP'' else ''Bearer'')),
       (''refresh_token'', JStr refresh), (''scope'', JStr (pScope p)), (''expires_in'', JNum (whole_seconds (TokenMaxAge - olElapsed E))),
       (''sub'', JStr did)])"

definition next_token_id :: "OauthToken table \<Rightarrow> nat" where
  "next_token_id t = Suc (fold max (map otID t) 0)"

text \<open>Inserting a token; both token columns are unique.\<close>

definition create_token :: "server \<Rightarrow> OauthToken \<Rightarrow> db \<Rightarrow> goerr + db" where
  "create_token sv t d =
     (if sFails sv ''oauth.create_token'' \<or> otToken t \<in> otToken ` set (oauthTokens d) \<or>
         otRefreshToken t \<in> otRefreshToken ` set (oauthTokens d)
      then Inl (ErrDb ''oauth.create_token'')
      else Inr (d\<lparr>oauthTokens := oauthTokens d @ [t]\<rparr>))"

text \<open>Replacing the pair of a token, refused when it would repeat a token.\<close>

definition rotate_token :: "server \<Rightarrow> string \<Rightarrow> string \<Rightarrow> string \<Rightarrow> db \<Rightarrow> goerr + db" where
  "rotate_token sv rt access refresh d =
     (let t = sql_update (\<lambda>t. otRefreshToken t = rt)
                (\<lambda>t. t\<lparr>otToken := access, otRefreshToken := refresh,
                      otExpiresAt := sNow sv + TokenMaxAge, otUpdatedAt := sNow sv\<rparr>) (oauthTokens d)
      in if sFails sv ''oauth.update_token'' \<or> \<not> keyed otToken t \<or> \<not> keyed otRefreshToken t
         then Inl (ErrDb ''oauth.update_token'')
         else Inr (d\<lparr>oauthTokens := t\<rparr>))"

text \<open>From the lookup of the account to the end of the branch authorization_code.\<close>

definition issue_code_token ::
  "('k, 'raw, 'm, 'p, 'c) oauthLib \<Rightarrow> ClientAuth \<Rightarrow> OauthAuthorizationRequest \<Rightarrow> db \<Rightarrow> outcome \<times> db" where
  "issue_code_token E auth req d =
     (let sv = olServer E; p = arParameters req in
      case arSub req of
        None \<Rightarrow> (Panic, d)
      | Some sub \<Rightarrow>
      (case getRepoActorByDid (sFails sv) d sub of
        Inl e \<Rightarrow> (InputError (Some ''unable to find actor''), d)
      | Inr repo \<Rightarrow>
      (case (GenerateTokenId (olRandom E 0), GenerateRefreshToken (olRandom E 1)) of
        (Some i, Some refresh) \<Rightarrow>
          (case signInternalJWT sv (oauth_claims sv p (arClientId req) (rDid (raRepo repo)) i) of
             Inl e \<Rightarrow> (ServerError None, d)
           | Inr access \<Rightarrow>
               (case arCode req of
                  None \<Rightarrow> (Panic, d)
                | Some c \<Rightarrow>
                    (case create_token sv \<lparr>otID = next_token_id (oauthTokens d), otCreatedAt = sNow sv,
                         otUpdatedAt = sNow sv, otClientId = arClientId req, otClientAuth = auth,
                         otParameters = p, otExpiresAt = sNow sv + TokenMaxAge, otDeviceId = '''',
                         otSub = rDid (raRepo repo), otCode = c, otToken = access, otRefreshToken = refresh,
                         otIp = arIp req\<rparr> d of
                       Inl e \<Rightarrow> (ServerError None, d)
                     | Inr d' \<Rightarrow> (token_response E p access refresh (rDid (raRepo repo)), d'))))
      | _ \<Rightarrow> (Panic, d))))"

text \<open>
  The branch authorization_code: the row is deleted as it is read, before anything about it is
  checked.
\<close>

definition token_by_code ::
  "('k, 'raw, 'm, 'p, 'c) oauthLib \<Rightarrow> (string \<times> string) list \<Rightarrow> Metadata \<Rightarrow> ClientAuth \<Rightarrow> db \<Rightarrow> outcome \<times> db" where
  "token_by_code E f md auth d =
     (let sv = olServer E in
      case opt_value f ''code'' of
        None \<Rightarrow> (InputError (Some ''code is required''), d)
      | Some c \<Rightarrow>
          if sFails sv ''oauth.take_code'' then (ServerError None, d)
          else let req = scan zeroAuthRequest (\<lambda>a. arCode a = Some c) (authRequests d);
                   d1 = d\<lparr>authRequests := sql_delete (\<lambda>a. arCode a = Some c) (authRequests d)\<rparr>
          in if opt_value f ''redirect_uri'' \<noteq> Some (pRedirectURI (arParameters req))
             then (InputError (Some ''redirect_uri mismatch''), d1)
             else (case pkce_error (sha256 (olDpop E)) (arParameters req) (opt_value f ''code_verifier'') of
                     Some w \<Rightarrow> (w, d1)
                   | None \<Rightarrow>
                       if mDpopBoundAccessTokens md \<and> pDpopJkt (arParameters req) = None
                       then (InputError (Some ''dpop jkt is required for dpop bound access tokens''), d1)
                       else issue_code_token E auth req d1))"

text \<open>The checks of a refresh, in the order of the source.\<close>

definition refresh_error :: "time \<Rightarrow> Metadata \<Rightarrow> ClientAuth \<Rightarrow> Proof option \<Rightarrow> OauthToken \<Rightarrow> string option" where
  "refresh_error now md auth proof_opt t =
     (if mClientID md \<noteq> otClientId t then Some ''client_id mismatch''
      else if caMethod auth \<noteq> caMethod (otClientAuth t) then Some ''client authentication method mismatch''
      else if pDpopJkt (otParameters t) \<noteq> None \<and> proof_opt = None then Some ''dpop proof is required''
      else if pDpopJkt (otParameters t) \<noteq> None \<and> pDpopJkt (otParameters t) \<noteq> map_option JKT proof_opt
      then Some ''dpop proof does not match expected jkt''
      else if SessionExpired (GetSessionAgeFromToken now t) then Some ''Session expired''
      else if RefreshExpired (GetSessionAgeFromToken now t) then Some ''Refresh token expired''
      else if mDpopBoundAccessTokens md \<and> pDpopJkt (otParameters t) = None
      then Some ''dpop jkt is required for dpop bound access tokens''
      else None)"

definition token_by_refresh ::
  "('k, 'raw, 'm, 'p, 'c) oauthLib \<Rightarrow> (string \<times> string) list \<Rightarrow> Metadata \<Rightarrow> ClientAuth \<Rightarrow> Proof option \<Rightarrow> db \<Rightarrow>
   outcome \<times> db" where
  "token_by_refresh E f md auth proof_opt d =
     (let sv = olServer E in
      case opt_value f ''refresh_token'' of
        None \<Rightarrow> (InputError (Some ''refresh_token is required''), d)
      | Some rt \<Rightarrow>
          if sFails sv ''oauth.find_refresh'' then (ServerError None, d)
          else let t = scan zeroOauthToken (\<lambda>t. otRefreshToken t = rt) (oauthTokens d) in
          (case refresh_error (sNow sv) md auth proof_opt t of
             Some m \<Rightarrow> (InputError (Some m), d)
           | None \<Rightarrow>
               (case (GenerateTokenId (olRandom E 0), GenerateRefreshToken (olRandom E 1)) of
                  (Some i, Some nextRefresh) \<Rightarrow>
                    (case signInternalJWT sv (oauth_claims sv (otParameters t) (otClientId t) (otSub t) i) of
                       Inl e \<Rightarrow> (ServerError None, d)
                     | Inr access \<Rightarrow>
                         (case rotate_token sv rt access nextRefresh d of
                            Inl e \<Rightarrow> (ServerError None, d)
                          | Inr d' \<Rightarrow> (token_response E (otParameters t) access nextRefresh (otSub t), d')))
                | _ \<Rightarrow> (Panic, d))))"

definition handleOauthToken ::
  "('k, 'raw, 'm, 'p, 'c) oauthLib \<Rightarrow> request \<Rightarrow> (string \<times> string) list option \<Rightarrow> ('m, 'c) oauthState \<Rightarrow>
   outcome \<times> ('m, 'c) oauthState" where
  "handleOauthToken E r form st =
     (case form of
        None \<Rightarrow> (ServerError None, st)
      | Some f \<Rightarrow>
          (case check_dpop E r st of
             (Inl w, st1) \<Rightarrow> (w, st1)
           | (Inr proof_opt, st1) \<Rightarrow>
               (case authenticate_client E (par_of_form f) proof_opt st1 of
                  (Crash, st2) \<Rightarrow> (Panic, st2)
                | (Fail e, st2) \<Rightarrow> (InputError (Some (err_string e)), st2)
                | (Ret (cl, auth), st2) \<Rightarrow>
                    let md = clMetadata cl; grant = get_value f ''grant_type'' in
                    if grant \<notin> set (mGrantTypes md)
                    then (InputError (Some ''grant type is not supported by the client''), st2)
                    else if grant = ''authorization_code'' then
                      (let (w, d) = token_by_code E f md auth (osDb st2) in (w, st2\<lparr>osDb := d\<rparr>))
                    else if grant = ''refresh_token'' then
                      (let (w, d) = token_by_refresh E f md auth proof_opt (osDb st2) in (w, st2\<lparr>osDb := d\<rparr>))
                    else (InputError (Some ''grant type is not supported''), st2))))"

end
