(* ===== verification/OauthFlow.thy ===== *)
theory OauthFlow
  imports OauthServer
begin

text \<open>
  What the OAuth endpoints guarantee: which codes and refresh tokens are exchanged, for whom and how often, what the
  authorization page changes, and what a pushed request binds.
\<close>

section \<open>Facts\<close>

lemma check_dpop_frame:
  "check_dpop E r st = (res, st1) \<Longrightarrow> osDb st1 = osDb st \<and> osClients st1 = osClients st"
  by (auto simp: check_dpop_def Let_def split: prod.splits result.splits if_splits)

lemma authenticate_client_frame:
  "authenticate_client E p pr st = (res, st1) \<Longrightarrow> osDb st1 = osDb st \<and> osDpop st1 = osDpop st"
  by (auto simp: authenticate_client_def Let_def split: prod.splits)

lemma scan_cases: "scan z P t = z \<and> sql_first P t = None \<or> (\<exists>r \<in> set t. P r \<and> scan z P t = r)"
  by (auto simp: scan_def split: option.splits dest: sql_first_Some)

lemma opt_value_nonempty: "opt_value f k \<noteq> Some ''''"
  by (auto simp: opt_value_def Let_def)

text \<open>What a response of the token endpoint with status 200 goes through.\<close>

lemma handleOauthToken_200:
  assumes "handleOauthToken E r (Some f) st = (w, st')" and "status_of w = 200"
  shows "\<exists>proof_opt cl auth d. fst (check_dpop E r st) = Inr proof_opt \<and>
     fst (authenticate_client E (par_of_form f) proof_opt (snd (check_dpop E r st))) = Ret (cl, auth) \<and>
     get_value f ''grant_type'' \<in> set (mGrantTypes (clMetadata cl)) \<and> osDb st' = d \<and>
     (get_value f ''grant_type'' = ''authorization_code'' \<and> token_by_code E f (clMetadata cl) auth (osDb st) = (w, d) \<or>
      get_value f ''grant_type'' = ''refresh_token'' \<and>
        token_by_refresh E f (clMetadata cl) auth proof_opt (osDb st) = (w, d))"
proof -
  obtain res st1 where c: "check_dpop E r st = (res, st1)" by force
  have "\<exists>p. res = Inr p"
  proof (rule ccontr)
    assume "\<nexists>p. res = Inr p"
    then obtain w1 where "res = Inl w1" by (cases res) auto
    with c assms have "status_of w1 = 200" by (simp add: handleOauthToken_def)
    with c \<open>res = Inl w1\<close> show False
      by (auto simp: check_dpop_def Let_def split: prod.splits result.splits if_splits)
  qed
  then obtain p where p: "res = Inr p" ..
  obtain ares st2 where a: "authenticate_client E (par_of_form f) p st1 = (ares, st2)" by force
  have db: "osDb st2 = osDb st"
    using check_dpop_frame [OF c] authenticate_client_frame [OF a] by simp
  obtain cl auth where r: "ares = Ret (cl, auth)"
    using assms by (cases ares) (auto simp: handleOauthToken_def c p a)
  from assms db show ?thesis
    unfolding handleOauthToken_def c p a r
    by (auto simp: Let_def c p a r split: prod.splits if_splits)
qed

lemma pkce_error_None:
  "pkce_error sha p v = None \<longleftrightarrow>
     (case pCodeChallenge p of
        None \<Rightarrow> v = None
      | Some chal \<Rightarrow> pCodeChallengeMethod p = ''S256'' \<and>
          (\<exists>x. v = Some x \<and> 43 \<le> length x \<and> b64_decode chal = Some (sha (to_bytes x))))"
  by (auto simp: pkce_error_def split: option.splits)

lemma pkce_error_status: "pkce_error sha p v = Some w \<Longrightarrow> status_of w \<noteq> 200"
  by (auto simp: pkce_error_def split: option.splits if_splits)

lemma issue_code_token_200:
  assumes "issue_code_token E auth req d = (w, d')" and "status_of w = 200"
  shows "\<exists>t repo i c. getRepoActorByDid (sFails (olServer E)) d (otSub t) = Inr repo \<and>
     arSub req = Some (otSub t) \<and> arCode req = Some c \<and> d' = d\<lparr>oauthTokens := oauthTokens d @ [t]\<rparr> \<and>
     otToken t \<notin> otToken ` set (oauthTokens d) \<and> otRefreshToken t \<notin> otRefreshToken ` set (oauthTokens d) \<and>
     otParameters t = arParameters req \<and> otClientId t = arClientId req \<and> otClientAuth t = auth \<and>
     otExpiresAt t = sNow (olServer E) + TokenMaxAge \<and> otCode t = c \<and>
     signInternalJWT (olServer E) (oauth_claims (olServer E) (arParameters req) (arClientId req) (otSub t) i) = Inr (otToken t) \<and>
     w = token_response E (arParameters req) (otToken t) (otRefreshToken t) (otSub t)"
proof -
  let ?sv = "olServer E"
  obtain sub where s: "arSub req = Some sub"
    using assms by (cases "arSub req") (auto simp: issue_code_token_def Let_def)
  obtain repo where r: "getRepoActorByDid (sFails ?sv) d sub = Inr repo"
    using assms by (cases "getRepoActorByDid (sFails ?sv) d sub") (auto simp: issue_code_token_def Let_def s)
  have did: "rDid (raRepo repo) = sub" using getRepoActorByDid_Inr [OF r] by simp
  obtain i refresh where g: "GenerateTokenId (olRandom E 0) = Some i" "GenerateRefreshToken (olRandom E (Suc 0)) = Some refresh"
    using assms
    by (cases "GenerateTokenId (olRandom E 0)"; cases "GenerateRefreshToken (olRandom E (Suc 0))")
       (auto simp: issue_code_token_def Let_def s r)
  obtain access where j: "signInternalJWT ?sv (oauth_claims ?sv (arParameters req) (arClientId req) sub i) = Inr access"
    using assms by (auto simp: issue_code_token_def Let_def s r g did split: sum.splits)
  obtain c where c: "arCode req = Some c"
    using assms by (cases "arCode req") (auto simp: issue_code_token_def Let_def s r g did j)
  define t where "t = \<lparr>otID = next_token_id (oauthTokens d), otCreatedAt = sNow ?sv,
     otUpdatedAt = sNow ?sv, otClientId = arClientId req, otClientAuth = auth,
     otParameters = arParameters req, otExpiresAt = sNow ?sv + TokenMaxAge, otDeviceId = '''',
     otSub = sub, otCode = c, otToken = access, otRefreshToken = refresh, otIp = arIp req\<rparr>"
  have e: "(w, d') = (case create_token ?sv t d of Inl e \<Rightarrow> (ServerError None, d)
     | Inr d1 \<Rightarrow> (token_response E (arParameters req) access refresh (rDid (raRepo repo)), d1))"
    using assms(1) by (simp add: issue_code_token_def Let_def s r g did j c t_def)
  then obtain d1 where ct: "create_token ?sv t d = Inr d1" "d' = d1"
    "w = token_response E (arParameters req) access refresh sub"
    using assms(2) by (auto simp: did split: sum.splits)
  then have "otToken t \<notin> otToken ` set (oauthTokens d)" "otRefreshToken t \<notin> otRefreshToken ` set (oauthTokens d)"
    "d1 = d\<lparr>oauthTokens := oauthTokens d @ [t]\<rparr>"
    by (auto simp: create_token_def split: if_splits)
  moreover have "otSub t = sub" "otCode t = c" "otParameters t = arParameters req" "otClientId t = arClientId req"
    "otClientAuth t = auth" "otExpiresAt t = sNow ?sv + TokenMaxAge" "otToken t = access" "otRefreshToken t = refresh"
    by (simp_all add: t_def)
  ultimately show ?thesis
    using s r c j ct by (intro exI [of _ t] exI [of _ repo] exI [of _ i] exI [of _ c]) simp
qed

lemma token_by_code_200:
  assumes "token_by_code E f md auth d = (w, d')" and "status_of w = 200"
  shows "\<exists>c req. opt_value f ''code'' = Some c \<and> req \<in> set (authRequests d) \<and> arCode req = Some c \<and>
     opt_value f ''redirect_uri'' = Some (pRedirectURI (arParameters req)) \<and>
     pkce_error (sha256 (olDpop E)) (arParameters req) (opt_value f ''code_verifier'') = None \<and>
     (mDpopBoundAccessTokens md \<longrightarrow> pDpopJkt (arParameters req) \<noteq> None) \<and>
     issue_code_token E auth req
       (d\<lparr>authRequests := sql_delete (\<lambda>a. arCode a = Some c) (authRequests d)\<rparr>) = (w, d')"
proof -
  obtain c where c: "opt_value f ''code'' = Some c"
    using assms by (cases "opt_value f ''code''") (auto simp: token_by_code_def)
  define req where "req = scan zeroAuthRequest (\<lambda>a. arCode a = Some c) (authRequests d)"
  have u: "opt_value f ''redirect_uri'' = Some (pRedirectURI (arParameters req))"
    using assms by (auto simp: token_by_code_def c Let_def req_def split: if_splits)
  then have "pRedirectURI (arParameters req) \<noteq> ''''"
    using opt_value_nonempty [of f "''redirect_uri''"] by auto
  then have "req \<noteq> zeroAuthRequest" by (auto simp: zeroAuthRequest_def zeroParRequest_def)
  then have in_t: "req \<in> set (authRequests d)" "arCode req = Some c"
    using scan_cases [of zeroAuthRequest "\<lambda>a. arCode a = Some c" "authRequests d"] by (auto simp: req_def)
  have "pkce_error (sha256 (olDpop E)) (arParameters req) (opt_value f ''code_verifier'') = None \<and>
     (mDpopBoundAccessTokens md \<longrightarrow> pDpopJkt (arParameters req) \<noteq> None) \<and>
     issue_code_token E auth req
       (d\<lparr>authRequests := sql_delete (\<lambda>a. arCode a = Some c) (authRequests d)\<rparr>) = (w, d')"
    using assms u
    by (auto simp: token_by_code_def c Let_def req_def [symmetric] split: if_splits option.splits dest: pkce_error_status)
  with c u in_t show ?thesis by (intro exI [of _ c] exI [of _ req]) simp
qed

lemma refresh_error_None:
  "refresh_error now md auth pr t = None \<longleftrightarrow>
     mClientID md = otClientId t \<and> caMethod auth = caMethod (otClientAuth t) \<and>
     (\<forall>jkt. pDpopJkt (otParameters t) = Some jkt \<longrightarrow> (\<exists>p. pr = Some p \<and> JKT p = jkt)) \<and>
     \<not> SessionExpired (GetSessionAgeFromToken now t) \<and> \<not> RefreshExpired (GetSessionAgeFromToken now t) \<and>
     (mDpopBoundAccessTokens md \<longrightarrow> pDpopJkt (otParameters t) \<noteq> None)"
  by (cases pr; cases "pDpopJkt (otParameters t)") (auto simp: refresh_error_def)

lemma token_by_refresh_200:
  assumes "token_by_refresh E f md auth pr d = (w, d')" and "status_of w = 200"
  shows "\<exists>rt access nextRefresh t. opt_value f ''refresh_token'' = Some rt \<and>
     t = scan zeroOauthToken (\<lambda>t. otRefreshToken t = rt) (oauthTokens d) \<and>
     refresh_error (sNow (olServer E)) md auth pr t = None \<and>
     GenerateRefreshToken (olRandom E 1) = Some nextRefresh \<and>
     rotate_token (olServer E) rt access nextRefresh d = Inr d' \<and>
     w = token_response E (otParameters t) access nextRefresh (otSub t)"
proof -
  let ?sv = "olServer E"
  obtain rt where rt: "opt_value f ''refresh_token'' = Some rt"
    using assms by (cases "opt_value f ''refresh_token''") (auto simp: token_by_refresh_def Let_def)
  define t where "t = scan zeroOauthToken (\<lambda>t. otRefreshToken t = rt) (oauthTokens d)"
  have re: "refresh_error (sNow ?sv) md auth pr t = None"
    using assms by (cases "refresh_error (sNow ?sv) md auth pr t")
      (auto simp: token_by_refresh_def Let_def rt t_def split: if_splits)
  obtain i refresh where g: "GenerateTokenId (olRandom E 0) = Some i" "GenerateRefreshToken (olRandom E (Suc 0)) = Some refresh"
    using assms by (cases "GenerateTokenId (olRandom E 0)"; cases "GenerateRefreshToken (olRandom E (Suc 0))")
      (auto simp: token_by_refresh_def Let_def rt re t_def [symmetric] split: if_splits)
  let ?j = "signInternalJWT ?sv (oauth_claims ?sv (otParameters t) (otClientId t) (otSub t) i)"
  obtain access where j: "?j = Inr access"
    using assms by (cases ?j) (auto simp: token_by_refresh_def Let_def rt re g t_def [symmetric] split: if_splits)
  have "rotate_token ?sv rt access refresh d = Inr d' \<and> w = token_response E (otParameters t) access refresh (otSub t)"
    using assms by (cases "rotate_token ?sv rt access refresh d")
      (auto simp: token_by_refresh_def Let_def rt re g j t_def [symmetric] split: if_splits)
  with rt re g t_def show ?thesis
    by (intro exI [of _ rt] exI [of _ access] exI [of _ refresh] exI [of _ t]) simp
qed

lemma authorize_accept_changes:
  assumes "authorize_accept E repo r i a d = (w, d')" and "d' \<noteq> d"
  shows "sNow (olServer E) \<le> arExpiresAt a \<and> arSub a = None \<and> arCode a = None \<and>
    (\<exists>k. d' = d\<lparr>authRequests := sql_update (\<lambda>a. arRequestId a = i)
         (\<lambda>a. a\<lparr>arSub := Some (rDid (raRepo repo)), arCode := Some k, arAccepted := Some True, arIp := client_ip r\<rparr>)
         (authRequests d)\<rparr>)"
  using assms by (auto simp: authorize_accept_def db_exec_def Let_def split: if_splits option.splits)

text \<open>The proof a code was bought with.\<close>

definition pkce_ok :: "(bytes \<Rightarrow> bytes) \<Rightarrow> ParRequest \<Rightarrow> string option \<Rightarrow> bool" where
  "pkce_ok sha p verifier \<longleftrightarrow>
     (case pCodeChallenge p of
        None \<Rightarrow> verifier = None
      | Some chal \<Rightarrow> pCodeChallengeMethod p = ''S256'' \<and>
          (\<exists>v. verifier = Some v \<and> 43 \<le> length v \<and> b64_decode chal = Some (sha (to_bytes v))))"

text \<open>The grant for a code, from the response back to the stored request.\<close>

lemma code_grant:
  assumes "handleOauthToken E r (Some f) st = (w, st')" and "status_of w = 200"
    and "get_value f ''grant_type'' = ''authorization_code''"
  shows "\<exists>c req t pr cl auth. fst (check_dpop E r st) = Inr pr \<and>
    fst (authenticate_client E (par_of_form f) pr (snd (check_dpop E r st))) = Ret (cl, auth) \<and>
    opt_value f ''code'' = Some c \<and> req \<in> set (authRequests (osDb st)) \<and> arCode req = Some c \<and>
    opt_value f ''redirect_uri'' = Some (pRedirectURI (arParameters req)) \<and>
    pkce_ok (sha256 (olDpop E)) (arParameters req) (opt_value f ''code_verifier'') \<and>
    (mDpopBoundAccessTokens (clMetadata cl) \<longrightarrow> pDpopJkt (arParameters req) \<noteq> None) \<and>
    arSub req = Some (otSub t) \<and> otSub t \<in> rDid ` set (repos (osDb st)) \<and> otClientId t = arClientId req \<and>
    otClientAuth t = auth \<and> otParameters t = arParameters req \<and>
    otExpiresAt t = sNow (olServer E) + 60 * Minute \<and>
    (\<exists>jti. signInternalJWT (olServer E) (oauth_claims (olServer E) (arParameters req) (arClientId req) (otSub t) jti)
       = Inr (otToken t)) \<and>
    w = token_response E (arParameters req) (otToken t) (otRefreshToken t) (otSub t) \<and>
    osDb st' = (osDb st)\<lparr>authRequests := sql_delete (\<lambda>a. arCode a = Some c) (authRequests (osDb st)),
      oauthTokens := oauthTokens (osDb st) @ [t]\<rparr>"
proof -
  obtain pr cl auth where a: "fst (check_dpop E r st) = Inr pr"
      "fst (authenticate_client E (par_of_form f) pr (snd (check_dpop E r st))) = Ret (cl, auth)"
    and t: "token_by_code E f (clMetadata cl) auth (osDb st) = (w, osDb st')"
    using handleOauthToken_200 [OF assms(1,2)] assms(3) by auto
  obtain c req where q: "opt_value f ''code'' = Some c" "req \<in> set (authRequests (osDb st))" "arCode req = Some c"
    "opt_value f ''redirect_uri'' = Some (pRedirectURI (arParameters req))"
    "pkce_error (sha256 (olDpop E)) (arParameters req) (opt_value f ''code_verifier'') = None"
    "mDpopBoundAccessTokens (clMetadata cl) \<longrightarrow> pDpopJkt (arParameters req) \<noteq> None"
    "issue_code_token E auth req
       ((osDb st)\<lparr>authRequests := sql_delete (\<lambda>a. arCode a = Some c) (authRequests (osDb st))\<rparr>) = (w, osDb st')"
    using token_by_code_200 [OF t assms(2)] by blast
  obtain tk repo i where k: "getRepoActorByDid (sFails (olServer E))
      ((osDb st)\<lparr>authRequests := sql_delete (\<lambda>a. arCode a = Some c) (authRequests (osDb st))\<rparr>) (otSub tk) = Inr repo"
    "arSub req = Some (otSub tk)" "otParameters tk = arParameters req" "otClientId tk = arClientId req"
    "otClientAuth tk = auth" "otExpiresAt tk = sNow (olServer E) + TokenMaxAge"
    "w = token_response E (arParameters req) (otToken tk) (otRefreshToken tk) (otSub tk)"
    "osDb st' = (osDb st)\<lparr>authRequests := sql_delete (\<lambda>a. arCode a = Some c) (authRequests (osDb st)),
       oauthTokens := oauthTokens (osDb st) @ [tk]\<rparr>"
    "signInternalJWT (olServer E) (oauth_claims (olServer E) (arParameters req) (arClientId req) (otSub tk) i) = Inr (otToken tk)"
    using issue_code_token_200 [OF q(7) assms(2)] by auto
  have "otSub tk \<in> rDid ` set (repos (osDb st))"
    using getRepoActorByDid_Inr [OF k(1)] by (intro image_eqI [of _ _ "raRepo repo"]) auto
  moreover have "pkce_ok (sha256 (olDpop E)) (arParameters req) (opt_value f ''code_verifier'')"
    using q(5) by (simp add: pkce_error_None pkce_ok_def)
  ultimately show ?thesis
    using a q(1-4,6) k(2-9)
    by (intro exI [of _ c] exI [of _ req] exI [of _ tk] exI [of _ pr] exI [of _ cl] exI [of _ auth]) (simp, rule exI [of _ i], simp)
qed

section \<open>Properties\<close>

text \<open>
  C16: the authorization_code grant.  A token is issued only for a stored request with that code
  and the same redirect URI, whose S256 challenge the verifier meets; it is the request's
  account, client and key binding that the new token row carries, it expires in an hour, and
  the request is gone from the table.
\<close>

theorem code_grant_sound:
  assumes "handleOauthToken E r (Some f) st = (w, st')" and "status_of w = 200"
    and "get_value f ''grant_type'' = ''authorization_code''"
  shows "\<exists>c req t pr cl auth. fst (check_dpop E r st) = Inr pr \<and>
    fst (authenticate_client E (par_of_form f) pr (snd (check_dpop E r st))) = Ret (cl, auth) \<and>
    opt_value f ''code'' = Some c \<and> req \<in> set (authRequests (osDb st)) \<and> arCode req = Some c \<and>
    opt_value f ''redirect_uri'' = Some (pRedirectURI (arParameters req)) \<and>
    pkce_ok (sha256 (olDpop E)) (arParameters req) (opt_value f ''code_verifier'') \<and>
    (mDpopBoundAccessTokens (clMetadata cl) \<longrightarrow> pDpopJkt (arParameters req) \<noteq> None) \<and>
    arSub req = Some (otSub t) \<and> otSub t \<in> rDid ` set (repos (osDb st)) \<and> otClientId t = arClientId req \<and>
    otClientAuth t = auth \<and> otParameters t = arParameters req \<and>
    otExpiresAt t = sNow (olServer E) + 60 * Minute \<and>
    (\<exists>jti. signInternalJWT (olServer E) (oauth_claims (olServer E) (arParameters req) (arClientId req) (otSub t) jti)
       = Inr (otToken t)) \<and>
    w = token_response E (arParameters req) (otToken t) (otRefreshToken t) (otSub t) \<and>
    osDb st' = (osDb st)\<lparr>authRequests := sql_delete (\<lambda>a. arCode a = Some c) (authRequests (osDb st)),
      oauthTokens := oauthTokens (osDb st) @ [t]\<rparr>"
  by (rule code_grant [OF assms])

text \<open>The codes that can still be exchanged: a successful exchange needs one of them and takes it out.\<close>

definition issued_codes :: "db \<Rightarrow> string set" where
  "issued_codes d = {c. \<exists>a \<in> set (authRequests d). arCode a = Some c}"

lemma exchange_takes_code:
  assumes "handleOauthToken E r (Some f) st = (w, st')" and "status_of w = 200"
    and "get_value f ''grant_type'' = ''authorization_code''" and "opt_value f ''code'' = Some c"
  shows "c \<in> issued_codes (osDb st)" and "issued_codes (osDb st') = issued_codes (osDb st) - {c}"
proof -
  obtain req where "req \<in> set (authRequests (osDb st))" "arCode req = Some c"
    using code_grant [OF assms(1-3)] assms(4) by auto
  then show "c \<in> issued_codes (osDb st)" by (auto simp: issued_codes_def)
  have "authRequests (osDb st') = sql_delete (\<lambda>a. arCode a = Some c) (authRequests (osDb st))"
    using code_grant [OF assms(1-3)] assms(4) by auto
  then show "issued_codes (osDb st') = issued_codes (osDb st) - {c}"
    by (auto simp: issued_codes_def sql_delete_def)
qed

text \<open>
  C18: the refresh_token grant.  It needs the current refresh token of a stored row, the same
  client and way of authenticating, a proof with the key the row is bound to, and a session
  within its lifetimes; the row then carries a new pair and a new hour, and the used refresh
  token is no longer in the table unless the random source repeated it.
\<close>

theorem refresh_grant_sound:
  assumes "handleOauthToken E r (Some f) st = (w, st')" and "status_of w = 200"
    and "get_value f ''grant_type'' = ''refresh_token''"
  shows "\<exists>rt t pr cl auth access nextRefresh. opt_value f ''refresh_token'' = Some rt \<and>
    fst (check_dpop E r st) = Inr pr \<and>
    fst (authenticate_client E (par_of_form f) pr (snd (check_dpop E r st))) = Ret (cl, auth) \<and>
    t = scan zeroOauthToken (\<lambda>t. otRefreshToken t = rt) (oauthTokens (osDb st)) \<and>
    mClientID (clMetadata cl) = otClientId t \<and> caMethod auth = caMethod (otClientAuth t) \<and>
    (\<forall>jkt. pDpopJkt (otParameters t) = Some jkt \<longrightarrow> (\<exists>p. pr = Some p \<and> JKT p = jkt)) \<and>
    \<not> SessionExpired (GetSessionAgeFromToken (sNow (olServer E)) t) \<and>
    \<not> RefreshExpired (GetSessionAgeFromToken (sNow (olServer E)) t) \<and>
    (mClientID (clMetadata cl) \<noteq> '''' \<longrightarrow> t \<in> set (oauthTokens (osDb st)) \<and> otRefreshToken t = rt) \<and>
    w = token_response E (otParameters t) access nextRefresh (otSub t) \<and>
    authRequests (osDb st') = authRequests (osDb st) \<and>
    oauthTokens (osDb st') = sql_update (\<lambda>t. otRefreshToken t = rt)
      (\<lambda>t. t\<lparr>otToken := access, otRefreshToken := nextRefresh,
            otExpiresAt := sNow (olServer E) + 60 * Minute, otUpdatedAt := sNow (olServer E)\<rparr>) (oauthTokens (osDb st)) \<and>
    (nextRefresh \<noteq> rt \<longrightarrow> rt \<notin> otRefreshToken ` set (oauthTokens (osDb st')))"
proof -
  let ?T = "oauthTokens (osDb st)"
  obtain pr cl auth where a: "fst (check_dpop E r st) = Inr pr"
      "fst (authenticate_client E (par_of_form f) pr (snd (check_dpop E r st))) = Ret (cl, auth)"
    and t: "token_by_refresh E f (clMetadata cl) auth pr (osDb st) = (w, osDb st')"
    using handleOauthToken_200 [OF assms(1,2)] assms(3) by auto
  obtain rt access nextRefresh t where q: "opt_value f ''refresh_token'' = Some rt"
    "t = scan zeroOauthToken (\<lambda>t. otRefreshToken t = rt) ?T"
    "refresh_error (sNow (olServer E)) (clMetadata cl) auth pr t = None"
    "rotate_token (olServer E) rt access nextRefresh (osDb st) = Inr (osDb st')"
    "w = token_response E (otParameters t) access nextRefresh (otSub t)"
    using token_by_refresh_200 [OF t assms(2)] by blast
  note e = q(3) [unfolded refresh_error_None]
  have found: "mClientID (clMetadata cl) \<noteq> '''' \<longrightarrow> t \<in> set ?T \<and> otRefreshToken t = rt"
  proof
    assume "mClientID (clMetadata cl) \<noteq> ''''"
    with e have "t \<noteq> zeroOauthToken" by (auto simp: zeroOauthToken_def)
    then show "t \<in> set ?T \<and> otRefreshToken t = rt"
      using scan_cases [of zeroOauthToken "\<lambda>t. otRefreshToken t = rt" ?T] q(2) by auto
  qed
  have st': "osDb st' = (osDb st)\<lparr>oauthTokens := sql_update (\<lambda>t. otRefreshToken t = rt)
      (\<lambda>t. t\<lparr>otToken := access, otRefreshToken := nextRefresh,
            otExpiresAt := sNow (olServer E) + TokenMaxAge, otUpdatedAt := sNow (olServer E)\<rparr>) ?T\<rparr>"
    using q(4) by (auto simp: rotate_token_def Let_def split: if_splits)
  have "nextRefresh \<noteq> rt \<longrightarrow> rt \<notin> otRefreshToken ` set (oauthTokens (osDb st'))"
    by (auto simp: st' sql_update_def)
  with a q e found st' show ?thesis
    by (intro exI [of _ rt] exI [of _ t] exI [of _ pr] exI [of _ cl] exI [of _ auth] exI [of _ access]
        exI [of _ nextRefresh]) simp
qed

lemma authorize_post_stages:
  assumes "handleOauthAuthorizePost E sess r form st = (w, st')" and "osDb st' \<noteq> osDb st"
  obtains repo f i w1 where "getSessionRepoOrErr (olServer E) sess (osDb st) = Inr repo" and "form = Some f"
    and "DecodeRequestUri (get_value f ''request_uri'') = Inr i" and "get_value f ''accept_or_reject'' \<noteq> ''reject''"
    and "authorize_accept E repo r i (scan zeroAuthRequest (\<lambda>a. arRequestId a = i) (authRequests (osDb st))) (osDb st) = (w1, osDb st')"
proof -
  let ?sv = "olServer E"
  obtain repo where s: "getSessionRepoOrErr ?sv sess (osDb st) = Inr repo"
    using assms by (cases "getSessionRepoOrErr ?sv sess (osDb st)") (auto simp: handleOauthAuthorizePost_def Let_def)
  obtain f where f: "form = Some f"
    using assms s by (cases form) (auto simp: handleOauthAuthorizePost_def Let_def)
  obtain i where i: "DecodeRequestUri (get_value f ''request_uri'') = Inr i"
    using assms s f by (cases "DecodeRequestUri (get_value f ''request_uri'')") (auto simp: handleOauthAuthorizePost_def Let_def)
  define a where "a = scan zeroAuthRequest (\<lambda>a. arRequestId a = i) (authRequests (osDb st))"
  obtain w1 d1 where acc: "authorize_accept E repo r i a (osDb st) = (w1, d1)" by force
  obtain cres cm where c: "olClient E (arClientId a) (osClients st) = (cres, cm)" by force
  have look: "\<not> sFails ?sv ''authorize.lookup''"
    using assms by (auto simp: handleOauthAuthorizePost_def s f i Let_def)
  have h: "(case cres of Inl e \<Rightarrow> (ServerError (Some (err_string e)), st\<lparr>osClients := cm\<rparr>)
     | Inr cl \<Rightarrow> if get_value f ''accept_or_reject'' = ''reject''
         then (Redirect (mClientURI (clMetadata cl)) 303, st\<lparr>osClients := cm\<rparr>)
         else (w1, st\<lparr>osClients := cm, osDb := d1\<rparr>)) = (w, st')"
    using assms unfolding handleOauthAuthorizePost_def
    by (cases cres; cases "get_value f ''accept_or_reject'' = ''reject''")
       (simp_all add: s f i look Let_def a_def [symmetric] c acc)
  have fin: "get_value f ''accept_or_reject'' \<noteq> ''reject'' \<and> osDb st' = d1"
    using h assms(2) by (auto split: sum.splits if_splits)
  with acc that [OF s f i, of w1] show ?thesis by (simp add: a_def)
qed

text \<open>
  C19: an authorization request is authorized at most once, before it expires, and for the
  account that is signed in.  The page changes the table only in that way, and a request that
  has been authorized is refused from then on.
\<close>

theorem authorize_once:
  assumes "handleOauthAuthorizePost E sess r form st = (w, st')"
  shows "osDb st' = osDb st \<or>
    (\<exists>repo f reqId c. getSessionRepoOrErr (olServer E) sess (osDb st) = Inr repo \<and> form = Some f \<and>
       DecodeRequestUri (get_value f ''request_uri'') = Inr reqId \<and> get_value f ''accept_or_reject'' \<noteq> ''reject'' \<and>
       (let a = scan zeroAuthRequest (\<lambda>a. arRequestId a = reqId) (authRequests (osDb st)) in
          sNow (olServer E) \<le> arExpiresAt a \<and> arSub a = None \<and> arCode a = None) \<and>
       osDb st' = (osDb st)\<lparr>authRequests := sql_update (\<lambda>a. arRequestId a = reqId)
         (\<lambda>a. a\<lparr>arSub := Some (rDid (raRepo repo)), arCode := Some c, arAccepted := Some True, arIp := client_ip r\<rparr>)
         (authRequests (osDb st))\<rparr> \<and>
       (\<forall>a \<in> set (authRequests (osDb st')). arRequestId a = reqId \<longrightarrow>
          arSub a = Some (rDid (raRepo repo)) \<and> arCode a = Some c))"
proof (cases "osDb st' = osDb st")
  case False
  obtain repo f i w1 where s: "getSessionRepoOrErr (olServer E) sess (osDb st) = Inr repo" and f: "form = Some f"
    and i: "DecodeRequestUri (get_value f ''request_uri'') = Inr i" and n: "get_value f ''accept_or_reject'' \<noteq> ''reject''"
    and acc: "authorize_accept E repo r i (scan zeroAuthRequest (\<lambda>a. arRequestId a = i) (authRequests (osDb st))) (osDb st) = (w1, osDb st')"
    by (rule authorize_post_stages [OF assms False])
  note ch = authorize_accept_changes [OF acc False]
  then obtain k where k: "osDb st' = (osDb st)\<lparr>authRequests := sql_update (\<lambda>a. arRequestId a = i)
         (\<lambda>a. a\<lparr>arSub := Some (rDid (raRepo repo)), arCode := Some k, arAccepted := Some True, arIp := client_ip r\<rparr>)
         (authRequests (osDb st))\<rparr>"
    by blast
  have "\<forall>b \<in> set (authRequests (osDb st')). arRequestId b = i \<longrightarrow> arSub b = Some (rDid (raRepo repo)) \<and> arCode b = Some k"
  proof (intro ballI impI)
    fix b assume b: "b \<in> set (authRequests (osDb st'))" "arRequestId b = i"
    show "arSub b = Some (rDid (raRepo repo)) \<and> arCode b = Some k"
      using sql_update_cases [OF b(1) [unfolded k, simplified]] b(2) by (elim disjE bexE conjE) simp_all
  qed
  with s f i n k ch show ?thesis
    by (intro disjI2 exI [of _ repo] exI [of _ f] exI [of _ i] exI [of _ k]) (simp add: Let_def)
qed simp

lemma store_request_Inr:
  assumes "store_request E cl auth p st = (Inr i, st')"
  shows "\<exists>row. osDb st' = (osDb st)\<lparr>authRequests := authRequests (osDb st) @ [row]\<rparr> \<and> arRequestId row = i \<and>
    arClientId row = mClientID (clMetadata cl) \<and> arClientAuth row = auth \<and> arParameters row = p \<and>
    arExpiresAt row = sNow (olServer E) + 5 * Minute \<and> arSub row = None \<and> arCode row = None"
  using assms by (auto simp: store_request_def db_exec_def Let_def split: option.splits if_splits)

lemma par_jkt_Inr:
  "par_jkt md pr p = Inr p' \<Longrightarrow>
   (mDpopBoundAccessTokens md \<longrightarrow> (\<exists>x. pr = Some x \<and> pDpopJkt p' = Some (JKT x))) \<and>
   (\<not> mDpopBoundAccessTokens md \<longrightarrow> pDpopJkt p' = None) \<and> p' = p\<lparr>pDpopJkt := pDpopJkt p'\<rparr>"
  by (auto simp: par_jkt_def split: option.splits if_splits)

lemma par_stages_status:
  "check_dpop E r st = (Inl w, st1) \<Longrightarrow> status_of w \<noteq> 201"
  "par_jkt md pr p = Inl w \<Longrightarrow> status_of w \<noteq> 201"
  "store_request E cl auth p st = (Inl w, st1) \<Longrightarrow> status_of w \<noteq> 201"
  by (auto simp: check_dpop_def par_jkt_def store_request_def db_exec_def Let_def
      split: prod.splits result.splits option.splits if_splits)

lemma handleOauthPar_201:
  assumes "handleOauthPar E r form st = (w, st')" and "status_of w = 201"
  obtains f pr st1 cl auth st2 p' i where "form = Some f" and "par_valid (par_of_form f)"
    and "check_dpop E r st = (Inr pr, st1)" and "authenticate_client E (par_of_form f) pr st1 = (Ret (cl, auth), st2)"
    and "par_jkt (clMetadata cl) pr (par_of_form f) = Inr p'" and "store_request E cl auth p' st2 = (Inr i, st')"
    and "w = writeJSON 201 (JObj [(''expires_in'', JNum 300), (''request_uri'', JStr (EncodeRequestUri i))])"
  using assms that
  by (auto simp: handleOauthPar_def Let_def dest: par_stages_status
      split: option.splits if_splits prod.splits sum.splits result.splits)

text \<open>
  A pushed authorization request is stored for five minutes under the identifier its request
  URI decodes to, for the client that authenticated, and for a DPoP-bound client its tokens
  will be bound to the key of the proof that came with the request.
\<close>

theorem par_binds_key:
  assumes "handleOauthPar E r form st = (w, st')" and "status_of w = 201"
  shows "\<exists>f pr cl auth row. form = Some f \<and> par_valid (par_of_form f) \<and> fst (check_dpop E r st) = Inr pr \<and>
    fst (authenticate_client E (par_of_form f) pr (snd (check_dpop E r st))) = Ret (cl, auth) \<and>
    osDb st' = (osDb st)\<lparr>authRequests := authRequests (osDb st) @ [row]\<rparr> \<and>
    w = writeJSON 201 (JObj [(''expires_in'', JNum 300), (''request_uri'', JStr (EncodeRequestUri (arRequestId row)))]) \<and>
    DecodeRequestUri (EncodeRequestUri (arRequestId row)) = Inr (arRequestId row) \<and>
    arClientId row = mClientID (clMetadata cl) \<and> arExpiresAt row = sNow (olServer E) + 5 * Minute \<and>
    arSub row = None \<and> arCode row = None \<and> pScope (arParameters row) = get_value f ''scope'' \<and>
    pRedirectURI (arParameters row) = get_value f ''redirect_uri'' \<and>
    (mDpopBoundAccessTokens (clMetadata cl) \<longrightarrow> (\<exists>x. pr = Some x \<and> pDpopJkt (arParameters row) = Some (JKT x)))"
proof -
  obtain f pr st1 cl auth st2 p' i where f: "form = Some f" and v: "par_valid (par_of_form f)"
    and c: "check_dpop E r st = (Inr pr, st1)" and a: "authenticate_client E (par_of_form f) pr st1 = (Ret (cl, auth), st2)"
    and p': "par_jkt (clMetadata cl) pr (par_of_form f) = Inr p'" and s: "store_request E cl auth p' st2 = (Inr i, st')"
    and w: "w = writeJSON 201 (JObj [(''expires_in'', JNum 300), (''request_uri'', JStr (EncodeRequestUri i))])"
    by (rule handleOauthPar_201 [OF assms])
  have db: "osDb st2 = osDb st" using check_dpop_frame [OF c] authenticate_client_frame [OF a] by simp
  obtain row where row: "osDb st' = (osDb st)\<lparr>authRequests := authRequests (osDb st) @ [row]\<rparr>" "arRequestId row = i"
    "arClientId row = mClientID (clMetadata cl)" "arParameters row = p'"
    "arExpiresAt row = sNow (olServer E) + 5 * Minute" "arSub row = None" "arCode row = None"
    using store_request_Inr [OF s] db by auto
  have e: "p' = (par_of_form f)\<lparr>pDpopJkt := pDpopJkt p'\<rparr>" using par_jkt_Inr [OF p'] by blast
  have "pScope p' = get_value f ''scope''" "pRedirectURI p' = get_value f ''redirect_uri''"
    by (subst e, simp add: par_of_form_def par_of_query_def)+
  with par_jkt_Inr [OF p'] f v c a w row show ?thesis
    by (intro exI [of _ f] exI [of _ pr] exI [of _ cl] exI [of _ auth] exI [of _ row]) auto
qed

text \<open>A token whose scope is that of a session carries claims the Bearer middleware takes for a session's.\<close>

lemma session_scope_claims:
  assumes "JObj claims = oauth_claims sv p cid did jti" and "pScope p = ''com.atproto.access''"
  shows "jget claims ''lxm'' = None" and "jstr0 claims ''scope'' = ''com.atproto.access''"
    and "jnum claims ''exp'' = Some (Unix (sNow sv + TokenMaxAge))" and "jstr claims ''sub'' = Some did"
  using assms by (simp_all add: oauth_claims_def jget_def jstr0_def jstr_def jnum_def opt_json_def split: option.split)

lemma pds_keyfunc_ES256: "pds_keyfunc J [(''alg'', JStr ''ES256''), (''typ'', JStr ''JWT'')] = Inr (jlPdsKey J)"
  by (simp add: pds_keyfunc_def jstr0_def jstr_def jget_def ecdsa_algs_def)

text \<open>
  The scope of an authorization request is not checked anywhere, and the access token is a
  JWT of the server's own key.  A client that asks for the scope com.atproto.access therefore
  obtains a token the Bearer middleware takes for a session token: it is accepted on every
  authenticated route without any DPoP proof, although it is bound to a key.
\<close>

theorem oauth_token_as_bearer:
  assumes "handleOauthToken E r (Some f) st = (w, st')" and "status_of w = 200"
    and "get_value f ''grant_type'' = ''authorization_code''"
    and "\<And>a. a \<in> set (authRequests (osDb st)) \<Longrightarrow> arCode a = opt_value f ''code'' \<Longrightarrow>
           pScope (arParameters a) = ''com.atproto.access''"
    and "t = last (oauthTokens (osDb st'))"
    and "JObj claims = oauth_claims (olServer E) (otParameters t) (otClientId t) (otSub t) jti"
    and "jlClaims J (otToken t) = Some claims"
    and "\<And>kf. kf [(''alg'', JStr ''ES256''), (''typ'', JStr ''JWT'')] = Inr (jlPdsKey J) \<Longrightarrow> jlParse J kf (otToken t) = Some True"
    and "sFails sv = sFails (olServer E)" and "sNow sv \<le> sNow (olServer E) + 60 * Minute"
    and "SplitOn (CHR '' '') (header_get q ''authorization'') = [''Bearer'', otToken t]"
    and "qPath q \<noteq> ''/xrpc/com.atproto.server.refreshSession''"
  shows "\<exists>ctx. authed sv J L q (osDb st') dm = (Pass ctx, dm) \<and> cDid ctx = Some (otSub t)"
proof -
  obtain pr cl auth where "fst (authenticate_client E (par_of_form f) pr (snd (check_dpop E r st))) = Ret (cl, auth)"
    and bc: "token_by_code E f (clMetadata cl) auth (osDb st) = (w, osDb st')"
    using handleOauthToken_200 [OF assms(1,2)] assms(3) by auto
  obtain c req where q: "opt_value f ''code'' = Some c" "req \<in> set (authRequests (osDb st))" "arCode req = Some c"
    and isd: "issue_code_token E auth req
       ((osDb st)\<lparr>authRequests := sql_delete (\<lambda>a. arCode a = Some c) (authRequests (osDb st))\<rparr>) = (w, osDb st')"
    using token_by_code_200 [OF bc assms(2)] by blast
  have scope: "pScope (arParameters req) = ''com.atproto.access''" using assms(4) q by simp
  let ?d1 = "(osDb st)\<lparr>authRequests := sql_delete (\<lambda>a. arCode a = Some c) (authRequests (osDb st))\<rparr>"
  obtain tk repo where k: "getRepoActorByDid (sFails (olServer E)) ?d1 (otSub tk) = Inr repo"
    "osDb st' = ?d1\<lparr>oauthTokens := oauthTokens ?d1 @ [tk]\<rparr>" "otParameters tk = arParameters req"
    using issue_code_token_200 [OF isd assms(2)] by (elim exE conjE) (rule that, assumption+)
  have tk: "t = tk" by (simp add: k(2) assms(5))
  let ?sv = "olServer E"
  have lib: "jlParse J (pds_keyfunc J) (otToken t) = Some True"
    by (rule assms(8)) (rule pds_keyfunc_ES256)
  note cl = session_scope_claims [OF assms(6) [unfolded tk k(3), folded tk] scope]
  have rep: "getRepoActorByDid (sFails sv) (osDb st') (otSub t) = Inr repo"
    using k(1) lookup_frame [of "osDb st'" ?d1 "sFails sv"] by (simp add: k(2) assms(9) tk)
  have ne: "header_get q ''authorization'' \<noteq> ''''" using assms(11) by auto
  have ex: "\<not> Unix (sNow ?sv + TokenMaxAge) < Unix (sNow sv)"
    using assms(10) by (simp add: Unix_def zdiv_mono1 not_less)
  have "handleLegacySessionMiddleware sv J q (osDb st') =
     Pass (noContext\<lparr>cRepo := Some repo, cDid := Some (rDid (raRepo repo)), cToken := Some (otToken t)\<rparr>)"
    using assms(12) ne assms(11)
    by (simp add: handleLegacySessionMiddleware_def auth_header_def Let_def lib assms(7) cl verify_bearer_def
        bearer_account_def ex [simplified] rep)
  then have "authed sv J L q (osDb st') dm =
     (Pass (noContext\<lparr>cRepo := Some repo, cDid := Some (rDid (raRepo repo)), cToken := Some (otToken t)\<rparr>), dm)"
    using ne assms(11) by (simp add: authed_def handleOauthSessionMiddleware_def Let_def)
  moreover have "rDid (raRepo repo) = otSub t" using getRepoActorByDid_Inr [OF k(1)] by (simp add: tk)
  ultimately show ?thesis by simp
qed

section \<open>An example\<close>

definition demo_proof :: Proof where
  "demo_proof = \<lparr>JTI = ''j'', JKT = b64_encode [1], HTM = ''POST'', HTU = ''https://pds/oauth/token''\<rparr>"

definition demo_oclient :: "unit Client" where
  "demo_oclient = \<lparr>clMetadata = demo_metadata\<lparr>mTokenEndpointAuthMethod := ''none''\<rparr>, clJWKS = None\<rparr>"

definition demo_oauth :: "(unit, unit, unit, unit, string list) oauthLib" where
  "demo_oauth = \<lparr>olServer = demo_server, olDpop = demo_lib,
     olAssert = \<lparr>alHeader = (\<lambda>_. None), alParse = (\<lambda>_ _. None), alRaw = (\<lambda>_. None), alThumbprint = (\<lambda>_. None)\<rparr>,
     olClient = (\<lambda>i m. (Inr demo_oclient, m)), olRandom = (\<lambda>i. Some [of_nat i]), olElapsed = 1\<rparr>"

definition demo_oreq :: request where
  "demo_oreq = \<lparr>qMethod = ''POST'', qHost = ''pds'', qTLS = True, qHeaders = [(''dpop'', ''proof'')],
     qString = ''/oauth/token'', qPath = ''/oauth/token'', qQuery = [], qForm = [], qRemoteAddr = ''''\<rparr>"

definition demo_par :: ParRequest where
  "demo_par = zeroParRequest\<lparr>pClientID := ''https://app.org/m'', pCodeChallenge := Some '''',
     pCodeChallengeMethod := ''S256'', pRedirectURI := ''https://app.org/cb'', pScope := ''com.atproto.access'',
     pDpopJkt := Some (b64_encode [1])\<rparr>"

definition demo_auth_request :: OauthAuthorizationRequest where
  "demo_auth_request = zeroAuthRequest\<lparr>arRequestId := ''req-1'', arClientId := ''https://app.org/m'',
     arParameters := demo_par, arExpiresAt := 200 * Second, arSub := Some ''did:plc:a'', arCode := Some ''cod-1''\<rparr>"

definition demo_otoken :: OauthToken where
  "demo_otoken = zeroOauthToken\<lparr>otClientId := ''https://app.org/m'', otClientAuth := publicClientAuth,
     otParameters := demo_par, otExpiresAt := 0, otSub := ''did:plc:a'', otToken := ''tok'', otRefreshToken := ''ref-1''\<rparr>"

definition demo_ostate :: "(unit, string list) oauthState" where
  "demo_ostate = \<lparr>osDb = demo_db\<lparr>authRequests := [demo_auth_request], oauthTokens := [demo_otoken]\<rparr>,
     osClients = (), osDpop = demo_manager\<rparr>"

definition demo_token_form :: "(string \<times> string) list" where
  "demo_token_form = [(''grant_type'', ''authorization_code''), (''code'', ''cod-1''),
     (''redirect_uri'', ''https://app.org/cb''), (''code_verifier'', replicate 43 CHR ''v''), (''client_id'', ''https://app.org/m'')]"

definition demo_refresh_form :: "(string \<times> string) list" where
  "demo_refresh_form = [(''grant_type'', ''refresh_token''), (''refresh_token'', ''ref-1''), (''client_id'', ''https://app.org/m'')]"

lemmas demo_oauth_simps = demo_oauth_def demo_ostate_def demo_oclient_def

lemma demo_check_dpop:
  "\<exists>st1. check_dpop demo_oauth demo_oreq demo_ostate = (Inr (Some demo_proof), st1) \<and> osDb st1 = osDb demo_ostate"
proof -
  obtain res st1 where c: "check_dpop demo_oauth demo_oreq demo_ostate = (res, st1)" by force
  have "fst (check_dpop demo_oauth demo_oreq demo_ostate) = Inr (Some demo_proof)" by code_simp
  with c check_dpop_frame [OF c] show ?thesis by auto
qed

lemma demo_sign: "\<exists>s. signInternalJWT demo_server c = Inr s"
  by (simp add: signInternalJWT_def demo_server_def Let_def)

lemma demo_authenticate:
  "authenticate_client demo_oauth p (Some demo_proof) st = (Ret (demo_oclient, publicClientAuth), st)"
  by (simp add: authenticate_client_def AuthenticateClient_def Authenticate_def demo_oauth_def demo_oclient_def
      demo_metadata_def Let_def)

lemma demo_handleOauthToken:
  "handleOauthToken demo_oauth demo_oreq (Some f) demo_ostate =
     (let md = clMetadata demo_oclient; grant = get_value f ''grant_type'';
          st1 = snd (check_dpop demo_oauth demo_oreq demo_ostate) in
      if grant \<notin> set (mGrantTypes md) then (InputError (Some ''grant type is not supported by the client''), st1)
      else if grant = ''authorization_code'' then
        (let (w, d) = token_by_code demo_oauth f md publicClientAuth (osDb demo_ostate) in (w, st1\<lparr>osDb := d\<rparr>))
      else if grant = ''refresh_token'' then
        (let (w, d) = token_by_refresh demo_oauth f md publicClientAuth (Some demo_proof) (osDb demo_ostate)
         in (w, st1\<lparr>osDb := d\<rparr>))
      else (InputError (Some ''grant type is not supported''), st1))"
proof -
  obtain st1 where "check_dpop demo_oauth demo_oreq demo_ostate = (Inr (Some demo_proof), st1)" "osDb st1 = osDb demo_ostate"
    using demo_check_dpop by blast
  then show ?thesis by (simp add: handleOauthToken_def demo_authenticate Let_def)
qed

lemma demo_fields:
  "olServer demo_oauth = demo_server" "sha256 (olDpop demo_oauth) = (\<lambda>_. [])"
  "olRandom demo_oauth = (\<lambda>i. Some [of_nat i])" "sFails demo_server = (\<lambda>_. False)"
  "osDb demo_ostate = demo_db\<lparr>authRequests := [demo_auth_request], oauthTokens := [demo_otoken]\<rparr>"
  "otToken demo_otoken = ''tok''" "otRefreshToken demo_otoken = ''ref-1''"
  "arSub demo_auth_request = Some ''did:plc:a''" "arCode demo_auth_request = Some ''cod-1''"
  "rDid (raRepo demo_account) = ''did:plc:a''"
  by (simp_all add: demo_oauth_def demo_lib_def demo_server_def demo_ostate_def demo_otoken_def zeroOauthToken_def
      demo_auth_request_def zeroAuthRequest_def demo_account_def demo_repo_def)

lemma demo_code_grant:
  "status_of (fst (handleOauthToken demo_oauth demo_oreq (Some demo_token_form) demo_ostate)) = 200"
proof -
  have 1: "get_value demo_token_form ''grant_type'' = ''authorization_code''"
    "''authorization_code'' \<in> set (mGrantTypes (clMetadata demo_oclient))" by code_simp+
  have 2: "opt_value demo_token_form ''code'' = Some ''cod-1''"
    "opt_value demo_token_form ''redirect_uri'' = Some (pRedirectURI (arParameters demo_auth_request))"
    "pkce_error (\<lambda>_. []) (arParameters demo_auth_request) (opt_value demo_token_form ''code_verifier'') = None"
    "pDpopJkt (arParameters demo_auth_request) \<noteq> None" by code_simp+
  have 3: "scan zeroAuthRequest (\<lambda>a. arCode a = Some ''cod-1'') (authRequests (osDb demo_ostate)) = demo_auth_request"
    by code_simp
  have "getRepoActorByDid (\<lambda>_. False) demo_db ''did:plc:a'' = Inr demo_account" by code_simp
  then have 4: "repos d = repos demo_db \<Longrightarrow> actors d = actors demo_db \<Longrightarrow>
      getRepoActorByDid (\<lambda>_. False) d ''did:plc:a'' = Inr demo_account" for d
    by (simp add: lookup_frame [of d demo_db])
  have 5: "GenerateTokenId (Some [0]) = Some (''tok-'' @ ''00'')" "GenerateRefreshToken (Some [1]) = Some (''ref-'' @ ''01'')"
    by code_simp+
  obtain s where s: "signInternalJWT demo_server (oauth_claims demo_server (arParameters demo_auth_request)
      (arClientId demo_auth_request) ''did:plc:a'' ''tok-00'') = Inr s" using demo_sign by blast
  have "s \<noteq> ''tok''" using s by (auto simp: signInternalJWT_def demo_server_def Let_def)
  then have c: "otToken t = s \<Longrightarrow> otRefreshToken t = ''ref-01'' \<Longrightarrow> oauthTokens d = [demo_otoken] \<Longrightarrow>
      create_token demo_server t d = Inr (d\<lparr>oauthTokens := [demo_otoken, t]\<rparr>)" for t d
    by (simp add: create_token_def demo_fields)
  show ?thesis
    using 1 2 3
    by (simp add: demo_handleOauthToken token_by_code_def issue_code_token_def demo_fields Let_def 4 5 s c token_response_def)
qed

lemma demo_refresh_grant:
  "\<exists>s. fst (handleOauthToken demo_oauth demo_oreq (Some demo_refresh_form) demo_ostate) =
     token_response demo_oauth (otParameters demo_otoken) s ''ref-01'' (otSub demo_otoken)"
proof -
  have 1: "get_value demo_refresh_form ''grant_type'' = ''refresh_token''"
    "''refresh_token'' \<in> set (mGrantTypes (clMetadata demo_oclient))"
    "opt_value demo_refresh_form ''refresh_token'' = Some ''ref-1''" by code_simp+
  have 2: "scan zeroOauthToken (\<lambda>t. otRefreshToken t = ''ref-1'') [demo_otoken] = demo_otoken" by code_simp
  have 3: "refresh_error (sNow demo_server) (clMetadata demo_oclient) publicClientAuth (Some demo_proof) demo_otoken = None"
    by code_simp
  have 4: "GenerateTokenId (Some [0]) = Some ''tok-00''" "GenerateRefreshToken (Some [1]) = Some ''ref-01''"
    by code_simp+
  obtain s where s: "signInternalJWT demo_server (oauth_claims demo_server (otParameters demo_otoken)
      (otClientId demo_otoken) (otSub demo_otoken) ''tok-00'') = Inr s" using demo_sign by blast
  have "\<exists>d'. rotate_token demo_server ''ref-1'' s ''ref-01'' d = Inr d'" if "oauthTokens d = [demo_otoken]" for d
    by (simp add: rotate_token_def that demo_fields sql_update_def keyed_def Let_def)
  then obtain d' where r: "rotate_token demo_server ''ref-1'' s ''ref-01''
      (demo_db\<lparr>authRequests := [demo_auth_request], oauthTokens := [demo_otoken]\<rparr>) = Inr d'" by fastforce
  have "token_by_refresh demo_oauth demo_refresh_form (clMetadata demo_oclient) publicClientAuth (Some demo_proof)
      (osDb demo_ostate) = (token_response demo_oauth (otParameters demo_otoken) s ''ref-01'' (otSub demo_otoken), d')"
    unfolding token_by_refresh_def Let_def demo_fields(1,3-5)
    using r by (simp add: 1 2 3 4 s)
  then show ?thesis by (intro exI [of _ s]) (simp add: demo_handleOauthToken 1)
qed

theorem code_grant_sound_witness:
  "\<exists>req (t :: OauthToken) st'. req \<in> set (authRequests (osDb demo_ostate)) \<and> arSub req = Some (otSub t) \<and>
     handleOauthToken demo_oauth demo_oreq (Some demo_token_form) demo_ostate =
       (token_response demo_oauth (arParameters req) (otToken t) (otRefreshToken t) (otSub t), st') \<and>
     otExpiresAt t = 110 * Second + 60 * Minute"
proof -
  obtain w st' where h: "handleOauthToken demo_oauth demo_oreq (Some demo_token_form) demo_ostate = (w, st')" by force
  have s: "status_of w = 200" using demo_code_grant by (simp add: h)
  have g: "get_value demo_token_form ''grant_type'' = ''authorization_code''" by code_simp
  have n: "sNow (olServer demo_oauth) = 110 * Second" by (simp add: demo_oauth_def demo_server_def)
  obtain req and t :: OauthToken where "req \<in> set (authRequests (osDb demo_ostate))" "arSub req = Some (otSub t)"
    "otExpiresAt t = sNow (olServer demo_oauth) + 60 * Minute"
    "w = token_response demo_oauth (arParameters req) (otToken t) (otRefreshToken t) (otSub t)"
    using code_grant_sound [OF h s g] by (elim exE conjE) (rule that, assumption+)
  with h n show ?thesis by (intro exI [of _ req] exI [of _ t] exI [of _ st']) simp
qed

lemma token_response_inj: "token_response E p a n d = token_response E p b m e \<Longrightarrow> n = m"
  by (simp add: token_response_def writeJSON_def)

theorem refresh_grant_sound_witness:
  "\<exists>w st'. handleOauthToken demo_oauth demo_oreq (Some demo_refresh_form) demo_ostate = (w, st') \<and> status_of w = 200 \<and>
     ''ref-1'' \<in> otRefreshToken ` set (oauthTokens (osDb demo_ostate)) \<and>
     ''ref-1'' \<notin> otRefreshToken ` set (oauthTokens (osDb st'))"
proof -
  obtain w st' where h: "handleOauthToken demo_oauth demo_oreq (Some demo_refresh_form) demo_ostate = (w, st')" by force
  obtain s where w: "w = token_response demo_oauth (otParameters demo_otoken) s ''ref-01'' (otSub demo_otoken)"
    using demo_refresh_grant by (auto simp: h)
  have s: "status_of w = 200" by (simp add: w token_response_def)
  have g: "get_value demo_refresh_form ''grant_type'' = ''refresh_token''"
    "opt_value demo_refresh_form ''refresh_token'' = Some ''ref-1''" by code_simp+
  obtain rt t a n where r: "opt_value demo_refresh_form ''refresh_token'' = Some rt"
    "t = scan zeroOauthToken (\<lambda>t. otRefreshToken t = rt) (oauthTokens (osDb demo_ostate))"
    "w = token_response demo_oauth (otParameters t) a n (otSub t)"
    "n \<noteq> rt \<longrightarrow> rt \<notin> otRefreshToken ` set (oauthTokens (osDb st'))"
    using refresh_grant_sound [OF h s g(1)] by (elim exE conjE) (rule that, assumption+)
  have t: "t = demo_otoken" using r(1,2) g(2) by (simp add: scan_def sql_first_def demo_fields)
  have "n = ''ref-01''" using r(3) w token_response_inj unfolding t by blast
  moreover have "rt = ''ref-1''" using r(1) g(2) by simp
  ultimately have "''ref-1'' \<notin> otRefreshToken ` set (oauthTokens (osDb st'))" using r(4) by simp
  with h s show ?thesis by (simp add: demo_fields)
qed

definition demo_post_state :: "(unit, string list) oauthState" where
  "demo_post_state = demo_ostate\<lparr>osDb := demo_db\<lparr>authRequests := [demo_auth_request\<lparr>arSub := None, arCode := None\<rparr>]\<rparr>\<rparr>"

theorem authorize_once_witness:
  "\<exists>w st'. handleOauthAuthorizePost demo_oauth (Some [(''did'', JStr ''did:plc:a'')]) demo_oreq
      (Some [(''request_uri'', EncodeRequestUri ''req-1''), (''accept_or_reject'', ''accept'')]) demo_post_state = (w, st') \<and>
     osDb st' \<noteq> osDb demo_post_state \<and> (\<exists>c. \<forall>a \<in> set (authRequests (osDb st')). arRequestId a = ''req-1'' \<longrightarrow>
        arSub a = Some ''did:plc:a'' \<and> arCode a = Some c)"
proof -
  let ?f = "[(''request_uri'', EncodeRequestUri ''req-1''), (''accept_or_reject'', ''accept'')]"
  let ?s = "[(''did'', JStr ''did:plc:a'')]"
  obtain w st' where h: "handleOauthAuthorizePost demo_oauth (Some ?s) demo_oreq (Some ?f) demo_post_state = (w, st')" by force
  have "map arSub (authRequests (osDb (snd (handleOauthAuthorizePost demo_oauth (Some ?s) demo_oreq (Some ?f) demo_post_state))))
      = [Some ''did:plc:a'']" by code_simp
  moreover have "map arSub (authRequests (osDb demo_post_state)) = [None]" by code_simp
  ultimately have ne: "osDb st' \<noteq> osDb demo_post_state" using h by auto
  have s: "getSessionRepoOrErr (olServer demo_oauth) (Some ?s) (osDb demo_post_state) = Inr demo_account" by code_simp
  have i: "DecodeRequestUri (get_value ?f ''request_uri'') = Inr ''req-1''" by code_simp
  obtain repo f reqId c where "getSessionRepoOrErr (olServer demo_oauth) (Some ?s) (osDb demo_post_state) = Inr repo"
    "Some ?f = Some f" "DecodeRequestUri (get_value f ''request_uri'') = Inr reqId"
    "\<forall>a \<in> set (authRequests (osDb st')). arRequestId a = reqId \<longrightarrow> arSub a = Some (rDid (raRepo repo)) \<and> arCode a = Some c"
    using authorize_once [OF h] ne by (elim disjE exE conjE) (simp, rule that, assumption+)
  then have "\<forall>a \<in> set (authRequests (osDb st')). arRequestId a = ''req-1'' \<longrightarrow> arSub a = Some ''did:plc:a'' \<and> arCode a = Some c"
    using s i by (simp add: demo_fields)
  with h ne show ?thesis by blast
qed

definition demo_par_form :: "(string \<times> string) list" where
  "demo_par_form = [(''client_id'', ''https://app.org/m''), (''response_type'', ''code''), (''state'', ''s''),
     (''redirect_uri'', ''https://app.org/cb''), (''scope'', ''atproto''), (''code_challenge'', ''c''),
     (''code_challenge_method'', ''S256'')]"

lemma demo_par_accepted: "status_of (fst (handleOauthPar demo_oauth demo_oreq (Some demo_par_form) demo_ostate)) = 201"
proof -
  obtain st1 where c: "check_dpop demo_oauth demo_oreq demo_ostate = (Inr (Some demo_proof), st1)"
    using demo_check_dpop by blast
  have v: "par_valid (par_of_form demo_par_form)" by code_simp
  obtain p' where j: "par_jkt (clMetadata demo_oclient) (Some demo_proof) (par_of_form demo_par_form) = Inr p'"
    by (cases "par_jkt (clMetadata demo_oclient) (Some demo_proof) (par_of_form demo_par_form)")
       (auto simp: par_jkt_def demo_oclient_def demo_metadata_def demo_proof_def par_of_form_def par_of_query_def
          opt_value_def get_value_def demo_par_form_def)
  have "GenerateRequestId (Some [0]) = Some ''req-00''" by code_simp
  then have "\<exists>st2. store_request demo_oauth demo_oclient publicClientAuth p' st1 = (Inr ''req-00'', st2)"
    by (simp add: store_request_def demo_fields db_exec_def Let_def)
  then obtain st2 where "store_request demo_oauth demo_oclient publicClientAuth p' st1 = (Inr ''req-00'', st2)" ..
  then show ?thesis by (simp add: handleOauthPar_def v c demo_authenticate j Let_def)
qed

theorem par_binds_key_witness:
  "\<exists>w st' row. handleOauthPar demo_oauth demo_oreq (Some demo_par_form) demo_ostate = (w, st') \<and>
     row \<in> set (authRequests (osDb st')) \<and> pScope (arParameters row) = ''atproto'' \<and>
     pDpopJkt (arParameters row) = Some (JKT demo_proof)"
proof -
  obtain w st' where h: "handleOauthPar demo_oauth demo_oreq (Some demo_par_form) demo_ostate = (w, st')" by force
  have s: "status_of w = 201" using demo_par_accepted by (simp add: h)
  obtain f pr cl auth and row :: OauthAuthorizationRequest where r: "Some demo_par_form = Some f" "fst (check_dpop demo_oauth demo_oreq demo_ostate) = Inr pr"
    "fst (authenticate_client demo_oauth (par_of_form f) pr (snd (check_dpop demo_oauth demo_oreq demo_ostate))) = Ret (cl, auth)"
    "osDb st' = (osDb demo_ostate)\<lparr>authRequests := authRequests (osDb demo_ostate) @ [row]\<rparr>"
    "pScope (arParameters row) = get_value f ''scope''"
    "mDpopBoundAccessTokens (clMetadata cl) \<longrightarrow> (\<exists>x. pr = Some x \<and> pDpopJkt (arParameters row) = Some (JKT x))"
    using par_binds_key [OF h s] by (elim exE conjE) (rule that, assumption+)
  have pr: "pr = Some demo_proof" using r(2) demo_check_dpop by auto
  have "cl = demo_oclient" using r(3) by (simp add: pr demo_authenticate)
  then have "mDpopBoundAccessTokens (clMetadata cl)" by (simp add: demo_oclient_def demo_metadata_def)
  moreover have "get_value demo_par_form ''scope'' = ''atproto''" by code_simp
  ultimately show ?thesis
    using h r(1,4-6) pr by (intro exI [of _ w] exI [of _ st'] exI [of _ row]) simp
qed

lemma signed_no_space: "signInternalJWT sv c = Inr s \<Longrightarrow> CHR '' '' \<notin> set s"
proof -
  have b: "CHR '' '' \<notin> set (b64_encode bs)" for bs
  proof
    assume "CHR '' '' \<in> set (b64_encode bs)"
    from b64_encode_valid [OF this] show False by (auto simp: b64_val_def)
  qed
  assume "signInternalJWT sv c = Inr s"
  then show ?thesis by (auto simp: signInternalJWT_def Let_def b split: option.splits)
qed

theorem oauth_token_as_bearer_witness:
  "\<exists>w st' tok ctx. handleOauthToken demo_oauth demo_oreq (Some demo_token_form) demo_ostate = (w, st') \<and>
     (\<exists>J :: (unit, unit) jwtLib. authed demo_server J demo_lib
        (demo_request ''/xrpc/com.atproto.repo.createRecord'' [(''authorization'', ''Bearer '' @ tok)]) (osDb st') demo_manager
      = (Pass ctx, demo_manager)) \<and> cDid ctx = Some ''did:plc:a''"
proof -
  obtain w st' where h: "handleOauthToken demo_oauth demo_oreq (Some demo_token_form) demo_ostate = (w, st')" by force
  have s: "status_of w = 200" using demo_code_grant by (simp add: h)
  have g: "get_value demo_token_form ''grant_type'' = ''authorization_code''"
    "pScope (arParameters demo_auth_request) = ''com.atproto.access''" by code_simp+
  obtain c req and t :: OauthToken and jti where r: "req \<in> set (authRequests (osDb demo_ostate))" "arSub req = Some (otSub t)"
    "osDb st' = (osDb demo_ostate)\<lparr>authRequests := sql_delete (\<lambda>a. arCode a = Some c) (authRequests (osDb demo_ostate)),
      oauthTokens := oauthTokens (osDb demo_ostate) @ [t]\<rparr>"
    "signInternalJWT (olServer demo_oauth) (oauth_claims (olServer demo_oauth) (arParameters req) (arClientId req) (otSub t) jti)
      = Inr (otToken t)"
    using code_grant [OF h s g(1)] by (elim exE conjE) (rule that, assumption+)
  have sub: "otSub t = ''did:plc:a''" using r(1,2) by (simp add: demo_fields)
  obtain claims where cs: "JObj claims = oauth_claims (olServer demo_oauth) (otParameters t) (otClientId t) (otSub t) jti"
    unfolding oauth_claims_def by blast
  define J :: "(unit, unit) jwtLib" where "J = \<lparr>jlClaims = (\<lambda>_. Some claims), jlParse = (\<lambda>_ _. Some True), jlPdsKey = (),
     fetchDoc = (\<lambda>_. None), docPublicKey = (\<lambda>_. None)\<rparr>"
  let ?q = "demo_request ''/xrpc/com.atproto.repo.createRecord'' [(''authorization'', ''Bearer '' @ otToken t)]"
  have sp: "SplitOn (CHR '' '') (header_get ?q ''authorization'') = [''Bearer'', otToken t]"
    using signed_no_space [OF r(4)]
    by (simp add: header_get_def header_values_def demo_request_def SplitOn_no_sep)
  have "\<exists>ctx. authed demo_server J demo_lib ?q (osDb st') demo_manager = (Pass ctx, demo_manager) \<and> cDid ctx = Some (otSub t)"
    by (rule oauth_token_as_bearer [OF h s g(1) _ _ cs _ _ _ _ sp])
       (use g(2) r(3) in \<open>auto simp: J_def demo_fields demo_request_def\<close>)
  with h sub show ?thesis by (intro exI [of _ w] exI [of _ st'] exI [of _ "otToken t"]) auto
qed

end
