(* ===== verification/Events.thy ===== *)
theory Events
  imports Models "HOL-Library.Sublist"
begin

text \<open>
  server/persist.go: the sequenced log of stream events.  Every event gets the next sequence
  number, is stored and then broadcast; a subscriber replays the log page by page.  The CBOR
  encoding of an event is a parameter.
\<close>

section \<open>Events\<close>

record CommitEvt =
  ceSeq :: int
  ceRepo :: string
  ceBlocks :: bytes
  ceBlobs :: "bytes list"
  ceRev :: string
  ceSince :: string
  ceCommit :: bytes
  ceTime :: time
  ceOps :: "(string \<times> string \<times> bytes option \<times> bytes option) list" \<comment> \<open>action, path, cid, prev\<close>

record SyncEvt =
  seSeq :: int
  seDid :: string
  seRev :: string
  seBlocks :: bytes

record IdentityEvt =
  ieSeq :: int
  ieDid :: string
  ieHandle :: "string option"
  ieTime :: time

record AccountEvt =
  aeSeq :: int
  aeDid :: string
  aeActive :: bool
  aeStatus :: "string option"
  aeTime :: time

text \<open>A stream event has one of its fields set; the other kinds of the library are one case.\<close>

datatype XRPCStreamEvent =
    RepoCommit CommitEvt
  | RepoSync SyncEvt
  | RepoIdentity IdentityEvt
  | RepoAccount AccountEvt
  | OtherEvent

fun with_seq :: "int \<Rightarrow> XRPCStreamEvent \<Rightarrow> XRPCStreamEvent" where
  "with_seq n (RepoCommit e) = RepoCommit (e\<lparr>ceSeq := n\<rparr>)"
| "with_seq n (RepoSync e) = RepoSync (e\<lparr>seSeq := n\<rparr>)"
| "with_seq n (RepoIdentity e) = RepoIdentity (e\<lparr>ieSeq := n\<rparr>)"
| "with_seq n (RepoAccount e) = RepoAccount (e\<lparr>aeSeq := n\<rparr>)"
| "with_seq n OtherEvent = OtherEvent"

text \<open>The did and the type stored with an event; \<open>None\<close> is the default branch.\<close>

fun event_kind :: "XRPCStreamEvent \<Rightarrow> (string \<times> string) option" where
  "event_kind (RepoCommit e) = Some (ceRepo e, ''commit'')"
| "event_kind (RepoSync e) = Some (seDid e, ''sync'')"
| "event_kind (RepoIdentity e) = Some (ieDid e, ''identity'')"
| "event_kind (RepoAccount e) = Some (aeDid e, ''account'')"
| "event_kind OtherEvent = None"

fun event_seq :: "XRPCStreamEvent \<Rightarrow> int" where
  "event_seq (RepoCommit e) = ceSeq e"
| "event_seq (RepoSync e) = seSeq e"
| "event_seq (RepoIdentity e) = ieSeq e"
| "event_seq (RepoAccount e) = aeSeq e"
| "event_seq OtherEvent = 0"

text \<open>
  The CBOR library: encoding each kind of event, and decoding into the kind named by the type.
\<close>

record cborLib =
  cborMarshal :: "XRPCStreamEvent \<Rightarrow> bytes option"
  cborUnmarshal :: "string \<Rightarrow> bytes \<Rightarrow> XRPCStreamEvent option"

definition serializeEvent :: "cborLib \<Rightarrow> XRPCStreamEvent \<Rightarrow> goerr + bytes" where
  "serializeEvent B e =
     (if event_kind e = None then Inl (Err ''unknown event type'')
      else (case cborMarshal B e of None \<Rightarrow> Inl (Err ''cbor'') | Some b \<Rightarrow> Inr b))"

definition deserializeEvent :: "cborLib \<Rightarrow> string \<Rightarrow> bytes \<Rightarrow> goerr + XRPCStreamEvent" where
  "deserializeEvent B ty b =
     (if ty \<notin> {''commit'', ''sync'', ''identity'', ''account''} then Inl (Err ''unknown event type'')
      else (case cborUnmarshal B ty b of None \<Rightarrow> Inl (Err ''cbor'') | Some e \<Rightarrow> Inr e))"

section \<open>The persister\<close>

text \<open>\<open>dpSent\<close> is what the broadcaster has been given, oldest first.\<close>

record DbPersister =
  dpSeq :: int
  dpRetention :: duration
  dpTable :: "EventRecord table"
  dpSent :: "XRPCStreamEvent list"

definition latest :: "EventRecord table \<Rightarrow> int option" where
  "latest t = (if t = [] then None else Some (Max (set (map evSeq t))))"

definition NewDbPersister :: "faults \<Rightarrow> time \<Rightarrow> duration \<Rightarrow> EventRecord table \<Rightarrow> goerr + DbPersister" where
  "NewDbPersister fails now retention t =
     (if fails ''events.migrate'' then Inl (Err ''failed to migrate EventRecord'')
      else if fails ''events.last'' then Inl (Err ''failed to get last event seq'')
      else Inr \<lparr>dpSeq = (case latest t of None \<Rightarrow> Unix now | Some n \<Rightarrow> n),
                dpRetention = (if retention = 0 then 72 * Hour else retention),
                dpTable = t, dpSent = []\<rparr>)"

definition Persist ::
  "faults \<Rightarrow> cborLib \<Rightarrow> time \<Rightarrow> XRPCStreamEvent \<Rightarrow> DbPersister \<Rightarrow> goerr option \<times> DbPersister" where
  "Persist fails B now e p =
     (let seq = dpSeq p + 1; p1 = p\<lparr>dpSeq := seq\<rparr>; e1 = with_seq seq e in
      case event_kind e1 of
        None \<Rightarrow> (Some (Err ''unknown event type''), p1)
      | Some (did, ty) \<Rightarrow>
          (case serializeEvent B e1 of
             Inl er \<Rightarrow> (Some (Wrap ''failed to serialize event'' er), p1)
           | Inr data \<Rightarrow>
               if fails ''events.create'' then (Some (Wrap ''failed to persist event'' (ErrDb ''events.create'')), p1)
               else (case sql_insert evSeq \<lparr>evSeq = seq, evCreatedAt = now, evDid = did, evType = ty, evData = data\<rparr>
                            (dpTable p1) of
                       None \<Rightarrow> (Some (Wrap ''failed to persist event'' (ErrDb ''events.create'')), p1)
                     | Some t \<Rightarrow> (None, p1\<lparr>dpTable := t, dpSent := dpSent p1 @ [e1]\<rparr>))))"

text \<open>One tick of the cleanup routine.\<close>

definition cleanup :: "faults \<Rightarrow> time \<Rightarrow> DbPersister \<Rightarrow> DbPersister" where
  "cleanup fails now p =
     (if fails ''events.cleanup'' then p
      else p\<lparr>dpTable := sql_delete (\<lambda>r. evCreatedAt r < now - dpRetention p) (dpTable p)\<rparr>)"

section \<open>Playback\<close>

definition event_page :: "nat \<Rightarrow> int \<Rightarrow> EventRecord table \<Rightarrow> EventRecord list" where
  "event_page pageSize cursor t = take pageSize (sort_key evSeq (filter (\<lambda>r. evSeq r > cursor) t))"

text \<open>The inner loop: the error that stopped it, the cursor and the state of the callback.\<close>

fun deliver_events ::
  "(EventRecord \<Rightarrow> goerr + 'e) \<Rightarrow> ('e \<Rightarrow> 's \<Rightarrow> goerr option \<times> 's) \<Rightarrow> EventRecord list \<Rightarrow> int \<Rightarrow> 's \<Rightarrow>
   goerr option \<times> int \<times> 's" where
  "deliver_events dec cb [] cursor s = (None, cursor, s)"
| "deliver_events dec cb (r # rs) cursor s =
     (case dec r of
        Inl e \<Rightarrow> (Some (Wrap ''failed to deserialize event'' e), cursor, s)
      | Inr ev \<Rightarrow>
          (case cb ev s of
             (Some e, s') \<Rightarrow> (Some e, cursor, s')
           | (None, s') \<Rightarrow> deliver_events dec cb rs (evSeq r) s'))"

lemma deliver_events_cursor:
  "deliver_events dec cb rs cursor s = (None, c, s') \<Longrightarrow> c = (if rs = [] then cursor else evSeq (last rs))"
  by (induction rs arbitrary: cursor s) (auto split: sum.splits prod.splits option.splits)

lemma set_event_page: "set (event_page n cursor t) \<subseteq> {r \<in> set t. evSeq r > cursor}"
  by (auto simp: event_page_def dest: in_set_takeD)

text \<open>
  The loop of Playback.  \<open>qf c\<close> says whether the query of the page after cursor \<open>c\<close> fails.
\<close>

function Playback_loop ::
  "(int \<Rightarrow> bool) \<Rightarrow> nat \<Rightarrow> (EventRecord \<Rightarrow> goerr + 'e) \<Rightarrow> ('e \<Rightarrow> 's \<Rightarrow> goerr option \<times> 's) \<Rightarrow> EventRecord table \<Rightarrow> int \<Rightarrow> 's \<Rightarrow>
   goerr option \<times> 's" where
  "Playback_loop qf pageSize dec cb t cursor s =
     (let recs = event_page pageSize cursor t in
      if qf cursor then (Some (Wrap ''failed to query events'' (ErrDb ''events.page'')), s)
      else if recs = [] then (None, s)
      else (case deliver_events dec cb recs cursor s of
              (Some e, c, s') \<Rightarrow> (Some e, s')
            | (None, c, s') \<Rightarrow>
                if length recs < pageSize then (None, s') else Playback_loop qf pageSize dec cb t c s'))"
  by pat_completeness auto

termination
proof (relation "measure (\<lambda>(qf, n, dec, cb, t, cursor, s). length (filter (\<lambda>r. evSeq r > cursor) t))", goal_cases)
  case 1
  show ?case by simp
next
  case (2 qf n dec cb t cursor s recs x y c s')
  then have c: "c = evSeq (last recs)" using deliver_events_cursor [of dec cb recs cursor s c s'] by auto
  have "last recs \<in> set recs" using 2 by simp
  then have l: "last recs \<in> set t" "evSeq (last recs) > cursor" using set_event_page [of n cursor t] 2(1) by auto
  have "length (filter (\<lambda>r. evSeq r > c) t) < length (filter (\<lambda>r. evSeq r > cursor) t)"
    using l unfolding c
  proof (induction t)
    case (Cons a t)
    have "length (filter (\<lambda>r. evSeq r > evSeq (last recs)) t) \<le> length (filter (\<lambda>r. evSeq r > cursor) t)"
      using Cons.prems(2) by (induction t) auto
    with Cons show ?case by auto
  qed simp
  then show ?case by simp
qed

declare Playback_loop.simps [simp del]

definition Playback ::
  "(int \<Rightarrow> bool) \<Rightarrow> cborLib \<Rightarrow> (XRPCStreamEvent \<Rightarrow> 's \<Rightarrow> goerr option \<times> 's) \<Rightarrow> EventRecord table \<Rightarrow> int \<Rightarrow> 's \<Rightarrow> goerr option \<times> 's" where
  "Playback qf B cb t since s = Playback_loop qf 500 (\<lambda>r. deserializeEvent B (evType r) (evData r)) cb t since s"

section \<open>Paging is invisible\<close>

lemma deliver_events_append:
  "deliver_events dec cb (xs @ ys) cursor s =
     (case deliver_events dec cb xs cursor s of
        (Some e, c, s') \<Rightarrow> (Some e, c, s')
      | (None, c, s') \<Rightarrow> deliver_events dec cb ys c s')"
  by (induction xs arbitrary: cursor s) (auto split: sum.splits prod.splits option.splits)

lemma deliver_events_cursor_irrelevant:
  "fst (deliver_events dec cb rs c s) = fst (deliver_events dec cb rs c' s) \<and>
   snd (snd (deliver_events dec cb rs c s)) = snd (snd (deliver_events dec cb rs c' s))"
  by (cases rs) (auto split: sum.splits prod.splits option.splits)

lemma sorted_drop_filter:
  assumes "sorted_wrt (<) (map f xs)" and "0 < n" and "n \<le> length xs"
  shows "drop n xs = filter (\<lambda>x. f x > (f (last (take n xs)) :: int)) xs"
proof -
  have s: "sorted_wrt (\<lambda>a b. f a < f b) xs" using assms(1) by (simp add: sorted_wrt_map)
  have l: "last (take n xs) = xs ! (n - 1)" using assms(2,3) by (subst last_conv_nth) (auto simp: min_def)
  have lo: "f x \<le> f (xs ! (n - 1))" if "x \<in> set (take n xs)" for x
  proof -
    from that obtain i where i: "i < n" "i < length xs" "x = xs ! i" by (auto simp: in_set_conv_nth)
    show ?thesis
    proof (cases "i = n - 1")
      case False
      then have "i < n - 1" using i by simp
      with s i assms(3) have "f (xs ! i) < f (xs ! (n - 1))" by (intro sorted_wrt_nth_less [of "\<lambda>a b. f a < f b"]) auto
      with i show ?thesis by simp
    qed (use i in simp)
  qed
  have hi: "f (xs ! (n - 1)) < f x" if "x \<in> set (drop n xs)" for x
  proof -
    from that obtain i where i: "i < length xs - n" "x = drop n xs ! i" by (metis in_set_conv_nth length_drop)
    then have x: "x = xs ! (n + i)" using assms(3) by simp
    have "f (xs ! (n - 1)) < f (xs ! (n + i))"
      by (rule sorted_wrt_nth_less [OF s]) (use assms(2,3) i in auto)
    with x show ?thesis by simp
  qed
  have "filter (\<lambda>x. f x > f (last (take n xs))) (take n xs @ drop n xs) = drop n xs"
    unfolding filter_append l using lo hi by (auto simp: filter_empty_conv filter_id_conv not_less)
  then show ?thesis by simp
qed

lemma sorted_strict_sort_key:
  "distinct (map f xs) \<Longrightarrow> sorted_wrt (<) (map f (sort_key f xs))"
  by (simp add: strict_sorted_iff distinct_map)

lemma keyed_filter: "keyed f t \<Longrightarrow> distinct (map f (filter P t))"
  unfolding keyed_def by (rule distinct_map_filter)

lemma Playback_loop_one_pass:
  assumes "0 < n" and "keyed evSeq t" and "\<And>c. \<not> qf c"
  shows "Playback_loop qf n dec cb t cursor s =
    (let (e, c, s') = deliver_events dec cb (sort_key evSeq (filter (\<lambda>r. evSeq r > cursor) t)) cursor s in (e, s'))"
  using assms
proof (induction qf n dec cb t cursor s rule: Playback_loop.induct)
  case (1 qf n dec cb t cursor s)
  define L where "L = sort_key evSeq (filter (\<lambda>r. evSeq r > cursor) t)"
  have pg: "event_page n cursor t = take n L" by (simp add: event_page_def L_def)
  have srt: "sorted_wrt (<) (map evSeq L)"
    unfolding L_def using 1(3) by (intro sorted_strict_sort_key keyed_filter)
  obtain e c s' where d: "deliver_events dec cb (take n L) cursor s = (e, c, s')" by (metis prod_cases3)
  show ?case
  proof (cases "take n L = [] \<or> e \<noteq> None \<or> length L < n")
    case True
    then show ?thesis
      using 1(2,4) d deliver_events_append [of dec cb "take n L" "drop n L" cursor s]
      by (subst Playback_loop.simps) (auto simp: pg L_def [symmetric] Let_def split: option.splits)
  next
    case False
    then have f: "take n L \<noteq> []" "e = None" "n \<le> length L" by auto
    have c: "c = evSeq (last (take n L))" using deliver_events_cursor [OF d [unfolded f(2)]] f(1) by simp
    have "last (take n L) \<in> set L" using f(1) by (meson in_set_takeD last_in_set)
    then have gt: "c > cursor" by (auto simp: c L_def)
    have "drop n L = filter (\<lambda>r. evSeq r > c) L"
      unfolding c by (rule sorted_drop_filter [OF srt 1(2) f(3)])
    also have "\<dots> = sort_key evSeq (filter (\<lambda>r. evSeq r > c) t)"
      using gt by (auto simp: L_def filter_sort intro!: arg_cong [where f = "sort_key evSeq"] filter_cong)
    finally have dr: "drop n L = sort_key evSeq (filter (\<lambda>r. evSeq r > c) t)" .
    have "Playback_loop qf n dec cb t cursor s = Playback_loop qf n dec cb t c s'"
      using f d 1(2,4) by (subst Playback_loop.simps) (simp add: pg Let_def)
    also have "\<dots> = (let (e, c, s') = deliver_events dec cb (drop n L) c s' in (e, s'))"
      unfolding dr using f d 1(2,3,4) by (intro 1(1) [OF refl]) (auto simp: pg)
    also have "\<dots> = (let (e, c, s') = deliver_events dec cb L cursor s in (e, s'))"
      using deliver_events_append [of dec cb "take n L" "drop n L" cursor s] by (simp add: d f(2))
    finally show ?thesis by (simp add: L_def)
  qed
qed

section \<open>The log and the broadcast\<close>

text \<open>Runs of the persister: events are persisted and, when \<open>b\<close> allows it, old ones removed.\<close>

inductive runs :: "cborLib \<Rightarrow> bool \<Rightarrow> DbPersister \<Rightarrow> DbPersister \<Rightarrow> bool" for B b where
  runs_refl: "runs B b p p"
| runs_persist: "runs B b p q \<Longrightarrow> runs B b p (snd (Persist fails B now e q))"
| runs_cleanup: "runs B b p q \<Longrightarrow> b \<Longrightarrow> runs B b p (cleanup fails now q)"

text \<open>A subscriber's callback run over a list of events, stopping at its first error.\<close>

fun run_cb :: "('e \<Rightarrow> 's \<Rightarrow> goerr option \<times> 's) \<Rightarrow> 'e list \<Rightarrow> 's \<Rightarrow> goerr option \<times> 's" where
  "run_cb cb [] s = (None, s)"
| "run_cb cb (e # es) s = (case cb e s of (Some er, s') \<Rightarrow> (Some er, s') | (None, s') \<Rightarrow> run_cb cb es s')"

text \<open>The law of the CBOR library: decoding gives back what was encoded.\<close>

definition cbor_law :: "cborLib \<Rightarrow> bool" where
  "cbor_law B \<longleftrightarrow> (\<forall>e b did ty. cborMarshal B e = Some b \<and> event_kind e = Some (did, ty) \<longrightarrow> cborUnmarshal B ty b = Some e)"

definition dec_row :: "cborLib \<Rightarrow> EventRecord \<Rightarrow> goerr + XRPCStreamEvent" where
  "dec_row B r = deserializeEvent B (evType r) (evData r)"

text \<open>The table holds, in order, the events of \<open>kept\<close>, each under its own sequence number.\<close>

definition log_of :: "cborLib \<Rightarrow> DbPersister \<Rightarrow> XRPCStreamEvent list \<Rightarrow> bool" where
  "log_of B p kept \<longleftrightarrow> list_all2 (\<lambda>r e. dec_row B r = Inr e \<and> evSeq r = event_seq e) (dpTable p) kept \<and>
     subseq kept (dpSent p) \<and> sorted_wrt (<) (map event_seq (dpSent p)) \<and>
     (\<forall>e \<in> set (dpSent p). event_seq e \<le> dpSeq p)"

lemma event_seq_with_seq: "event_kind e \<noteq> None \<Longrightarrow> event_seq (with_seq n e) = n"
  by (cases e) auto

lemma event_kind_with_seq [simp]: "event_kind (with_seq n e) = event_kind e"
  by (cases e) auto

lemma event_kind_type: "event_kind e = Some (did, ty) \<Longrightarrow> ty \<in> {''commit'', ''sync'', ''identity'', ''account''}"
  by (cases e) auto

lemma Persist_cases:
  "snd (Persist fails B now e p) = p\<lparr>dpSeq := dpSeq p + 1\<rparr> \<and> fst (Persist fails B now e p) \<noteq> None \<or>
   (\<exists>did ty b. fst (Persist fails B now e p) = None \<and> event_kind e = Some (did, ty) \<and>
      cborMarshal B (with_seq (dpSeq p + 1) e) = Some b \<and>
      snd (Persist fails B now e p) = p\<lparr>dpSeq := dpSeq p + 1,
        dpTable := dpTable p @ [\<lparr>evSeq = dpSeq p + 1, evCreatedAt = now, evDid = did, evType = ty, evData = b\<rparr>],
        dpSent := dpSent p @ [with_seq (dpSeq p + 1) e]\<rparr>)"
  by (auto simp: Persist_def serializeEvent_def sql_insert_def Let_def
      split: option.split sum.split prod.split if_splits)

lemma list_all2_filter:
  "list_all2 R xs ys \<Longrightarrow> \<exists>zs. subseq zs ys \<and> list_all2 R (filter P xs) zs"
proof (induction rule: list_all2_induct)
  case (Cons x xs y ys)
  then obtain zs where "subseq zs ys" "list_all2 R (filter P xs) zs" by blast
  with Cons(1) show ?case
    by (cases "P x") (auto intro: exI [of _ "y # zs"] exI [of _ zs])
qed auto

lemma log_of_persist:
  assumes "log_of B p kept" and "cbor_law B"
  shows "\<exists>kept'. log_of B (snd (Persist fails B now e p)) kept' \<and>
    (kept = dpSent p \<longrightarrow> kept' = dpSent (snd (Persist fails B now e p)))"
proof (rule disjE [OF Persist_cases [of fails B now e p]])
  assume "snd (Persist fails B now e p) = p\<lparr>dpSeq := dpSeq p + 1\<rparr> \<and> fst (Persist fails B now e p) \<noteq> None"
  with assms(1) show ?thesis by (intro exI [of _ kept]) (force simp: log_of_def)
next
  let ?n = "dpSeq p + 1"
  assume "\<exists>did ty b. fst (Persist fails B now e p) = None \<and> event_kind e = Some (did, ty) \<and>
      cborMarshal B (with_seq ?n e) = Some b \<and>
      snd (Persist fails B now e p) = p\<lparr>dpSeq := ?n,
        dpTable := dpTable p @ [\<lparr>evSeq = ?n, evCreatedAt = now, evDid = did, evType = ty, evData = b\<rparr>],
        dpSent := dpSent p @ [with_seq ?n e]\<rparr>"
  then obtain did ty b where k: "event_kind e = Some (did, ty)" "cborMarshal B (with_seq ?n e) = Some b"
    and q: "snd (Persist fails B now e p) = p\<lparr>dpSeq := ?n,
        dpTable := dpTable p @ [\<lparr>evSeq = ?n, evCreatedAt = now, evDid = did, evType = ty, evData = b\<rparr>],
        dpSent := dpSent p @ [with_seq ?n e]\<rparr>" by blast
  have "cborUnmarshal B ty b = Some (with_seq ?n e)"
    using assms(2) k unfolding cbor_law_def by (metis event_kind_with_seq)
  then have d: "dec_row B \<lparr>evSeq = ?n, evCreatedAt = now, evDid = did, evType = ty, evData = b\<rparr> = Inr (with_seq ?n e)"
    using event_kind_type [OF k(1)] by (simp add: dec_row_def deserializeEvent_def)
  have s: "event_seq (with_seq ?n e) = ?n" using k(1) by (intro event_seq_with_seq) simp
  show ?thesis
    using assms(1) unfolding q log_of_def
    by (intro exI [of _ "kept @ [with_seq ?n e]"])
       (force simp: d s sorted_wrt_append intro: list_all2_appendI list_emb_append_mono)
qed

lemma log_of_cleanup: "log_of B p kept \<Longrightarrow> \<exists>kept'. log_of B (cleanup fails now p) kept'"
proof (cases "fails ''events.cleanup''")
  case False
  assume a: "log_of B p kept"
  obtain zs where "subseq zs kept"
    "list_all2 (\<lambda>r e. dec_row B r = Inr e \<and> evSeq r = event_seq e)
       (filter (\<lambda>r. \<not> evCreatedAt r < now - dpRetention p) (dpTable p)) zs"
    using list_all2_filter a unfolding log_of_def by blast
  with a False show ?thesis
    by (intro exI [of _ zs]) (auto simp: log_of_def cleanup_def sql_delete_def intro: subseq_order.trans)
qed (auto simp: cleanup_def)

lemma runs_log:
  assumes "runs B b p q" and "cbor_law B" and "dpTable p = []" and "dpSent p = []"
  shows "\<exists>kept. log_of B q kept \<and> (\<not> b \<longrightarrow> kept = dpSent q)"
  using assms
proof (induction rule: runs.induct)
  case (runs_refl p)
  then show ?case by (intro exI [of _ "[]"]) (simp add: log_of_def)
next
  case (runs_persist p q fails now e)
  then obtain kept where "log_of B q kept" "\<not> b \<longrightarrow> kept = dpSent q" by blast
  with log_of_persist [of B q kept fails now e] runs_persist.prems(1) show ?case by blast
next
  case (runs_cleanup p q fails now)
  then show ?case using log_of_cleanup by blast
qed

lemma deliver_run_cb:
  assumes "list_all2 (\<lambda>r e. dec r = Inr e) rs es" and "deliver_events dec cb rs cursor s = (e, c, s')"
  shows "run_cb cb es s = (e, s')"
  using assms
  by (induction rs es arbitrary: cursor s rule: list_all2_induct)
     (auto split: prod.splits option.splits)

lemma sorted_wrt_subseq: "subseq xs ys \<Longrightarrow> sorted_wrt P ys \<Longrightarrow> sorted_wrt P xs"
proof (induction rule: list_emb.induct)
  case (list_emb_Cons2 x y xs ys)
  have "set xs \<subseteq> set ys" using list_emb_Cons2(2) by (auto elim: list_emb_set)
  with list_emb_Cons2 show ?case by auto
qed auto

lemma log_of_keyed:
  assumes "log_of B p kept"
  shows "map evSeq (dpTable p) = map event_seq kept" and "sorted_wrt (<) (map evSeq (dpTable p))"
proof -
  have l: "list_all2 (\<lambda>r e. dec_row B r = Inr e \<and> evSeq r = event_seq e) (dpTable p) kept"
    using assms by (simp add: log_of_def)
  then show e: "map evSeq (dpTable p) = map event_seq kept"
    by (induction rule: list_all2_induct) auto
  have "subseq (map event_seq kept) (map event_seq (dpSent p))"
    using assms by (auto simp: log_of_def intro: subseq_map)
  then show "sorted_wrt (<) (map evSeq (dpTable p))"
    unfolding e using assms by (auto simp: log_of_def elim: sorted_wrt_subseq)
qed

lemma log_playback:
  assumes "log_of B p kept"
  shows "Playback (\<lambda>_. False) B cb (dpTable p) since s = run_cb cb (filter (\<lambda>e. event_seq e > since) kept) s"
proof -
  let ?L = "filter (\<lambda>r. evSeq r > since) (dpTable p)"
  have st: "sorted_wrt (<) (map evSeq (dpTable p))" by (rule log_of_keyed [OF assms])
  then have k: "keyed evSeq (dpTable p)" by (simp add: keyed_def strict_sorted_iff)
  have "sorted (map evSeq ?L)" using st by (simp add: sorted_filter strict_sorted_iff)
  then have srt: "sort_key evSeq ?L = ?L" by (rule sort_key_id_if_sorted)
  have "list_all2 (\<lambda>r e. dec_row B r = Inr e) ?L (filter (\<lambda>e. event_seq e > since) kept)"
  proof -
    have "list_all2 (\<lambda>r e. dec_row B r = Inr e \<and> evSeq r = event_seq e) (dpTable p) kept"
      using assms by (simp add: log_of_def)
    then show ?thesis by (induction rule: list_all2_induct) auto
  qed
  moreover obtain e c s' where d: "deliver_events (dec_row B) cb ?L since s = (e, c, s')" by (metis prod_cases3)
  ultimately have "run_cb cb (filter (\<lambda>e. event_seq e > since) kept) s = (e, s')" by (rule deliver_run_cb)
  moreover have "dec_row B = (\<lambda>r. deserializeEvent B (evType r) (evData r))" by (simp add: dec_row_def fun_eq_iff)
  ultimately show ?thesis
    using Playback_loop_one_pass [OF _ k, of 500 "\<lambda>_. False" "dec_row B" cb since s] d srt by (simp add: Playback_def)
qed

section \<open>Properties\<close>

text \<open>
  C21: What a subscriber is sent.  After any run of the persister that started on a fresh log, whatever
  calls failed, the events broadcast have strictly increasing sequence numbers, the table holds a
  subsequence of them (all of them when nothing was cleaned up), and playing the log back after
  \<open>since\<close>, in pages of 500, hands the callback exactly the stored events numbered above \<open>since\<close>, in
  order, stopping at its first error, provided no page query fails.  The CBOR library is assumed to decode what it encodes.
\<close>

theorem replay_after_runs:
  assumes "cbor_law B" and "NewDbPersister fails now ret [] = Inr p" and "runs B b p q"
  shows "\<exists>kept. subseq kept (dpSent q) \<and> (\<not> b \<longrightarrow> kept = dpSent q) \<and>
    map evSeq (dpTable q) = map event_seq kept \<and>
    sorted_wrt (<) (map event_seq (dpSent q)) \<and>
    Playback (\<lambda>_. False) B cb (dpTable q) since s = run_cb cb (filter (\<lambda>e. event_seq e > since) kept) s"
proof -
  have "dpTable p = []" "dpSent p = []"
    using assms(2) by (auto simp: NewDbPersister_def split: if_splits)
  with runs_log [OF assms(3,1)] obtain kept where k: "log_of B q kept" "\<not> b \<longrightarrow> kept = dpSent q" by blast
  have "subseq kept (dpSent q)" "sorted_wrt (<) (map event_seq (dpSent q))"
    using k(1) by (simp_all add: log_of_def)
  with k(2) log_of_keyed(1) [OF k(1)] show ?thesis
    by (intro exI [of _ kept] conjI log_playback [OF k(1)])
qed

text \<open>A toy encoding for the witnesses: one byte per event, enough for two identity events.\<close>

definition demo_ident :: "int \<Rightarrow> XRPCStreamEvent" where
  "demo_ident n = RepoIdentity \<lparr>ieSeq = n, ieDid = ''did:plc:a'', ieHandle = None, ieTime = 0\<rparr>"

definition demo_cbor :: cborLib where
  "demo_cbor = \<lparr>cborMarshal = (\<lambda>e. if e = demo_ident (Unix 0 + 1) then Some [1] else None),
     cborUnmarshal = (\<lambda>ty b. if ty = ''identity'' \<and> b = [1] then Some (demo_ident (Unix 0 + 1)) else None)\<rparr>"

theorem replay_after_runs_witness:
  "\<exists>p. NewDbPersister (\<lambda>_. False) 0 0 [] = Inr p \<and>
     dpSent (snd (Persist (\<lambda>_. False) demo_cbor 0 (demo_ident 0) p)) = [demo_ident (Unix 0 + 1)] \<and>
     Playback (\<lambda>_. False) demo_cbor (\<lambda>e s. (None, s @ [e])) (dpTable (snd (Persist (\<lambda>_. False) demo_cbor 0 (demo_ident 0) p))) 0 [] =
       run_cb (\<lambda>e s. (None, s @ [e])) (filter (\<lambda>e. event_seq e > 0) [demo_ident (Unix 0 + 1)]) []"
proof -
  define p where "p = \<lparr>dpSeq = Unix 0, dpRetention = 72 * Hour, dpTable = [], dpSent = []\<rparr>"
  have n: "NewDbPersister (\<lambda>_. False) 0 0 [] = Inr p" by (simp add: NewDbPersister_def latest_def p_def)
  have l: "cbor_law demo_cbor" by (auto simp: cbor_law_def demo_cbor_def demo_ident_def)
  have w: "with_seq (Unix 0 + 1) (demo_ident 0) = demo_ident (Unix 0 + 1)" by (simp add: demo_ident_def)
  have k: "event_kind (demo_ident x) = Some (''did:plc:a'', ''identity'')" for x by (simp add: demo_ident_def)
  have s: "dpSent (snd (Persist (\<lambda>_. False) demo_cbor 0 (demo_ident 0) p)) = [demo_ident (Unix 0 + 1)]"
    by (simp add: Persist_def serializeEvent_def Let_def p_def w k demo_cbor_def sql_insert_def)
  show ?thesis
    using replay_after_runs [OF l n, of False "snd (Persist (\<lambda>_. False) demo_cbor 0 (demo_ident 0) p)"
        "\<lambda>e s. (None, s @ [e])" 0 "[]"] runs_persist [OF runs_refl, of demo_cbor False p "\<lambda>_. False" 0 "demo_ident 0"] n s
    by auto
qed

text \<open>
  Paging is invisible.  When no query fails, reading the table in pages of any positive size
  gives the callback the same calls as one pass over the rows above the cursor in sequence order: no event
  is skipped or repeated at a page border.
\<close>

theorem playback_paging:
  assumes "0 < n" and "keyed evSeq t"
  shows "Playback_loop (\<lambda>_. False) n (\<lambda>r. deserializeEvent B (evType r) (evData r)) cb t since s =
    (let (e, c, s') = deliver_events (\<lambda>r. deserializeEvent B (evType r) (evData r)) cb
       (sort_key evSeq (filter (\<lambda>r. evSeq r > since) t)) since s in (e, s'))"
  by (rule Playback_loop_one_pass [OF assms]) simp

theorem playback_paging_witness:
  "Playback_loop (\<lambda>_. False) 1 (\<lambda>r. deserializeEvent demo_cbor (evType r) (evData r)) (\<lambda>e s. (None, s @ [e]))
     [\<lparr>evSeq = 2, evCreatedAt = 0, evDid = [], evType = ''identity'', evData = [1]\<rparr>,
      \<lparr>evSeq = 1, evCreatedAt = 0, evDid = [], evType = ''identity'', evData = [1]\<rparr>] 0 [] =
   (None, [demo_ident (Unix 0 + 1), demo_ident (Unix 0 + 1)])"
  by (subst playback_paging) (simp_all add: keyed_def deserializeEvent_def demo_cbor_def)

end
