(* ===== verification/Blockstore.thy ===== *)
theory Blockstore
  imports Models "HOL-Library.AList"
begin

text \<open>
  blockstore/ipfs.go, blockstore/recording.go and server/blockstore_factory.go: the blocks of a
  repository, cached in memory and kept by a Kubo node, and the wrapper that records what was written.
  The node is a service: its calls are functions on a state of its own.
\<close>

section \<open>Blocks and the Kubo node\<close>

type_synonym cid = bytes
type_synonym block = "cid \<times> bytes"

abbreviation Undef :: cid where "Undef \<equiv> []"

text \<open>
  Block().Get with the body read to its end, Block().Put (which is told the codec and hash of the block's
  CID, and answers with a CID), Block().Stat, Block().Rm and Pin().Rm.
\<close>

record 'k kubo =
  kGet :: "'k \<Rightarrow> cid \<Rightarrow> goerr + bytes"
  kPut :: "'k \<Rightarrow> block \<Rightarrow> (goerr + cid) \<times> 'k"
  kStat :: "'k \<Rightarrow> cid \<Rightarrow> goerr option"
  kRm :: "'k \<Rightarrow> cid \<Rightarrow> 'k"
  kUnpin :: "'k \<Rightarrow> cid \<Rightarrow> 'k"

text \<open>
  What the program relies on: a block that was put can be found, and neither a put nor an unpin makes a
  block disappear (an unpinned block is left to a later garbage collection).
\<close>

definition kubo_keeps :: "'k kubo \<Rightarrow> bool" where
  "kubo_keeps K \<longleftrightarrow> (\<forall>k b c. fst (kPut K k b) = Inr c \<longrightarrow> kStat K (snd (kPut K k b)) c = None) \<and>
     (\<forall>k b c. kStat K k c = None \<longrightarrow> kStat K (snd (kPut K k b)) c = None) \<and>
     (\<forall>k c c'. kStat K k c = None \<longrightarrow> kStat K (kUnpin K k c') c = None)"

section \<open>IPFSBlockstore\<close>

record IPFSBlockstore =
  ibDid :: string
  ibRev :: string
  ibInserts :: "block list"

definition NewIPFS :: "string \<Rightarrow> IPFSBlockstore" where
  "NewIPFS did = \<lparr>ibDid = did, ibRev = '''', ibInserts = []\<rparr>"

definition SetRev :: "string \<Rightarrow> IPFSBlockstore \<Rightarrow> IPFSBlockstore" where
  "SetRev r bs = bs\<lparr>ibRev := r\<rparr>"

definition IPFS_Get :: "'k kubo \<Rightarrow> IPFSBlockstore \<times> 'k \<Rightarrow> cid \<Rightarrow> goerr + bytes" where
  "IPFS_Get K s c =
     (case map_of (ibInserts (fst s)) c of
        Some d \<Rightarrow> Inr d
      | None \<Rightarrow> (case kGet K (snd s) c of Inl e \<Rightarrow> Inl (Wrap ''ipfs block/get'' e) | Inr d \<Rightarrow> Inr d))"

definition putToIPFS :: "'k kubo \<Rightarrow> block \<Rightarrow> 'k \<Rightarrow> goerr option \<times> 'k" where
  "putToIPFS K b k =
     (case kPut K k b of
        (Inl e, k') \<Rightarrow> (Some (Wrap ''ipfs block/put'' e), k')
      | (Inr c, k') \<Rightarrow> if c \<noteq> fst b then (Some (Err ''ipfs block/put: CID mismatch''), k') else (None, k'))"

definition IPFS_Put :: "'k kubo \<Rightarrow> block \<Rightarrow> IPFSBlockstore \<times> 'k \<Rightarrow> goerr option \<times> IPFSBlockstore \<times> 'k" where
  "IPFS_Put K b s =
     (case putToIPFS K b (snd s) of
        (e, k') \<Rightarrow> (e, (fst s)\<lparr>ibInserts := AList.update (fst b) (snd b) (ibInserts (fst s))\<rparr>, k'))"

fun IPFS_PutMany :: "'k kubo \<Rightarrow> block list \<Rightarrow> IPFSBlockstore \<times> 'k \<Rightarrow> goerr option \<times> IPFSBlockstore \<times> 'k" where
  "IPFS_PutMany K [] s = (None, s)"
| "IPFS_PutMany K (b # bs) s =
     (case IPFS_Put K b s of (Some e, s') \<Rightarrow> (Some e, s') | (None, s') \<Rightarrow> IPFS_PutMany K bs s')"

definition IPFS_Has :: "'k kubo \<Rightarrow> IPFSBlockstore \<times> 'k \<Rightarrow> cid \<Rightarrow> bool" where
  "IPFS_Has K s c = (map_of (ibInserts (fst s)) c \<noteq> None \<or> kStat K (snd s) c = None)"

definition IPFS_GetSize :: "'k kubo \<Rightarrow> IPFSBlockstore \<times> 'k \<Rightarrow> cid \<Rightarrow> goerr + nat" where
  "IPFS_GetSize K s c = (case IPFS_Get K s c of Inl e \<Rightarrow> Inl e | Inr d \<Rightarrow> Inr (length d))"

definition IPFS_DeleteBlock :: "'k kubo \<Rightarrow> cid \<Rightarrow> IPFSBlockstore \<times> 'k \<Rightarrow> IPFSBlockstore \<times> 'k" where
  "IPFS_DeleteBlock K c s = ((fst s)\<lparr>ibInserts := AList.delete c (ibInserts (fst s))\<rparr>, kRm K (snd s) c)"

definition IPFS_AllKeysChan :: "goerr + cid list" where
  "IPFS_AllKeysChan = Inl (Err ''iteration not supported on IPFS blockstore'')"

definition IPFS_GetWriteLog :: "IPFSBlockstore \<times> 'k \<Rightarrow> block list" where
  "IPFS_GetWriteLog s = ibInserts (fst s)"

definition IPFS_Verify :: "'k kubo \<Rightarrow> 'k \<Rightarrow> cid \<Rightarrow> goerr option" where
  "IPFS_Verify K k c = (case kStat K k c of None \<Rightarrow> None | Some e \<Rightarrow> Some (Wrap ''ipfs block/stat'' e))"

section \<open>RecordingBlockstore\<close>

record RecordingBlockstore =
  rbBase :: IPFSBlockstore
  rbInserts :: "block list"
  rbReads :: "block list"

definition NewRecording :: "IPFSBlockstore \<Rightarrow> RecordingBlockstore" where
  "NewRecording base = \<lparr>rbBase = base, rbInserts = [], rbReads = []\<rparr>"

definition Rec_Get ::
  "'k kubo \<Rightarrow> cid \<Rightarrow> RecordingBlockstore \<times> 'k \<Rightarrow> (goerr + bytes) \<times> RecordingBlockstore \<times> 'k" where
  "Rec_Get K c s =
     (case IPFS_Get K (rbBase (fst s), snd s) c of
        Inl e \<Rightarrow> (Inl e, s)
      | Inr d \<Rightarrow> (Inr d, (fst s)\<lparr>rbReads := AList.update c d (rbReads (fst s))\<rparr>, snd s))"

definition Rec_Has :: "'k kubo \<Rightarrow> RecordingBlockstore \<times> 'k \<Rightarrow> cid \<Rightarrow> bool" where
  "Rec_Has K s c = IPFS_Has K (rbBase (fst s), snd s) c"

definition Rec_GetSize :: "'k kubo \<Rightarrow> RecordingBlockstore \<times> 'k \<Rightarrow> cid \<Rightarrow> goerr + nat" where
  "Rec_GetSize K s c = IPFS_GetSize K (rbBase (fst s), snd s) c"

definition Rec_DeleteBlock :: "'k kubo \<Rightarrow> cid \<Rightarrow> RecordingBlockstore \<times> 'k \<Rightarrow> RecordingBlockstore \<times> 'k" where
  "Rec_DeleteBlock K c s =
     (case IPFS_DeleteBlock K c (rbBase (fst s), snd s) of (b, k) \<Rightarrow> ((fst s)\<lparr>rbBase := b\<rparr>, k))"

definition Rec_Put ::
  "'k kubo \<Rightarrow> block \<Rightarrow> RecordingBlockstore \<times> 'k \<Rightarrow> goerr option \<times> RecordingBlockstore \<times> 'k" where
  "Rec_Put K b s =
     (case IPFS_Put K b (rbBase (fst s), snd s) of
        (Some e, b', k) \<Rightarrow> (Some e, (fst s)\<lparr>rbBase := b'\<rparr>, k)
      | (None, b', k) \<Rightarrow>
          (None, (fst s)\<lparr>rbBase := b', rbInserts := AList.update (fst b) (snd b) (rbInserts (fst s))\<rparr>, k))"

definition Rec_PutMany ::
  "'k kubo \<Rightarrow> block list \<Rightarrow> RecordingBlockstore \<times> 'k \<Rightarrow> goerr option \<times> RecordingBlockstore \<times> 'k" where
  "Rec_PutMany K bs s =
     (case IPFS_PutMany K bs (rbBase (fst s), snd s) of
        (Some e, b', k) \<Rightarrow> (Some e, (fst s)\<lparr>rbBase := b'\<rparr>, k)
      | (None, b', k) \<Rightarrow>
          (None, (fst s)\<lparr>rbBase := b',
             rbInserts := fold (\<lambda>b. AList.update (fst b) (snd b)) bs (rbInserts (fst s))\<rparr>, k))"

definition Rec_AllKeysChan :: "goerr + cid list" where
  "Rec_AllKeysChan = Inl (Err ''iteration not allowed on recording blockstore'')"

definition Rec_GetWriteLog :: "RecordingBlockstore \<times> 'k \<Rightarrow> block list" where
  "Rec_GetWriteLog s = rbInserts (fst s)"

definition Rec_GetReadLog :: "RecordingBlockstore \<times> 'k \<Rightarrow> bytes list" where
  "Rec_GetReadLog s = map snd (rbReads (fst s))"

definition newBlockstoreForRepo :: "string \<Rightarrow> IPFSBlockstore" where
  "newBlockstoreForRepo did = NewIPFS did"

definition newRecordingBlockstoreForRepo :: "string \<Rightarrow> RecordingBlockstore" where
  "newRecordingBlockstoreForRepo did = NewRecording (newBlockstoreForRepo did)"

section \<open>What a client of a blockstore relies on\<close>

text \<open>Putting blocks one after the other, stopping at the first error.\<close>

fun put_all :: "('b \<Rightarrow> 's \<Rightarrow> goerr option \<times> 's) \<Rightarrow> 'b list \<Rightarrow> 's \<Rightarrow> goerr option \<times> 's" where
  "put_all put [] s = (None, s)"
| "put_all put (b # bs) s = (case put b s of (Some e, s') \<Rightarrow> (Some e, s') | (None, s') \<Rightarrow> put_all put bs s')"

lemma IPFS_PutMany_put_all: "IPFS_PutMany K bs s = put_all (IPFS_Put K) bs s"
  by (induction bs arbitrary: s) (auto split: prod.splits option.splits)

text \<open>
  \<open>ok\<close> is the provider's invariant, \<open>log\<close> the write log and \<open>stored\<close> what the node behind it holds.
\<close>

locale block_store =
  fixes put :: "block \<Rightarrow> 's \<Rightarrow> goerr option \<times> 's"
    and get :: "'s \<Rightarrow> cid \<Rightarrow> goerr + bytes"
    and log :: "'s \<Rightarrow> block list"
    and ok :: "'s \<Rightarrow> bool"
    and stored :: "'s \<Rightarrow> cid \<Rightarrow> bool"
  assumes ok_put: "ok s \<Longrightarrow> ok (snd (put b s))"
    and log_put: "put b s = (None, s') \<Longrightarrow> map_of (log s') = (map_of (log s))(fst b \<mapsto> snd b)"
    and put_get: "put b s = (None, s') \<Longrightarrow> get s' (fst b) = Inr (snd b)"
    and get_put: "ok s \<Longrightarrow> c \<in> dom (map_of (log s)) \<Longrightarrow> c \<noteq> fst b \<Longrightarrow> get (snd (put b s)) c = get s c"
    and put_stored: "ok s \<Longrightarrow> put b s = (None, s') \<Longrightarrow> stored s' (fst b)"
    and stored_put: "ok s \<Longrightarrow> stored s c \<Longrightarrow> stored (snd (put b s)) c"
begin

lemma ok_put_all: "ok s \<Longrightarrow> ok (snd (put_all put bs s))"
proof (induction bs arbitrary: s)
  case (Cons b bs)
  obtain e s' where "put b s = (e, s')" by (cases "put b s")
  with Cons ok_put [of s b] show ?case by (cases e) auto
qed simp

lemma stored_put_all: "ok s \<Longrightarrow> stored s c \<Longrightarrow> stored (snd (put_all put bs s)) c"
proof (induction bs arbitrary: s)
  case (Cons b bs)
  obtain e s' where "put b s = (e, s')" by (cases "put b s")
  with Cons ok_put [of s b] stored_put [of s c b] show ?case by (cases e) auto
qed simp

lemma put_all_stored:
  "ok s \<Longrightarrow> put_all put bs s = (None, s') \<Longrightarrow> b \<in> set bs \<Longrightarrow> stored s' (fst b)"
proof (induction bs arbitrary: s)
  case (Cons a bs)
  obtain s1 where p: "put a s = (None, s1)" "put_all put bs s1 = (None, s')"
    using Cons.prems(2) by (auto split: prod.splits option.splits)
  have ok1: "ok s1" using ok_put [OF Cons.prems(1), of a] p(1) by simp
  show ?case
  proof (cases "b = a")
    case True
    then have "stored s1 (fst b)" using put_stored [OF Cons.prems(1) p(1)] by simp
    then show ?thesis using stored_put_all [OF ok1, of "fst b" bs] p(2) by simp
  qed (use Cons.IH [OF ok1 p(2)] Cons.prems(3) in simp)
qed simp

lemma put_all_log:
  "put_all put bs s = (None, s') \<Longrightarrow> map_of (log s') = map_of (log s) ++ map_of (rev bs)"
proof (induction bs arbitrary: s)
  case (Cons b bs)
  then obtain s1 where p: "put b s = (None, s1)" "put_all put bs s1 = (None, s')"
    by (auto split: prod.splits option.splits)
  show ?case
    using Cons.IH [OF p(2)] log_put [OF p(1)] by (cases b) (simp add: map_add_def fun_eq_iff split: option.splits)
qed simp

lemma get_put_all:
  "ok s \<Longrightarrow> c \<in> dom (map_of (log s)) \<Longrightarrow> c \<notin> fst ` set bs \<Longrightarrow> put_all put bs s = (None, s') \<Longrightarrow>
   get s' c = get s c"
proof (induction bs arbitrary: s)
  case (Cons b bs)
  then obtain s1 where p: "put b s = (None, s1)" "put_all put bs s1 = (None, s')"
    by (auto split: prod.splits option.splits)
  have "get s1 c = get s c" using get_put [of s c b] Cons.prems p(1) by auto
  moreover have "get s' c = get s1 c"
    using ok_put [of s b] Cons.prems p by (intro Cons.IH) (auto simp: log_put [OF p(1)])
  ultimately show ?case by simp
qed simp

lemma put_all_get:
  "ok s \<Longrightarrow> put_all put bs s = (None, s') \<Longrightarrow> distinct (map fst bs) \<Longrightarrow> b \<in> set bs \<Longrightarrow> get s' (fst b) = Inr (snd b)"
proof (induction bs arbitrary: s)
  case (Cons a bs)
  then obtain s1 where p: "put a s = (None, s1)" "put_all put bs s1 = (None, s')"
    by (auto split: prod.splits option.splits)
  have ok1: "ok s1" using ok_put [OF Cons.prems(1), of a] p(1) by simp
  show ?case
  proof (cases "b = a")
    case True
    have "get s' (fst a) = get s1 (fst a)"
      using Cons.prems(3) by (intro get_put_all [OF ok1 _ _ p(2)]) (auto simp: log_put [OF p(1)])
    with True put_get [OF p(1)] show ?thesis by simp
  qed (use Cons.IH [OF ok1 p(2)] Cons.prems(3,4) in simp)
qed simp

end

text \<open>A recorded log only holds blocks the node has.\<close>

locale recorded_store = block_store +
  assumes log_stored: "ok s \<Longrightarrow> c \<in> dom (map_of (log s)) \<Longrightarrow> stored s c"
begin

lemma put_all_log_stored:
  "ok s \<Longrightarrow> put_all put bs s = (e, s') \<Longrightarrow> c \<in> dom (map_of (log s')) \<Longrightarrow> stored s' c"
  using ok_put_all [of s bs] by (auto intro: log_stored)

end

definition ipfs_ok :: "'k kubo \<Rightarrow> IPFSBlockstore \<times> 'k \<Rightarrow> bool" where
  "ipfs_ok K s = kubo_keeps K"

definition ipfs_stored :: "'k kubo \<Rightarrow> IPFSBlockstore \<times> 'k \<Rightarrow> cid \<Rightarrow> bool" where
  "ipfs_stored K s c = (kStat K (snd s) c = None)"

definition rec_ok :: "'k kubo \<Rightarrow> RecordingBlockstore \<times> 'k \<Rightarrow> bool" where
  "rec_ok K s \<longleftrightarrow> kubo_keeps K \<and> dom (map_of (rbInserts (fst s))) \<subseteq> dom (map_of (ibInserts (rbBase (fst s)))) \<and>
     (\<forall>c \<in> dom (map_of (rbInserts (fst s))). kStat K (snd s) c = None)"

definition rec_stored :: "'k kubo \<Rightarrow> RecordingBlockstore \<times> 'k \<Rightarrow> cid \<Rightarrow> bool" where
  "rec_stored K s c = (kStat K (snd s) c = None)"

definition rec_read :: "'k kubo \<Rightarrow> RecordingBlockstore \<times> 'k \<Rightarrow> cid \<Rightarrow> goerr + bytes" where
  "rec_read K s c = fst (Rec_Get K c s)"

lemma putToIPFS_stored:
  assumes "kubo_keeps K" and "putToIPFS K b k = (None, k')"
  shows "kStat K k' (fst b) = None"
proof -
  have "fst (kPut K k b) = Inr (fst b) \<and> snd (kPut K k b) = k'"
    using assms(2) by (auto simp: putToIPFS_def split: prod.splits sum.splits if_splits)
  with assms(1) show ?thesis unfolding kubo_keeps_def by metis
qed

lemma putToIPFS_keeps:
  assumes "kubo_keeps K" and "putToIPFS K b k = (e, k')" and "kStat K k c = None"
  shows "kStat K k' c = None"
proof -
  have "snd (kPut K k b) = k'"
    using assms(2) by (auto simp: putToIPFS_def split: prod.splits sum.splits if_splits)
  with assms(1,3) show ?thesis unfolding kubo_keeps_def by metis
qed

interpretation ipfs: block_store "IPFS_Put K" "IPFS_Get K" IPFS_GetWriteLog "ipfs_ok K" "ipfs_stored K"
  for K :: "'k kubo"
  by unfold_locales
     (auto simp: IPFS_Put_def IPFS_Get_def IPFS_GetWriteLog_def ipfs_ok_def ipfs_stored_def update_conv
        split: prod.splits dest: putToIPFS_stored putToIPFS_keeps)

lemma Rec_Put_cases:
  obtains e k' where "Rec_Put K b s = (Some e, (fst s)\<lparr>rbBase := (rbBase (fst s))\<lparr>ibInserts :=
      AList.update (fst b) (snd b) (ibInserts (rbBase (fst s)))\<rparr>\<rparr>, k')" "putToIPFS K b (snd s) = (Some e, k')"
  | k' where "Rec_Put K b s = (None, (fst s)\<lparr>rbBase := (rbBase (fst s))\<lparr>ibInserts :=
      AList.update (fst b) (snd b) (ibInserts (rbBase (fst s)))\<rparr>,
      rbInserts := AList.update (fst b) (snd b) (rbInserts (fst s))\<rparr>, k')" "putToIPFS K b (snd s) = (None, k')"
  by (cases "putToIPFS K b (snd s)"; cases "fst (putToIPFS K b (snd s))")
     (auto simp: Rec_Put_def IPFS_Put_def)

lemma rec_ok_put:
  assumes "rec_ok K s"
  shows "rec_ok K (snd (Rec_Put K b s))"
proof (cases rule: Rec_Put_cases [of K b s])
  case (1 e k')
  with assms show ?thesis
    by (auto simp: rec_ok_def update_conv dest: putToIPFS_keeps)
next
  case (2 k')
  have "kStat K k' (fst b) = None" using assms 2 by (auto simp: rec_ok_def dest: putToIPFS_stored)
  moreover have "kStat K k' c = None" if "kStat K (snd s) c = None" for c
    using assms 2 that by (auto simp: rec_ok_def dest: putToIPFS_keeps)
  ultimately show ?thesis
    using assms 2 by (simp add: rec_ok_def update_conv' subset_insertI2)
qed

interpretation recorded: recorded_store "Rec_Put K" "rec_read K" Rec_GetWriteLog "rec_ok K" "rec_stored K"
  for K :: "'k kubo"
proof (unfold_locales, goal_cases)
  case (1 s b)
  then show ?case by (rule rec_ok_put)
next
  case (2 b s s')
  then show ?case
    by (cases rule: Rec_Put_cases [of K b s]) (auto simp: Rec_GetWriteLog_def update_conv)
next
  case (3 b s s')
  then show ?case
    by (cases rule: Rec_Put_cases [of K b s]) (auto simp: rec_read_def Rec_Get_def IPFS_Get_def update_conv)
next
  case (4 s c b)
  then have c: "c \<in> dom (map_of (ibInserts (rbBase (fst s))))"
    by (auto simp: rec_ok_def Rec_GetWriteLog_def)
  with 4(3) show ?case
    by (cases rule: Rec_Put_cases [of K b s]) (auto simp: rec_read_def Rec_Get_def IPFS_Get_def update_conv)
next
  case (5 s b s')
  then show ?case
    by (cases rule: Rec_Put_cases [of K b s]) (auto simp: rec_stored_def rec_ok_def dest: putToIPFS_stored)
next
  case (6 s c b)
  then show ?case
    by (cases rule: Rec_Put_cases [of K b s]) (auto simp: rec_stored_def rec_ok_def dest: putToIPFS_keeps)
next
  case (7 s c)
  then show ?case by (auto simp: rec_stored_def rec_ok_def Rec_GetWriteLog_def)
qed

text \<open>Recording a batch is recording its blocks one by one, when none fails.\<close>

lemma Rec_PutMany_put_all:
  "fst (Rec_PutMany K bs s) = None \<Longrightarrow> Rec_PutMany K bs s = put_all (Rec_Put K) bs s"
proof (induction bs arbitrary: s)
  case Nil
  then show ?case by (simp add: Rec_PutMany_def)
next
  case (Cons b bs)
  show ?case
  proof (cases rule: Rec_Put_cases [of K b s])
    case (1 e k')
    with Cons.prems show ?thesis by (simp add: Rec_PutMany_def IPFS_Put_def)
  next
    case (2 k')
    define s1 where "s1 = snd (Rec_Put K b s)"
    have "Rec_PutMany K (b # bs) s = Rec_PutMany K bs s1"
      using 2 Cons.prems by (auto simp: Rec_PutMany_def IPFS_Put_def s1_def split: prod.splits option.splits)
    with Cons.IH [of s1] Cons.prems 2 show ?thesis by (simp add: s1_def)
  qed
qed

lemma rec_ok_new [simp]: "kubo_keeps K \<Longrightarrow> rec_ok K (newRecordingBlockstoreForRepo did, k)"
  by (simp add: rec_ok_def newRecordingBlockstoreForRepo_def NewRecording_def)

end
