(* ===== verification/Repo.thy ===== *)
theory Repo
  imports Blockstore Events Session "HOL-Library.List_Lexorder" "HOL-Library.Char_ord"
begin

text \<open>
  server/repo.go, first part: the cache of opened repositories, opening one, commits, record blocks,
  the references to blobs inside a record, and the walk that collects the nodes of a record proof.
  The libraries for CIDs, CBOR, the Merkle search tree, CAR files and K-256 keys are parameters.
\<close>

section \<open>Data\<close>

text \<open>A commit of package atproto/repo; without its signature it is what the user signs.\<close>

record atpCommit =
  cmDid :: string
  cmVersion :: int
  cmPrev :: "cid option"
  cmData :: cid
  cmSig :: "bytes option"
  cmRev :: string

text \<open>An operation as package atproto/repo returns it: the path, the new value and the old one.\<close>

record atpOp =
  opPath :: string
  opValue :: "cid option"
  opPrev :: "cid option"

text \<open>Values decoded by package atdata, up to what the type switches of repo.go tell apart.\<close>

datatype adata =
    AStr string
  | AMap "(string \<times> adata) list"
  | AArr "adata list"
  | ALexLink cid
  | ACid cid
  | AOther

type_synonym afields = "(string \<times> adata) list"

text \<open>Nodes and entries of package mst.\<close>

datatype mstNode = MNode (nCID: "cid option") (nHeight: nat) (nEntries: "mstEntry list")
  and mstEntry = MEntry (eKey: string) (eValue: "cid option") (eChild: "mstNode option") (eChildCID: "cid option")

fun IsChild :: "mstEntry \<Rightarrow> bool" where
  "IsChild (MEntry k v c cc) = (c \<noteq> None \<or> cc \<noteq> None)"

fun IsValue :: "mstEntry \<Rightarrow> bool" where
  "IsValue (MEntry k v c cc) = (k \<noteq> '''' \<and> v \<noteq> None)"

text \<open>An opened repository: its did, the revision its clock has reached and its tree.\<close>

record 'm atpRepo =
  arDID :: string
  arClock :: string
  arMST :: 'm

text \<open>
  The libraries.  \<open>lCast\<close> says whether bytes are a CID (\<open>cid.Cast\<close> keeps the bytes); \<open>lSum\<close> is the CID
  of a block under the prefix of the program; \<open>lDiff\<close> lists the blocks WriteDiffBlocks puts, in order;
  \<open>lPick\<close> is the field a range over a map yields first; \<open>lTid\<close> is the n-th tick of a TID clock.
\<close>

record 'm repoLib =
  lCast :: "bytes \<Rightarrow> bool"
  lCidString :: "cid \<Rightarrow> string"
  lCidParse :: "string \<Rightarrow> goerr + cid"
  lSum :: "bytes \<Rightarrow> goerr + cid"
  lCommitEnc :: "atpCommit \<Rightarrow> goerr + bytes"
  lCommitDec :: "bytes \<Rightarrow> goerr + atpCommit"
  lLoadTree :: "(cid \<Rightarrow> goerr + bytes) \<Rightarrow> cid \<Rightarrow> goerr + 'm"
  lGet :: "'m \<Rightarrow> string \<Rightarrow> goerr + cid option"
  lApplyOp :: "'m \<Rightarrow> string \<Rightarrow> cid option \<Rightarrow> (goerr + atpOp) \<times> 'm"
  lDiff :: "'m \<Rightarrow> (goerr + block list) \<times> 'm"
  lCommit :: "'m atpRepo \<Rightarrow> (goerr + atpCommit) \<times> 'm atpRepo"
  lRoot :: "'m \<Rightarrow> mstNode option"
  lHeight :: "string \<Rightarrow> nat"
  lRecordKey :: "string \<Rightarrow> goerr option"
  lTid :: "nat \<Rightarrow> string"
  lFromJson :: "obj \<Rightarrow> goerr + afields"
  lDataEnc :: "afields \<Rightarrow> goerr + bytes"
  lDataDec :: "bytes \<Rightarrow> goerr + afields"
  lPick :: "afields \<Rightarrow> nat"
  lIsCreate :: "atpOp \<Rightarrow> bool"
  lIsUpdate :: "atpOp \<Rightarrow> bool"
  lIsDelete :: "atpOp \<Rightarrow> bool"
  lCarHeader :: "cid \<Rightarrow> goerr + bytes"
  lLdWrite :: "bytes list \<Rightarrow> bytes"
  lParsePriv :: "bytes \<Rightarrow> goerr + bytes"
  lHashAndSign :: "bytes \<Rightarrow> bytes \<Rightarrow> goerr + bytes"
  lParsePub :: "bytes \<Rightarrow> goerr + bytes"
  lHashAndVerify :: "bytes \<Rightarrow> bytes \<Rightarrow> bytes \<Rightarrow> goerr option"
  lRFC3339 :: "time \<Rightarrow> string"

definition castCid :: "'m repoLib \<Rightarrow> bytes \<Rightarrow> goerr + cid" where
  "castCid L b = (if lCast L b then Inr b else Inl (Err ''invalid cid''))"

section \<open>The cache of opened repositories\<close>

text \<open>
  Per did, the opened repository (absent once invalidated) and the root it was opened at.  A panic of
  \<open>fn\<close> unwinds through the deferred unlock only, so the entry stays as \<open>fn\<close> left it.
\<close>

type_synonym 'm repoCache = "string \<Rightarrow> ('m atpRepo option \<times> cid) option"

definition withRepo ::
  "('s \<Rightarrow> goerr + 'm atpRepo) \<Rightarrow> string \<Rightarrow> cid \<Rightarrow> ('m atpRepo \<Rightarrow> 's \<Rightarrow> cid result \<times> 'm atpRepo \<times> 's) \<Rightarrow>
   'm repoCache \<Rightarrow> 's \<Rightarrow> unit result \<times> 'm repoCache \<times> 's" where
  "withRepo open did rootCid fn cache s =
     (let (repo, root) = (case cache did of None \<Rightarrow> (None, Undef) | Some cr \<Rightarrow> cr);
          opened = (case repo of None \<Rightarrow> open s | Some r \<Rightarrow> if root \<noteq> rootCid then open s else Inr r)
      in case opened of
           Inl e \<Rightarrow> (Fail e, cache(did \<mapsto> (repo, root)), s)
         | Inr r \<Rightarrow>
             (case fn r s of
                (Ret newRoot, r', s') \<Rightarrow> (Ret (), cache(did \<mapsto> (Some r', newRoot)), s')
              | (Fail e, r', s') \<Rightarrow> (Fail e, cache(did \<mapsto> (None, Undef)), s')
              | (Crash, r', s') \<Rightarrow> (Crash, cache(did \<mapsto> (Some r', rootCid)), s')))"

definition openRepo :: "'m repoLib \<Rightarrow> (cid \<Rightarrow> goerr + bytes) \<Rightarrow> cid \<Rightarrow> string \<Rightarrow> goerr + 'm atpRepo" where
  "openRepo L get rootCid did =
     (case get rootCid of
        Inl e \<Rightarrow> Inl (Wrap ''reading commit block'' e)
      | Inr d \<Rightarrow>
          (case lCommitDec L d of
             Inl e \<Rightarrow> Inl (Wrap ''parsing commit block'' e)
           | Inr c \<Rightarrow>
               (case lLoadTree L get (cmData c) of
                  Inl e \<Rightarrow> Inl (Wrap ''loading MST'' e)
                | Inr t \<Rightarrow> Inr \<lparr>arDID = did, arClock = cmRev c, arMST = t\<rparr>)))"

section \<open>Commits\<close>

record unsignedCommit =
  ucCbor :: bytes
  ucRev :: string

text \<open>Putting the blocks a library call writes; its own error comes after them.\<close>

definition buildUnsignedCommit ::
  "'m repoLib \<Rightarrow> (block \<Rightarrow> 's \<Rightarrow> goerr option \<times> 's) \<Rightarrow> 'm atpRepo \<Rightarrow> 's \<Rightarrow> (goerr + unsignedCommit) \<times> 'm atpRepo \<times> 's" where
  "buildUnsignedCommit L put r s =
     (case lDiff L (arMST r) of
        (Inl e, m) \<Rightarrow> (Inl (Wrap ''writing MST blocks'' e), r\<lparr>arMST := m\<rparr>, s)
      | (Inr bs, m) \<Rightarrow>
          (case put_all put bs s of
             (Some e, s1) \<Rightarrow> (Inl (Wrap ''writing MST blocks'' e), r\<lparr>arMST := m\<rparr>, s1)
           | (None, s1) \<Rightarrow>
               (case lCommit L (r\<lparr>arMST := m\<rparr>) of
                  (Inl e, r2) \<Rightarrow> (Inl (Wrap ''creating commit'' e), r2, s1)
                | (Inr c, r2) \<Rightarrow>
                    (case lCommitEnc L c of
                       Inl e \<Rightarrow> (Inl (Wrap ''marshaling commit'' e), r2, s1)
                     | Inr b \<Rightarrow> (Inr \<lparr>ucCbor = b, ucRev = cmRev c\<rparr>, r2, s1)))))"

text \<open>
  \<open>verify\<close> is the Verify method of a blockstore that has one: the blockstore of IPFS has it, the
  recording one does not.
\<close>

definition finaliseCommit ::
  "'m repoLib \<Rightarrow> (block \<Rightarrow> 's \<Rightarrow> goerr option \<times> 's) \<Rightarrow> ('s \<Rightarrow> cid \<Rightarrow> goerr option) option \<Rightarrow>
   unsignedCommit \<Rightarrow> bytes \<Rightarrow> 's \<Rightarrow> (goerr + cid) \<times> 's" where
  "finaliseCommit L put verify uc sg s =
     (case lCommitDec L (ucCbor uc) of
        Inl e \<Rightarrow> (Inl (Wrap ''unmarshaling unsigned commit'' e), s)
      | Inr c0 \<Rightarrow>
          (case lCommitEnc L (c0\<lparr>cmSig := Some sg\<rparr>) of
             Inl e \<Rightarrow> (Inl (Wrap ''marshaling signed commit'' e), s)
           | Inr b \<Rightarrow>
               (case lSum L b of
                  Inl e \<Rightarrow> (Inl (Wrap ''computing commit CID'' e), s)
                | Inr c \<Rightarrow>
                    (case put (c, b) s of
                       (Some e, s1) \<Rightarrow> (Inl (Wrap ''writing commit block'' e), s1)
                     | (None, s1) \<Rightarrow>
                         (case verify of
                            None \<Rightarrow> (Inr c, s1)
                          | Some vf \<Rightarrow>
                              (case vf s1 c of
                                 Some e \<Rightarrow> (Inl (Wrap ''verifying commit block persisted'' e), s1)
                               | None \<Rightarrow>
                                   (case vf s1 (cmData c0) of
                                      Some e \<Rightarrow> (Inl (Wrap ''verifying MST root block persisted'' e), s1)
                                    | None \<Rightarrow> (Inr c, s1))))))))"

definition commitRepo ::
  "'m repoLib \<Rightarrow> (block \<Rightarrow> 's \<Rightarrow> goerr option \<times> 's) \<Rightarrow> ('s \<Rightarrow> cid \<Rightarrow> goerr option) option \<Rightarrow>
   'm atpRepo \<Rightarrow> bytes \<Rightarrow> 's \<Rightarrow> (goerr + cid \<times> string) \<times> 's" where
  "commitRepo L put verify r signingKey s =
     (case buildUnsignedCommit L put r s of
        (Inl e, r1, s1) \<Rightarrow> (Inl e, s1)
      | (Inr uc, r1, s1) \<Rightarrow>
          (case lParsePriv L signingKey of
             Inl e \<Rightarrow> (Inl (Wrap ''parsing signing key'' e), s1)
           | Inr pk \<Rightarrow>
               (case lHashAndSign L pk (ucCbor uc) of
                  Inl e \<Rightarrow> (Inl (Wrap ''signing commit'' e), s1)
                | Inr sg \<Rightarrow>
                    (case finaliseCommit L put verify uc sg s1 of
                       (Inl e, s2) \<Rightarrow> (Inl e, s2)
                     | (Inr c, s2) \<Rightarrow> (Inr (c, ucRev uc), s2)))))"

definition putRecordBlock ::
  "'m repoLib \<Rightarrow> (block \<Rightarrow> 's \<Rightarrow> goerr option \<times> 's) \<Rightarrow> afields \<Rightarrow> 's \<Rightarrow> (goerr + cid) \<times> 's" where
  "putRecordBlock L put rec s =
     (case lDataEnc L rec of
        Inl e \<Rightarrow> (Inl e, s)
      | Inr b \<Rightarrow>
          (case lSum L b of
             Inl e \<Rightarrow> (Inl e, s)
           | Inr c \<Rightarrow> (case put (c, b) s of (Some e, s1) \<Rightarrow> (Inl e, s1) | (None, s1) \<Rightarrow> (Inr c, s1))))"

section \<open>Blobs inside a record\<close>

text \<open>
  \<open>deepiter\<close>.  A map that is not a blob ends the walk, and a blob map only continues with the field
  its range yields first.
\<close>

definition blob_ref :: "'m repoLib \<Rightarrow> adata option \<Rightarrow> goerr + cid" where
  "blob_ref L v = (case v of
     Some (AStr s) \<Rightarrow> lCidParse L s
   | Some (ALexLink c) \<Rightarrow> Inr c
   | Some (ACid c) \<Rightarrow> Inr c
   | _ \<Rightarrow> Inr Undef)"

lemma size_afields_nth: "i < length kvs \<Longrightarrow> size (snd (kvs ! i)) < Suc (size_list (size_prod (\<lambda>x. 0) size) kvs)"
proof -
  assume "i < length kvs"
  then have "size_prod (\<lambda>x. 0) size (kvs ! i) \<le> size_list (size_prod (\<lambda>x. 0) size) kvs"
    by (meson nth_mem size_list_estimation' order_refl)
  then show ?thesis by (cases "kvs ! i") (auto simp: less_Suc_eq_le)
qed

function deepiter :: "'m repoLib \<Rightarrow> adata \<Rightarrow> goerr + cid list"
  and deepiter_list :: "'m repoLib \<Rightarrow> adata list \<Rightarrow> goerr + cid list" where
  "deepiter L (AMap kvs) =
     (if map_of kvs ''$type'' = Some (AStr ''blob'') then
        (case blob_ref L (map_of kvs ''ref'') of
           Inl e \<Rightarrow> Inl e
         | Inr c \<Rightarrow>
             (case deepiter L (snd (kvs ! (lPick L kvs mod length kvs))) of
                Inl e \<Rightarrow> Inl e
              | Inr cs \<Rightarrow> Inr ((if c \<noteq> Undef then [c] else []) @ cs)))
      else Inr [])"
| "deepiter L (AArr vs) = deepiter_list L vs"
| "deepiter L (AStr s) = Inr []"
| "deepiter L (ALexLink c) = Inr []"
| "deepiter L (ACid c) = Inr []"
| "deepiter L AOther = Inr []"
| "deepiter_list L [] = Inr []"
| "deepiter_list L (v # vs) =
     (case deepiter L v of
        Inl e \<Rightarrow> Inl e
      | Inr cs \<Rightarrow> (case deepiter_list L vs of Inl e \<Rightarrow> Inl e | Inr ds \<Rightarrow> Inr (cs @ ds)))"
  by pat_completeness auto

termination
proof (relation "measure (\<lambda>x. case x of Inl (L, v) \<Rightarrow> size v | Inr (L, vs) \<Rightarrow> size_list size vs)", goal_cases)
  case (2 L kvs x2)
  then have "kvs \<noteq> []" by auto
  then have "lPick L kvs mod length kvs < length kvs" by simp
  from size_afields_nth [OF this] show ?case by simp
qed auto

definition getBlobCidsFromCbor :: "'m repoLib \<Rightarrow> bytes \<Rightarrow> goerr + cid list" where
  "getBlobCidsFromCbor L b =
     (if b = [] then Inr []
      else (case lDataDec L b of
              Inl e \<Rightarrow> Inl (Wrap ''error unmarshaling cbor'' e)
            | Inr m \<Rightarrow> deepiter L (AMap m)))"

section \<open>The nodes on the path to a key\<close>

text \<open>
  The loop over the entries of a node: the child entry that covers the key, forgotten when a smaller
  value follows it; the first value not below the key ends the loop.
\<close>

fun covering_child :: "string \<Rightarrow> mstEntry list \<Rightarrow> mstEntry option \<Rightarrow> mstEntry option" where
  "covering_child key [] child = child"
| "covering_child key (e # es) child =
     (if IsChild e then covering_child key es (Some e)
      else if IsValue e then (if key \<le> eKey e then child else covering_child key es None)
      else covering_child key es child)"

lemma covering_child_in: "covering_child key es child = Some e \<Longrightarrow> e \<in> set es \<or> child = Some e"
  by (induction es arbitrary: child) (auto split: if_splits)

lemma size_child: "e \<in> set es \<Longrightarrow> eChild e = Some n \<Longrightarrow> size n < size (MNode c h es)"
proof -
  assume a: "e \<in> set es" "eChild e = Some n"
  have "size n < size e" using a(2) by (cases e) auto
  also have "size e < size (MNode c h es)" using size_list_estimation [OF a(1), of "size e - 1" size] calculation by auto
  finally show ?thesis .
qed

function collectPathNodeCIDs :: "'m repoLib \<Rightarrow> mstNode \<Rightarrow> string \<Rightarrow> cid list" where
  "collectPathNodeCIDs L (MNode c h es) key =
     (case c of None \<Rightarrow> [] | Some x \<Rightarrow> [x]) @
     (if lHeight L key \<ge> h then []
      else (case covering_child key es None of
              None \<Rightarrow> []
            | Some e \<Rightarrow> (case eChild e of None \<Rightarrow> [] | Some n \<Rightarrow> collectPathNodeCIDs L n key)))"
  by pat_completeness auto

termination
  by (relation "measure (\<lambda>(L, n, key). size n)") (auto dest!: covering_child_in size_child simp del: mstNode.size)

text \<open>The keys below a node and an entry, and the shape of a tree the library builds.\<close>

fun node_keys :: "mstNode \<Rightarrow> string set" and entry_keys :: "mstEntry \<Rightarrow> string set" where
  "node_keys (MNode c h es) = (\<Union>e \<in> set es. entry_keys e)"
| "entry_keys (MEntry k v ch cc) =
     (if v \<noteq> None \<and> k \<noteq> '''' then {k} else {}) \<union> (case ch of None \<Rightarrow> {} | Some n \<Rightarrow> node_keys n)"

fun mst_wf :: "'m repoLib \<Rightarrow> mstNode \<Rightarrow> bool" and entry_wf :: "'m repoLib \<Rightarrow> nat \<Rightarrow> mstEntry \<Rightarrow> bool" where
  "mst_wf L (MNode c h es) \<longleftrightarrow>
     sorted_wrt (\<lambda>a b. \<forall>x \<in> entry_keys a. \<forall>y \<in> entry_keys b. x < y) es \<and>
     (\<forall>i. Suc i < length es \<longrightarrow> \<not> (IsChild (es ! i) \<and> IsChild (es ! Suc i))) \<and>
     (\<forall>e \<in> set es. entry_wf L h e)"
| "entry_wf L h (MEntry k v ch cc) \<longleftrightarrow>
     (IsChild (MEntry k v ch cc) \<noteq> IsValue (MEntry k v ch cc)) \<and>
     (k \<noteq> '''' \<and> v \<noteq> None \<longrightarrow> lHeight L k = h) \<and>
     (case ch of None \<Rightarrow> True | Some n \<Rightarrow> nHeight n < h \<and> mst_wf L n)"

text \<open>The nodes from the root down to the node that holds the key.\<close>

inductive holds :: "string \<Rightarrow> mstNode \<Rightarrow> mstNode list \<Rightarrow> bool" for key where
  here: "e \<in> set es \<Longrightarrow> IsValue e \<Longrightarrow> eKey e = key \<Longrightarrow> holds key (MNode c h es) [MNode c h es]"
| below: "e \<in> set es \<Longrightarrow> eChild e = Some n \<Longrightarrow> holds key n p \<Longrightarrow>
    holds key (MNode c h es) (MNode c h es # p)"

lemma holds_keys: "holds key n p \<Longrightarrow> key \<in> node_keys n"
proof (induction rule: holds.induct)
  case (here e es c h)
  have "key \<in> entry_keys e" using here(2,3) by (cases e) auto
  with here(1) show ?case by auto
next
  case (below e es n p c h)
  have "key \<in> entry_keys e" using below(2) below.IH by (cases e) auto
  with below(1) show ?case by auto
qed

lemma holds_height: "holds key n p \<Longrightarrow> mst_wf L n \<Longrightarrow> lHeight L key \<le> nHeight n"
proof (induction rule: holds.induct)
  case (here e es c h)
  then have "entry_wf L h e" by simp
  with here(2,3) show ?case by (cases e) auto
next
  case (below e es n p c h)
  then have "entry_wf L h e" by simp
  then have "nHeight n < h" "mst_wf L n" using below(2) by (cases e; auto)+
  with below.IH show ?case by simp
qed

lemma covering_child_before:
  "(\<forall>a \<in> set pre. IsValue a \<and> \<not> IsChild a \<longrightarrow> \<not> key \<le> eKey a) \<Longrightarrow> IsChild e \<Longrightarrow>
   covering_child key (pre @ e # post) child = covering_child key post (Some e)"
  by (induction pre arbitrary: child) auto

lemma collect_path:
  "holds key n p \<Longrightarrow> mst_wf L n \<Longrightarrow> collectPathNodeCIDs L n key = List.map_filter nCID p"
proof (induction rule: holds.induct)
  case (here e es c h)
  then have "entry_wf L h e" by simp
  with here(2,3) have "lHeight L key = h" by (cases e) auto
  then show ?case by (simp add: List.map_filter_def split: option.split)
next
  case (below e es n p c h)
  have ew: "entry_wf L h e" "mst_wf L n" "nHeight n < h" "IsChild e" "\<not> IsValue e"
  proof -
    have "entry_wf L h e" using below.prems below(1) by simp
    then show "entry_wf L h e" "mst_wf L n" "nHeight n < h" "IsChild e" "\<not> IsValue e"
      using below(2) by (cases e; auto)+
  qed
  have lt: "lHeight L key < h" using holds_height [OF below(3) ew(2)] ew(3) by simp
  have ke: "key \<in> entry_keys e" using holds_keys [OF below(3)] below(2) by (cases e) auto
  obtain pre post where es: "es = pre @ e # post" using below(1) by (meson split_list)
  have srt: "sorted_wrt (\<lambda>a b. \<forall>x \<in> entry_keys a. \<forall>y \<in> entry_keys b. x < y) (pre @ e # post)"
    using below.prems es by simp
  have val: "eKey a \<in> entry_keys a" if "IsValue a" for a using that by (cases a) auto
  have "\<not> key \<le> eKey a" if "a \<in> set pre" "IsValue a" for a
    using srt that ke val [of a] by (auto simp: sorted_wrt_append not_le)
  then have "covering_child key es None = covering_child key post (Some e)"
    unfolding es by (intro covering_child_before) (auto simp: ew)
  also have "\<dots> = Some e"
  proof (cases post)
    case (Cons b bs)
    have adj: "\<not> (IsChild (es ! length pre) \<and> IsChild (es ! Suc (length pre)))"
      using below.prems unfolding es mst_wf.simps by (metis Cons add_Suc_right length_Cons length_append less_add_Suc1 Suc_less_eq add.commute less_Suc_eq)
    then have nb: "\<not> IsChild b" using ew(4) by (simp add: es Cons nth_append)
    moreover have "entry_wf L h b" using below.prems by (simp add: es Cons)
    ultimately have vb: "IsValue b" by (cases b) auto
    then have "key < eKey b" using srt ke val [of b] by (auto simp: sorted_wrt_append Cons)
    then show ?thesis using nb vb by (simp add: Cons less_imp_le)
  qed simp
  finally have "covering_child key es None = Some e" .
  then show ?case
    using lt below ew(2) by (simp add: List.map_filter_def split: option.split)
qed

end
