(* ===== verification/RepoMan.thy ===== *)
theory RepoMan
  imports Repo SignerConnect
begin

text \<open>
  server/repo.go, second part: applyWrites in its two halves around the signature (building the tree
  and the unsigned commit; verifying, persisting and announcing the signed one), record proofs, and the
  reference counts of blobs.
\<close>

section \<open>Operations and results\<close>

record Op =
  oType :: string
  oCollection :: string
  oRkey :: "string option"
  oRecord :: "obj option"

abbreviation OpTypeCreate :: string where "OpTypeCreate \<equiv> ''com.atproto.repo.applyWrites#create''"
abbreviation OpTypeUpdate :: string where "OpTypeUpdate \<equiv> ''com.atproto.repo.applyWrites#update''"
abbreviation OpTypeDelete :: string where "OpTypeDelete \<equiv> ''com.atproto.repo.applyWrites#delete''"

record RepoCommit =
  rcCid :: string
  rcRev :: string

record ApplyWriteResult =
  awType :: "string option"
  awUri :: "string option"
  awCid :: "string option"
  awCommit :: "RepoCommit option"
  awValidation :: "string option"

definition plain_result :: "string \<Rightarrow> ApplyWriteResult" where
  "plain_result ty = \<lparr>awType = Some ty, awUri = None, awCid = None, awCommit = None, awValidation = None\<rparr>"

definition record_result :: "string \<Rightarrow> string \<Rightarrow> string \<Rightarrow> ApplyWriteResult" where
  "record_result ty uri c =
     \<lparr>awType = Some ty, awUri = Some uri, awCid = Some c, awCommit = None, awValidation = Some ''valid''\<rparr>"

text \<open>An operation of the firehose: its action is empty for an operation that changes nothing.\<close>

record serialisedOp =
  soPath :: string
  soAction :: string
  soValue :: bytes
  soPrev :: bytes

text \<open>
  The state of the repository manager and what it works on: the database, the cache, the ticks of its
  clock, the Kubo node, the event log.
\<close>

record ('m, 'k) rmState =
  rsDb :: db
  rsCache :: "'m repoCache"
  rsTick :: nat
  rsNode :: 'k
  rsEvents :: DbPersister

section \<open>Building the tree\<close>

text \<open>The variables of the loop over the writes.\<close>

record ('m, 'k) wst =
  wRepo :: "'m atpRepo"
  wTick :: nat
  wBs :: RecordingBlockstore
  wNode :: 'k
  wWrites :: "Op list"
  wResults :: "ApplyWriteResult list"
  wOps :: "atpOp list"
  wEntries :: "Record list"

type_synonym ('m, 'k) step = "unit result \<times> ('m, 'k) wst"

definition w_put :: "'k kubo \<Rightarrow> block \<Rightarrow> ('m, 'k) wst \<Rightarrow> goerr option \<times> ('m, 'k) wst" where
  "w_put K b w = (case Rec_Put K b (wBs w, wNode w) of (e, bs, k) \<Rightarrow> (e, w\<lparr>wBs := bs, wNode := k\<rparr>))"

definition op_path :: "string \<Rightarrow> string \<Rightarrow> string" where
  "op_path collection rkey = collection @ ''/'' @ rkey"

text \<open>The type and the key an operation ends up with; a generated key is written back.\<close>

definition resolve_op :: "'m repoLib \<Rightarrow> Op \<Rightarrow> ('m, 'k) wst \<Rightarrow> (goerr + string \<times> string) \<times> ('m, 'k) wst" where
  "resolve_op L op w =
     (case oRkey op of
        None \<Rightarrow>
          if oType op \<noteq> OpTypeCreate then (Inl (Err ''invalid rkey''), w\<lparr>wWrites := wWrites w @ [op]\<rparr>)
          else let rkey = lTid L (wTick w) in
            (Inr (oType op, rkey), w\<lparr>wTick := wTick w + 1, wWrites := wWrites w @ [op\<lparr>oRkey := Some rkey\<rparr>]\<rparr>)
      | Some rkey \<Rightarrow>
          let ty = (if oType op = OpTypeCreate then
              (case lGet L (arMST (wRepo w)) (op_path (oCollection op) rkey) of
                 Inr (Some c) \<Rightarrow> OpTypeUpdate | _ \<Rightarrow> oType op) else oType op)
          in (Inr (ty, rkey), w\<lparr>wWrites := wWrites w @ [op]\<rparr>))"

text \<open>A create whose \<open>$type\<close> is present and empty gets the collection; an update does not.\<close>

definition default_type :: "string \<Rightarrow> string \<Rightarrow> afields \<Rightarrow> afields" where
  "default_type ty collection mm =
     (if ty = OpTypeCreate \<and> map_of mm ''$type'' = Some (AStr '''')
      then AList.update ''$type'' (AStr collection) mm else mm)"

text \<open>The branches create and update: the record is stored and the tree points to it.\<close>

definition write_record ::
  "'m repoLib \<Rightarrow> 'k kubo \<Rightarrow> string \<Rightarrow> Op \<Rightarrow> string \<Rightarrow> string \<Rightarrow> ('m, 'k) wst \<Rightarrow> ('m, 'k) step" where
  "write_record L K did op ty rkey w =
     (case oRecord op of
        None \<Rightarrow> (Crash, w)
      | Some o1 \<Rightarrow>
     (case lFromJson L o1 of
        Inl e \<Rightarrow> (Fail e, w)
      | Inr out \<Rightarrow>
     let mm = default_type ty (oCollection op) out in
     (case putRecordBlock L (w_put K) mm w of
        (Inl e, w1) \<Rightarrow> (Fail e, w1)
      | (Inr nc, w1) \<Rightarrow>
     (case lApplyOp L (arMST (wRepo w1)) (op_path (oCollection op) rkey) (Some nc) of
        (Inl e, m) \<Rightarrow> (Fail e, w1\<lparr>wRepo := (wRepo w1)\<lparr>arMST := m\<rparr>\<rparr>)
      | (Inr aop, m) \<Rightarrow>
     let w2 = w1\<lparr>wRepo := (wRepo w1)\<lparr>arMST := m\<rparr>, wOps := wOps w1 @ [aop]\<rparr> in
     (case lDataEnc L mm of
        Inl e \<Rightarrow> (Fail e, w2)
      | Inr d \<Rightarrow>
          (Ret (), w2\<lparr>wTick := wTick w2 + 1,
             wEntries := wEntries w2 @ [\<lparr>recDid = did, recCreatedAt = lTid L (wTick w2), recNsid = oCollection op,
               recRkey = rkey, recCid = lCidString L nc, recValue = d\<rparr>],
             wResults := wResults w2 @ [record_result ty
               (''at://'' @ did @ ''/'' @ op_path (oCollection op) rkey) (lCidString L nc)]\<rparr>))))))"

definition stored_value :: "db \<Rightarrow> string \<Rightarrow> string \<Rightarrow> string \<Rightarrow> bytes" where
  "stored_value d did nsid rkey =
     (case sql_first (\<lambda>r. recDid r = did \<and> recNsid r = nsid \<and> recRkey r = rkey) (records d) of
        None \<Rightarrow> [] | Some r \<Rightarrow> recValue r)"

definition delete_record ::
  "'m repoLib \<Rightarrow> faults \<Rightarrow> db \<Rightarrow> string \<Rightarrow> Op \<Rightarrow> string \<Rightarrow> ('m, 'k) wst \<Rightarrow> ('m, 'k) step" where
  "delete_record L fails d did op rkey w =
     (let path = op_path (oCollection op) rkey;
          absent = (case lGet L (arMST (wRepo w)) path of Inr (Some c) \<Rightarrow> False | _ \<Rightarrow> True)
      in if absent then (Ret (), w\<lparr>wResults := wResults w @ [plain_result OpTypeDelete]\<rparr>)
      else if fails ''records.old'' then (Fail (ErrDb ''records.old''), w)
      else
        let w1 = w\<lparr>wEntries := wEntries w @ [\<lparr>recDid = did, recCreatedAt = '''', recNsid = oCollection op,
              recRkey = rkey, recCid = '''', recValue = stored_value d did (oCollection op) rkey\<rparr>]\<rparr> in
        (case lApplyOp L (arMST (wRepo w1)) path None of
           (Inl e, m) \<Rightarrow> (Fail e, w1\<lparr>wRepo := (wRepo w1)\<lparr>arMST := m\<rparr>\<rparr>)
         | (Inr aop, m) \<Rightarrow>
             (Ret (), w1\<lparr>wRepo := (wRepo w1)\<lparr>arMST := m\<rparr>, wOps := wOps w1 @ [aop],
                wResults := wResults w1 @ [plain_result OpTypeDelete]\<rparr>)))"

definition apply_op ::
  "'m repoLib \<Rightarrow> 'k kubo \<Rightarrow> faults \<Rightarrow> db \<Rightarrow> string \<Rightarrow> Op \<Rightarrow> ('m, 'k) wst \<Rightarrow> ('m, 'k) step" where
  "apply_op L K fails d did op w =
     (case resolve_op L op w of
        (Inl e, w1) \<Rightarrow> (Fail e, w1)
      | (Inr (ty, rkey), w1) \<Rightarrow>
          (case lRecordKey L rkey of
             Some e \<Rightarrow> (Fail e, w1)
           | None \<Rightarrow>
               if ty = OpTypeCreate \<or> ty = OpTypeUpdate then write_record L K did op ty rkey w1
               else if ty = OpTypeDelete then delete_record L fails d did op rkey w1
               else (Ret (), w1)))"

fun apply_ops ::
  "'m repoLib \<Rightarrow> 'k kubo \<Rightarrow> faults \<Rightarrow> db \<Rightarrow> string \<Rightarrow> Op list \<Rightarrow> ('m, 'k) wst \<Rightarrow> ('m, 'k) step" where
  "apply_ops L K fails d did [] w = (Ret (), w)"
| "apply_ops L K fails d did (op # ops) w =
     (case apply_op L K fails d did op w of
        (Ret _, w1) \<Rightarrow> apply_ops L K fails d did ops w1
      | (Fail e, w1) \<Rightarrow> (Fail e, w1)
      | (Crash, w1) \<Rightarrow> (Crash, w1))"

section \<open>The first half of applyWrites\<close>



record pendingCommitState =
  pcDid :: string
  pcPrevRev :: string
  pcUnsignedCBOR :: bytes
  pcRev :: string
  pcEntries :: "Record list"
  pcATPOps :: "serialisedOp list"
  pcResults :: "ApplyWriteResult list"
  pcWriteLog :: "block list"

text \<open>The switch of the serialisation; a nil value or previous CID in its branch is a nil dereference.\<close>

definition serialise_op :: "'m repoLib \<Rightarrow> atpOp \<Rightarrow> serialisedOp result" where
  "serialise_op L op =
     (let mk = (\<lambda>act v p. \<lparr>soPath = opPath op, soAction = act, soValue = v, soPrev = p\<rparr>) in
      if lIsCreate L op then (case opValue op of None \<Rightarrow> Crash | Some c \<Rightarrow> Ret (mk ''create'' c []))
      else if lIsUpdate L op then (case opValue op of None \<Rightarrow> Crash | Some c \<Rightarrow> Ret (mk ''update'' c []))
      else if lIsDelete L op then (case opPrev op of None \<Rightarrow> Crash | Some c \<Rightarrow> Ret (mk ''delete'' [] c))
      else Ret (mk '''' [] []))"

fun serialise_ops :: "'m repoLib \<Rightarrow> atpOp list \<Rightarrow> serialisedOp list result" where
  "serialise_ops L [] = Ret []"
| "serialise_ops L (op # ops) =
     (case serialise_op L op of
        Ret s \<Rightarrow> (case serialise_ops L ops of Ret ss \<Rightarrow> Ret (s # ss) | Fail e \<Rightarrow> Fail e | Crash \<Rightarrow> Crash)
      | Fail e \<Rightarrow> Fail e
      | Crash \<Rightarrow> Crash)"

definition with_commit :: "RepoCommit \<Rightarrow> ApplyWriteResult \<Rightarrow> ApplyWriteResult" where
  "with_commit c r = r\<lparr>awType := map_option (\<lambda>t. t @ ''Result'') (awType r), awCommit := Some c\<rparr>"

definition PendingWriteOp :: "Op \<Rightarrow> json" where
  "PendingWriteOp op = pending_op (oType op) (oCollection op) (case oRkey op of None \<Rightarrow> '''' | Some k \<Rightarrow> k)"

text \<open>
  Where the first half ends: with the results, when the tree has not changed, or with the request for
  a signature, the state kept for it and the blockstore that holds the new blocks.
\<close>

datatype begun = Done "ApplyWriteResult list" | AwaitSig pendingCommitState IPFSBlockstore string string

definition start_wst :: "string \<Rightarrow> nat \<Rightarrow> 'k \<Rightarrow> 'm atpRepo \<Rightarrow> ('m, 'k) wst" where
  "start_wst did tick k r = \<lparr>wRepo = r, wTick = tick, wBs = newRecordingBlockstoreForRepo did, wNode = k,
     wWrites = [], wResults = [], wOps = [], wEntries = []\<rparr>"

text \<open>
  The function given to withRepo: the writes, then the unsigned commit.  It returns no root, so the
  cached repository is opened again the next time.
\<close>

definition build_writes ::
  "'m repoLib \<Rightarrow> 'k kubo \<Rightarrow> faults \<Rightarrow> db \<Rightarrow> string \<Rightarrow> Op list \<Rightarrow> nat \<Rightarrow> 'k \<Rightarrow> 'm atpRepo \<Rightarrow>
   (unsignedCommit option \<times> ('m, 'k) wst) option \<Rightarrow>
   cid result \<times> 'm atpRepo \<times> (unsignedCommit option \<times> ('m, 'k) wst) option" where
  "build_writes L K fails d did writes tick k r _ =
     (case apply_ops L K fails d did writes (start_wst did tick k r) of
        (Crash, w) \<Rightarrow> (Crash, wRepo w, Some (None, w))
      | (Fail e, w) \<Rightarrow> (Fail e, wRepo w, Some (None, w))
      | (Ret _, w) \<Rightarrow>
          (case buildUnsignedCommit L (w_put K) (wRepo w) w of
             (Inl e, r1, w1) \<Rightarrow> (Fail e, r1, Some (None, w1))
           | (Inr uc, r1, w1) \<Rightarrow> (Ret Undef, r1, Some (Some uc, w1))))"

text \<open>
  What follows withRepo.  \<open>order\<close> is the order in which ranging over the write log yields its blocks,
  \<open>rid\<close> the identifier of the request.
\<close>

definition request_of ::
  "'m repoLib \<Rightarrow> (block list \<Rightarrow> block list) \<Rightarrow> string \<Rightarrow> time \<Rightarrow> Repo \<Rightarrow> cid \<Rightarrow> unsignedCommit \<Rightarrow> ('m, 'k) wst \<Rightarrow>
   begun result" where
  "request_of L order rid now urepo rootcid uc w =
     (if wOps w = [] then
        Ret (Done (map (with_commit \<lparr>rcCid = lCidString L rootcid, rcRev = rRev urepo\<rparr>) (wResults w)))
      else (case serialise_ops L (wOps w) of
              Crash \<Rightarrow> Crash
            | Fail e \<Rightarrow> Fail e
            | Ret sops \<Rightarrow>
                Ret (AwaitSig \<lparr>pcDid = rDid urepo, pcPrevRev = rRev urepo, pcUnsignedCBOR = ucCbor uc,
                    pcRev = ucRev uc, pcEntries = wEntries w, pcATPOps = sops, pcResults = wResults w,
                    pcWriteLog = order (Rec_GetWriteLog (wBs w, wNode w))\<rparr>
                  (rbBase (wBs w)) rid
                  (buildSignRequestMsg (lRFC3339 L) rid (rDid urepo) (b64_encode (ucCbor uc))
                     (map PendingWriteOp (wWrites w)) (now + signerRequestTimeout)))))"

definition begin_writes ::
  "'m repoLib \<Rightarrow> 'k kubo \<Rightarrow> faults \<Rightarrow> (block list \<Rightarrow> block list) \<Rightarrow> string \<Rightarrow> time \<Rightarrow> Repo \<Rightarrow> Op list \<Rightarrow>
   ('m, 'k) rmState \<Rightarrow> begun result \<times> ('m, 'k) rmState" where
  "begin_writes L K fails order rid now urepo writes rs =
     (case castCid L (rRoot urepo) of
        Inl e \<Rightarrow> (Fail e, rs)
      | Inr rootcid \<Rightarrow>
          let did = rDid urepo;
              get = rec_read K (newRecordingBlockstoreForRepo did, rsNode rs);
              (res, cache, out) = withRepo (\<lambda>_. openRepo L get rootcid did) did rootcid
                (build_writes L K fails (rsDb rs) did writes (rsTick rs) (rsNode rs)) (rsCache rs) None;
              rs1 = (case out of
                None \<Rightarrow> rs\<lparr>rsCache := cache\<rparr>
              | Some (_, w) \<Rightarrow> rs\<lparr>rsCache := cache, rsTick := wTick w, rsNode := wNode w\<rparr>)
          in (case res of
                Fail e \<Rightarrow> (Fail e, rs1)
              | Ret _ \<Rightarrow>
                  (case out of
                     Some (Some uc, w) \<Rightarrow> (request_of L order rid now urepo rootcid uc w, rs1)
                   | _ \<Rightarrow> (Crash, rs1))
              | Crash \<Rightarrow> (Crash, rs1)))"

section \<open>Reference counts of blobs\<close>

fun incr_refs :: "faults \<Rightarrow> string \<Rightarrow> cid list \<Rightarrow> db \<Rightarrow> goerr option \<times> db" where
  "incr_refs fails did [] d = (None, d)"
| "incr_refs fails did (c # cs) d =
     (if fails ''blobs.inc'' then (Some (ErrDb ''blobs.inc''), d)
      else incr_refs fails did cs
        (d\<lparr>blobs := sql_update (\<lambda>b. bDid b = did \<and> bCid b = c) (\<lambda>b. b\<lparr>bRefCount := bRefCount b + 1\<rparr>) (blobs d)\<rparr>))"

definition incrementBlobRefs :: "'m repoLib \<Rightarrow> faults \<Rightarrow> string \<Rightarrow> bytes \<Rightarrow> db \<Rightarrow> (goerr + cid list) \<times> db" where
  "incrementBlobRefs L fails did cbor d =
     (case getBlobCidsFromCbor L cbor of
        Inl e \<Rightarrow> (Inl e, d)
      | Inr cs \<Rightarrow> (case incr_refs fails did cs d of (Some e, d') \<Rightarrow> (Inl e, d') | (None, d') \<Rightarrow> (Inr cs, d')))"

text \<open>
  The update returns the columns id and ref_count of the first row it changed, which are scanned into a struct with
  fields ID and Count.  GORM matches columns and fields by name, so ref_count fills no field: Count keeps its zero
  whatever the row holds, and the test on it always succeeds.  The row with that id is deleted (the id is zero when no
  row was changed), then the rows of a table blob_parts, which no migration creates: the label blob_parts says whether
  the database refuses that statement.  The content is then unpinned.
\<close>

fun decr_refs ::
  "'k kubo \<Rightarrow> faults \<Rightarrow> bool \<Rightarrow> string \<Rightarrow> cid list \<Rightarrow> db \<times> 'k \<Rightarrow> goerr option \<times> db \<times> 'k" where
  "decr_refs K fails nodeUrl did [] s = (None, s)"
| "decr_refs K fails nodeUrl did (c # cs) (d, k) =
     (if fails ''blobs.dec'' then (Some (ErrDb ''blobs.dec''), d, k)
      else
        let P = (\<lambda>b. bDid b = did \<and> bCid b = c);
            bs = sql_update P (\<lambda>b. b\<lparr>bRefCount := bRefCount b - 1\<rparr>) (blobs d);
            resID = (case sql_first P bs of None \<Rightarrow> 0 | Some b \<Rightarrow> bID b);
            d1 = d\<lparr>blobs := bs\<rparr>
        in if fails ''blobs.delete'' then (Some (ErrDb ''blobs.delete''), d1, k)
           else let d2 = d1\<lparr>blobs := sql_delete (\<lambda>b. bID b = resID) bs\<rparr> in
             if fails ''blob_parts'' then (Some (ErrDb ''blob_parts''), d2, k)
             else decr_refs K fails nodeUrl did cs (d2, if nodeUrl then kUnpin K k c else k))"

definition decrementBlobRefs ::
  "'m repoLib \<Rightarrow> 'k kubo \<Rightarrow> faults \<Rightarrow> bool \<Rightarrow> string \<Rightarrow> bytes \<Rightarrow> db \<times> 'k \<Rightarrow> (goerr + cid list) \<times> db \<times> 'k" where
  "decrementBlobRefs L K fails nodeUrl did cbor s =
     (case getBlobCidsFromCbor L cbor of
        Inl e \<Rightarrow> (Inl e, s)
      | Inr cs \<Rightarrow> (case decr_refs K fails nodeUrl did cs s of (Some e, s') \<Rightarrow> (Inl e, s') | (None, s') \<Rightarrow> (Inr cs, s')))"

section \<open>The second half of applyWrites\<close>

text \<open>Replaying the write log: every CID is checked, then its block is put.\<close>

definition replay_put :: "'m repoLib \<Rightarrow> (block \<Rightarrow> 's \<Rightarrow> goerr option \<times> 's) \<Rightarrow> block \<Rightarrow> 's \<Rightarrow> goerr option \<times> 's" where
  "replay_put L put b s =
     (if \<not> lCast L (fst b) then (Some (Err ''replaying write log, bad CID''), s)
      else (case put b s of
              (Some e, s') \<Rightarrow> (Some (Wrap ''replaying write log, put failed'' e), s')
            | (None, s') \<Rightarrow> (None, s')))"

text \<open>
  One operation in the CAR file and in the event: \<open>get\<close> reads the block of the value (of the previous
  value for a deletion) from the blockstore of the first half.
\<close>

definition car_op ::
  "'m repoLib \<Rightarrow> (cid \<Rightarrow> goerr + bytes) \<Rightarrow> serialisedOp \<Rightarrow>
   goerr + (string \<times> string \<times> bytes option \<times> bytes option) list \<times> bytes" where
  "car_op L get sop =
     (if soAction sop \<in> {''create'', ''update''} then
        (if \<not> lCast L (soValue sop) then Inl (Err ''bad value CID in serialised op'')
         else (case get (soValue sop) of
                 Inl e \<Rightarrow> Inl e
               | Inr d \<Rightarrow> Inr ([(soAction sop, soPath sop, Some (soValue sop), None)], lLdWrite L [soValue sop, d])))
      else if soAction sop = ''delete'' then
        (if \<not> lCast L (soPrev sop) then Inl (Err ''bad prev CID in serialised op'')
         else (case get (soPrev sop) of
                 Inl e \<Rightarrow> Inl e
               | Inr d \<Rightarrow> Inr ([(''delete'', soPath sop, None, Some (soPrev sop))], lLdWrite L [soPrev sop, d])))
      else Inr ([], []))"

fun car_ops ::
  "'m repoLib \<Rightarrow> (cid \<Rightarrow> goerr + bytes) \<Rightarrow> serialisedOp list \<Rightarrow>
   goerr + (string \<times> string \<times> bytes option \<times> bytes option) list \<times> bytes" where
  "car_ops L get [] = Inr ([], [])"
| "car_ops L get (sop # sops) =
     (case car_op L get sop of
        Inl e \<Rightarrow> Inl e
      | Inr (o1, b1) \<Rightarrow> (case car_ops L get sops of Inl e \<Rightarrow> Inl e | Inr (o2, b2) \<Rightarrow> Inr (o1 @ o2, b1 @ b2)))"

fun car_log :: "'m repoLib \<Rightarrow> block list \<Rightarrow> goerr + bytes" where
  "car_log L [] = Inr []"
| "car_log L (b # bs) =
     (if \<not> lCast L (fst b) then Inl (Err ''invalid cid'')
      else (case car_log L bs of Inl e \<Rightarrow> Inl e | Inr r \<Rightarrow> Inr (lLdWrite L [fst b, snd b] @ r)))"

text \<open>
  One record row: upserted on its key, or deleted by it when the entry has no CID (GORM puts every column
  of the composite key into the condition), and the blobs it refers to.
\<close>

definition rec_key :: "Record \<Rightarrow> string \<times> string \<times> string" where
  "rec_key r = (recDid r, recNsid r, recRkey r)"

definition delete_matches :: "Record \<Rightarrow> Record \<Rightarrow> bool" where
  "delete_matches e r \<longleftrightarrow> rec_key r = rec_key e"

definition persist_entry ::
  "'m repoLib \<Rightarrow> 'k kubo \<Rightarrow> faults \<Rightarrow> bool \<Rightarrow> string \<Rightarrow> Record \<Rightarrow> db \<times> 'k \<Rightarrow> (goerr + cid list) \<times> db \<times> 'k" where
  "persist_entry L K fails nodeUrl did e s =
     (if recCid e \<noteq> '''' then
        (if fails ''records.create'' then (Inl (ErrDb ''records.create''), s)
         else (case incrementBlobRefs L fails did (recValue e)
                  ((fst s)\<lparr>records := sql_upsert rec_key e (records (fst s))\<rparr>) of
                 (r, d) \<Rightarrow> (r, d, snd s)))
      else if fails ''records.delete'' then (Inl (ErrDb ''records.delete''), s)
      else decrementBlobRefs L K fails nodeUrl did (recValue e)
        ((fst s)\<lparr>records := sql_delete (delete_matches e) (records (fst s))\<rparr>, snd s))"

fun persist_entries ::
  "'m repoLib \<Rightarrow> 'k kubo \<Rightarrow> faults \<Rightarrow> bool \<Rightarrow> string \<Rightarrow> Record list \<Rightarrow> db \<times> 'k \<Rightarrow> (goerr + cid list) \<times> db \<times> 'k" where
  "persist_entries L K fails nodeUrl did [] s = (Inr [], s)"
| "persist_entries L K fails nodeUrl did (e # es) s =
     (case persist_entry L K fails nodeUrl did e s of
        (Inl er, s1) \<Rightarrow> (Inl er, s1)
      | (Inr cs, s1) \<Rightarrow>
          (case persist_entries L K fails nodeUrl did es s1 of
             (Inl er, s2) \<Rightarrow> (Inl er, s2)
           | (Inr ds, s2) \<Rightarrow> (Inr (cs @ ds), s2)))"

definition UpdateRepo :: "faults \<Rightarrow> string \<Rightarrow> cid \<Rightarrow> string \<Rightarrow> db \<Rightarrow> goerr + db" where
  "UpdateRepo fails did root r d =
     (if fails ''repos.root'' then Inl (ErrDb ''repos.root'')
      else Inr (d\<lparr>repos := sql_update (\<lambda>x. rDid x = did) (\<lambda>x. x\<lparr>rRoot := root, rRev := r\<rparr>) (repos d)\<rparr>))"

text \<open>
  What the second half takes from its surroundings: the failing statements, the clock, whether a node
  address is configured, and the event manager, which hands an event to the persister.
\<close>

record rmEnv =
  reFails :: faults
  reNow :: time
  reNodeUrl :: bool
  reAddEvent :: "XRPCStreamEvent \<Rightarrow> DbPersister \<Rightarrow> goerr option \<times> DbPersister"

definition commit_event ::
  "rmEnv \<Rightarrow> pendingCommitState \<Rightarrow> Repo \<Rightarrow> cid \<Rightarrow> bytes \<Rightarrow> cid list \<Rightarrow>
   (string \<times> string \<times> bytes option \<times> bytes option) list \<Rightarrow> XRPCStreamEvent" where
  "commit_event E st urepo newroot car bs repoOps =
     RepoCommit \<lparr>ceSeq = 0, ceRepo = rDid urepo, ceBlocks = car, ceBlobs = bs, ceRev = pcRev st,
       ceSince = pcPrevRev st, ceCommit = newroot, ceTime = reNow E, ceOps = repoOps\<rparr>"

text \<open>Storing the blocks and the commit: the new root and the CAR file of the event.\<close>

definition store_commit ::
  "'m repoLib \<Rightarrow> 'k kubo \<Rightarrow> pendingCommitState \<Rightarrow> string \<Rightarrow> bytes \<Rightarrow> IPFSBlockstore \<Rightarrow> 'k \<Rightarrow>
   (goerr + cid \<times> bytes \<times> (string \<times> string \<times> bytes option \<times> bytes option) list) \<times> 'k" where
  "store_commit L K st did sg dbs k =
     (case put_all (replay_put L (Rec_Put K)) (pcWriteLog st) (newRecordingBlockstoreForRepo did, k) of
        (Some e, s1) \<Rightarrow> (Inl e, snd s1)
      | (None, s1) \<Rightarrow>
     (case finaliseCommit L (Rec_Put K) None \<lparr>ucCbor = pcUnsignedCBOR st, ucRev = pcRev st\<rparr> sg s1 of
        (Inl e, s2) \<Rightarrow> (Inl e, snd s2)
      | (Inr newroot, s2) \<Rightarrow>
     (case lCarHeader L newroot of
        Inl e \<Rightarrow> (Inl (Wrap ''error dumping car header'' e), snd s2)
      | Inr hb \<Rightarrow>
     (case car_ops L (IPFS_Get K (dbs, snd s2)) (pcATPOps st) of
        Inl e \<Rightarrow> (Inl e, snd s2)
      | Inr (repoOps, ob) \<Rightarrow>
     (case car_log L (pcWriteLog st) of
        Inl e \<Rightarrow> (Inl e, snd s2)
      | Inr lb \<Rightarrow> (Inr (newroot, lLdWrite L [hb] @ ob @ lb, repoOps), snd s2))))))"

definition finaliseWriteFromState ::
  "'m repoLib \<Rightarrow> 'k kubo \<Rightarrow> rmEnv \<Rightarrow> Repo \<Rightarrow> pendingCommitState \<Rightarrow> bytes \<Rightarrow> IPFSBlockstore \<Rightarrow>
   ('m, 'k) rmState \<Rightarrow> (goerr + ApplyWriteResult list) \<times> ('m, 'k) rmState" where
  "finaliseWriteFromState L K E urepo st sg dbs rs =
     (case store_commit L K st (rDid urepo) sg dbs (rsNode rs) of
        (Inl e, k1) \<Rightarrow> (Inl e, rs\<lparr>rsNode := k1\<rparr>)
      | (Inr (newroot, car, repoOps), k1) \<Rightarrow>
     (case persist_entries L K (reFails E) (reNodeUrl E) (rDid urepo) (pcEntries st) (rsDb rs, k1) of
        (Inl e, d, k2) \<Rightarrow> (Inl e, rs\<lparr>rsDb := d, rsNode := k2\<rparr>)
      | (Inr bs, d, k2) \<Rightarrow>
          let (_, ev) = reAddEvent E (commit_event E st urepo newroot car bs repoOps) (rsEvents rs);
              rs2 = rs\<lparr>rsDb := d, rsNode := k2, rsEvents := ev\<rparr>
          in (case UpdateRepo (reFails E) (rDid urepo) newroot (pcRev st) d of
                Inl e \<Rightarrow> (Inl e, rs2)
              | Inr d2 \<Rightarrow>
                  (Inr (map (with_commit \<lparr>rcCid = lCidString L newroot, rcRev = pcRev st\<rparr>) (pcResults st)),
                   rs2\<lparr>rsDb := d2\<rparr>))))"

text \<open>What happens once the hub answers.\<close>

definition finish_writes ::
  "'m repoLib \<Rightarrow> 'k kubo \<Rightarrow> rmEnv \<Rightarrow> Repo \<Rightarrow> pendingCommitState \<Rightarrow> IPFSBlockstore \<Rightarrow> goerr + bytes \<Rightarrow>
   ('m, 'k) rmState \<Rightarrow> (goerr + ApplyWriteResult list) \<times> ('m, 'k) rmState" where
  "finish_writes L K E urepo st dbs answer rs =
     (case answer of
        Inl e \<Rightarrow> (Inl e, rs)
      | Inr sg \<Rightarrow>
          if rSigningPublicKey urepo = [] then (Inl (Err ''no public key registered for account''), rs)
          else (case lParsePub L (rSigningPublicKey urepo) of
                  Inl e \<Rightarrow> (Inl (Wrap ''parsing stored public key'' e), rs)
                | Inr pk \<Rightarrow>
                    (case lHashAndVerify L pk (pcUnsignedCBOR st) sg of
                       Some e \<Rightarrow> (Inl (Wrap ''signature verification failed'' e), rs)
                     | None \<Rightarrow> finaliseWriteFromState L K E urepo st sg dbs rs)))"

text \<open>
  The whole call.  \<open>ask\<close> is the hub's round trip (did, request identifier, message): it returns the
  answer together with the state other requests have left in the meantime.
\<close>

definition applyWrites ::
  "'m repoLib \<Rightarrow> 'k kubo \<Rightarrow> rmEnv \<Rightarrow> (block list \<Rightarrow> block list) \<Rightarrow> string \<Rightarrow>
   (string \<Rightarrow> string \<Rightarrow> string \<Rightarrow> ('m, 'k) rmState \<Rightarrow> (goerr + bytes) \<times> ('m, 'k) rmState) \<Rightarrow>
   Repo \<Rightarrow> Op list \<Rightarrow> ('m, 'k) rmState \<Rightarrow> ApplyWriteResult list result \<times> ('m, 'k) rmState" where
  "applyWrites L K E order rid ask urepo writes rs =
     (case begin_writes L K (reFails E) order rid (reNow E) urepo writes rs of
        (Fail e, rs1) \<Rightarrow> (Fail e, rs1)
      | (Crash, rs1) \<Rightarrow> (Crash, rs1)
      | (Ret (Done results), rs1) \<Rightarrow> (Ret results, rs1)
      | (Ret (AwaitSig st dbs rid' msg1), rs1) \<Rightarrow>
          (case ask (rDid urepo) rid' msg1 rs1 of
             (answer, rs2) \<Rightarrow>
               (case finish_writes L K E urepo st dbs answer rs2 of
                  (Inl e, rs3) \<Rightarrow> (Fail e, rs3)
                | (Inr results, rs3) \<Rightarrow> (Ret results, rs3))))"

section \<open>Record proofs\<close>

fun read_blocks :: "(cid \<Rightarrow> goerr + bytes) \<Rightarrow> cid list \<Rightarrow> goerr + block list" where
  "read_blocks get [] = Inr []"
| "read_blocks get (c # cs) =
     (case get c of
        Inl e \<Rightarrow> Inl (Wrap ''reading MST node for proof'' e)
      | Inr d \<Rightarrow> (case read_blocks get cs of Inl e \<Rightarrow> Inl e | Inr bs \<Rightarrow> Inr ((c, d) # bs)))"

definition proof_blocks ::
  "'m repoLib \<Rightarrow> (cid \<Rightarrow> goerr + bytes) \<Rightarrow> cid \<Rightarrow> string \<Rightarrow> 'm \<Rightarrow> goerr + block list" where
  "proof_blocks L get commitCid path m =
     (let nodes = (case lRoot L m of None \<Rightarrow> [] | Some n \<Rightarrow> collectPathNodeCIDs L n path) in
      case lGet L m path of
        Inl e \<Rightarrow> Inl e
      | Inr None \<Rightarrow> Inl (Err ''record not found'')
      | Inr (Some rc) \<Rightarrow>
          (case get commitCid of
             Inl e \<Rightarrow> Inl (Wrap ''reading commit block for proof'' e)
           | Inr cd \<Rightarrow>
               (case read_blocks get nodes of
                  Inl e \<Rightarrow> Inl e
                | Inr bs \<Rightarrow>
                    (case get rc of
                       Inl e \<Rightarrow> Inl (Wrap ''reading record block for proof'' e)
                     | Inr rd \<Rightarrow> Inr ([(commitCid, cd)] @ bs @ [(rc, rd)])))))"

definition getRecordProof ::
  "'m repoLib \<Rightarrow> 'k kubo \<Rightarrow> Repo \<Rightarrow> string \<Rightarrow> string \<Rightarrow> ('m, 'k) rmState \<Rightarrow>
   (cid \<times> block list) result \<times> ('m, 'k) rmState" where
  "getRecordProof L K urepo collection rkey rs =
     (case castCid L (rRoot urepo) of
        Inl e \<Rightarrow> (Fail e, rs)
      | Inr commitCid \<Rightarrow>
          let did = rDid urepo; get = IPFS_Get K (newBlockstoreForRepo did, rsNode rs);
              fn = (\<lambda>r _. case proof_blocks L get commitCid (collection @ ''/'' @ rkey) (arMST r) of
                       Inl e \<Rightarrow> (Fail e, r, [])
                     | Inr bs \<Rightarrow> (Ret commitCid, r, bs));
              (res, cache, bs) = withRepo (\<lambda>_. openRepo L get commitCid did) did commitCid fn (rsCache rs) []
          in (case res of
                Fail e \<Rightarrow> (Fail e, rs\<lparr>rsCache := cache\<rparr>)
              | Ret _ \<Rightarrow> (Ret (commitCid, bs), rs\<lparr>rsCache := cache\<rparr>)
              | Crash \<Rightarrow> (Crash, rs\<lparr>rsCache := cache\<rparr>)))"

end
