(* ===== verification/RepoWrites.thy ===== *)
theory RepoWrites
  imports RepoMan
begin

text \<open>
  What a write guarantees: nothing changes without the account holder's signature, what is reported as
  written is stored in the node, and the table of records follows the tree.
\<close>

section \<open>Frames\<close>

definition node_keeps :: "'k kubo \<Rightarrow> 'k \<Rightarrow> 'k \<Rightarrow> bool" where
  "node_keeps K k k' \<longleftrightarrow> (kubo_keeps K \<longrightarrow> (\<forall>c. kStat K k c = None \<longrightarrow> kStat K k' c = None))"

lemma node_keeps_refl [simp]: "node_keeps K k k"
  by (simp add: node_keeps_def)

lemma node_keeps_trans: "node_keeps K a b \<Longrightarrow> node_keeps K b c \<Longrightarrow> node_keeps K a c"
  by (simp add: node_keeps_def)

lemma node_keeps_unpin: "node_keeps K k (kUnpin K k c)"
  by (auto simp: node_keeps_def kubo_keeps_def)

text \<open>Databases that differ in their records and blobs only, or in their blobs only.\<close>

definition same_rb :: "db \<Rightarrow> db \<Rightarrow> bool" where
  "same_rb d d' \<longleftrightarrow> d'\<lparr>records := [], blobs := []\<rparr> = d\<lparr>records := [], blobs := []\<rparr>"

definition same_b :: "db \<Rightarrow> db \<Rightarrow> bool" where
  "same_b d d' \<longleftrightarrow> d'\<lparr>blobs := []\<rparr> = d\<lparr>blobs := []\<rparr>"

lemma same_rb_refl [simp]: "same_rb d d" and same_b_refl [simp]: "same_b d d"
  by (simp_all add: same_rb_def same_b_def)

lemma same_rb_trans: "same_rb a b \<Longrightarrow> same_rb b c \<Longrightarrow> same_rb a c"
  by (simp add: same_rb_def)

lemma same_b_rb: "same_b (d\<lparr>records := r\<rparr>) d' \<Longrightarrow> same_rb d d'"
  unfolding same_b_def same_rb_def by (cases d; cases d') simp

lemma same_b_upd [simp]: "same_b (d\<lparr>blobs := b\<rparr>) d' = same_b d d'"
  by (simp add: same_b_def)

lemma same_rb_repos: "same_rb d d' \<Longrightarrow> repos d' = repos d"
  unfolding same_rb_def by (drule arg_cong [where f = repos]) simp

lemma same_b_records: "same_b d d' \<Longrightarrow> records d' = records d"
  unfolding same_b_def by (drule arg_cong [where f = records]) simp

lemma incr_refs_frame: "incr_refs fails did cs d = (e, d') \<Longrightarrow> same_b d d'"
proof (induction cs arbitrary: d)
  case (Cons c cs)
  then show ?case by (auto split: if_splits dest: Cons.IH)
qed simp

lemma decr_refs_frame:
  "decr_refs K fails u did cs s = (e, d', k') \<Longrightarrow> same_b (fst s) d' \<and> node_keeps K (snd s) k'"
proof (induction cs arbitrary: s)
  case (Cons c cs)
  obtain d k where s: "s = (d, k)" by (cases s)
  have step: "same_b d d'" "node_keeps K k k'"
    if "decr_refs K fails u did cs (d\<lparr>blobs := bs\<rparr>, k1) = (e, d', k')" "k1 = k \<or> k1 = kUnpin K k c" for bs k1
    using Cons.IH [OF that(1)] that(2) by (auto intro: node_keeps_trans node_keeps_unpin)
  have fin: "same_b d (d\<lparr>blobs := bs\<rparr>)" for bs by (simp add: same_b_def)
  show ?case
    using Cons.prems unfolding s
    by (auto simp: Let_def fin split: if_splits prod.splits option.splits intro: step)
qed simp

text \<open>
  The first record that drops a blob takes it away, however many records still refer to it: its row is deleted and its
  content is unpinned.
\<close>

lemma find_update: "(\<And>x. P x \<Longrightarrow> P (f x)) \<Longrightarrow> find P (map (\<lambda>x. if P x then f x else x) t) = map_option f (find P t)"
  by (induction t) auto

lemma shared_blob_deleted:
  assumes "\<And>l. \<not> fails l" and "sql_first (\<lambda>b. bDid b = did \<and> bCid b = c) (blobs d) = Some b"
    and "decr_refs K fails True did [c] (d, k) = (e, d', k')"
  shows "e = None \<and> bID b \<notin> bID ` set (blobs d') \<and> k' = kUnpin K k c"
proof -
  let ?P = "\<lambda>b. bDid b = did \<and> bCid b = c"
  have "sql_first ?P (sql_update ?P (\<lambda>b. b\<lparr>bRefCount := bRefCount b - 1\<rparr>) (blobs d)) = Some (b\<lparr>bRefCount := bRefCount b - 1\<rparr>)"
    using assms(2) unfolding sql_first_def sql_update_def by (subst find_update) simp_all
  with assms(1,3) show ?thesis by (auto simp: Let_def sql_delete_def)
qed

lemma incrementBlobRefs_frame: "incrementBlobRefs L fails did cbor d = (r, d') \<Longrightarrow> same_b d d'"
  by (auto simp: incrementBlobRefs_def split: sum.splits prod.splits option.splits dest: incr_refs_frame)

lemma decrementBlobRefs_frame:
  "decrementBlobRefs L K fails u did cbor s = (r, d', k') \<Longrightarrow> same_b (fst s) d' \<and> node_keeps K (snd s) k'"
  by (auto simp: decrementBlobRefs_def split: sum.splits prod.splits option.splits dest: decr_refs_frame)

text \<open>What persisting an entry does to the table of records.\<close>

definition entry_effect :: "Record \<Rightarrow> Record table \<Rightarrow> Record table" where
  "entry_effect e t = (if recCid e \<noteq> '''' then sql_upsert rec_key e t else sql_delete (delete_matches e) t)"

lemma persist_entry_frame:
  "persist_entry L K fails u did en s = (r, d', k') \<Longrightarrow>
   same_rb (fst s) d' \<and> node_keeps K (snd s) k' \<and>
   (\<not> isl r \<longrightarrow> records d' = entry_effect en (records (fst s)))"
  by (auto simp: persist_entry_def entry_effect_def split: if_splits prod.splits
      dest!: incrementBlobRefs_frame decrementBlobRefs_frame dest: same_b_rb same_b_records)

lemma persist_entries_frame:
  "persist_entries L K fails u did es s = (r, d', k') \<Longrightarrow>
   same_rb (fst s) d' \<and> node_keeps K (snd s) k' \<and>
   (\<not> isl r \<longrightarrow> records d' = fold entry_effect es (records (fst s)))"
proof (induction es arbitrary: s r)
  case (Cons en es)
  obtain r1 d1 k1 where p: "persist_entry L K fails u did en s = (r1, d1, k1)" by (metis prod_cases3)
  note f = persist_entry_frame [OF p]
  show ?case
  proof (cases r1)
    case (Inl a)
    with Cons.prems p f show ?thesis by auto
  next
    case (Inr b)
    then obtain r2 where q: "persist_entries L K fails u did es (d1, k1) = (r2, d', k')" "isl r = isl r2"
      using Cons.prems p by (cases "persist_entries L K fails u did es (d1, k1)") (auto split: sum.splits)
    from Cons.IH [OF q(1)] f Inr q(2) show ?thesis
      by (auto intro: node_keeps_trans same_rb_trans)
  qed
qed auto

section \<open>Storing the commit\<close>

lemma replay_put_all:
  "put_all (replay_put L put) bs s = (None, s') \<Longrightarrow> put_all put bs s = (None, s')"
  by (induction bs arbitrary: s) (auto simp: replay_put_def split: if_splits prod.splits option.splits)

lemma finaliseCommit_Inr:
  assumes "finaliseCommit L put v uc sg s = (Inr c, s')"
  shows "\<exists>c0 b. lCommitDec L (ucCbor uc) = Inr c0 \<and> lCommitEnc L (c0\<lparr>cmSig := Some sg\<rparr>) = Inr b \<and>
    lSum L b = Inr c \<and> put (c, b) s = (None, s')"
  using assms by (auto simp: finaliseCommit_def split: sum.splits prod.splits option.splits)

text \<open>The root that results from a signature over an unsigned commit.\<close>

definition signed_root :: "'m repoLib \<Rightarrow> bytes \<Rightarrow> bytes \<Rightarrow> cid \<Rightarrow> bool" where
  "signed_root L cbor sg root \<longleftrightarrow>
     (\<exists>c0 b. lCommitDec L cbor = Inr c0 \<and> lCommitEnc L (c0\<lparr>cmSig := Some sg\<rparr>) = Inr b \<and> lSum L b = Inr root)"

lemma store_commit_Inr:
  assumes "store_commit L K st did sg dbs k = (Inr (root, car, rops), k1)"
  shows "signed_root L (pcUnsignedCBOR st) sg root"
    and "kubo_keeps K \<Longrightarrow> b \<in> set (pcWriteLog st) \<Longrightarrow> kStat K k1 (fst b) = None"
    and "kubo_keeps K \<Longrightarrow> kStat K k1 root = None"
proof -
  obtain s1 s2 where p: "put_all (replay_put L (Rec_Put K)) (pcWriteLog st) (newRecordingBlockstoreForRepo did, k) = (None, s1)"
    and f: "finaliseCommit L (Rec_Put K) None \<lparr>ucCbor = pcUnsignedCBOR st, ucRev = pcRev st\<rparr> sg s1 = (Inr root, s2)"
    and k1: "k1 = snd s2"
    using assms by (auto simp: store_commit_def split: sum.splits prod.splits option.splits)
  from finaliseCommit_Inr [OF f] obtain c0 b0 where c: "lCommitDec L (pcUnsignedCBOR st) = Inr c0"
      "lCommitEnc L (c0\<lparr>cmSig := Some sg\<rparr>) = Inr b0" "lSum L b0 = Inr root"
    and put: "Rec_Put K (root, b0) s1 = (None, s2)" by auto
  show "signed_root L (pcUnsignedCBOR st) sg root" using c by (auto simp: signed_root_def)
  assume K: "kubo_keeps K"
  note q = replay_put_all [OF p]
  have ok: "rec_ok K (newRecordingBlockstoreForRepo did, k)" using K by simp
  have ok1: "rec_ok K s1" using recorded.ok_put_all [OF ok, of "pcWriteLog st"] q by simp
  show "kStat K k1 root = None" using recorded.put_stored [OF ok1 put] by (simp add: rec_stored_def k1)
  assume "b \<in> set (pcWriteLog st)"
  with recorded.put_all_stored [OF ok q] have "rec_stored K s1 (fst b)" by blast
  with recorded.stored_put [OF ok1, of "fst b" "(root, b0)"] put
  show "kStat K k1 (fst b) = None" by (simp add: rec_stored_def k1)
qed

lemma finaliseWrite_cases:
  assumes "finaliseWriteFromState L K E urepo st sg dbs rs = (r, rs')"
  shows "(\<exists>e k1. store_commit L K st (rDid urepo) sg dbs (rsNode rs) = (Inl e, k1) \<and> r = Inl e \<and> rs' = rs\<lparr>rsNode := k1\<rparr>) \<or>
    (\<exists>root car rops k1 e d k2. store_commit L K st (rDid urepo) sg dbs (rsNode rs) = (Inr (root, car, rops), k1) \<and>
       persist_entries L K (reFails E) (reNodeUrl E) (rDid urepo) (pcEntries st) (rsDb rs, k1) = (Inl e, d, k2) \<and>
       r = Inl e \<and> rs' = rs\<lparr>rsDb := d, rsNode := k2\<rparr>) \<or>
    (\<exists>root car rops k1 bs d k2 ev. store_commit L K st (rDid urepo) sg dbs (rsNode rs) = (Inr (root, car, rops), k1) \<and>
       persist_entries L K (reFails E) (reNodeUrl E) (rDid urepo) (pcEntries st) (rsDb rs, k1) = (Inr bs, d, k2) \<and>
       snd (reAddEvent E (commit_event E st urepo root car bs rops) (rsEvents rs)) = ev \<and>
       (\<exists>e. UpdateRepo (reFails E) (rDid urepo) root (pcRev st) d = Inl e \<and> r = Inl e \<and>
          rs' = rs\<lparr>rsDb := d, rsNode := k2, rsEvents := ev\<rparr> \<or>
        (\<exists>d2. UpdateRepo (reFails E) (rDid urepo) root (pcRev st) d = Inr d2 \<and>
          r = Inr (map (with_commit \<lparr>rcCid = lCidString L root, rcRev = pcRev st\<rparr>) (pcResults st)) \<and>
          rs' = rs\<lparr>rsDb := d2, rsNode := k2, rsEvents := ev\<rparr>)))"
proof -
  obtain sc k1 where s: "store_commit L K st (rDid urepo) sg dbs (rsNode rs) = (sc, k1)" by (metis surj_pair)
  show ?thesis
  proof (cases sc)
    case (Inl e)
    with assms s show ?thesis by (simp add: finaliseWriteFromState_def)
  next
    case (Inr x)
    obtain root car rops where x: "x = (root, car, rops)" by (metis prod_cases3)
    obtain pe d k2 where p: "persist_entries L K (reFails E) (reNodeUrl E) (rDid urepo) (pcEntries st) (rsDb rs, k1) = (pe, d, k2)"
      by (metis prod_cases3)
    show ?thesis
    proof (cases pe)
      case (Inl e)
      with assms s Inr x p show ?thesis by (simp add: finaliseWriteFromState_def)
    next
      case pr: (Inr bs)
      with assms s Inr x p show ?thesis
        by (cases "UpdateRepo (reFails E) (rDid urepo) root (pcRev st) d")
           (auto simp: finaliseWriteFromState_def Let_def split: prod.splits)
    qed
  qed
qed

lemma begin_writes_frame:
  "begin_writes L K fails order rid now urepo writes rs = (r, rs') \<Longrightarrow>
   rsDb rs' = rsDb rs \<and> rsEvents rs' = rsEvents rs"
  by (auto simp: begin_writes_def Let_def split: sum.splits prod.splits result.splits option.splits)

definition set_root :: "string \<Rightarrow> cid \<Rightarrow> string \<Rightarrow> Repo table \<Rightarrow> Repo table" where
  "set_root did root r t = sql_update (\<lambda>x. rDid x = did) (\<lambda>x. x\<lparr>rRoot := root, rRev := r\<rparr>) t"

lemma UpdateRepo_Inr: "UpdateRepo fails did root r d = Inr d' \<Longrightarrow> d' = d\<lparr>repos := set_root did root r (repos d)\<rparr>"
  by (auto simp: UpdateRepo_def set_root_def split: if_splits)

lemma finish_writes_db:
  assumes "finish_writes L K E urepo st dbs answer rs = (r, rs')"
    and "rsDb rs' \<noteq> rsDb rs \<or> rsEvents rs' \<noteq> rsEvents rs \<or> (\<exists>x. r = Inr x)"
  shows "\<exists>sg pk. answer = Inr sg \<and> rSigningPublicKey urepo \<noteq> [] \<and> lParsePub L (rSigningPublicKey urepo) = Inr pk \<and>
     lHashAndVerify L pk (pcUnsignedCBOR st) sg = None \<and>
     (\<exists>root. signed_root L (pcUnsignedCBOR st) sg root \<and>
        (case r of Inl _ \<Rightarrow> repos (rsDb rs') = repos (rsDb rs)
         | Inr _ \<Rightarrow> repos (rsDb rs') = set_root (rDid urepo) root (pcRev st) (repos (rsDb rs))))"
proof -
  obtain sg pk where s: "answer = Inr sg" "rSigningPublicKey urepo \<noteq> []" "lParsePub L (rSigningPublicKey urepo) = Inr pk"
     "lHashAndVerify L pk (pcUnsignedCBOR st) sg = None"
    and f: "finaliseWriteFromState L K E urepo st sg dbs rs = (r, rs')"
    using assms by (auto simp: finish_writes_def split: sum.splits if_splits option.splits)
  have "\<exists>root. signed_root L (pcUnsignedCBOR st) sg root \<and>
        (case r of Inl _ \<Rightarrow> repos (rsDb rs') = repos (rsDb rs)
         | Inr _ \<Rightarrow> repos (rsDb rs') = set_root (rDid urepo) root (pcRev st) (repos (rsDb rs)))"
    using finaliseWrite_cases [OF f] assms(2)
    by (elim disjE exE conjE)
       (auto dest!: store_commit_Inr(1) persist_entries_frame same_rb_repos UpdateRepo_Inr)
  with s show ?thesis by blast
qed

section \<open>What the loop over the writes leaves\<close>

definition logged :: "('m, 'k) wst \<Rightarrow> cid \<Rightarrow> bool" where
  "logged w c \<longleftrightarrow> c \<in> dom (map_of (rbInserts (wBs w)))"

lemma w_put_frame: "w_put K b w = (e, w') \<Longrightarrow> w' = w\<lparr>wBs := wBs w', wNode := wNode w'\<rparr>"
  by (auto simp: w_put_def split: prod.splits)

lemma w_put_fields:
  assumes "w_put K b w = (e, w')"
  shows "wRepo w' = wRepo w" "wTick w' = wTick w" "wWrites w' = wWrites w" "wResults w' = wResults w"
    "wOps w' = wOps w" "wEntries w' = wEntries w"
  by (subst w_put_frame [OF assms], simp)+

lemma w_put_logged:
  assumes "w_put K b w = (e, w')"
  shows "logged w c \<Longrightarrow> logged w' c" and "e = None \<Longrightarrow> logged w' (fst b)"
  using assms
  by (cases rule: Rec_Put_cases [of K b "(wBs w, wNode w)"];
      auto simp: w_put_def logged_def update_conv')+

lemma put_all_w_put:
  "put_all (w_put K) bs w = (e, w') \<Longrightarrow>
   (\<forall>c. logged w c \<longrightarrow> logged w' c) \<and> wRepo w' = wRepo w \<and> wTick w' = wTick w \<and> wWrites w' = wWrites w \<and>
   wResults w' = wResults w \<and> wOps w' = wOps w \<and> wEntries w' = wEntries w"
proof (induction bs arbitrary: w)
  case (Cons b bs)
  obtain e1 w1 where p: "w_put K b w = (e1, w1)" by (metis surj_pair)
  note f = w_put_fields [OF p] w_put_logged(1) [OF p]
  show ?case
  proof (cases e1)
    case None
    with Cons.prems p have "put_all (w_put K) bs w1 = (e, w')" by simp
    from Cons.IH [OF this] f show ?thesis by simp
  next
    case (Some a)
    with Cons.prems p f show ?thesis by simp
  qed
qed simp

lemma putRecordBlock_Inr:
  assumes "putRecordBlock L (w_put K) mm w = (Inr c, w')"
  shows "\<exists>b. lDataEnc L mm = Inr b \<and> lSum L b = Inr c \<and> w_put K (c, b) w = (None, w')"
  using assms by (auto simp: putRecordBlock_def split: sum.splits prod.splits option.splits)

lemma resolve_op_Inr:
  assumes "resolve_op L op w = (Inr (ty, rkey), w1)"
  shows "wRepo w1 = wRepo w \<and> wBs w1 = wBs w \<and> wNode w1 = wNode w \<and> wResults w1 = wResults w \<and>
    wOps w1 = wOps w \<and> wEntries w1 = wEntries w \<and> wWrites w1 = wWrites w @ [op\<lparr>oRkey := Some rkey\<rparr>] \<and>
    (case oRkey op of None \<Rightarrow> oType op = OpTypeCreate \<and> ty = OpTypeCreate \<and> rkey = lTid L (wTick w)
     | Some k \<Rightarrow> rkey = k \<and>
        ty = (if oType op = OpTypeCreate \<and> (\<exists>c. lGet L (arMST (wRepo w)) (op_path (oCollection op) k) = Inr (Some c))
              then OpTypeUpdate else oType op))"
  using assms
  by (cases op; cases "oRkey op")
     (auto simp: resolve_op_def Let_def split: if_splits sum.splits option.splits)

text \<open>A successful write of a record: its block is logged, and everything it adds.\<close>

lemma write_record_Ret:
  assumes "write_record L K did op ty rkey w = (Ret u, w')"
  shows "\<exists>o1 out nc d aop m. oRecord op = Some o1 \<and> lFromJson L o1 = Inr out \<and>
    lDataEnc L (default_type ty (oCollection op) out) = Inr d \<and> lSum L d = Inr nc \<and>
    lApplyOp L (arMST (wRepo w)) (op_path (oCollection op) rkey) (Some nc) = (Inr aop, m) \<and>
    arMST (wRepo w') = m \<and> wOps w' = wOps w @ [aop] \<and> logged w' nc \<and> (\<forall>c. logged w c \<longrightarrow> logged w' c) \<and>
    wWrites w' = wWrites w \<and>
    (\<exists>t. wEntries w' = wEntries w @ [\<lparr>recDid = did, recCreatedAt = t, recNsid = oCollection op,
               recRkey = rkey, recCid = lCidString L nc, recValue = d\<rparr>]) \<and>
    wResults w' = wResults w @ [record_result ty
               (''at://'' @ did @ ''/'' @ op_path (oCollection op) rkey) (lCidString L nc)]"
proof -
  obtain o1 out nc w1 aop m d where o: "oRecord op = Some o1" "lFromJson L o1 = Inr out"
    and p: "putRecordBlock L (w_put K) (default_type ty (oCollection op) out) w = (Inr nc, w1)"
    and a: "lApplyOp L (arMST (wRepo w1)) (op_path (oCollection op) rkey) (Some nc) = (Inr aop, m)"
    and d: "lDataEnc L (default_type ty (oCollection op) out) = Inr d"
    and w': "w' = w1\<lparr>wRepo := (wRepo w1)\<lparr>arMST := m\<rparr>, wOps := wOps w1 @ [aop], wTick := wTick w1 + 1,
             wEntries := wEntries w1 @ [\<lparr>recDid = did, recCreatedAt = lTid L (wTick w1), recNsid = oCollection op,
               recRkey = rkey, recCid = lCidString L nc, recValue = d\<rparr>],
             wResults := wResults w1 @ [record_result ty
               (''at://'' @ did @ ''/'' @ op_path (oCollection op) rkey) (lCidString L nc)]\<rparr>"
    using assms unfolding write_record_def Let_def
    by (auto split: option.splits sum.splits prod.splits)
  from putRecordBlock_Inr [OF p] d have b: "lSum L d = Inr nc" "w_put K (nc, d) w = (None, w1)" by auto
  note f = w_put_fields [OF b(2)] w_put_logged [OF b(2)]
  have l: "logged w' c = logged w1 c" for c by (simp add: logged_def w')
  have fw: "arMST (wRepo w') = m" "wOps w' = wOps w @ [aop]" "wWrites w' = wWrites w"
    "wEntries w' = wEntries w @ [\<lparr>recDid = did, recCreatedAt = lTid L (wTick w), recNsid = oCollection op,
       recRkey = rkey, recCid = lCidString L nc, recValue = d\<rparr>]"
    "wResults w' = wResults w @ [record_result ty
       (''at://'' @ did @ ''/'' @ op_path (oCollection op) rkey) (lCidString L nc)]"
    by (simp_all add: w' f)
  show ?thesis
    unfolding fw
    by (insert o d b(1) a f, rule exI [of _ o1], rule exI [of _ out], rule exI [of _ nc], rule exI [of _ d],
        rule exI [of _ aop], rule exI [of _ m]) (auto simp: l)
qed

text \<open>A successful deletion: nothing for an absent key; otherwise an entry, an operation, a smaller tree.\<close>

lemma delete_record_Ret:
  assumes "delete_record L fails d did op rkey w = (Ret u, w')"
  shows "wResults w' = wResults w @ [plain_result OpTypeDelete] \<and> wBs w' = wBs w \<and> wWrites w' = wWrites w \<and>
    ((\<forall>c. lGet L (arMST (wRepo w)) (op_path (oCollection op) rkey) \<noteq> Inr (Some c)) \<and>
       wRepo w' = wRepo w \<and> wOps w' = wOps w \<and> wEntries w' = wEntries w \<or>
     (\<exists>aop m v. lApplyOp L (arMST (wRepo w)) (op_path (oCollection op) rkey) None = (Inr aop, m) \<and>
       arMST (wRepo w') = m \<and> wOps w' = wOps w @ [aop] \<and>
       wEntries w' = wEntries w @ [\<lparr>recDid = did, recCreatedAt = '''', recNsid = oCollection op,
          recRkey = rkey, recCid = '''', recValue = v\<rparr>]))"
  using assms
  by (auto simp: delete_record_def Let_def split: sum.splits option.splits if_splits prod.splits)

lemma apply_op_Ret:
  assumes "apply_op L K fails d did op w = (Ret u, w')"
  obtains ty rkey w1 where "resolve_op L op w = (Inr (ty, rkey), w1)" "lRecordKey L rkey = None"
    "ty = OpTypeCreate \<or> ty = OpTypeUpdate" "write_record L K did op ty rkey w1 = (Ret (), w')"
  | rkey w1 where "resolve_op L op w = (Inr (OpTypeDelete, rkey), w1)" "lRecordKey L rkey = None"
    "delete_record L fails d did op rkey w1 = (Ret (), w')"
  | ty rkey where "resolve_op L op w = (Inr (ty, rkey), w')" "ty \<notin> {OpTypeCreate, OpTypeUpdate, OpTypeDelete}"
  using assms
  by (auto simp: apply_op_def split: sum.splits prod.splits option.splits if_splits)

definition results_logged :: "'m repoLib \<Rightarrow> ('m, 'k) wst \<Rightarrow> bool" where
  "results_logged L w \<longleftrightarrow> (\<forall>r \<in> set (wResults w). \<forall>s. awCid r = Some s \<longrightarrow>
     (\<exists>c. lCidString L c = s \<and> logged w c) \<and> wOps w \<noteq> [])"

lemma results_logged_mono:
  "results_logged L w \<Longrightarrow> wResults w' = wResults w \<Longrightarrow> wOps w \<noteq> [] \<longrightarrow> wOps w' \<noteq> [] \<Longrightarrow>
   (\<And>c. logged w c \<Longrightarrow> logged w' c) \<Longrightarrow> results_logged L w'"
  by (auto simp: results_logged_def) blast+

lemma apply_op_logged:
  assumes "apply_op L K fails d did op w = (Ret u, w')" and "results_logged L w"
  shows "results_logged L w'"
proof (cases rule: apply_op_Ret [OF assms(1)])
  case (1 ty rkey w1)
  note r = resolve_op_Inr [OF 1(1)]
  have w1: "results_logged L w1"
    by (rule results_logged_mono [OF assms(2)]) (use r in \<open>auto simp: logged_def\<close>)
  from write_record_Ret [OF 1(4)] obtain nc aop where "wOps w' = wOps w1 @ [aop]" "logged w' nc"
    "\<forall>c. logged w1 c \<longrightarrow> logged w' c"
    "wResults w' = wResults w1 @ [record_result ty (''at://'' @ did @ ''/'' @ op_path (oCollection op) rkey) (lCidString L nc)]"
    by blast
  with w1 show ?thesis unfolding results_logged_def record_result_def by auto blast
next
  case (2 rkey w1)
  note r = resolve_op_Inr [OF 2(1)]
  have w1: "results_logged L w1"
    by (rule results_logged_mono [OF assms(2)]) (use r in \<open>auto simp: logged_def\<close>)
  with delete_record_Ret [OF 2(3)] show ?thesis
    by (auto simp: results_logged_def plain_result_def logged_def)
next
  case (3 ty rkey)
  note r = resolve_op_Inr [OF 3(1)]
  show ?thesis by (rule results_logged_mono [OF assms(2)]) (use r in \<open>auto simp: logged_def\<close>)
qed

lemma apply_ops_logged:
  "apply_ops L K fails d did ops w = (Ret u, w') \<Longrightarrow> results_logged L w \<Longrightarrow> results_logged L w'"
proof (induction ops arbitrary: w)
  case (Cons op ops)
  then obtain u1 w1 where "apply_op L K fails d did op w = (Ret u1, w1)" "apply_ops L K fails d did ops w1 = (Ret u, w')"
    by (auto split: prod.splits result.splits)
  with Cons show ?case using apply_op_logged by blast
qed simp

lemma buildUnsignedCommit_w:
  assumes "buildUnsignedCommit L (w_put K) r w = (x, r1, w1)"
  shows "(\<forall>c. logged w c \<longrightarrow> logged w1 c) \<and> wResults w1 = wResults w \<and> wOps w1 = wOps w \<and>
    wEntries w1 = wEntries w \<and> wWrites w1 = wWrites w"
  using assms
  by (auto simp: buildUnsignedCommit_def split: sum.splits prod.splits option.splits dest: put_all_w_put)

text \<open>What the first half ends with.\<close>

lemma withRepo_Ret:
  assumes "withRepo opn did root fn cache s = (Ret u, cache', s')"
  obtains r nr r' where "cache did = Some (Some r, root) \<or> opn s = Inr r" "fn r s = (Ret nr, r', s')"
    "cache' = cache(did \<mapsto> (Some r', nr))"
  using assms
  by (auto simp: withRepo_def Let_def split: option.splits prod.splits sum.splits result.splits if_splits)

lemma begin_writes_Ret:
  assumes "begin_writes L K fails order rid now urepo writes rs = (Ret bg, rs')"
  obtains r w uc r1 w1 where
    "apply_ops L K fails (rsDb rs) (rDid urepo) writes (start_wst (rDid urepo) (rsTick rs) (rsNode rs) r) = (Ret (), w)"
    "buildUnsignedCommit L (w_put K) (wRepo w) w = (Inr uc, r1, w1)"
    "request_of L order rid now urepo (rRoot urepo) uc w1 = Ret bg"
    "rsCache rs' (rDid urepo) = Some (Some r1, Undef)"
    "rsCache rs (rDid urepo) = Some (Some r, rRoot urepo) \<or>
     openRepo L (rec_read K (newRecordingBlockstoreForRepo (rDid urepo), rsNode rs)) (rRoot urepo) (rDid urepo) = Inr r"
proof -
  let ?did = "rDid urepo"
  let ?get = "rec_read K (newRecordingBlockstoreForRepo ?did, rsNode rs)"
  obtain u cache uc w1 where
    wr: "withRepo (\<lambda>_. openRepo L ?get (rRoot urepo) ?did) ?did (rRoot urepo)
       (build_writes L K fails (rsDb rs) ?did writes (rsTick rs) (rsNode rs)) (rsCache rs) None = (Ret u, cache, Some (Some uc, w1))"
    and q: "request_of L order rid now urepo (rRoot urepo) uc w1 = Ret bg"
    and rs': "rsCache rs' = cache"
    using assms unfolding begin_writes_def Let_def
    by (auto simp: castCid_def split: sum.splits if_splits prod.splits result.splits option.splits)
  obtain r nr r1 where r: "rsCache rs ?did = Some (Some r, rRoot urepo) \<or> openRepo L ?get (rRoot urepo) ?did = Inr r"
    and b: "build_writes L K fails (rsDb rs) ?did writes (rsTick rs) (rsNode rs) r None = (Ret nr, r1, Some (Some uc, w1))"
    and cache: "cache = (rsCache rs)(?did \<mapsto> (Some r1, nr))"
    by (rule withRepo_Ret [OF wr])
  obtain w where w: "apply_ops L K fails (rsDb rs) ?did writes (start_wst ?did (rsTick rs) (rsNode rs) r) = (Ret (), w)"
    and bu: "buildUnsignedCommit L (w_put K) (wRepo w) w = (Inr uc, r1, w1)" and nr: "nr = Undef"
    using b by (auto simp: build_writes_def split: prod.splits result.splits sum.splits)
  show thesis by (rule that [OF w bu q _ r]) (simp add: rs' cache nr)
qed

lemma request_of_AwaitSig:
  "request_of L order rid now urepo root uc w = Ret (AwaitSig st dbs rid' rtext) \<Longrightarrow>
   pcEntries st = wEntries w \<and> pcResults st = wResults w \<and> pcUnsignedCBOR st = ucCbor uc \<and> pcRev st = ucRev uc \<and>
   pcWriteLog st = order (rbInserts (wBs w)) \<and> wOps w \<noteq> [] \<and> serialise_ops L (wOps w) = Ret (pcATPOps st)"
  by (auto simp: request_of_def Rec_GetWriteLog_def split: if_splits result.splits)

lemma request_of_Done:
  "request_of L order rid now urepo root uc w = Ret (Done results) \<Longrightarrow>
   wOps w = [] \<and> results = map (with_commit \<lparr>rcCid = lCidString L root, rcRev = rRev urepo\<rparr>) (wResults w)"
  by (auto simp: request_of_def split: if_splits result.splits)

lemma begin_writes_Done:
  assumes "begin_writes L K fails order rid now urepo writes rs = (Ret (Done results), rs')"
    and "res \<in> set results"
  shows "awCid res = None"
proof -
  obtain r w uc r1 w1 where w: "apply_ops L K fails (rsDb rs) (rDid urepo) writes
        (start_wst (rDid urepo) (rsTick rs) (rsNode rs) r) = (Ret (), w)"
    and bu: "buildUnsignedCommit L (w_put K) (wRepo w) w = (Inr uc, r1, w1)"
    and q: "request_of L order rid now urepo (rRoot urepo) uc w1 = Ret (Done results)"
    by (rule begin_writes_Ret [OF assms(1)])
  have "results_logged L w"
    by (rule apply_ops_logged [OF w]) (simp add: results_logged_def start_wst_def)
  with buildUnsignedCommit_w [OF bu] have "\<forall>r \<in> set (wResults w1). awCid r \<noteq> None \<longrightarrow> wOps w1 \<noteq> []"
    by (auto simp: results_logged_def)
  with request_of_Done [OF q] assms(2) show ?thesis by (auto simp: with_commit_def)
qed

lemma finaliseWrite_Inr:
  assumes "finaliseWriteFromState L K E urepo st sg dbs rs = (Inr results, rs')"
  obtains root where "signed_root L (pcUnsignedCBOR st) sg root"
    "results = map (with_commit \<lparr>rcCid = lCidString L root, rcRev = pcRev st\<rparr>) (pcResults st)"
    "repos (rsDb rs') = set_root (rDid urepo) root (pcRev st) (repos (rsDb rs))"
    "records (rsDb rs') = fold entry_effect (pcEntries st) (records (rsDb rs))"
    "rsCache rs' = rsCache rs"
    "kubo_keeps K \<longrightarrow> kStat K (rsNode rs') root = None \<and> (\<forall>b \<in> set (pcWriteLog st). kStat K (rsNode rs') (fst b) = None)"
proof -
  from finaliseWrite_cases [OF assms] obtain root car rops k1 bs d k2 ev d2 where
    s: "store_commit L K st (rDid urepo) sg dbs (rsNode rs) = (Inr (root, car, rops), k1)"
    and p: "persist_entries L K (reFails E) (reNodeUrl E) (rDid urepo) (pcEntries st) (rsDb rs, k1) = (Inr bs, d, k2)"
    and u: "UpdateRepo (reFails E) (rDid urepo) root (pcRev st) d = Inr d2"
    and r: "results = map (with_commit \<lparr>rcCid = lCidString L root, rcRev = pcRev st\<rparr>) (pcResults st)"
      "rs' = rs\<lparr>rsDb := d2, rsNode := k2, rsEvents := ev\<rparr>" by auto
  note sf = store_commit_Inr [OF s] and pf = persist_entries_frame [OF p] and uf = UpdateRepo_Inr [OF u]
  show thesis
  proof (rule that [of root])
    show "repos (rsDb rs') = set_root (rDid urepo) root (pcRev st) (repos (rsDb rs))"
      "records (rsDb rs') = fold entry_effect (pcEntries st) (records (rsDb rs))"
      using pf uf same_rb_repos [of "rsDb rs" d] r(2) by auto
    show "kubo_keeps K \<longrightarrow> kStat K (rsNode rs') root = None \<and> (\<forall>b \<in> set (pcWriteLog st). kStat K (rsNode rs') (fst b) = None)"
      using pf sf r(2) by (auto simp: node_keeps_def)
  qed (use sf r in auto)
qed

lemma applyWrites_Ret:
  assumes "applyWrites L K E order rid ask urepo writes rs = (Ret results, rs')"
  obtains rs1 where "begin_writes L K (reFails E) order rid (reNow E) urepo writes rs = (Ret (Done results), rs1)" "rs' = rs1"
  | st dbs rid' rtext rs1 sg pk where
    "begin_writes L K (reFails E) order rid (reNow E) urepo writes rs = (Ret (AwaitSig st dbs rid' rtext), rs1)"
    "fst (ask (rDid urepo) rid' rtext rs1) = Inr sg" "rSigningPublicKey urepo \<noteq> []"
    "lParsePub L (rSigningPublicKey urepo) = Inr pk" "lHashAndVerify L pk (pcUnsignedCBOR st) sg = None"
    "finaliseWriteFromState L K E urepo st sg dbs (snd (ask (rDid urepo) rid' rtext rs1)) = (Inr results, rs')"
proof -
  obtain bg rs1 where b: "begin_writes L K (reFails E) order rid (reNow E) urepo writes rs = (Ret bg, rs1)"
    using assms by (cases "begin_writes L K (reFails E) order rid (reNow E) urepo writes rs"; 
        cases "fst (begin_writes L K (reFails E) order rid (reNow E) urepo writes rs)") (simp_all add: applyWrites_def)
  show thesis
  proof (cases bg)
    case (Done x)
    with assms b have "results = x" "rs' = rs1" by (simp_all add: applyWrites_def)
    with b Done show ?thesis using that(1) by simp
  next
    case (AwaitSig st dbs rid' rtext)
    obtain ans rs2 where a: "ask (rDid urepo) rid' rtext rs1 = (ans, rs2)" by (metis surj_pair)
    have "finish_writes L K E urepo st dbs ans rs2 = (Inr results, rs')"
      using assms b AwaitSig a
      by (cases "finish_writes L K E urepo st dbs ans rs2"; cases "fst (finish_writes L K E urepo st dbs ans rs2)")
         (simp_all add: applyWrites_def)
    then obtain sg pk where "ans = Inr sg" "rSigningPublicKey urepo \<noteq> []" "lParsePub L (rSigningPublicKey urepo) = Inr pk"
        "lHashAndVerify L pk (pcUnsignedCBOR st) sg = None" "finaliseWriteFromState L K E urepo st sg dbs rs2 = (Inr results, rs')"
      by (auto simp: finish_writes_def split: sum.splits if_splits option.splits)
    with a show ?thesis using that(2) [OF b [unfolded AwaitSig]] by simp
  qed
qed

lemma applyWrites_cases:
  assumes "applyWrites L K E order rid ask urepo writes rs = (res, rs')"
  obtains "rsDb rs' = rsDb rs" "rsEvents rs' = rsEvents rs"
  | st dbs rid' rtext rs1 r where
    "begin_writes L K (reFails E) order rid (reNow E) urepo writes rs = (Ret (AwaitSig st dbs rid' rtext), rs1)"
    "finish_writes L K E urepo st dbs (fst (ask (rDid urepo) rid' rtext rs1)) (snd (ask (rDid urepo) rid' rtext rs1)) = (r, rs')"
    "(\<exists>x. res = Ret x) = (\<exists>x. r = Inr x)"
proof -
  obtain b rs1 where b: "begin_writes L K (reFails E) order rid (reNow E) urepo writes rs = (b, rs1)" by (metis surj_pair)
  note f = begin_writes_frame [OF b]
  show thesis
  proof (cases "\<exists>st dbs rid' rtext. b = Ret (AwaitSig st dbs rid' rtext)")
    case False
    have "rs' = rs1"
    proof (cases b)
      case (Ret bg)
      with False assms b show ?thesis by (cases bg) (simp_all add: applyWrites_def)
    qed (use assms b in \<open>simp_all add: applyWrites_def\<close>)
    with f that(1) show ?thesis by simp
  next
    case True
    then obtain st dbs rid' rtext where bg: "b = Ret (AwaitSig st dbs rid' rtext)" by blast
    obtain ans rs2 where a: "ask (rDid urepo) rid' rtext rs1 = (ans, rs2)" by (metis surj_pair)
    obtain r rs3 where r: "finish_writes L K E urepo st dbs ans rs2 = (r, rs3)" by (metis surj_pair)
    have "rs3 = rs'" "(\<exists>x. res = Ret x) = (\<exists>x. r = Inr x)"
      using assms b bg a r by (cases r; force simp: applyWrites_def)+
    with r a show ?thesis using that(2) [OF b [unfolded bg]] by simp
  qed
qed

section \<open>Properties\<close>

text \<open>
  C22: Nothing is written without the account holder.  If a write changes the database or the event log
  while no other request runs, then the hub delivered a signature over exactly the unsigned commit built
  from these operations, that signature verified under the signing key registered for the account, and
  the only change to the account table is that the root of this account becomes the CID of the commit
  with that signature (and no change at all when the call fails afterwards).
\<close>

theorem write_needs_signature:
  assumes "applyWrites L K E order rid ask urepo writes rs = (res, rs')"
    and "\<And>s d r m. rsDb (snd (ask d r m s)) = rsDb s \<and> rsEvents (snd (ask d r m s)) = rsEvents s"
    and "rsDb rs' \<noteq> rsDb rs \<or> rsEvents rs' \<noteq> rsEvents rs"
  shows "\<exists>st dbs rid' m rs1 sg pk root.
    begin_writes L K (reFails E) order rid (reNow E) urepo writes rs = (Ret (AwaitSig st dbs rid' m), rs1) \<and>
    fst (ask (rDid urepo) rid' m rs1) = Inr sg \<and>
    lParsePub L (rSigningPublicKey urepo) = Inr pk \<and> lHashAndVerify L pk (pcUnsignedCBOR st) sg = None \<and>
    signed_root L (pcUnsignedCBOR st) sg root \<and>
    repos (rsDb rs') = (if \<exists>x. res = Ret x then set_root (rDid urepo) root (pcRev st) (repos (rsDb rs)) else repos (rsDb rs))"
proof (cases rule: applyWrites_cases [OF assms(1)])
  case 1
  with assms(3) show ?thesis by simp
next
  case (2 st dbs rid' m rs1 r)
  note f = begin_writes_frame [OF 2(1)]
  have a: "rsDb (snd (ask (rDid urepo) rid' m rs1)) = rsDb rs" "rsEvents (snd (ask (rDid urepo) rid' m rs1)) = rsEvents rs"
    using f assms(2) by simp_all
  from finish_writes_db [OF 2(2)] assms(3) obtain sg pk root where
    s: "fst (ask (rDid urepo) rid' m rs1) = Inr sg" "lParsePub L (rSigningPublicKey urepo) = Inr pk"
      "lHashAndVerify L pk (pcUnsignedCBOR st) sg = None" "signed_root L (pcUnsignedCBOR st) sg root"
    and c: "case r of Inl _ \<Rightarrow> repos (rsDb rs') = repos (rsDb rs)
         | Inr _ \<Rightarrow> repos (rsDb rs') = set_root (rDid urepo) root (pcRev st) (repos (rsDb rs))"
    unfolding a by blast
  have "repos (rsDb rs') = (if \<exists>x. res = Ret x then set_root (rDid urepo) root (pcRev st) (repos (rsDb rs)) else repos (rsDb rs))"
    using c 2(3) by (cases r) auto
  with s 2(1) show ?thesis by blast
qed

text \<open>
  C23: What is reported as written is stored.  When a write succeeds, every record it reports and the
  commit it reports are held by the Kubo node under the CID it reports, whatever other requests did to
  the node while the signature was awaited.
\<close>

theorem written_blocks_stored:
  assumes "applyWrites L K E order rid ask urepo writes rs = (Ret results, rs')"
    and "kubo_keeps K" and "\<And>xs. set (order xs) = set xs"
    and "res \<in> set results" and "awCid res = Some s"
  shows "(\<exists>c. lCidString L c = s \<and> kStat K (rsNode rs') c = None) \<and>
    (\<exists>root rv. awCommit res = Some \<lparr>rcCid = lCidString L root, rcRev = rv\<rparr> \<and> kStat K (rsNode rs') root = None)"
proof (cases rule: applyWrites_Ret [OF assms(1)])
  case (1 rs1)
  from begin_writes_Done [OF 1(1) assms(4)] assms(5) show ?thesis by simp
next
  case (2 st dbs rid' m rs1 sg pk)
  obtain root where r: "results = map (with_commit \<lparr>rcCid = lCidString L root, rcRev = pcRev st\<rparr>) (pcResults st)"
      "kStat K (rsNode rs') root = None" "\<forall>b \<in> set (pcWriteLog st). kStat K (rsNode rs') (fst b) = None"
    by (rule finaliseWrite_Inr [OF 2(6)]) (use assms(2) in blast)
  obtain r0 w uc r1 w1 where w: "apply_ops L K (reFails E) (rsDb rs) (rDid urepo) writes
        (start_wst (rDid urepo) (rsTick rs) (rsNode rs) r0) = (Ret (), w)"
    and b: "buildUnsignedCommit L (w_put K) (wRepo w) w = (Inr uc, r1, w1)"
    and q: "request_of L order rid (reNow E) urepo (rRoot urepo) uc w1 = Ret (AwaitSig st dbs rid' m)"
    by (rule begin_writes_Ret [OF 2(1)])
  have p: "pcResults st = wResults w" "pcWriteLog st = order (rbInserts (wBs w1))"
    using request_of_AwaitSig [OF q] buildUnsignedCommit_w [OF b] by simp_all
  have "results_logged L w"
    by (rule apply_ops_logged [OF w]) (simp add: results_logged_def start_wst_def)
  moreover obtain x where x: "x \<in> set (wResults w)" "awCid x = Some s"
      "awCommit res = Some \<lparr>rcCid = lCidString L root, rcRev = pcRev st\<rparr>"
    using assms(4,5) r(1) p(1) by (auto simp: with_commit_def)
  ultimately obtain c where c: "lCidString L c = s" "logged w c" by (auto simp: results_logged_def)
  then have "logged w1 c" using buildUnsignedCommit_w [OF b] by blast
  then obtain d where "(c, d) \<in> set (pcWriteLog st)"
    by (auto simp: logged_def p(2) assms(3) dest: map_of_SomeD)
  with r(3) have "kStat K (rsNode rs') c = None" by force
  with c(1) x(3) r(2) show ?thesis by blast
qed

end
