(* ===== verification/RepoIndex.thy ===== *)
theory RepoIndex
  imports RepoWrites
begin

text \<open>
  The table of records is an index of the tree: every write keeps the two in step, and its results
  answer its operations one by one.
\<close>

section \<open>Rows and paths\<close>

definition lookup :: "Record table \<Rightarrow> string \<Rightarrow> string \<Rightarrow> string \<Rightarrow> Record option" where
  "lookup t did nsid rkey = sql_first (\<lambda>r. rec_key r = (did, nsid, rkey)) t"

definition plain_key :: "string \<Rightarrow> bool" where
  "plain_key k \<longleftrightarrow> k \<noteq> '''' \<and> CHR ''/'' \<notin> set k"

lemma op_path_inj:
  assumes "op_path a k = op_path b l" and "plain_key k" and "plain_key l"
  shows "a = b \<and> k = l"
proof -
  have "rev k @ CHR ''/'' # rev a = rev l @ CHR ''/'' # rev b"
    using arg_cong [OF assms(1), of rev] by (simp add: op_path_def)
  then have "SplitOn (CHR ''/'') (rev k @ CHR ''/'' # rev a) = SplitOn (CHR ''/'') (rev l @ CHR ''/'' # rev b)" by simp
  then have "rev k # SplitOn (CHR ''/'') (rev a) = rev l # SplitOn (CHR ''/'') (rev b)"
    using assms(2,3) by (simp add: SplitOn_append plain_key_def)
  then have "rev k = rev l" "SplitOn (CHR ''/'') (rev a) = SplitOn (CHR ''/'') (rev b)" by simp_all
  then have "rev a = rev b" by (metis JoinWith_SplitOn)
  with \<open>rev k = rev l\<close> show ?thesis by simp
qed

lemma find_delete_other: "(\<And>x. P x \<Longrightarrow> \<not> Q x) \<Longrightarrow> find P (filter (\<lambda>x. \<not> Q x) t) = find P t"
  by (induction t) auto

lemma lookup_delete:
  "lookup (sql_delete (delete_matches e) t) did nsid rkey =
    (if (did, nsid, rkey) = rec_key e then None else lookup t did nsid rkey)"
  by (auto simp: lookup_def sql_first_def sql_delete_def delete_matches_def find_None_iff intro!: find_delete_other)

lemma lookup_upsert:
  "lookup (sql_upsert rec_key e t) did nsid rkey =
    (if (did, nsid, rkey) = rec_key e then Some e else lookup t did nsid rkey)"
proof (cases "(did, nsid, rkey) = rec_key e")
  case True
  then show ?thesis using sql_first_upsert [of rec_key e t] by (simp add: lookup_def)
next
  case False
  then show ?thesis unfolding lookup_def by (simp add: sql_first_upsert_other)
qed

text \<open>What the development relies on from the tree and the syntax libraries.\<close>

definition tree_law :: "'m repoLib \<Rightarrow> bool" where
  "tree_law L \<longleftrightarrow>
     (\<forall>m p v aop m'. lApplyOp L m p v = (Inr aop, m') \<longrightarrow> (\<forall>q. lGet L m' q = (if q = p then Inr v else lGet L m q))) \<and>
     (\<forall>m bs m'. lDiff L m = (Inr bs, m') \<longrightarrow> (\<forall>q. lGet L m' q = lGet L m q)) \<and>
     (\<forall>r c r'. lCommit L r = (Inr c, r') \<longrightarrow> (\<forall>q. lGet L (arMST r') q = lGet L (arMST r) q)) \<and>
     (\<forall>k. lRecordKey L k = None \<longrightarrow> plain_key k) \<and> (\<forall>c. lCidString L c \<noteq> '''')"

definition tree_cid :: "'m repoLib \<Rightarrow> 'm \<Rightarrow> string \<Rightarrow> string option" where
  "tree_cid L m path = (case lGet L m path of Inr (Some c) \<Rightarrow> Some (lCidString L c) | _ \<Rightarrow> None)"

text \<open>The rows of an account are the records of its tree.\<close>

definition synced :: "'m repoLib \<Rightarrow> string \<Rightarrow> Record table \<Rightarrow> 'm \<Rightarrow> bool" where
  "synced L did t m \<longleftrightarrow> (\<forall>nsid rkey. plain_key rkey \<longrightarrow>
     map_option recCid (lookup t did nsid rkey) = tree_cid L m (op_path nsid rkey))"

lemma synced_effect:
  assumes law: "tree_law L" and a: "lApplyOp L m (op_path nsid rkey) v = (Inr aop, m')"
    and "plain_key rkey" and "nsid \<noteq> ''''" and "did \<noteq> ''''" and s: "synced L did t m"
    and e: "rec_key e = (did, nsid, rkey)" "recCid e = (case v of None \<Rightarrow> '''' | Some c \<Rightarrow> lCidString L c)"
  shows "synced L did (entry_effect e t) m'"
proof -
  have g: "lGet L m' q = (if q = op_path nsid rkey then Inr v else lGet L m q)" for q
    using law a by (auto simp: tree_law_def)
  have ne: "lCidString L c \<noteq> ''''" for c using law by (simp add: tree_law_def)
  have k: "recDid e \<noteq> ''''" "recNsid e \<noteq> ''''" "recRkey e \<noteq> ''''"
    using e(1) assms(3-5) by (auto simp: rec_key_def plain_key_def)
  have lk: "lookup (entry_effect e t) did n r =
      (if n = nsid \<and> r = rkey then (case v of None \<Rightarrow> None | Some c \<Rightarrow> Some e) else lookup t did n r)" for n r
    using e ne lookup_delete [of e t] by (auto simp: entry_effect_def lookup_upsert split: option.splits)
  have inj: "op_path n r = op_path nsid rkey \<longleftrightarrow> n = nsid \<and> r = rkey" if "plain_key r" for n r
    using op_path_inj [of n r nsid rkey] that assms(3) by auto
  show ?thesis
    unfolding synced_def
  proof (intro allI impI)
    fix n r assume r: "plain_key r"
    show "map_option recCid (lookup (entry_effect e t) did n r) = tree_cid L m' (op_path n r)"
      using s r e(2) unfolding tree_cid_def g lk inj [OF r]
      by (auto simp: synced_def tree_cid_def split: option.splits)
  qed
qed

section \<open>The loop keeps the entries in step with the tree\<close>

definition in_step :: "'m repoLib \<Rightarrow> string \<Rightarrow> Record table \<Rightarrow> ('m, 'k) wst \<Rightarrow> bool" where
  "in_step L did t w \<longleftrightarrow> synced L did (fold entry_effect (wEntries w) t) (arMST (wRepo w)) \<and>
     (wOps w = [] \<longrightarrow> wEntries w = [])"

lemma apply_op_in_step:
  assumes "tree_law L" and "did \<noteq> ''''" and "oCollection op \<noteq> ''''"
    and "apply_op L K fails d did op w = (Ret u, w')" and "in_step L did t w"
  shows "in_step L did t w'"
proof (cases rule: apply_op_Ret [OF assms(4)])
  case (1 ty rkey w1)
  have pk: "plain_key rkey" using assms(1) 1(2) by (simp add: tree_law_def)
  have w1: "in_step L did t w1" using assms(5) resolve_op_Inr [OF 1(1)] by (simp add: in_step_def)
  from write_record_Ret [OF 1(4)] obtain nc aop m tm v where
    a: "lApplyOp L (arMST (wRepo w1)) (op_path (oCollection op) rkey) (Some nc) = (Inr aop, m)"
    and w': "arMST (wRepo w') = m" "wOps w' = wOps w1 @ [aop]"
      "wEntries w' = wEntries w1 @ [\<lparr>recDid = did, recCreatedAt = tm, recNsid = oCollection op,
               recRkey = rkey, recCid = lCidString L nc, recValue = v\<rparr>]" by blast
  show ?thesis
    using w1 synced_effect [OF assms(1) a pk assms(3,2)] by (simp add: in_step_def w' rec_key_def)
next
  case (2 rkey w1)
  have pk: "plain_key rkey" using assms(1) 2(2) by (simp add: tree_law_def)
  have w1: "in_step L did t w1" using assms(5) resolve_op_Inr [OF 2(1)] by (simp add: in_step_def)
  from delete_record_Ret [OF 2(3)] consider
      "wRepo w' = wRepo w1" "wOps w' = wOps w1" "wEntries w' = wEntries w1"
    | aop m v where "lApplyOp L (arMST (wRepo w1)) (op_path (oCollection op) rkey) None = (Inr aop, m)"
       "arMST (wRepo w') = m" "wOps w' = wOps w1 @ [aop]"
       "wEntries w' = wEntries w1 @ [\<lparr>recDid = did, recCreatedAt = '''', recNsid = oCollection op,
          recRkey = rkey, recCid = '''', recValue = v\<rparr>]" by blast
  then show ?thesis
  proof cases
    case 1
    with w1 show ?thesis by (simp add: in_step_def)
  next
    case (2 aop m v)
    with w1 synced_effect [OF assms(1) 2(1) pk assms(3,2)] show ?thesis by (simp add: in_step_def rec_key_def)
  qed
next
  case (3 ty rkey)
  show ?thesis using assms(5) resolve_op_Inr [OF 3(1)] by (simp add: in_step_def)
qed

lemma apply_ops_in_step:
  assumes "tree_law L" and "did \<noteq> ''''" and "\<forall>op \<in> set ops. oCollection op \<noteq> ''''"
    and "apply_ops L K fails d did ops w = (Ret u, w')" and "in_step L did t w"
  shows "in_step L did t w'"
  using assms(3-5)
proof (induction ops arbitrary: w)
  case (Cons op ops)
  then obtain u1 w1 where "apply_op L K fails d did op w = (Ret u1, w1)" "apply_ops L K fails d did ops w1 = (Ret u, w')"
    by (auto split: prod.splits result.splits)
  with Cons show ?case using apply_op_in_step [OF assms(1,2)] by (metis list.set_intros)
qed simp

lemma buildUnsignedCommit_tree:
  assumes "tree_law L" and "buildUnsignedCommit L put r s = (Inr uc, r1, s1)"
  shows "lGet L (arMST r1) q = lGet L (arMST r) q"
proof -
  obtain bs m c where "lDiff L (arMST r) = (Inr bs, m)" "lCommit L (r\<lparr>arMST := m\<rparr>) = (Inr c, r1)"
    using assms(2) by (auto simp: buildUnsignedCommit_def split: sum.splits prod.splits option.splits)
  with assms(1) show ?thesis by (simp add: tree_law_def)
qed

lemma begin_writes_in_step:
  assumes "tree_law L" and "rDid urepo \<noteq> ''''" and "\<forall>op \<in> set writes. oCollection op \<noteq> ''''"
    and "begin_writes L K fails order rid now urepo writes rs = (Ret bg, rs1)"
    and "\<And>r. rsCache rs (rDid urepo) = Some (Some r, rRoot urepo) \<or>
       openRepo L (rec_read K (newRecordingBlockstoreForRepo (rDid urepo), rsNode rs)) (rRoot urepo) (rDid urepo) = Inr r \<Longrightarrow>
       synced L (rDid urepo) (records (rsDb rs)) (arMST r)"
  obtains r1 where "rsCache rs1 (rDid urepo) = Some (Some r1, Undef)"
    "synced L (rDid urepo) (fold entry_effect (case bg of Done _ \<Rightarrow> [] | AwaitSig st _ _ _ \<Rightarrow> pcEntries st) (records (rsDb rs))) (arMST r1)"
proof -
  obtain r w uc r1 w1 where w: "apply_ops L K fails (rsDb rs) (rDid urepo) writes
        (start_wst (rDid urepo) (rsTick rs) (rsNode rs) r) = (Ret (), w)"
    and bu: "buildUnsignedCommit L (w_put K) (wRepo w) w = (Inr uc, r1, w1)"
    and q: "request_of L order rid now urepo (rRoot urepo) uc w1 = Ret bg"
    and c: "rsCache rs1 (rDid urepo) = Some (Some r1, Undef)"
    and r: "rsCache rs (rDid urepo) = Some (Some r, rRoot urepo) \<or>
       openRepo L (rec_read K (newRecordingBlockstoreForRepo (rDid urepo), rsNode rs)) (rRoot urepo) (rDid urepo) = Inr r"
    by (rule begin_writes_Ret [OF assms(4)])
  have "in_step L (rDid urepo) (records (rsDb rs)) w"
    by (rule apply_ops_in_step [OF assms(1-3) w]) (simp add: in_step_def start_wst_def assms(5) [OF r])
  then have s: "synced L (rDid urepo) (fold entry_effect (wEntries w1) (records (rsDb rs))) (arMST r1)"
    and e: "wOps w1 = [] \<longrightarrow> wEntries w1 = []"
    using buildUnsignedCommit_w [OF bu] buildUnsignedCommit_tree [OF assms(1) bu]
    by (simp_all add: in_step_def synced_def tree_cid_def)
  show thesis
  proof (rule that [OF c], cases bg)
    case (Done x)
    then show "synced L (rDid urepo) (fold entry_effect (case bg of Done _ \<Rightarrow> [] | AwaitSig st _ _ _ \<Rightarrow> pcEntries st) (records (rsDb rs))) (arMST r1)"
      using s e request_of_Done [OF q [unfolded Done]] by simp
  next
    case (AwaitSig st dbs rid' m)
    then show "synced L (rDid urepo) (fold entry_effect (case bg of Done _ \<Rightarrow> [] | AwaitSig st _ _ _ \<Rightarrow> pcEntries st) (records (rsDb rs))) (arMST r1)"
      using s request_of_AwaitSig [OF q [unfolded AwaitSig]] by simp
  qed
qed

section \<open>Results answer operations\<close>

definition known_type :: "Op \<Rightarrow> bool" where
  "known_type op \<longleftrightarrow> oType op \<in> {OpTypeCreate, OpTypeUpdate, OpTypeDelete}"

text \<open>What a result says of its operation, before and after the commit is known.\<close>

definition answers :: "string \<Rightarrow> string \<Rightarrow> RepoCommit option \<Rightarrow> Op \<Rightarrow> ApplyWriteResult \<Rightarrow> bool" where
  "answers sfx did c op res \<longleftrightarrow> awCommit res = c \<and> (\<exists>rkey ty.
     (oRkey op = Some rkey \<or> oRkey op = None \<and> oType op = OpTypeCreate) \<and>
     (ty = oType op \<or> oType op = OpTypeCreate \<and> ty = OpTypeUpdate) \<and> awType res = Some (ty @ sfx) \<and>
     (if oType op = OpTypeDelete then awUri res = None \<and> awCid res = None
      else awUri res = Some (''at://'' @ did @ ''/'' @ oCollection op @ ''/'' @ rkey) \<and> awCid res \<noteq> None))"

lemma answers_with_commit: "answers '''' did None op res \<Longrightarrow> answers ''Result'' did (Some c) op (with_commit c res)"
  by (auto simp: answers_def with_commit_def)

lemma apply_op_answers:
  assumes "apply_op L K fails d did op w = (Ret u, w')" and "known_type op"
  shows "\<exists>res. wResults w' = wResults w @ [res] \<and> answers '''' did None op res"
proof (cases rule: apply_op_Ret [OF assms(1)])
  case (1 ty rkey w1)
  note r = resolve_op_Inr [OF 1(1)]
  have k: "oRkey op = Some rkey \<or> oRkey op = None \<and> oType op = OpTypeCreate"
    "ty = oType op \<or> oType op = OpTypeCreate \<and> ty = OpTypeUpdate"
    using r by (auto split: option.splits if_splits)
  from write_record_Ret [OF 1(4)] obtain nc where
    "wResults w' = wResults w @ [record_result ty (''at://'' @ did @ ''/'' @ op_path (oCollection op) rkey) (lCidString L nc)]"
    using r by auto
  moreover have "oType op \<noteq> OpTypeDelete" using k(2) 1(3) by auto
  ultimately show ?thesis
    using k by (auto simp: answers_def record_result_def op_path_def)
next
  case (2 rkey w1)
  note r = resolve_op_Inr [OF 2(1)]
  have "oType op = OpTypeDelete" "oRkey op = Some rkey"
    using r by (auto split: option.splits if_splits)
  with delete_record_Ret [OF 2(3)] r show ?thesis
    by (auto simp: answers_def plain_result_def)
next
  case (3 ty rkey)
  with resolve_op_Inr [OF 3(1)] assms(2) show ?thesis
    by (auto simp: known_type_def split: option.splits if_splits)
qed

lemma apply_ops_answers:
  "apply_ops L K fails d did ops w = (Ret u, w') \<Longrightarrow> \<forall>op \<in> set ops. known_type op \<Longrightarrow>
   \<exists>rs. wResults w' = wResults w @ rs \<and> list_all2 (answers '''' did None) ops rs"
proof (induction ops arbitrary: w)
  case (Cons op ops)
  then obtain u1 w1 where a: "apply_op L K fails d did op w = (Ret u1, w1)" "apply_ops L K fails d did ops w1 = (Ret u, w')"
    by (auto split: prod.splits result.splits)
  obtain res where "wResults w1 = wResults w @ [res]" "answers '''' did None op res"
    using apply_op_answers [OF a(1)] Cons.prems(2) by auto
  moreover obtain rs where "wResults w' = wResults w1 @ rs" "list_all2 (answers '''' did None) ops rs"
    using Cons.IH [OF a(2)] Cons.prems(2) by auto
  ultimately show ?case by (intro exI [of _ "res # rs"]) simp
qed auto

lemma begin_writes_answers:
  assumes "begin_writes L K fails order rid now urepo writes rs = (Ret bg, rs1)"
    and "\<forall>op \<in> set writes. known_type op"
  shows "case bg of AwaitSig st _ _ _ \<Rightarrow> list_all2 (answers '''' (rDid urepo) None) writes (pcResults st)
    | Done results \<Rightarrow> \<exists>c. list_all2 (answers ''Result'' (rDid urepo) (Some c)) writes results"
proof -
  obtain r w uc r1 w1 where w: "apply_ops L K fails (rsDb rs) (rDid urepo) writes
        (start_wst (rDid urepo) (rsTick rs) (rsNode rs) r) = (Ret (), w)"
    and bu: "buildUnsignedCommit L (w_put K) (wRepo w) w = (Inr uc, r1, w1)"
    and q: "request_of L order rid now urepo (rRoot urepo) uc w1 = Ret bg"
    by (rule begin_writes_Ret [OF assms(1)])
  have l: "list_all2 (answers '''' (rDid urepo) None) writes (wResults w1)"
    using apply_ops_answers [OF w assms(2)] buildUnsignedCommit_w [OF bu] by (auto simp: start_wst_def)
  show ?thesis
  proof (cases bg)
    case (Done x)
    from request_of_Done [OF q [unfolded Done]] l show ?thesis
      by (auto simp: Done list_all2_map2 intro: list_all2_mono answers_with_commit)
  next
    case (AwaitSig st dbs rid' m)
    from request_of_AwaitSig [OF q [unfolded AwaitSig]] l show ?thesis by (simp add: AwaitSig)
  qed
qed

section \<open>Properties\<close>

text \<open>
  Results answer operations.  A successful write of operations of the three known types returns one
  result per operation, in order and all with the same commit: a creation answers as a creation, or as an
  update when its key was taken, an update as an update, with the URI of the record and a CID; a deletion
  as a deletion, without either.
\<close>

theorem results_answer:
  assumes "applyWrites L K E order rid ask urepo writes rs = (Ret results, rs')"
    and "\<forall>op \<in> set writes. known_type op"
  shows "\<exists>c. list_all2 (answers ''Result'' (rDid urepo) (Some c)) writes results"
proof (cases rule: applyWrites_Ret [OF assms(1)])
  case (1 rs1)
  from begin_writes_answers [OF 1(1) assms(2)] show ?thesis by simp
next
  case (2 st dbs rid' m rs1 sg pk)
  have "list_all2 (answers '''' (rDid urepo) None) writes (pcResults st)"
    using begin_writes_answers [OF 2(1) assms(2)] by simp
  moreover obtain c where "results = map (with_commit c) (pcResults st)"
    by (rule finaliseWrite_Inr [OF 2(6)]) blast
  ultimately show ?thesis
    by (auto simp: list_all2_map2 intro: list_all2_mono answers_with_commit)
qed

text \<open>
  C24: The index follows the tree.  If the rows of the account are the records of the tree the write starts
  from, and no other request interferes while the signature is awaited, then after a successful write the
  rows of the account are exactly the records of the tree that was signed, which the cache holds for the
  account: same keys, same CIDs, whatever mix of creations, updates, deletions and repetitions the
  operations are.
\<close>

theorem index_follows_tree:
  assumes "tree_law L" and "rDid urepo \<noteq> ''''" and "\<forall>op \<in> set writes. oCollection op \<noteq> ''''"
    and "applyWrites L K E order rid ask urepo writes rs = (Ret results, rs')"
    and "\<And>s d r m. records (rsDb (snd (ask d r m s))) = records (rsDb s) \<and> rsCache (snd (ask d r m s)) = rsCache s"
    and "\<And>r. rsCache rs (rDid urepo) = Some (Some r, rRoot urepo) \<or>
       openRepo L (rec_read K (newRecordingBlockstoreForRepo (rDid urepo), rsNode rs)) (rRoot urepo) (rDid urepo) = Inr r \<Longrightarrow>
       synced L (rDid urepo) (records (rsDb rs)) (arMST r)"
  shows "\<exists>r'. rsCache rs' (rDid urepo) = Some (Some r', Undef) \<and>
    synced L (rDid urepo) (records (rsDb rs')) (arMST r')"
proof (cases rule: applyWrites_Ret [OF assms(4)])
  case (1 rs1)
  obtain r1 where r1: "rsCache rs1 (rDid urepo) = Some (Some r1, Undef)"
    "synced L (rDid urepo) (records (rsDb rs)) (arMST r1)"
    using begin_writes_in_step [OF assms(1-3) 1(1) assms(6)] by auto
  with begin_writes_frame [OF 1(1)] 1(2) show ?thesis by auto
next
  case (2 st dbs rid' m rs1 sg pk)
  obtain r1 where r1: "rsCache rs1 (rDid urepo) = Some (Some r1, Undef)"
    "synced L (rDid urepo) (fold entry_effect (pcEntries st) (records (rsDb rs))) (arMST r1)"
    using begin_writes_in_step [OF assms(1-3) 2(1) assms(6)] by auto
  from finaliseWrite_Inr [OF 2(6)] have
    "records (rsDb rs') = fold entry_effect (pcEntries st) (records (rsDb rs))" "rsCache rs' = rsCache rs1"
    using assms(5) begin_writes_frame [OF 2(1)] by auto
  with r1 show ?thesis by auto
qed

end
