(* ===== verification/RepoCache.thy ===== *)
theory RepoCache
  imports RepoDemo
begin

text \<open>
  The cache of opened repositories, record proofs and blob references: what they keep, and the runs in
  which the program loses a write, keeps half of one, or never counts a blob.
\<close>

section \<open>The cache\<close>

text \<open>An entry that names a root holds a repository as it was opened at that root.\<close>

definition cache_ok :: "(string \<Rightarrow> cid \<Rightarrow> 'm atpRepo \<Rightarrow> bool) \<Rightarrow> 'm repoCache \<Rightarrow> bool" where
  "cache_ok opened cache \<longleftrightarrow>
     (\<forall>did r root. cache did = Some (Some r, root) \<and> root \<noteq> Undef \<longrightarrow> opened did root r)"

lemma cache_ok_upd:
  "cache_ok P cache \<Longrightarrow> (\<And>r root. e = (Some r, root) \<Longrightarrow> root \<noteq> Undef \<Longrightarrow> P did root r) \<Longrightarrow> cache_ok P (cache(did \<mapsto> e))"
  by (auto simp: cache_ok_def)

lemma withRepo_cache_ok:
  assumes "withRepo opn did root fn cache s = (res, cache', s')" and "cache_ok P cache" and "root \<noteq> Undef"
    and "\<And>r. opn s = Inr r \<Longrightarrow> P did root r" and "res \<noteq> Crash"
    and "\<And>r nr r' s'. fn r s = (Ret nr, r', s') \<Longrightarrow> nr = Undef \<or> nr = root \<and> r' = r"
  shows "cache_ok P cache'"
  using assms
  by (auto simp: withRepo_def Let_def split: option.splits prod.splits sum.splits result.splits if_splits
      intro!: cache_ok_upd) (use assms(6) in \<open>fastforce simp: cache_ok_def\<close>)+

lemma begin_writes_cache_ok:
  assumes "begin_writes L K fails order rid now urepo writes rs = (res, rs')" and "res \<noteq> Crash"
    and "\<not> lCast L Undef" and "\<And>get did root r. openRepo L get root did = Inr r \<Longrightarrow> P did root r"
    and "cache_ok P (rsCache rs)"
  shows "cache_ok P (rsCache rs')"
proof (cases "lCast L (rRoot urepo)")
  case False
  with assms(1,5) show ?thesis by (auto simp: begin_writes_def castCid_def)
next
  case True
  let ?did = "rDid urepo"
  let ?get = "rec_read K (newRecordingBlockstoreForRepo ?did, rsNode rs)"
  obtain u cache out where
    wr: "withRepo (\<lambda>_. openRepo L ?get (rRoot urepo) ?did) ?did (rRoot urepo)
       (build_writes L K fails (rsDb rs) ?did writes (rsTick rs) (rsNode rs)) (rsCache rs) None = (u, cache, out)"
    by (metis prod_cases3)
  have ch: "rsCache rs' = cache" "u \<noteq> Crash"
    using assms(1,2) wr True unfolding begin_writes_def Let_def
    by (auto simp: castCid_def split: result.splits option.splits prod.splits)
  have "rRoot urepo \<noteq> Undef" using True assms(3) by auto
  show ?thesis
    unfolding ch(1)
  proof (rule withRepo_cache_ok [OF wr assms(5) \<open>rRoot urepo \<noteq> Undef\<close> _ ch(2)])
    show "P (rDid urepo) (rRoot urepo) r" if "openRepo L ?get (rRoot urepo) ?did = Inr r" for r
      using that by (rule assms(4))
  next
    fix r nr r' s'
    assume "build_writes L K fails (rsDb rs) ?did writes (rsTick rs) (rsNode rs) r None = (Ret nr, r', s')"
    then show "nr = Undef \<or> nr = rRoot urepo \<and> r' = r"
      by (auto simp: build_writes_def split: result.splits prod.splits sum.splits)
  qed
qed

definition proof_fn :: "'m repoLib \<Rightarrow> (cid \<Rightarrow> goerr + bytes) \<Rightarrow> cid \<Rightarrow> string \<Rightarrow> 'm atpRepo \<Rightarrow> block list \<Rightarrow>
    cid result \<times> 'm atpRepo \<times> block list" where
  "proof_fn L get root path r x = (case proof_blocks L get root path (arMST r) of
     Inl e \<Rightarrow> (Fail e, r, []) | Inr bs \<Rightarrow> (Ret root, r, bs))"

lemma getRecordProof_unfold:
  assumes "getRecordProof L K urepo collection rkey rs = (res, rs')" and "lCast L (rRoot urepo)"
  obtains u cache bs where
    "withRepo (\<lambda>_. openRepo L (IPFS_Get K (newBlockstoreForRepo (rDid urepo), rsNode rs)) (rRoot urepo) (rDid urepo))
       (rDid urepo) (rRoot urepo)
       (proof_fn L (IPFS_Get K (newBlockstoreForRepo (rDid urepo), rsNode rs)) (rRoot urepo) (collection @ ''/'' @ rkey))
       (rsCache rs) [] = (u, cache, bs)"
    "rs' = rs\<lparr>rsCache := cache\<rparr>"
    "res = (case u of Ret _ \<Rightarrow> Ret (rRoot urepo, bs) | Fail e \<Rightarrow> Fail e | Crash \<Rightarrow> Crash)"
proof -
  have f: "(\<lambda>r _. case proof_blocks L get root path (arMST r) of Inl e \<Rightarrow> (Fail e, r, []) | Inr bs \<Rightarrow> (Ret root, r, bs)) =
    proof_fn L get root path" for get root path by (simp add: proof_fn_def fun_eq_iff)
  obtain u cache bs where w: "withRepo (\<lambda>_. openRepo L (IPFS_Get K (newBlockstoreForRepo (rDid urepo), rsNode rs)) (rRoot urepo) (rDid urepo))
       (rDid urepo) (rRoot urepo)
       (proof_fn L (IPFS_Get K (newBlockstoreForRepo (rDid urepo), rsNode rs)) (rRoot urepo) (collection @ ''/'' @ rkey))
       (rsCache rs) [] = (u, cache, bs)" by (metis prod_cases3)
  show thesis
    by (rule that [OF w]) (use assms w in \<open>cases u; simp add: getRecordProof_def castCid_def Let_def f\<close>)+
qed

lemma getRecordProof_cache_ok:
  assumes "getRecordProof L K urepo collection rkey rs = (res, rs')"
    and "\<not> lCast L Undef" and "\<And>get did root r. openRepo L get root did = Inr r \<Longrightarrow> P did root r"
    and "cache_ok P (rsCache rs)"
  shows "cache_ok P (rsCache rs')"
proof (cases "lCast L (rRoot urepo)")
  case False
  with assms(1,4) show ?thesis by (auto simp: getRecordProof_def castCid_def)
next
  case True
  then have nz: "rRoot urepo \<noteq> Undef" using assms(2) by auto
  obtain u cache bs where
    w: "withRepo (\<lambda>_. openRepo L (IPFS_Get K (newBlockstoreForRepo (rDid urepo), rsNode rs)) (rRoot urepo) (rDid urepo))
       (rDid urepo) (rRoot urepo)
       (proof_fn L (IPFS_Get K (newBlockstoreForRepo (rDid urepo), rsNode rs)) (rRoot urepo) (collection @ ''/'' @ rkey))
       (rsCache rs) [] = (u, cache, bs)" and rs': "rs' = rs\<lparr>rsCache := cache\<rparr>"
    by (rule getRecordProof_unfold [OF assms(1) True])
  have nc: "u \<noteq> Crash"
    using w by (auto simp: withRepo_def Let_def proof_fn_def split: option.splits prod.splits sum.splits result.splits if_splits)
  have "cache_ok P cache"
    by (rule withRepo_cache_ok [OF w assms(4) nz assms(3) nc]) (auto simp: proof_fn_def split: sum.splits)
  with rs' show ?thesis by simp
qed

lemma read_blocks_Inr:
  "read_blocks get cs = Inr bs \<Longrightarrow> map fst bs = cs \<and> (\<forall>b \<in> set bs. get (fst b) = Inr (snd b))"
  by (induction cs arbitrary: bs) (auto split: sum.splits)

lemma proof_blocks_Inr:
  assumes "proof_blocks L get root path m = Inr bs"
  shows "\<exists>cd mid rc rd. lGet L m path = Inr (Some rc) \<and> bs = (root, cd) # mid @ [(rc, rd)] \<and>
    (\<forall>b \<in> set bs. get (fst b) = Inr (snd b)) \<and>
    (\<forall>n p. lRoot L m = Some n \<and> mst_wf L n \<and> holds path n p \<longrightarrow> map fst mid = List.map_filter nCID p)"
proof -
  obtain cd mid rc rd where p: "lGet L m path = Inr (Some rc)" "get root = Inr cd" "get rc = Inr rd"
    "read_blocks get (case lRoot L m of None \<Rightarrow> [] | Some n \<Rightarrow> collectPathNodeCIDs L n path) = Inr mid"
    "bs = (root, cd) # mid @ [(rc, rd)]"
    using assms by (auto simp: proof_blocks_def Let_def split: sum.splits option.splits)
  note q = read_blocks_Inr [OF p(4)]
  have "map fst mid = List.map_filter nCID pt" if "lRoot L m = Some n" "mst_wf L n" "holds path n pt" for n pt
    using q that collect_path [OF that(3,2)] by simp
  moreover have "\<forall>b \<in> set bs. get (fst b) = Inr (snd b)" using p q by auto
  ultimately show ?thesis using p(1,5) by blast
qed

text \<open>Requests that use the cache: the first halves of writes that do not panic, and record proofs.\<close>

inductive cache_runs :: "'m repoLib \<Rightarrow> 'k kubo \<Rightarrow> ('m, 'k) rmState \<Rightarrow> ('m, 'k) rmState \<Rightarrow> bool" for L K where
  cr_refl: "cache_runs L K s s"
| cr_write: "cache_runs L K s t \<Longrightarrow> begin_writes L K fails order rid now urepo writes t = (res, u) \<Longrightarrow> res \<noteq> Crash \<Longrightarrow>
    cache_runs L K s u"
| cr_proof: "cache_runs L K s t \<Longrightarrow> getRecordProof L K urepo collection rkey t = (res, u) \<Longrightarrow> cache_runs L K s u"
| cr_other: "cache_runs L K s t \<Longrightarrow> rsCache u = rsCache t \<Longrightarrow> cache_runs L K s u"

text \<open>A repository opened at a root, from whatever the blockstore returned at the time.\<close>

definition opened_at :: "'m repoLib \<Rightarrow> string \<Rightarrow> cid \<Rightarrow> 'm atpRepo \<Rightarrow> bool" where
  "opened_at L did root r \<longleftrightarrow> (\<exists>get. openRepo L get root did = Inr r)"

lemma cache_runs_ok:
  assumes "cache_runs L K s t" and "\<not> lCast L Undef" and "cache_ok (opened_at L) (rsCache s)"
  shows "cache_ok (opened_at L) (rsCache t)"
  using assms
proof (induction rule: cache_runs.induct)
  case (cr_write s t fails order rid now urepo writes res u)
  then show ?case
    by (intro begin_writes_cache_ok [OF cr_write.hyps(2,3)]) (auto simp: opened_at_def)
next
  case (cr_proof s t urepo collection rkey res u)
  then show ?case
    by (intro getRecordProof_cache_ok [OF cr_proof.hyps(2)]) (auto simp: opened_at_def)
qed simp_all

section \<open>Properties\<close>

text \<open>
  C25: The cache serves unmodified trees.  After any sequence of writes that do not panic, record proofs and
  other requests, started on an empty cache, an entry that names a root holds a repository exactly as it
  was opened at that root: a tree a write has modified is never served under the root it was opened at.
\<close>

theorem cache_serves_opened:
  assumes "cache_runs L K s t" and "\<not> lCast L Undef" and "rsCache s = (\<lambda>_. None)"
    and "rsCache t did = Some (Some r, root)" and "root \<noteq> Undef"
  shows "\<exists>get. openRepo L get root did = Inr r"
proof -
  have "cache_ok (opened_at L) (rsCache t)"
    by (rule cache_runs_ok [OF assms(1,2)]) (simp add: cache_ok_def assms(3))
  with assms(4,5) show ?thesis unfolding cache_ok_def opened_at_def by blast
qed

text \<open>
  C26: A record proof is the path to the record.  The blocks getRecordProof returns are the commit block of
  the account's root, the blocks of tree nodes, and the block of the record the opened tree holds under
  that key, each as the blockstore returns it; and when the tree is well formed and its nodes down to the
  key are loaded, the nodes returned are exactly those from the root of the tree to the node that holds
  the key, in that order.
\<close>

theorem record_proof_path:
  assumes "getRecordProof L K urepo collection rkey rs = (Ret (root, bs), rs')"
  shows "root = rRoot urepo \<and> (\<exists>r cd mid rc rd. rsCache rs' (rDid urepo) = Some (Some r, root) \<and>
    lGet L (arMST r) (collection @ ''/'' @ rkey) = Inr (Some rc) \<and>
    bs = (root, cd) # mid @ [(rc, rd)] \<and>
    (\<forall>b \<in> set bs. IPFS_Get K (newBlockstoreForRepo (rDid urepo), rsNode rs) (fst b) = Inr (snd b)) \<and>
    (\<forall>n p. lRoot L (arMST r) = Some n \<and> mst_wf L n \<and> holds (collection @ ''/'' @ rkey) n p \<longrightarrow>
       map fst mid = List.map_filter nCID p))"
proof -
  have c: "lCast L (rRoot urepo)" using assms by (auto simp: getRecordProof_def castCid_def split: if_splits)
  obtain u cache ub where
    w: "withRepo (\<lambda>_. openRepo L (IPFS_Get K (newBlockstoreForRepo (rDid urepo), rsNode rs)) (rRoot urepo) (rDid urepo))
       (rDid urepo) (rRoot urepo)
       (proof_fn L (IPFS_Get K (newBlockstoreForRepo (rDid urepo), rsNode rs)) (rRoot urepo) (collection @ ''/'' @ rkey))
       (rsCache rs) [] = (u, cache, ub)" and rs': "rs' = rs\<lparr>rsCache := cache\<rparr>"
    and res: "Ret (root, bs) = (case u of Ret _ \<Rightarrow> Ret (rRoot urepo, ub) | Fail e \<Rightarrow> Fail e | Crash \<Rightarrow> Crash)"
    by (rule getRecordProof_unfold [OF assms c])
  have u: "u = Ret ()" "root = rRoot urepo" "ub = bs" using res by (cases u; simp)+
  obtain r nr r' where f: "proof_fn L (IPFS_Get K (newBlockstoreForRepo (rDid urepo), rsNode rs)) (rRoot urepo)
       (collection @ ''/'' @ rkey) r [] = (Ret nr, r', bs)" and cache: "cache = (rsCache rs)(rDid urepo \<mapsto> (Some r', nr))"
    using withRepo_Ret [OF w [unfolded u]] by metis
  have p: "proof_blocks L (IPFS_Get K (newBlockstoreForRepo (rDid urepo), rsNode rs)) root (collection @ ''/'' @ rkey) (arMST r) = Inr bs"
    and r': "r' = r" "nr = root"
    using f by (auto simp: proof_fn_def u(2) split: sum.splits)
  from proof_blocks_Inr [OF p] r' u(2) show ?thesis by (simp add: rs' cache)
qed

text \<open>The panic excluded above does leave a modified tree under the old root.\<close>

lemma panic_keeps_half_a_write:
  "(case demo_apply demo_ask [demo_create ''x'', (demo_create ''y'')\<lparr>oRecord := None\<rparr>] demo_rs of
      (Crash, rs) \<Rightarrow>
        (case rsCache rs ''did:a'' of
           Some (Some r, root) \<Rightarrow> root = rRoot demo_account \<and> lGet demo_repoLib (arMST r) ''a/x'' = Inr (Some [18])
         | _ \<Rightarrow> False) \<and>
        (case demo_apply demo_ask [demo_create ''z''] rs of
           (Ret [res], rs2) \<Rightarrow> map rRoot (repos (rsDb rs2)) = [18 # 1 # 7 # to_bytes ''a/xa/z''] \<and>
             map recRkey (records (rsDb rs2)) = [''z'']
         | _ \<Rightarrow> False)
    | _ \<Rightarrow> False)"
  by code_simp

text \<open>
  Two writes of one account that overlap: the one that starts first finishes last, from the root both
  started with.  Both succeed and both rows exist, but the tree of the final root lacks the other record.
\<close>

lemma overlapping_write_lost:
  "(case begin_writes demo_repoLib demo_kubo (\<lambda>_. False) id ''rid'' 0 demo_account [demo_create ''x''] demo_rs of
      (Ret (AwaitSig st dbs rid m), rs1) \<Rightarrow>
        (case demo_apply demo_ask [demo_create ''y''] rs1 of
           (Ret [res], rs2) \<Rightarrow>
             (case finish_writes demo_repoLib demo_kubo demo_env demo_account st dbs (Inr [7]) rs2 of
                (Inr [res], rs) \<Rightarrow> map recRkey (records (rsDb rs)) = [''y'', ''x''] \<and>
                  map rRoot (repos (rsDb rs)) = [18 # 1 # 7 # to_bytes ''a/x'']
              | _ \<Rightarrow> False)
         | _ \<Rightarrow> False)
    | _ \<Rightarrow> False)"
  by code_simp

text \<open>
  The walk for blob references stops at the outermost map unless that is itself a blob, so the records
  the protocol stores, whose type is their collection, are never counted.
\<close>

lemma incrementBlobRefs_blobs:
  "(\<And>m. lDataDec L v = Inr m \<Longrightarrow> map_of m ''$type'' \<noteq> Some (AStr ''blob'')) \<Longrightarrow>
   snd (incrementBlobRefs L fails did v d) = d"
  by (auto simp: incrementBlobRefs_def getBlobCidsFromCbor_def split: sum.splits)

lemma decrementBlobRefs_blobs:
  "(\<And>m. lDataDec L v = Inr m \<Longrightarrow> map_of m ''$type'' \<noteq> Some (AStr ''blob'')) \<Longrightarrow>
   snd (decrementBlobRefs L K fails u did v s) = s"
  by (auto simp: decrementBlobRefs_def getBlobCidsFromCbor_def split: sum.splits)

lemma persist_entries_blobs:
  "\<forall>e \<in> set es. \<forall>m. lDataDec L (recValue e) = Inr m \<longrightarrow> map_of m ''$type'' \<noteq> Some (AStr ''blob'') \<Longrightarrow>
   blobs (fst (snd (persist_entries L K fails u did es s))) = blobs (fst s)"
proof (induction es arbitrary: s)
  case (Cons e es)
  have "blobs (fst (snd (persist_entry L K fails u did e s))) = blobs (fst s)"
  proof -
    have "snd (incrementBlobRefs L fails did (recValue e) d) = d" "snd (decrementBlobRefs L K fails u did (recValue e) s) = s" for d s
      using Cons.prems by (intro incrementBlobRefs_blobs decrementBlobRefs_blobs; simp)+
    then show ?thesis by (simp add: persist_entry_def case_prod_beta)
  qed
  with Cons show ?case by (auto simp: case_prod_beta split: sum.splits)
qed simp

lemma blobs_never_counted:
  assumes "finish_writes L K E urepo st dbs answer rs = (r, rs')"
    and "\<forall>e \<in> set (pcEntries st). \<forall>m. lDataDec L (recValue e) = Inr m \<longrightarrow> map_of m ''$type'' \<noteq> Some (AStr ''blob'')"
  shows "blobs (rsDb rs') = blobs (rsDb rs)"
proof -
  consider "rs' = rs" | sg where "finaliseWriteFromState L K E urepo st sg dbs rs = (r, rs')"
    using assms(1) by (auto simp: finish_writes_def split: sum.splits if_splits option.splits)
  then show ?thesis
  proof cases
    case 2
    have pb: "blobs d = blobs (fst s)"
      if "persist_entries L K (reFails E) (reNodeUrl E) (rDid urepo) (pcEntries st) s = (x, d, k)" for x d k s
      using persist_entries_blobs [OF assms(2), of K "reFails E" "reNodeUrl E" "rDid urepo" s] that by simp
    from finaliseWrite_cases [OF 2] show ?thesis
      by (elim disjE exE conjE) (auto dest!: UpdateRepo_Inr pb)
  qed simp
qed

section \<open>Witnesses\<close>

lemma demo_write_exists:
  "\<exists>res rs. demo_apply demo_ask [demo_create ''x''] demo_rs = (Ret [res], rs) \<and>
     map rRoot (repos (rsDb rs)) = [18 # 1 # 7 # to_bytes ''a/x''] \<and> awCid res = Some (CHR ''b'' # of_bytes [18])"
proof -
  have "(case demo_apply demo_ask [demo_create ''x''] demo_rs of
     (Ret [res], rs) \<Rightarrow> map rRoot (repos (rsDb rs)) = [18 # 1 # 7 # to_bytes ''a/x''] \<and> awCid res = Some (CHR ''b'' # of_bytes [18])
   | _ \<Rightarrow> False)" by code_simp
  then show ?thesis by (auto split: prod.splits result.splits list.splits)
qed

theorem write_needs_signature_witness:
  "\<exists>res rs' st dbs rid' m rs1 sg. demo_apply demo_ask [demo_create ''x''] demo_rs = (res, rs') \<and>
    begin_writes demo_repoLib demo_kubo (reFails demo_env) id ''rid'' 0 demo_account [demo_create ''x''] demo_rs =
      (Ret (AwaitSig st dbs rid' m), rs1) \<and> lHashAndVerify demo_repoLib [2] (pcUnsignedCBOR st) sg = None"
proof -
  obtain res rs where d: "demo_apply demo_ask [demo_create ''x''] demo_rs = (Ret [res], rs)"
    "map rRoot (repos (rsDb rs)) = [18 # 1 # 7 # to_bytes ''a/x'']" using demo_write_exists by (elim exE conjE) (rule that)
  have "map rRoot (repos (rsDb demo_rs)) = [[18, 0, 0]]" by (simp add: demo_rs_def demo_account_def)
  with d(2) have ne: "rsDb rs \<noteq> rsDb demo_rs" by auto
  have k: "lParsePub demo_repoLib (rSigningPublicKey demo_account) = Inr [2]" "reNow demo_env = 0"
    by (simp_all add: demo_repoLib_def demo_account_def demo_env_def)
  from write_needs_signature [OF d(1)] ne d(1) k show ?thesis by (simp add: k) blast
qed

theorem written_blocks_stored_witness:
  "\<exists>res rs' c. demo_apply demo_ask [demo_create ''x''] demo_rs = (Ret [res], rs') \<and> awCid res \<noteq> None \<and>
     lCidString demo_repoLib c = the (awCid res) \<and> kStat demo_kubo (rsNode rs') c = None"
proof -
  obtain res rs where d: "demo_apply demo_ask [demo_create ''x''] demo_rs = (Ret [res], rs)"
    "awCid res = Some (CHR ''b'' # of_bytes [18])" using demo_write_exists by (elim exE conjE) (rule that)
  from written_blocks_stored [OF d(1) demo_kubo_keeps _ _ d(2)] d show ?thesis by auto
qed

theorem results_answer_witness:
  "\<exists>res rs' c. demo_apply demo_ask [demo_create ''x''] demo_rs = (Ret [res], rs') \<and>
     answers ''Result'' ''did:a'' (Some c) (demo_create ''x'') res"
proof -
  obtain res rs where d: "demo_apply demo_ask [demo_create ''x''] demo_rs = (Ret [res], rs)"
    using demo_write_exists by (elim exE conjE) (rule that)
  have "\<forall>op \<in> set [demo_create ''x'']. known_type op" "rDid demo_account = ''did:a''"
    by (simp_all add: known_type_def demo_create_def demo_account_def)
  with results_answer [OF d] d show ?thesis by (auto simp: list_all2_Cons1)
qed

theorem index_follows_tree_witness:
  "\<exists>res rs' r'. demo_apply demo_ask [demo_create ''x''] demo_rs = (Ret [res], rs') \<and>
     rsCache rs' ''did:a'' = Some (Some r', Undef) \<and> synced demo_repoLib ''did:a'' (records (rsDb rs')) (arMST r')"
proof -
  obtain res rs where d: "demo_apply demo_ask [demo_create ''x''] demo_rs = (Ret [res], rs)"
    using demo_write_exists by (elim exE conjE) (rule that)
  have did: "rDid demo_account = ''did:a''" by (simp add: demo_account_def)
  have start: "synced demo_repoLib (rDid demo_account) (records (rsDb demo_rs)) (arMST r)"
    if "rsCache demo_rs (rDid demo_account) = Some (Some r, rRoot demo_account) \<or>
       openRepo demo_repoLib (rec_read demo_kubo (newRecordingBlockstoreForRepo (rDid demo_account), rsNode demo_rs))
         (rRoot demo_account) (rDid demo_account) = Inr r" for r
  proof -
    have "arMST r = []"
      using that by (auto simp: demo_rs_def openRepo_def demo_repoLib_def rec_read_def Rec_Get_def IPFS_Get_def
          demo_kubo_def newRecordingBlockstoreForRepo_def NewRecording_def newBlockstoreForRepo_def NewIPFS_def
          demo_account_def)
    then show ?thesis
      by (simp add: synced_def lookup_def sql_first_def tree_cid_def demo_repoLib_def demo_rs_def emptyDb_def)
  qed
  have "\<exists>r'. rsCache rs (rDid demo_account) = Some (Some r', Undef) \<and>
      synced demo_repoLib (rDid demo_account) (records (rsDb rs)) (arMST r')"
    by (rule index_follows_tree [OF demo_tree_law _ _ d _ start]) (auto simp: did demo_create_def)
  with d show ?thesis by (auto simp: did)
qed

text \<open>An account whose tree holds the record a/x.\<close>

definition demo_stocked :: Repo where
  "demo_stocked = demo_account\<lparr>rRoot := [18, 0, 0] @ to_bytes ''a/x''\<rparr>"

definition demo_stocked_rs :: "(demo_tree, block list) rmState" where
  "demo_stocked_rs = demo_rs\<lparr>rsNode := [([18, 0, 0] @ to_bytes ''a/x'', [0, 0] @ to_bytes ''a/x''), ([18], [])]\<rparr>"

abbreviation demo_proof where
  "demo_proof \<equiv> getRecordProof demo_repoLib demo_kubo demo_stocked ''a'' ''x'' demo_stocked_rs"

lemma demo_proof_exists:
  "\<exists>rs r. demo_proof = (Ret (rRoot demo_stocked, [(rRoot demo_stocked, [0, 0] @ to_bytes ''a/x''), ([18], []), ([18], [])]), rs) \<and>
     rsCache rs ''did:a'' = Some (Some r, rRoot demo_stocked) \<and> arMST r = [(''a/x'', [18])]"
proof -
  have "(case demo_proof of
     (Ret (root, bs), rs) \<Rightarrow> root = rRoot demo_stocked \<and>
       bs = [(rRoot demo_stocked, [0, 0] @ to_bytes ''a/x''), ([18], []), ([18], [])] \<and>
       map_option (map_prod (map_option arMST) id) (rsCache rs ''did:a'') = Some (Some [(''a/x'', [18])], rRoot demo_stocked)
   | _ \<Rightarrow> False)" by code_simp
  then show ?thesis by (auto split: prod.split_asm result.split_asm)
qed

theorem cache_serves_opened_witness:
  "\<exists>rs r get. demo_proof = (Ret (rRoot demo_stocked, [(rRoot demo_stocked, [0, 0] @ to_bytes ''a/x''), ([18], []), ([18], [])]), rs) \<and>
     rsCache rs ''did:a'' = Some (Some r, rRoot demo_stocked) \<and>
     openRepo demo_repoLib get (rRoot demo_stocked) ''did:a'' = Inr r"
proof -
  obtain rs r where d: "demo_proof = (Ret (rRoot demo_stocked, [(rRoot demo_stocked, [0, 0] @ to_bytes ''a/x''), ([18], []), ([18], [])]), rs)"
    "rsCache rs ''did:a'' = Some (Some r, rRoot demo_stocked)"
    using demo_proof_exists by (elim exE conjE) (rule that)
  have run: "cache_runs demo_repoLib demo_kubo demo_stocked_rs rs" by (rule cr_proof [OF cr_refl d(1)])
  have "\<exists>get. openRepo demo_repoLib get (rRoot demo_stocked) ''did:a'' = Inr r"
    by (rule cache_serves_opened [OF run _ _ d(2)])
       (simp_all add: demo_repoLib_def demo_stocked_rs_def demo_rs_def demo_stocked_def)
  with d show ?thesis by blast
qed

theorem record_proof_path_witness:
  "\<exists>rs r. demo_proof = (Ret (rRoot demo_stocked, [(rRoot demo_stocked, [0, 0] @ to_bytes ''a/x''), ([18], []), ([18], [])]), rs) \<and>
     rsCache rs ''did:a'' = Some (Some r, rRoot demo_stocked) \<and> lGet demo_repoLib (arMST r) ''a/x'' = Inr (Some [18])"
proof -
  obtain rs r where d: "demo_proof = (Ret (rRoot demo_stocked, [(rRoot demo_stocked, [0, 0] @ to_bytes ''a/x''), ([18], []), ([18], [])]), rs)"
    "rsCache rs ''did:a'' = Some (Some r, rRoot demo_stocked)"
    using demo_proof_exists by (elim exE conjE) (rule that)
  have did: "rDid demo_stocked = ''did:a''" by (simp add: demo_stocked_def demo_account_def)
  from record_proof_path [OF d(1)] d(2) have "lGet demo_repoLib (arMST r) ''a/x'' = Inr (Some [18])"
    by (auto simp: did)
  with d show ?thesis by blast
qed

end
