(* ===== verification/Export.thy ===== *)
theory Export
  imports Repo
begin

text \<open>
  server/handle_sync_get_repo.go: exporting a repository as the blocks reachable from its root, with
  the scanner that finds the links inside a block.
\<close>

unbundle bit_operations_syntax

section \<open>Links inside a block\<close>

text \<open>The bytes after a tag 42: a byte string of length below 24, or with one or two bytes of length.\<close>

definition byte_string :: "byte \<Rightarrow> bytes \<Rightarrow> bytes option" where
  "byte_string m rest =
     (let info = m AND 0x1F;
          lb = (if m AND 0xE0 \<noteq> 0x40 then None
                else if info < 24 then Some (unat info, rest)
                else if info = 24 then (case rest of [] \<Rightarrow> None | l # b \<Rightarrow> Some (unat l, b))
                else if info = 25 then (case rest of h # l # b \<Rightarrow> Some (unat h * 256 + unat l, b) | _ \<Rightarrow> None)
                else None)
      in case lb of
           None \<Rightarrow> None
         | Some (n, b) \<Rightarrow> if n > length b \<or> n < 2 then None else Some (take n b))"

definition link_at :: "'m repoLib \<Rightarrow> bytes \<Rightarrow> cid option" where
  "link_at L data =
     (case data of
        a # b # m # rest \<Rightarrow>
          if a \<noteq> 0xD8 \<or> b \<noteq> 0x2A then None
          else (case byte_string m rest of
                  None \<Rightarrow> None
                | Some bs \<Rightarrow>
                    let c = (if hd bs = 0 then tl bs else bs) in
                    if lCast L c then Some c else None)
      | _ \<Rightarrow> None)"

fun extractCBORLinks :: "'m repoLib \<Rightarrow> bytes \<Rightarrow> cid list" where
  "extractCBORLinks L [] = []"
| "extractCBORLinks L (x # xs) =
     (case link_at L (x # xs) of None \<Rightarrow> [] | Some c \<Rightarrow> [c]) @ extractCBORLinks L xs"

section \<open>The walk\<close>

text \<open>
  A breadth-first walk that may not end when the blocks never stop naming new ones.  \<open>dag\<close> tells the
  CIDs whose codec is DAG-CBOR; the blocks written so far are kept in order.
\<close>

definition next_links :: "'m repoLib \<Rightarrow> (cid \<Rightarrow> bool) \<Rightarrow> cid \<Rightarrow> bytes \<Rightarrow> cid list" where
  "next_links L dag c d = (if dag c then extractCBORLinks L d else [])"

partial_function (option) walk_blocks ::
  "'m repoLib \<Rightarrow> (cid \<Rightarrow> bool) \<Rightarrow> (cid \<Rightarrow> goerr + bytes) \<Rightarrow> cid list \<Rightarrow> cid list \<Rightarrow> block list \<Rightarrow>
   (goerr + block list) option" where
  "walk_blocks L dag get visited queue written =
     (case queue of
        [] \<Rightarrow> Some (Inr written)
      | c # q \<Rightarrow>
          if c \<in> set visited then walk_blocks L dag get visited q written
          else (case get c of
                  Inl e \<Rightarrow> Some (Inl e)
                | Inr d \<Rightarrow>
                    walk_blocks L dag get (c # visited)
                      (q @ filter (\<lambda>l. l \<notin> set (c # visited)) (next_links L dag c d)) (written @ [(c, d)])))"

definition writeRepoBlocksFromBlockstore ::
  "'m repoLib \<Rightarrow> (cid \<Rightarrow> bool) \<Rightarrow> (cid \<Rightarrow> goerr + bytes) \<Rightarrow> cid \<Rightarrow> (goerr + bytes) option" where
  "writeRepoBlocksFromBlockstore L dag get root =
     map_option (map_sum id (\<lambda>bs. concat (map (\<lambda>(c, d). lLdWrite L [c, d]) bs))) (walk_blocks L dag get [] [root] [])"

section \<open>What the walk writes\<close>

definition links_to :: "'m repoLib \<Rightarrow> (cid \<Rightarrow> bool) \<Rightarrow> (cid \<Rightarrow> goerr + bytes) \<Rightarrow> (cid \<times> cid) set" where
  "links_to L dag get = {(c, l). \<exists>d. get c = Inr d \<and> l \<in> set (next_links L dag c d)}"

definition reachable :: "'m repoLib \<Rightarrow> (cid \<Rightarrow> bool) \<Rightarrow> (cid \<Rightarrow> goerr + bytes) \<Rightarrow> cid \<Rightarrow> cid set" where
  "reachable L dag get root = {c. (root, c) \<in> (links_to L dag get)\<^sup>*}"

lemma reachable_step:
  "c \<in> reachable L dag get root \<Longrightarrow> get c = Inr d \<Longrightarrow> l \<in> set (next_links L dag c d) \<Longrightarrow> l \<in> reachable L dag get root"
  unfolding reachable_def links_to_def by (auto intro: rtrancl_into_rtrancl)

lemma reachable_closed:
  assumes "root \<in> V" and "\<And>c d. c \<in> V \<Longrightarrow> get c = Inr d \<Longrightarrow> set (next_links L dag c d) \<subseteq> V"
  shows "reachable L dag get root \<subseteq> V"
proof
  fix c assume "c \<in> reachable L dag get root"
  then have "(root, c) \<in> (links_to L dag get)\<^sup>*" by (simp add: reachable_def)
  then show "c \<in> V"
    by (induction rule: rtrancl_induct) (use assms in \<open>auto simp: links_to_def\<close>)
qed

text \<open>The state of the walk: what has been written is what has been visited, and nothing is forgotten.\<close>

definition walk_inv ::
  "'m repoLib \<Rightarrow> (cid \<Rightarrow> bool) \<Rightarrow> (cid \<Rightarrow> goerr + bytes) \<Rightarrow> cid \<Rightarrow> cid list \<Rightarrow> cid list \<Rightarrow> block list \<Rightarrow> bool" where
  "walk_inv L dag get root visited queue written \<longleftrightarrow>
     map fst written = rev visited \<and> distinct visited \<and>
     set visited \<subseteq> reachable L dag get root \<and> set queue \<subseteq> reachable L dag get root \<and>
     root \<in> set visited \<union> set queue \<and> (\<forall>b \<in> set written. get (fst b) = Inr (snd b)) \<and>
     (\<forall>c \<in> set visited. \<forall>d. get c = Inr d \<longrightarrow> (\<forall>l \<in> set (next_links L dag c d). l \<in> set visited \<or> l \<in> set queue))"

lemma walk_inv_skip:
  "walk_inv L dag get root visited (c # q) written \<Longrightarrow> c \<in> set visited \<Longrightarrow> walk_inv L dag get root visited q written"
  by (auto simp: walk_inv_def) blast+

lemma walk_inv_step:
  assumes "walk_inv L dag get root visited (c # q) written" and "c \<notin> set visited" and "get c = Inr d"
  shows "walk_inv L dag get root (c # visited) (q @ filter (\<lambda>l. l \<notin> set (c # visited)) (next_links L dag c d)) (written @ [(c, d)])"
  using assms reachable_step [of c L dag get root d] by (auto simp: walk_inv_def) blast+

lemma walk_blocks_total:
  assumes "finite (reachable L dag get root)" and "\<And>c. c \<in> reachable L dag get root \<Longrightarrow> \<exists>d. get c = Inr d"
    and "walk_inv L dag get root visited queue written"
  shows "\<exists>bs. walk_blocks L dag get visited queue written = Some (Inr bs) \<and> distinct (map fst bs) \<and>
    set (map fst bs) = reachable L dag get root \<and> (\<forall>b \<in> set bs. get (fst b) = Inr (snd b)) \<and> take (length written) bs = written"
  using assms(3)
proof (induction "(card (reachable L dag get root - set visited), length queue)" arbitrary: visited queue written
    rule: wf_induct_rule [OF wf_lex_prod [OF wf_less_than wf_less_than]])
  case (1 visited queue written)
  show ?case
  proof (cases queue)
    case Nil
    with 1(2) have i: "map fst written = rev visited" "distinct visited" "set visited \<subseteq> reachable L dag get root"
      "root \<in> set visited" "\<forall>b \<in> set written. get (fst b) = Inr (snd b)"
      "\<forall>c \<in> set visited. \<forall>d. get c = Inr d \<longrightarrow> (\<forall>l \<in> set (next_links L dag c d). l \<in> set visited)"
      by (auto simp: walk_inv_def)
    have "reachable L dag get root \<subseteq> set visited" by (rule reachable_closed) (use i(4,6) in auto)
    with i have "set (map fst written) = reachable L dag get root" "distinct (map fst written)" by auto
    with i(5) show ?thesis by (subst walk_blocks.simps) (simp add: Nil)
  next
    case (Cons c q)
    show ?thesis
    proof (cases "c \<in> set visited")
      case True
      have "walk_inv L dag get root visited q written" using walk_inv_skip 1(2) True Cons by blast
      moreover have "((card (reachable L dag get root - set visited), length q),
          (card (reachable L dag get root - set visited), length queue)) \<in> less_than <*lex*> less_than" by (simp add: Cons)
      ultimately show ?thesis using 1(1) True by (subst walk_blocks.simps) (simp add: Cons)
    next
      case False
      have r: "c \<in> reachable L dag get root" using 1(2) Cons by (simp add: walk_inv_def)
      with assms(2) obtain d where d: "get c = Inr d" by blast
      let ?q = "q @ filter (\<lambda>l. l \<notin> set (c # visited)) (next_links L dag c d)"
      have i: "walk_inv L dag get root (c # visited) ?q (written @ [(c, d)])"
        using walk_inv_step 1(2) False d Cons by blast
      have "card (reachable L dag get root - set (c # visited)) < card (reachable L dag get root - set visited)"
        using r False assms(1) by (intro psubset_card_mono) auto
      then have "((card (reachable L dag get root - set (c # visited)), length ?q),
          (card (reachable L dag get root - set visited), length queue)) \<in> less_than <*lex*> less_than" by simp
      from 1(1) [OF this i] obtain bs where
        "walk_blocks L dag get (c # visited) ?q (written @ [(c, d)]) = Some (Inr bs)" "distinct (map fst bs)"
        "set (map fst bs) = reachable L dag get root" "\<forall>b \<in> set bs. get (fst b) = Inr (snd b)"
        "take (length (written @ [(c, d)])) bs = written @ [(c, d)]" by blast
      moreover from this(5) have "take (length written) bs = written"
        by (metis append_eq_conv_conj append_take_drop_id append.assoc)
      ultimately show ?thesis using False d by (subst walk_blocks.simps) (simp add: Cons)
    qed
  qed
qed

section \<open>Links are found\<close>

text \<open>How DAG-CBOR writes a link: tag 42, the head of a byte string, a zero byte and the CID.\<close>

definition cbor_head :: "nat \<Rightarrow> bytes" where
  "cbor_head n = (if n < 24 then [of_nat (0x40 + n)] else if n < 256 then [0x58, of_nat n]
     else [0x59, of_nat (n div 256), of_nat (n mod 256)])"

definition dag_link :: "cid \<Rightarrow> bytes" where
  "dag_link c = [0xD8, 0x2A] @ cbor_head (Suc (length c)) @ 0 # c"

lemma unat_of_nat_byte: "n < 256 \<Longrightarrow> unat (of_nat n :: byte) = n"
  by (simp add: unat_of_nat take_bit_eq_mod)

lemma small_head: "n < 24 \<Longrightarrow> (of_nat (64 + n) :: byte) AND 0xE0 = 0x40 \<and> unat ((of_nat (64 + n) :: byte) AND 0x1F) = n"
proof -
  assume "n < 24"
  then have "n \<in> set [0..<24]" by simp
  then show ?thesis by (simp add: upt_rec numeral_eq_Suc) (elim disjE; simp)
qed

lemma byte_string_head:
  assumes "2 \<le> length b" and "length b < 65536"
  shows "\<exists>m rest. cbor_head (length b) = m # rest \<and> byte_string m (rest @ b @ post) = Some b"
proof (cases "length b < 24")
  case True
  note s = small_head [OF True]
  have "(of_nat (64 + length b) :: byte) AND 0x1F < 24" using s True by (simp add: word_less_nat_alt)
  with s True assms show ?thesis by (simp add: cbor_head_def byte_string_def Let_def)
next
  case False
  have "(unat (of_nat (length b div 256) :: byte)) * 256 + unat (of_nat (length b mod 256) :: byte) = length b"
    using assms(2) by (simp add: unat_of_nat_byte)
  with False assms show ?thesis
    by (cases "length b < 256") (auto simp: cbor_head_def byte_string_def unat_of_nat_byte)
qed

lemma link_at_dag_link:
  assumes "lCast L c" and "c \<noteq> []" and "length c < 65535"
  shows "link_at L (dag_link c @ post) = Some c"
proof -
  have "2 \<le> length (0 # c)" "length (0 # c) < 65536" using assms by (cases c; simp)+
  from byte_string_head [OF this, of post] obtain m rest where
    "cbor_head (length (0 # c)) = m # rest" "byte_string m (rest @ (0 # c) @ post) = Some (0 # c)" by blast
  with assms(1) show ?thesis by (simp add: link_at_def dag_link_def)
qed

lemma extractCBORLinks_finds:
  "link_at L d = Some c \<Longrightarrow> c \<in> set (extractCBORLinks L (pre @ d))"
proof (induction pre)
  case Nil
  then show ?case by (cases d) (auto simp: link_at_def)
qed auto

end
