(* ===== verification/Paging.thy ===== *)
theory Paging
  imports Main
begin

text \<open>
  Cursor paging.  A list sorted by a key is read page by page: a page holds the first rows after the
  cursor, and the cursor of the next page is the key of its last row.  A client that follows the cursors
  sees every row once, in order.
\<close>

fun follow :: "('k option \<Rightarrow> 'r list) \<Rightarrow> ('k option \<Rightarrow> 'k option) \<Rightarrow> nat \<Rightarrow> 'k option \<Rightarrow> 'r list" where
  "follow page nxt 0 c = []"
| "follow page nxt (Suc n) c = page c @ (case nxt c of None \<Rightarrow> [] | Some k \<Rightarrow> follow page nxt n (Some k))"

definition rows_after :: "('k \<Rightarrow> 'k \<Rightarrow> bool) \<Rightarrow> ('r \<Rightarrow> 'k) \<Rightarrow> 'r list \<Rightarrow> 'k option \<Rightarrow> 'r list" where
  "rows_after lt key rows c = (case c of None \<Rightarrow> rows | Some k \<Rightarrow> filter (\<lambda>r. lt k (key r)) rows)"

locale pager =
  fixes ok :: bool
    and lt :: "'k \<Rightarrow> 'k \<Rightarrow> bool"
    and key :: "'r \<Rightarrow> 'k"
    and rows :: "'r list"
    and page :: "'k option \<Rightarrow> 'r list"
    and nxt :: "'k option \<Rightarrow> 'k option"
  assumes lt_trans: "lt x y \<Longrightarrow> lt y z \<Longrightarrow> lt x z"
    and lt_irrefl: "\<not> lt x x"
    and sorted_rows: "ok \<Longrightarrow> sorted_wrt (\<lambda>a b. lt (key a) (key b)) rows"
    and page_take: "ok \<Longrightarrow> \<exists>n > 0. page c = take n (rows_after lt key rows c) \<and>
        (nxt c = None \<longrightarrow> length (rows_after lt key rows c) \<le> n)"
    and nxt_last: "ok \<Longrightarrow> nxt c = Some k \<Longrightarrow> page c \<noteq> [] \<and> k = key (last (page c))"
begin

lemma sorted_after: "ok \<Longrightarrow> sorted_wrt (\<lambda>a b. lt (key a) (key b)) (rows_after lt key rows c)"
  using sorted_rows by (auto simp: rows_after_def intro: sorted_wrt_filter split: option.split)

lemma split_last:
  assumes "sorted_wrt (\<lambda>a b. lt (key a) (key b)) (xs @ ys)" and "xs \<noteq> []"
  shows "filter (\<lambda>r. lt (key (last xs)) (key r)) (xs @ ys) = ys"
proof -
  have "\<not> lt (key (last xs)) (key x)" if x: "x \<in> set xs" for x
  proof
    assume l: "lt (key (last xs)) (key x)"
    have "x = last xs \<or> lt (key x) (key (last xs))"
    proof -
      have "xs = butlast xs @ [last xs]" using assms(2) by simp
      then have "sorted_wrt (\<lambda>a b. lt (key a) (key b)) (butlast xs @ [last xs])"
        using assms(1) by (simp add: sorted_wrt_append)
      moreover have "x \<in> set (butlast xs) \<or> x = last xs"
        using x \<open>xs = butlast xs @ [last xs]\<close> by (metis Un_iff empty_set list.simps(15) set_append singletonD insert_iff)
      ultimately show ?thesis by (auto simp: sorted_wrt_append)
    qed
    with l lt_trans lt_irrefl show False by blast
  qed
  moreover have "lt (key (last xs)) (key y)" if "y \<in> set ys" for y
    using assms that by (auto simp: sorted_wrt_append)
  ultimately show ?thesis by (simp add: filter_empty_conv filter_id_conv)
qed

lemma after_last:
  assumes "ok" and "rows_after lt key rows c = xs @ ys" and "xs \<noteq> []"
  shows "rows_after lt key rows (Some (key (last xs))) = ys"
proof -
  have "filter (\<lambda>r. lt (key (last xs)) (key r)) (rows_after lt key rows c) = filter (\<lambda>r. lt (key (last xs)) (key r)) rows"
  proof (cases c)
    case (Some k)
    have "last xs \<in> set (rows_after lt key rows c)" using assms(2,3) by simp
    then have "lt k (key (last xs))" by (simp add: rows_after_def Some)
    then show ?thesis by (auto simp: rows_after_def Some intro: filter_cong lt_trans)
  qed (simp add: rows_after_def)
  then show ?thesis
    using split_last [of xs ys] sorted_after [OF assms(1), of c] assms(2,3) by (simp add: rows_after_def)
qed

lemma follow_all:
  assumes "ok"
  shows "length (rows_after lt key rows c) < n \<Longrightarrow> follow page nxt n c = rows_after lt key rows c"
proof (induction n arbitrary: c)
  case (Suc n)
  let ?A = "rows_after lt key rows c"
  obtain m where m: "0 < m" "page c = take m ?A" "nxt c = None \<longrightarrow> length ?A \<le> m"
    using page_take [OF assms] by blast
  show ?case
  proof (cases "nxt c")
    case None
    with m show ?thesis by simp
  next
    case (Some k)
    with nxt_last [OF assms Some] have k: "page c \<noteq> []" "k = key (last (page c))" by auto
    have "rows_after lt key rows (Some k) = drop m ?A"
      using after_last [OF assms, of c "take m ?A" "drop m ?A"] k m(2) by simp
    moreover have "length (drop m ?A) < n"
    proof -
      have "0 < length ?A" using k(1) m(2) by auto
      then have "length ?A - m < n" using Suc.prems m(1) by linarith
      then show ?thesis by simp
    qed
    ultimately show ?thesis using Suc.IH [of "Some k"] m(2) Some by simp
  qed
qed simp

end

end
