(* ===== verification/Sync.thy ===== *)
theory Sync
  imports Export RepoDemo Paging Events
begin

text \<open>
  The com.atproto.sync handlers (server/handle_sync_*.go, server/handle_repo_list_repos.go): what a relay
  reads.  The responses carry CAR files, pages of repositories and blobs, and the frames of the event stream.
\<close>

section \<open>Numbers in queries\<close>

definition is_digit :: "char \<Rightarrow> bool" where
  "is_digit c \<longleftrightarrow> (of_char c :: nat) \<in> {48..57}"

definition digits_value :: "string \<Rightarrow> int" where
  "digits_value ds = foldl (\<lambda>n c. 10 * n + (of_char c - 48)) 0 ds"

text \<open>\<open>strconv.ParseInt\<close> in base ten; \<open>Atoi\<close> is its case of 64 bits.\<close>

definition ParseInt :: "nat \<Rightarrow> string \<Rightarrow> int option" where
  "ParseInt bits s =
     (let (neg, ds) = (case s of [] \<Rightarrow> (False, []) | c # r \<Rightarrow>
            if c = CHR ''-'' then (True, r) else if c = CHR ''+'' then (False, r) else (False, s));
          v = (if neg then - digits_value ds else digits_value ds)
      in if ds = [] \<or> \<not> list_all is_digit ds then None
         else if - (2 ^ (bits - 1)) \<le> v \<and> v < 2 ^ (bits - 1) then Some v else None)"

definition Atoi :: "string \<Rightarrow> int option" where
  "Atoi s = ParseInt 64 s"

text \<open>The limit of a page: the query's when it is a number from 1 to the maximum, else the default.\<close>

definition query_limit :: "nat \<Rightarrow> nat \<Rightarrow> string \<Rightarrow> nat" where
  "query_limit def mx s =
     (if s = '''' then def
      else (case Atoi s of None \<Rightarrow> def | Some l \<Rightarrow> if 0 < l \<and> l \<le> int mx then nat l else def))"

lemma query_limit_pos: "0 < def \<Longrightarrow> 0 < query_limit def mx s"
  by (auto simp: query_limit_def split: option.split)

section \<open>CAR responses\<close>

definition car_response :: "bytes \<Rightarrow> outcome" where
  "car_response b = Reply \<lparr>code = 200, hdrs = [(''Content-Type'', ''application/vnd.ipld.car'')], payload = BBytes b\<rparr>"

text \<open>The repository of the query parameter did, with its root; the errors the handlers answer.\<close>

definition with_root ::
  "'m repoLib \<Rightarrow> faults \<Rightarrow> db \<Rightarrow> string \<Rightarrow> (RepoActor \<Rightarrow> cid \<Rightarrow> outcome) \<Rightarrow> outcome" where
  "with_root L fails d did k =
     (case getRepoActorByDid fails d did of
        Inl e \<Rightarrow> ServerError None
      | Inr u \<Rightarrow>
          if rRoot (raRepo u) = [] then InputError (Some ''RepoNotFound'')
          else (case castCid L (rRoot (raRepo u)) of
                  Inl e \<Rightarrow> ServerError None
                | Inr c \<Rightarrow> k u c))"

definition handleSyncGetRepo ::
  "'m repoLib \<Rightarrow> (cid \<Rightarrow> bool) \<Rightarrow> 'k kubo \<Rightarrow> faults \<Rightarrow> request \<Rightarrow> db \<Rightarrow> 'k \<Rightarrow> outcome option" where
  "handleSyncGetRepo L dag K fails r d k =
     (let did = get_value (qQuery r) ''did'' in
      if did = '''' then Some (InputError None)
      else (case getRepoActorByDid fails d did of
              Inl e \<Rightarrow> Some (ServerError None)
            | Inr u \<Rightarrow>
                if rRoot (raRepo u) = [] then Some (InputError (Some ''RepoNotFound''))
                else (case castCid L (rRoot (raRepo u)) of
                        Inl e \<Rightarrow> Some (ServerError None)
                      | Inr rc \<Rightarrow>
                          (case lCarHeader L rc of
                             Inl e \<Rightarrow> Some (ServerError None)
                           | Inr hb \<Rightarrow>
                               map_option (\<lambda>w. case w of Inl e \<Rightarrow> ServerError None
                                   | Inr b \<Rightarrow> car_response (lLdWrite L [hb] @ b))
                                 (writeRepoBlocksFromBlockstore L dag
                                    (IPFS_Get K (newBlockstoreForRepo (rDid (raRepo u)), k)) rc)))))"

fun cast_all :: "'m repoLib \<Rightarrow> string list \<Rightarrow> (cid list) option" where
  "cast_all L [] = Some []"
| "cast_all L (s # ss) =
     (if lCast L (to_bytes s) then map_option ((#) (to_bytes s)) (cast_all L ss) else None)"

fun write_blocks :: "'m repoLib \<Rightarrow> (cid \<Rightarrow> goerr + bytes) \<Rightarrow> cid list \<Rightarrow> goerr + bytes" where
  "write_blocks L get [] = Inr []"
| "write_blocks L get (c # cs) =
     (case get c of
        Inl e \<Rightarrow> Inl e
      | Inr d \<Rightarrow> (case write_blocks L get cs of Inl e \<Rightarrow> Inl e | Inr b \<Rightarrow> Inr (lLdWrite L [c, d] @ b)))"

text \<open>The CIDs are taken as the bytes of the query strings.\<close>

definition handleGetBlocks ::
  "'m repoLib \<Rightarrow> 'k kubo \<Rightarrow> faults \<Rightarrow> string \<Rightarrow> string list \<Rightarrow> db \<Rightarrow> 'k \<Rightarrow> outcome" where
  "handleGetBlocks L K fails did cidsParam d k =
     (if did = '''' then InputError None
      else (case cast_all L cidsParam of
              None \<Rightarrow> InputError None
            | Some cids \<Rightarrow>
                with_root L fails d did (\<lambda>u rc.
                  case lCarHeader L rc of
                    Inl e \<Rightarrow> ServerError None
                  | Inr hb \<Rightarrow>
                      (case write_blocks L (IPFS_Get K (newBlockstoreForRepo (rDid (raRepo u)), k)) cids of
                         Inl e \<Rightarrow> ServerError None
                       | Inr b \<Rightarrow> car_response (lLdWrite L [hb] @ b)))))"

text \<open>The field of the CID is called string.\<close>

definition handleSyncGetLatestCommit :: "'m repoLib \<Rightarrow> faults \<Rightarrow> request \<Rightarrow> db \<Rightarrow> outcome" where
  "handleSyncGetLatestCommit L fails r d =
     (let did = get_value (qQuery r) ''did'' in
      if did = '''' then InputError None
      else with_root L fails d did (\<lambda>u c.
        writeJSON 200 (JObj [(''string'', JStr (lCidString L c)), (''rev'', JStr (rRev (raRepo u)))])))"

definition handleSyncGetRecord ::
  "'m repoLib \<Rightarrow> 'k kubo \<Rightarrow> faults \<Rightarrow> request \<Rightarrow> ('m, 'k) rmState \<Rightarrow> outcome \<times> ('m, 'k) rmState" where
  "handleSyncGetRecord L K fails r rs =
     (let did = get_value (qQuery r) ''did'';
          urepo = (case sql_first (\<lambda>x. rDid x = did) (repos (rsDb rs)) of None \<Rightarrow> zeroRepo | Some u \<Rightarrow> u)
      in if fails ''getRecord.repo'' then (ServerError None, rs)
      else (case getRecordProof L K urepo (get_value (qQuery r) ''collection'') (get_value (qQuery r) ''rkey'') rs of
              (Fail e, rs') \<Rightarrow> (ServerError None, rs')
            | (Crash, rs') \<Rightarrow> (Panic, rs')
            | (Ret (root, bs), rs') \<Rightarrow>
                (case lCarHeader L root of
                   Inl e \<Rightarrow> (ServerError None, rs')
                 | Inr hb \<Rightarrow> (car_response (lLdWrite L [hb] @ concat (map (\<lambda>(c, b). lLdWrite L [c, b]) bs)), rs'))))"

definition handleSyncGetRepoStatus :: "faults \<Rightarrow> request \<Rightarrow> db \<Rightarrow> outcome" where
  "handleSyncGetRepoStatus fails r d =
     (let did = get_value (qQuery r) ''did'' in
      if did = '''' then InputError None
      else (case getRepoActorByDid fails d did of
              Inl e \<Rightarrow> ServerError None
            | Inr u \<Rightarrow> writeJSON 200 (JObj ([(''did'', JStr (rDid (raRepo u))), (''active'', JBool (Active (raRepo u)))] @
                opt_json ''status'' (Status (raRepo u)) @ [(''rev'', JStr (rRev (raRepo u)))]))))"

section \<open>Blobs\<close>

definition deactivated :: "RepoActor \<Rightarrow> bool" where
  "deactivated u \<longleftrightarrow> Status (raRepo u) = Some ''deactivated''"

text \<open>
  A blob of an account is redirected to the gateway, or fetched from the node: \<open>cat\<close> is the status and body
  of the node's answer, \<open>url_ok\<close> whether the request can be built.
\<close>

definition handleSyncGetBlob ::
  "'m repoLib \<Rightarrow> faults \<Rightarrow> string \<Rightarrow> string \<Rightarrow> (string \<Rightarrow> bool) \<Rightarrow> (string \<Rightarrow> goerr + nat \<times> bytes) \<Rightarrow>
   request \<Rightarrow> db \<Rightarrow> outcome" where
  "handleSyncGetBlob L fails gatewayURL nodeURL url_ok cat r d =
     (let did = get_value (qQuery r) ''did''; cstr = get_value (qQuery r) ''cid'' in
      if did = '''' \<or> cstr = '''' then InputError None
      else (case lCidParse L cstr of
              Inl e \<Rightarrow> InputError None
            | Inr c \<Rightarrow>
                (case getRepoActorByDid fails d did of
                   Inl e \<Rightarrow> InputError None
                 | Inr u \<Rightarrow>
                     if deactivated u then InputError (Some ''RepoDeactivated'')
                     else if fails ''getBlob.lookup'' then ServerError None
                     else (case sql_first (\<lambda>b. bDid b = did \<and> bCid b = c) (blobs d) of
                             None \<Rightarrow> InputError (Some ''BlobNotFound'')
                           | Some b \<Rightarrow>
                               if gatewayURL \<noteq> '''' then Redirect (gatewayURL @ ''/ipfs/'' @ lCidString L c) 302
                               else let endpoint = nodeURL @ ''/api/v0/cat?arg='' @ lCidString L c in
                               if \<not> url_ok endpoint then ServerError None
                               else (case cat endpoint of
                                       Inl e \<Rightarrow> ServerError None
                                     | Inr (st, body) \<Rightarrow>
                                         if st \<noteq> 200 then ServerError None
                                         else Reply \<lparr>code = 200,
                                           hdrs = [(''Content-Disposition'', ''attachment; filename='' @ lCidString L c),
                                                   (''Content-Type'', bMimeType b)],
                                           payload = BBytes body\<rparr>)))))"

text \<open>
  A page of blobs: one row more than the limit is read, all the rows read are listed, and the cursor is
  the last row within the limit.
\<close>

definition blob_rows :: "db \<Rightarrow> string \<Rightarrow> cid option \<Rightarrow> nat \<Rightarrow> Blob list" where
  "blob_rows d did after limit =
     take (limit + 1) (sort_key bCid (sql_select (\<lambda>b. bDid b = did \<and>
       (case after of None \<Rightarrow> True | Some c \<Rightarrow> bCid b > c)) (blobs d)))"

definition blob_cids :: "'m repoLib \<Rightarrow> Blob list \<Rightarrow> string list" where
  "blob_cids L bs = map (\<lambda>b. lCidString L (bCid b)) (filter (\<lambda>b. bCid b \<noteq> [] \<and> lCast L (bCid b)) bs)"

definition blob_cursor :: "'m repoLib \<Rightarrow> nat \<Rightarrow> Blob list \<Rightarrow> string option" where
  "blob_cursor L limit bs =
     (if length bs > limit then
        (let c = bCid (bs ! (limit - 1)) in if lCast L c then Some (lCidString L c) else None)
      else None)"

definition handleSyncListBlobs ::
  "'m repoLib \<Rightarrow> (string \<Rightarrow> goerr + cid) \<Rightarrow> faults \<Rightarrow> request \<Rightarrow> db \<Rightarrow> outcome" where
  "handleSyncListBlobs L cidDecode fails r d =
     (let did = get_value (qQuery r) ''did''; cursor = get_value (qQuery r) ''cursor'';
          limit = query_limit 50 1000 (get_value (qQuery r) ''limit'');
          after = (if cursor = '''' then Inr None else (case cidDecode cursor of Inl e \<Rightarrow> Inl e | Inr c \<Rightarrow> Inr (Some c)))
      in if did = '''' then InputError None
      else (case after of
              Inl e \<Rightarrow> InputError (Some ''invalid cursor'')
            | Inr a \<Rightarrow>
                (case getRepoActorByDid fails d did of
                   Inl e \<Rightarrow> InputError None
                 | Inr u \<Rightarrow>
                     if deactivated u then InputError (Some ''RepoDeactivated'')
                     else if fails ''listBlobs'' then ServerError None
                     else let bs = blob_rows d did a limit in
                       writeJSON 200 (JObj (opt_json ''cursor'' (blob_cursor L limit bs) @
                         [(''cids'', JArr (map JStr (blob_cids L bs)))])))))"

section \<open>Pages of repositories\<close>

text \<open>One row more than the limit tells whether there is a next page.\<close>

definition repo_rows :: "db \<Rightarrow> string option \<Rightarrow> nat \<Rightarrow> Repo list" where
  "repo_rows d cursor limit =
     take (limit + 1) (sort_key rDid (sql_select (\<lambda>r. case cursor of None \<Rightarrow> True | Some c \<Rightarrow> rDid r > c) (repos d)))"

definition repo_page :: "db \<Rightarrow> nat \<Rightarrow> string option \<Rightarrow> Repo list" where
  "repo_page d limit cursor = take limit (repo_rows d cursor limit)"

definition repo_next :: "db \<Rightarrow> nat \<Rightarrow> string option \<Rightarrow> string option" where
  "repo_next d limit cursor =
     (if length (repo_rows d cursor limit) > limit then Some (rDid (last (repo_page d limit cursor))) else None)"

definition repo_item :: "'m repoLib \<Rightarrow> Repo \<Rightarrow> json" where
  "repo_item L r = JObj ([(''did'', JStr (rDid r)), (''head'', JStr (lCidString L (rRoot r))), (''rev'', JStr (rRev r)),
     (''active'', JBool (Active r))] @ opt_json ''status'' (Status r))"

definition handleListRepos :: "'m repoLib \<Rightarrow> faults \<Rightarrow> request \<Rightarrow> db \<Rightarrow> outcome" where
  "handleListRepos L fails r d =
     (let limit = query_limit 500 1000 (get_value (qQuery r) ''limit'');
          c = get_value (qQuery r) ''cursor''; cursor = (if c = '''' then None else Some c);
          rooted = filter (\<lambda>x. rRoot x \<noteq> []) (repo_page d limit cursor)
      in if fails ''listRepos'' then ServerError None
      else if \<exists>x \<in> set rooted. \<not> lCast L (rRoot x) then ServerError None
      else writeJSON 200 (JObj (opt_json ''cursor'' (repo_next d limit cursor) @
        [(''repos'', JArr (map (repo_item L) rooted))])))"

lemma sort_key_after:
  fixes key :: "'r \<Rightarrow> 'k :: linorder"
  shows "sort_key key (filter (\<lambda>r. case c of None \<Rightarrow> True | Some k \<Rightarrow> key r > k) t) = rows_after (<) key (sort_key key t) c"
  by (cases c) (simp_all add: rows_after_def filter_sort)

lemma sorted_sort_key_strict:
  "distinct (map key t) \<Longrightarrow> sorted_wrt (\<lambda>a b. key a < key b) (sort_key key t)"
  using sorted_strict_sort_key [of key t] by (simp add: sorted_wrt_map)

lemma repo_rows_after: "repo_rows d c n = take (n + 1) (rows_after (<) rDid (sort_key rDid (repos d)) c)"
  using sort_key_after [of rDid c "repos d"] by (simp add: repo_rows_def sql_select_def)

interpretation repos_pager: pager "keyed rDid (repos d) \<and> 0 < n" "(<) :: string \<Rightarrow> string \<Rightarrow> bool" rDid
  "sort_key rDid (repos d)" "repo_page d n" "repo_next d n" for d n
proof (unfold_locales, goal_cases)
  case 3
  then show ?case by (intro sorted_sort_key_strict) (simp add: keyed_def)
next
  case (4 c)
  then show ?case
    by (intro exI [of _ n]) (auto simp: repo_page_def repo_next_def repo_rows_after)
next
  case (5 c k)
  then show ?case by (auto simp: repo_next_def repo_page_def split: if_splits)
qed auto

section \<open>The event stream\<close>

text \<open>What a subscriber is given: an event of the log, an error of the event manager or an info message.\<close>

datatype stream_event = StreamError string | StreamInfo string | StreamEvt XRPCStreamEvent

record EventHeader =
  ehOp :: int
  ehMsgType :: string

abbreviation EvtKindMessage :: int where "EvtKindMessage \<equiv> 1"
abbreviation EvtKindErrorFrame :: int where "EvtKindErrorFrame \<equiv> -1"

text \<open>
  Which case of the switch applies: the new header, or nothing for an unrecognized event.  The header is
  shared by all turns of the loop, and the error case changes its operation only.
\<close>

fun frame_header :: "EventHeader \<Rightarrow> stream_event \<Rightarrow> EventHeader option" where
  "frame_header h (StreamError e) = Some (h\<lparr>ehOp := EvtKindErrorFrame\<rparr>)"
| "frame_header h (StreamEvt (RepoCommit e)) = Some (h\<lparr>ehMsgType := ''#commit''\<rparr>)"
| "frame_header h (StreamEvt (RepoIdentity e)) = Some (h\<lparr>ehMsgType := ''#identity''\<rparr>)"
| "frame_header h (StreamEvt (RepoAccount e)) = Some (h\<lparr>ehMsgType := ''#account''\<rparr>)"
| "frame_header h (StreamInfo i) = Some (h\<lparr>ehMsgType := ''#info''\<rparr>)"
| "frame_header h (StreamEvt e) = None"

text \<open>What the connection does during a turn; a frame goes out only when every step succeeds.\<close>

datatype conn_turn = NoWriter | CtxCancelled | WriteFails | FrameSent

fun write_events ::
  "(stream_event \<times> conn_turn) list \<Rightarrow> EventHeader \<Rightarrow> (EventHeader \<times> stream_event) list" where
  "write_events [] h = []"
| "write_events ((e, t) # es) h =
     (if t = NoWriter \<or> t = CtxCancelled then write_events es h
      else (case frame_header h e of
              None \<Rightarrow> write_events es h
            | Some h' \<Rightarrow> (if t = FrameSent then [(h', e)] else []) @ write_events es h'))"

text \<open>
  The frames a relay receives, and whether a new crawl is asked for when the stream ends.  \<open>subscribe\<close> is
  the event manager: the events the channel delivers from the given cursor until it is closed.
\<close>

definition handleSyncSubscribeRepos ::
  "bool \<Rightarrow> (int option \<Rightarrow> goerr + (stream_event \<times> conn_turn) list) \<Rightarrow> request \<Rightarrow> (EventHeader \<times> stream_event) list \<times> bool" where
  "handleSyncSubscribeRepos upgraded subscribe r =
     (let c = get_value (qQuery r) ''cursor''; since = (if c = '''' then None else ParseInt 64 c) in
      if \<not> upgraded then ([], False)
      else (case subscribe since of
              Inl e \<Rightarrow> ([], False)
            | Inr evts \<Rightarrow> (write_events evts \<lparr>ehOp = EvtKindMessage, ehMsgType = ''''\<rparr>, True)))"

definition isNormalClose :: "string option \<Rightarrow> bool" where
  "isNormalClose er = (case er of None \<Rightarrow> False | Some s \<Rightarrow> length s > 8 \<and> take 7 s = ''websocket: close'')"

definition isTimeout :: "string option \<Rightarrow> bool" where
  "isTimeout er = (er = Some ''i/o timeout'')"

lemma isNormalClose_never: "\<not> isNormalClose er"
proof -
  have "take 7 s \<noteq> ''websocket: close''" for s :: string
  proof
    assume "take 7 s = ''websocket: close''"
    from arg_cong [OF this, of length] show False by simp
  qed
  then show ?thesis by (simp add: isNormalClose_def split: option.split)
qed

definition frame_type :: "stream_event \<Rightarrow> string" where
  "frame_type e = (case frame_header \<lparr>ehOp = 0, ehMsgType = ''''\<rparr> e of None \<Rightarrow> '''' | Some h \<Rightarrow> ehMsgType h)"

definition is_message :: "stream_event \<Rightarrow> bool" where
  "is_message e \<longleftrightarrow> frame_type e \<noteq> ''''"

lemma frame_header_message: "is_message e \<Longrightarrow> frame_header h e = Some (h\<lparr>ehMsgType := frame_type e\<rparr>)"
  unfolding is_message_def frame_type_def by (cases "(h, e)" rule: frame_header.cases) auto

lemma write_events_messages:
  "\<forall>e \<in> set es. is_message e \<Longrightarrow>
   write_events (map (\<lambda>e. (e, FrameSent)) es) h = map (\<lambda>e. (h\<lparr>ehMsgType := frame_type e\<rparr>, e)) es"
proof (induction es arbitrary: h)
  case (Cons e es)
  have "frame_header h e = Some (h\<lparr>ehMsgType := frame_type e\<rparr>)" by (rule frame_header_message) (use Cons.prems in simp)
  with Cons show ?case by simp
qed simp

lemma frame_header_error: "frame_header h e = Some h' \<Longrightarrow> ehOp h = EvtKindErrorFrame \<Longrightarrow> ehOp h' = EvtKindErrorFrame"
  by (cases "(h, e)" rule: frame_header.cases) auto

lemma error_header_sticks: "ehOp h = EvtKindErrorFrame \<Longrightarrow> (h', e) \<in> set (write_events es h) \<Longrightarrow> ehOp h' = EvtKindErrorFrame"
proof (induction es arbitrary: h)
  case (Cons a es)
  then show ?case using frame_header_error [of h "fst a"]
    by (cases a) (auto split: if_splits option.splits)
qed simp

lemma sync_events_dropped: "write_events ((StreamEvt (RepoSync e), t) # es) h = write_events es h"
  by simp

section \<open>Properties\<close>

lemma writeRepo_reachable:
  assumes "finite (reachable L dag get root)" and "\<And>c. c \<in> reachable L dag get root \<Longrightarrow> \<exists>d. get c = Inr d"
  shows "\<exists>bs. writeRepoBlocksFromBlockstore L dag get root = Some (Inr (concat (map (\<lambda>(c, d). lLdWrite L [c, d]) bs))) \<and>
    distinct (map fst bs) \<and> set (map fst bs) = reachable L dag get root \<and> (\<forall>b \<in> set bs. get (fst b) = Inr (snd b)) \<and>
    fst (hd bs) = root"
proof -
  have r: "root \<in> reachable L dag get root" by (simp add: reachable_def)
  with assms(2) obtain d where d: "get root = Inr d" by blast
  have "walk_inv L dag get root [] [root] []" using r by (simp add: walk_inv_def)
  from walk_inv_step [OF this _ d] have i: "walk_inv L dag get root [root] (filter (\<lambda>l. l \<notin> {root}) (next_links L dag root d)) [(root, d)]"
    by simp
  from walk_blocks_total [OF assms i] obtain bs where
    b: "walk_blocks L dag get [root] (filter (\<lambda>l. l \<notin> {root}) (next_links L dag root d)) [(root, d)] = Some (Inr bs)"
      "distinct (map fst bs)" "set (map fst bs) = reachable L dag get root" "\<forall>b \<in> set bs. get (fst b) = Inr (snd b)"
      "take (length [(root, d)]) bs = [(root, d)]" by blast
  from b(5) have "hd bs = (root, d)" by (cases bs) auto
  moreover have "walk_blocks L dag get [] [root] [] = Some (Inr bs)"
    using b(1) d by (subst walk_blocks.simps) simp
  ultimately show ?thesis using b(2-4) unfolding writeRepoBlocksFromBlockstore_def by (intro exI [of _ bs]) auto
qed

text \<open>
  C27: com.atproto.sync.getRepo terminates and answers a complete CAR file whenever the account has a root and
  finitely many blocks, all of them in the store, are reachable from it by links: every reachable block is
  written exactly once, the commit first, and nothing else is written.
\<close>

theorem get_repo_complete:
  assumes "getRepoActorByDid fails d (get_value (qQuery r) ''did'') = Inr u" and "get_value (qQuery r) ''did'' \<noteq> ''''"
    and "rRoot (raRepo u) = root" and "root \<noteq> []" and "lCast L root" and "lCarHeader L root = Inr hb"
    and "get = (\<lambda>c. IPFS_Get K (newBlockstoreForRepo (rDid (raRepo u)), k) c)"
    and "finite (reachable L dag get root)" and "\<And>c. c \<in> reachable L dag get root \<Longrightarrow> \<exists>b. get c = Inr b"
  shows "\<exists>bs. handleSyncGetRepo L dag K fails r d k =
      Some (car_response (lLdWrite L [hb] @ concat (map (\<lambda>(c, b). lLdWrite L [c, b]) bs))) \<and>
    distinct (map fst bs) \<and> set (map fst bs) = reachable L dag get root \<and> (\<forall>b \<in> set bs. get (fst b) = Inr (snd b)) \<and>
    fst (hd bs) = root"
proof -
  from writeRepo_reachable [OF assms(8,9)] obtain bs where
    "writeRepoBlocksFromBlockstore L dag get root = Some (Inr (concat (map (\<lambda>(c, d). lLdWrite L [c, d]) bs)))"
    "distinct (map fst bs)" "set (map fst bs) = reachable L dag get root" "\<forall>b \<in> set bs. get (fst b) = Inr (snd b)"
    "fst (hd bs) = root" by blast
  with assms(1-7) show ?thesis
    by (intro exI [of _ bs]) (simp add: handleSyncGetRepo_def castCid_def)
qed

text \<open>
  A link written as DAG-CBOR writes it (tag 42 and a byte string with a zero byte before the CID, with a
  head of one, two or three bytes) is found by the scanner wherever it stands in a block.
\<close>

theorem link_round_trip:
  assumes "lCast L c" and "c \<noteq> []" and "length c < 65535"
  shows "c \<in> set (extractCBORLinks L (pre @ dag_link c @ post))"
  using extractCBORLinks_finds link_at_dag_link [OF assms] by blast

theorem link_round_trip_witness:
  "[1, 113] \<in> set (extractCBORLinks demo_repoLib ([9] @ dag_link [1, 113] @ [7]))"
  using link_round_trip [of demo_repoLib "[1, 113]" "[9]" "[7]"] by (simp add: demo_repoLib_def)

text \<open>
  A relay that follows the cursors of com.atproto.sync.listRepos, with any limit, sees every repository
  exactly once, in the order of the dids.
\<close>

theorem list_repos_complete:
  assumes "keyed rDid (repos d)" and "0 < n" and "length (repos d) < m"
  shows "follow (repo_page d n) (repo_next d n) m None = sort_key rDid (repos d)"
  using repos_pager.follow_all [of d n None m] assms by (simp add: rows_after_def)

definition demo_repos :: db where
  "demo_repos = emptyDb\<lparr>repos := [demo_account, demo_account\<lparr>rDid := ''did:c''\<rparr>, demo_account\<lparr>rDid := ''did:b''\<rparr>]\<rparr>"

theorem list_repos_complete_witness:
  "map rDid (follow (repo_page demo_repos 1) (repo_next demo_repos 1) 4 None) = [''did:a'', ''did:b'', ''did:c'']"
proof -
  have "keyed rDid (repos demo_repos)" by (simp add: keyed_def demo_repos_def demo_account_def)
  moreover have "map rDid (sort_key rDid (repos demo_repos)) = [''did:a'', ''did:b'', ''did:c'']" by code_simp
  moreover have "length (repos demo_repos) < 4" by (simp add: demo_repos_def)
  ultimately show ?thesis using list_repos_complete [of demo_repos 1 4] by simp
qed

text \<open>A repository of two blocks, the first linking to the second.\<close>

definition demo_dag :: db where
  "demo_dag = emptyDb\<lparr>repos := [demo_account\<lparr>rRoot := [18]\<rparr>]\<rparr>"

definition demo_query :: "(string \<times> string) list \<Rightarrow> request" where
  "demo_query q = \<lparr>qMethod = ''GET'', qHost = ''pds'', qTLS = True, qHeaders = [], qString = '''', qPath = '''',
     qQuery = q, qForm = [], qRemoteAddr = ''''\<rparr>"

definition demo_node :: "block list" where
  "demo_node = [([18], dag_link [1]), ([1], [])]"

theorem get_repo_complete_witness:
  "\<exists>bs. handleSyncGetRepo demo_repoLib (\<lambda>_. True) demo_kubo (\<lambda>_. False) (demo_query [(''did'', ''did:a'')])
      demo_dag demo_node = Some (car_response ([18] @ concat (map (\<lambda>(c, b). c @ b) bs))) \<and>
    distinct (map fst bs) \<and> [1] \<in> fst ` set bs"
proof -
  let ?get = "\<lambda>c. IPFS_Get demo_kubo (newBlockstoreForRepo (rDid (demo_account\<lparr>rRoot := [18]\<rparr>)), demo_node) c"
  have l: "(case ?get [18] of Inr d \<Rightarrow> next_links demo_repoLib (\<lambda>_. True) [18] d | Inl e \<Rightarrow> []) = [[1]]"
    and m: "(case ?get [1] of Inr d \<Rightarrow> next_links demo_repoLib (\<lambda>_. True) [1] d | Inl e \<Rightarrow> []) = []"
    by code_simp+
  have g: "\<exists>b. ?get c = Inr b" if "c \<in> {[18], [1]}" for c
    using that by (auto simp: IPFS_Get_def newBlockstoreForRepo_def NewIPFS_def demo_kubo_def demo_node_def)
  have sub: "reachable demo_repoLib (\<lambda>_. True) ?get [18] \<subseteq> {[18], [1]}"
    by (rule reachable_closed) (use l m in auto)
  have one: "[1] \<in> reachable demo_repoLib (\<lambda>_. True) ?get [18]"
  proof -
    from g [of "[18]"] obtain b where b: "?get [18] = Inr b" by blast
    with l have "next_links demo_repoLib (\<lambda>_. True) [18] b = [[1]]" by simp
    then have "[1] \<in> set (next_links demo_repoLib (\<lambda>_. True) [18] b)" by simp
    moreover have "[18] \<in> reachable demo_repoLib (\<lambda>_. True) ?get [18]" by (simp add: reachable_def)
    ultimately show ?thesis using b by (metis reachable_step)
  qed
  have acc: "getRepoActorByDid (\<lambda>_. False) demo_dag (get_value (qQuery (demo_query [(''did'', ''did:a'')])) ''did'') =
      Inr (joined demo_dag (demo_account\<lparr>rRoot := [18]\<rparr>))"
    by code_simp
  have "\<exists>bs. handleSyncGetRepo demo_repoLib (\<lambda>_. True) demo_kubo (\<lambda>_. False) (demo_query [(''did'', ''did:a'')])
      demo_dag demo_node =
      Some (car_response (lLdWrite demo_repoLib [[18]] @ concat (map (\<lambda>(c, b). lLdWrite demo_repoLib [c, b]) bs))) \<and>
    distinct (map fst bs) \<and> set (map fst bs) = reachable demo_repoLib (\<lambda>_. True) ?get [18] \<and>
    (\<forall>b \<in> set bs. ?get (fst b) = Inr (snd b)) \<and> fst (hd bs) = [18]"
    using g sub
    by (intro get_repo_complete [OF acc] finite_subset [OF sub])
       (simp_all add: demo_repoLib_def demo_query_def get_value_def joined_def, blast)
  then show ?thesis using one by (auto simp: demo_repoLib_def)
qed

end
