(* ===== verification/AtSyntax.thy ===== *)
theory AtSyntax
  imports Main
begin

text \<open>
  The syntax checks of the AT protocol library, which the validator of server.go registers and the identity
  resolver calls.
\<close>

record syntaxLib =
  isHandle :: "string \<Rightarrow> bool"
  isDid :: "string \<Rightarrow> bool"
  isRkey :: "string \<Rightarrow> bool"
  isNsid :: "string \<Rightarrow> bool"

end
