(* ===== verification/RepoHandlers.thy ===== *)
theory RepoHandlers
  imports Sync AtSyntax
begin

text \<open>
  The com.atproto.repo handlers (server/handle_repo_*.go, server/handle_import_repo.go): writing records of
  the caller's own repository, reading records and lists of them, blobs, and importing a repository.
\<close>

section \<open>Writing\<close>

definition opt_field :: "string \<Rightarrow> string option \<Rightarrow> (string \<times> json) list" where
  "opt_field k v = (case v of None \<Rightarrow> [] | Some s \<Rightarrow> [(k, JStr s)])"

definition commit_json :: "RepoCommit \<Rightarrow> json" where
  "commit_json c = JObj [(''cid'', JStr (rcCid c)), (''rev'', JStr (rcRev c))]"

definition result_json :: "ApplyWriteResult \<Rightarrow> json" where
  "result_json r = JObj (opt_field ''$type'' (awType r) @ opt_field ''uri'' (awUri r) @ opt_field ''cid'' (awCid r) @
     (case awCommit r of None \<Rightarrow> [] | Some c \<Rightarrow> [(''commit'', commit_json c)]) @
     opt_field ''validationStatus'' (awValidation r))"

type_synonym 's writer = "Repo \<Rightarrow> Op list \<Rightarrow> 's \<Rightarrow> ApplyWriteResult list result \<times> 's"

text \<open>
  What the three single-record handlers share: applying one operation for the caller and answering with
  \<open>f\<close> of its result.
\<close>

definition answer_write ::
  "'s writer \<Rightarrow> Repo \<Rightarrow> Op list \<Rightarrow> (ApplyWriteResult list \<Rightarrow> outcome) \<Rightarrow> 's \<Rightarrow> outcome \<times> 's" where
  "answer_write apply_writes repo ops f s =
     (case apply_writes repo ops s of
        (Fail e, s') \<Rightarrow> ((case HandleSignerError (Some e) of Some w \<Rightarrow> w | None \<Rightarrow> Panic), s')
      | (Crash, s') \<Rightarrow> (Panic, s')
      | (Ret results, s') \<Rightarrow> (f results, s'))"

definition first_result :: "(ApplyWriteResult \<Rightarrow> ApplyWriteResult) \<Rightarrow> ApplyWriteResult list \<Rightarrow> outcome" where
  "first_result f results = (case results of [] \<Rightarrow> Panic | r # _ \<Rightarrow> writeJSON 200 (result_json (f r)))"

record recordInput =
  riRepo :: string
  riCollection :: string
  riRkey :: "string option"
  riRecord :: "obj option"
  riSwapRecord :: "string option"

definition record_op :: "recordInput \<Rightarrow> Op" where
  "record_op q = \<lparr>oType = (if riSwapRecord q \<noteq> None then OpTypeUpdate else OpTypeCreate),
     oCollection = riCollection q, oRkey = riRkey q, oRecord = riRecord q\<rparr>"

definition handleCreateRecord ::
  "syntaxLib \<Rightarrow> 's writer \<Rightarrow> RepoActor \<Rightarrow> recordInput option \<Rightarrow> 's \<Rightarrow> outcome \<times> 's" where
  "handleCreateRecord X apply_writes repo req s =
     (case req of
        None \<Rightarrow> (ServerError None, s)
      | Some q \<Rightarrow>
          if riRepo q = '''' \<or> \<not> isDid X (riRepo q) \<or> riCollection q = '''' \<or> \<not> isNsid X (riCollection q) \<or> riRecord q = None
          then (InputError None, s)
          else if rDid (raRepo repo) \<noteq> riRepo q then (InputError None, s)
          else answer_write apply_writes (raRepo repo) [record_op q] (first_result (\<lambda>r. r\<lparr>awType := None\<rparr>)) s)"

text \<open>The key of a put or a delete is required and checked.\<close>

definition bad_key :: "syntaxLib \<Rightarrow> recordInput \<Rightarrow> bool" where
  "bad_key X q \<longleftrightarrow> (case riRkey q of None \<Rightarrow> True | Some k \<Rightarrow> k = '''' \<or> \<not> isRkey X k)"

definition handlePutRecord ::
  "syntaxLib \<Rightarrow> 's writer \<Rightarrow> RepoActor \<Rightarrow> recordInput option \<Rightarrow> 's \<Rightarrow> outcome \<times> 's" where
  "handlePutRecord X apply_writes repo req s =
     (case req of
        None \<Rightarrow> (ServerError None, s)
      | Some q \<Rightarrow>
          if riRepo q = '''' \<or> \<not> isDid X (riRepo q) \<or> riCollection q = '''' \<or> \<not> isNsid X (riCollection q) \<or>
             bad_key X q \<or> riRecord q = None
          then (InputError None, s)
          else if rDid (raRepo repo) \<noteq> riRepo q then (InputError None, s)
          else answer_write apply_writes (raRepo repo) [record_op q] (first_result (\<lambda>r. r\<lparr>awType := None\<rparr>)) s)"

definition handleDeleteRecord ::
  "syntaxLib \<Rightarrow> 's writer \<Rightarrow> RepoActor \<Rightarrow> recordInput option \<Rightarrow> 's \<Rightarrow> outcome \<times> 's" where
  "handleDeleteRecord X apply_writes repo req s =
     (case req of
        None \<Rightarrow> (ServerError None, s)
      | Some q \<Rightarrow>
          if riRepo q = '''' \<or> \<not> isDid X (riRepo q) \<or> riCollection q = '''' \<or> \<not> isNsid X (riCollection q) \<or> bad_key X q
          then (InputError None, s)
          else if rDid (raRepo repo) \<noteq> riRepo q then (InputError None, s)
          else answer_write apply_writes (raRepo repo)
            [\<lparr>oType = OpTypeDelete, oCollection = riCollection q, oRkey = riRkey q, oRecord = None\<rparr>]
            (first_result (\<lambda>r. r\<lparr>awType := None, awUri := None, awCid := None, awValidation := None\<rparr>)) s)"

record writeItem =
  wiType :: string
  wiCollection :: string
  wiRkey :: string
  wiValue :: "obj option"

definition item_op :: "writeItem \<Rightarrow> Op" where
  "item_op i = \<lparr>oType = wiType i, oCollection = wiCollection i, oRkey = Some (wiRkey i), oRecord = wiValue i\<rparr>"

text \<open>The commit of the first result, which an empty list of results does not have.\<close>

definition batch_result :: "ApplyWriteResult list \<Rightarrow> outcome" where
  "batch_result results =
     (case results of
        [] \<Rightarrow> Panic
      | r # _ \<Rightarrow>
          (case awCommit r of
             None \<Rightarrow> Panic
           | Some c \<Rightarrow> writeJSON 200 (JObj [(''commit'', commit_json c),
               (''results'', JArr (map (\<lambda>x. result_json (x\<lparr>awCommit := None\<rparr>)) results))])))"

definition handleApplyWrites ::
  "syntaxLib \<Rightarrow> 's writer \<Rightarrow> RepoActor \<Rightarrow> (string \<times> writeItem list) option \<Rightarrow> 's \<Rightarrow> outcome \<times> 's" where
  "handleApplyWrites X apply_writes repo req s =
     (case req of
        None \<Rightarrow> (ServerError None, s)
      | Some (did, items) \<Rightarrow>
          if did = '''' \<or> \<not> isDid X did then (InputError None, s)
          else if rDid (raRepo repo) \<noteq> did then (InputError None, s)
          else answer_write apply_writes (raRepo repo) (map item_op items) batch_result s)"

section \<open>Reading records\<close>

text \<open>A value decoded from CBOR, as JSON; the field names are those of the response.\<close>

definition record_json :: "Record \<Rightarrow> json \<Rightarrow> json" where
  "record_json r v = JObj [(''uri'', JStr (''at://'' @ recDid r @ ''/'' @ recNsid r @ ''/'' @ recRkey r)),
     (''cid'', JStr (recCid r)), (''value'', v)]"

definition zeroRecord :: Record where
  "zeroRecord = \<lparr>recDid = '''', recCreatedAt = '''', recNsid = '''', recRkey = '''', recCid = '''', recValue = []\<rparr>"

text \<open>
  The record, or what the app view answers (\<open>proxy\<close>) when there is none: an absent row has no value to
  decode.  \<open>dec\<close> decodes a value, \<open>parseCID\<close> checks and normalises the cid of the query.
\<close>

definition handleRepoGetRecord ::
  "faults \<Rightarrow> (bytes \<Rightarrow> goerr + json) \<Rightarrow> (string \<Rightarrow> goerr + string) \<Rightarrow> (request \<Rightarrow> outcome) \<Rightarrow> request \<Rightarrow> db \<Rightarrow> outcome" where
  "handleRepoGetRecord fails dec parseCID proxy r d =
     (let did = get_value (qQuery r) ''repo''; nsid = get_value (qQuery r) ''collection'';
          rkey = get_value (qQuery r) ''rkey''; cidstr = get_value (qQuery r) ''cid'';
          cid = (if cidstr = '''' then Inr None else (case parseCID cidstr of Inl e \<Rightarrow> Inl e | Inr c \<Rightarrow> Inr (Some c)))
      in case cid of
           Inl e \<Rightarrow> httpError (err_string e) 400
         | Inr want \<Rightarrow>
             if fails ''getRecord'' then httpError ''getRecord'' 500
             else let row = (case sql_first (\<lambda>x. recDid x = did \<and> recNsid x = nsid \<and> recRkey x = rkey \<and>
                       (case want of None \<Rightarrow> True | Some c \<Rightarrow> recCid x = c)) (records d) of
                     None \<Rightarrow> zeroRecord | Some x \<Rightarrow> x)
             in (case dec (recValue row) of
                   Inl e \<Rightarrow> proxy r
                 | Inr v \<Rightarrow> writeJSON 200 (record_json row v)))"

definition getLimitFromRequest :: "request \<Rightarrow> int \<Rightarrow> goerr + int" where
  "getLimitFromRequest r def =
     (let s = get_value (qQuery r) ''limit'' in
      if s = '''' then Inr def
      else (case ParseInt 32 s of None \<Rightarrow> Inl (Err ''strconv.ParseInt'') | Some l \<Rightarrow> Inr l))"

definition record_limit :: "int \<Rightarrow> nat" where
  "record_limit l = (if l \<le> 0 then 50 else if l > 100 then 100 else nat l)"

text \<open>A page of records in the order of their creation, newest first unless reversed.\<close>

definition in_collection :: "db \<Rightarrow> string \<Rightarrow> string \<Rightarrow> Record list" where
  "in_collection d did nsid = sql_select (\<lambda>r. recDid r = did \<and> recNsid r = nsid) (records d)"

definition by_time :: "bool \<Rightarrow> Record list \<Rightarrow> Record list" where
  "by_time rv rs = (if rv then sort_key recCreatedAt rs else List.rev (sort_key recCreatedAt rs))"

definition record_page :: "bool \<Rightarrow> db \<Rightarrow> string \<Rightarrow> string \<Rightarrow> nat \<Rightarrow> string option \<Rightarrow> Record list" where
  "record_page rv d did nsid limit cursor =
     take limit (by_time rv (sql_select (\<lambda>r. case cursor of None \<Rightarrow> True
       | Some c \<Rightarrow> if rv then recCreatedAt r > c else recCreatedAt r < c) (in_collection d did nsid)))"

definition record_next :: "bool \<Rightarrow> db \<Rightarrow> string \<Rightarrow> string \<Rightarrow> nat \<Rightarrow> string option \<Rightarrow> string option" where
  "record_next rv d did nsid limit cursor =
     (let page = record_page rv d did nsid limit cursor in
      if length page = limit then Some (recCreatedAt (last page)) else None)"

fun decode_page :: "(bytes \<Rightarrow> goerr + json) \<Rightarrow> Record list \<Rightarrow> json list option" where
  "decode_page dec [] = Some []"
| "decode_page dec (r # rs) =
     (case dec (recValue r) of
        Inl e \<Rightarrow> None
      | Inr v \<Rightarrow> map_option ((#) (record_json r v)) (decode_page dec rs))"

definition handleListRecords ::
  "syntaxLib \<Rightarrow> faults \<Rightarrow> (bytes \<Rightarrow> goerr + json) \<Rightarrow> request \<Rightarrow> db \<Rightarrow> outcome" where
  "handleListRecords X fails dec r d =
     (let repo = get_value (qQuery r) ''repo''; nsid = get_value (qQuery r) ''collection'';
          c = get_value (qQuery r) ''cursor''; cursor = (if c = '''' then None else Some c);
          rv = (get_value (qQuery r) ''reverse'' = ''true'')
      in if repo = '''' \<or> nsid = '''' \<or> \<not> isNsid X nsid then InputError None
      else (case getLimitFromRequest r 50 of
              Inl e \<Rightarrow> InputError None
            | Inr l \<Rightarrow>
                (case (if isDid X repo then Inr repo
                       else (case getActorByHandle fails d repo of Inl e \<Rightarrow> Inl e | Inr a \<Rightarrow> Inr (aDid a))) of
                   Inl e \<Rightarrow> InputError (Some ''RepoNotFound'')
                 | Inr did \<Rightarrow>
                     if fails ''listRecords'' then ServerError None
                     else let page = record_page rv d did nsid (record_limit l) cursor in
                       (case decode_page dec page of
                          None \<Rightarrow> ServerError None
                        | Some items \<Rightarrow> writeJSON 200 (JObj (opt_json ''cursor''
                            (record_next rv d did nsid (record_limit l) cursor) @ [(''records'', JArr items)]))))))"


section \<open>Describing a repository\<close>

text \<open>
  The handle of the DID document (\<open>fetch\<close> gives it with its alsoKnownAs) must be the account's and
  resolve to it.
\<close>

fun doc_handle :: "string list \<Rightarrow> string" where
  "doc_handle [] = ''''"
| "doc_handle (a # as) = (case CutPrefix a ''at://'' of Some h \<Rightarrow> h | None \<Rightarrow> doc_handle as)"

definition handleDescribeRepo ::
  "faults \<Rightarrow> (string \<Rightarrow> goerr + json \<times> string list) \<Rightarrow> (string \<Rightarrow> goerr + string) \<Rightarrow> request \<Rightarrow> db \<Rightarrow> outcome" where
  "handleDescribeRepo fails fetch resolveHandle r d =
     (case getRepoActorByDid fails d (get_value (qQuery r) ''repo'') of
        Inl e \<Rightarrow> if e = ErrRecordNotFound then InputError (Some ''RepoNotFound'') else ServerError None
      | Inr u \<Rightarrow>
          let did = rDid (raRepo u); handle = aHandle (raActor u) in
          (case fetch did of
             Inl e \<Rightarrow> ServerError None
           | Inr (doc, aka) \<Rightarrow>
               (case (if handle \<noteq> doc_handle aka then Inr False
                      else (case resolveHandle handle of Inl e \<Rightarrow> Inl e | Inr x \<Rightarrow> Inr (x = did))) of
                  Inl e \<Rightarrow> ServerError None
                | Inr correct \<Rightarrow>
                    if fails ''describeRepo.nsids'' then ServerError None
                    else writeJSON 200 (JObj [(''did'', JStr did), (''handle'', JStr handle), (''didDoc'', doc),
                      (''collections'', JArr (map JStr (remdups (map recNsid (sql_select (\<lambda>x. recDid x = did) (records d)))))),
                      (''handleIsCorrect'', JBool correct)]))))"

section \<open>Blobs\<close>

text \<open>
  The blobs that records refer to and the account has not uploaded.  A reference is the CID as a string and
  as bytes with the record that holds it; \<open>blobs_of\<close> is \<open>atdata.ExtractBlobs\<close> of a decoded value, empty
  for a value that does not decode.
\<close>

definition getBlobsFromRecord :: "(bytes \<Rightarrow> goerr + cid list) \<Rightarrow> bytes \<Rightarrow> cid list" where
  "getBlobsFromRecord blobs_of data =
     (if data = [] then [] else (case blobs_of data of Inl e \<Rightarrow> [] | Inr cs \<Rightarrow> cs))"

definition blob_references :: "(bytes \<Rightarrow> goerr + cid list) \<Rightarrow> string \<Rightarrow> db \<Rightarrow> (cid \<times> string) list" where
  "blob_references blobs_of did d =
     concat (map (\<lambda>x. map (\<lambda>c. (c, ''at://'' @ did @ ''/'' @ recNsid x @ ''/'' @ recRkey x)) (getBlobsFromRecord blobs_of (recValue x)))
       (sql_select (\<lambda>x. recDid x = did) (records d)))"

fun missing_blobs ::
  "'m repoLib \<Rightarrow> (cid \<Rightarrow> bool) \<Rightarrow> string \<Rightarrow> db \<Rightarrow> string \<Rightarrow> nat \<Rightarrow> (cid \<times> string) list \<Rightarrow> (string \<times> string) list \<Rightarrow>
   (string \<times> string) list" where
  "missing_blobs L countFails did d cursor limit [] found = found"
| "missing_blobs L countFails did d cursor limit ((c, uri) # refs) found =
     (let s = lCidString L c in
      if s \<in> fst ` set found \<or> (cursor \<noteq> '''' \<and> s \<le> cursor) \<or> countFails c \<or>
         sql_select (\<lambda>b. bDid b = did \<and> bCid b = c) (blobs d) \<noteq> []
      then missing_blobs L countFails did d cursor limit refs found
      else let found1 = found @ [(s, uri)] in
        if length found1 \<ge> limit then found1 else missing_blobs L countFails did d cursor limit refs found1)"

definition handleListMissingBlobs ::
  "'m repoLib \<Rightarrow> faults \<Rightarrow> (cid \<Rightarrow> bool) \<Rightarrow> (bytes \<Rightarrow> goerr + cid list) \<Rightarrow> RepoActor \<Rightarrow> request \<Rightarrow> db \<Rightarrow> outcome" where
  "handleListMissingBlobs L fails countFails blobs_of repo r d =
     (let did = rDid (raRepo repo); limit = query_limit 500 1000 (get_value (qQuery r) ''limit'') in
      if fails ''listMissingBlobs'' then ServerError None
      else let found = missing_blobs L countFails did d (get_value (qQuery r) ''cursor'') limit
                 (blob_references blobs_of did d) [];
             nxt = (if found \<noteq> [] \<and> length found \<ge> limit then Some (fst (last found)) else None)
        in writeJSON 200 (JObj (opt_json ''cursor'' nxt @ [(''blobs'',
             JArr (map (\<lambda>(c, u). JObj [(''cid'', JStr c), (''recordUri'', JStr u)]) found))])))"

text \<open>The body is read a block at a time; the last block is the first that is not full.\<close>

definition blockSize :: nat where
  "blockSize = 0x10000"

function read_body :: "bytes \<Rightarrow> bytes \<Rightarrow> nat \<Rightarrow> bytes \<times> nat" where
  "read_body body full n =
     (let b = take blockSize body in
      if b = [] then (full, n)
      else if length b < blockSize then (full @ b, n + length b)
      else read_body (drop blockSize body) (full @ b) (n + length b))"
  by pat_completeness auto

termination
  by (relation "measure (\<lambda>(body, full, n). length body)") (auto simp: blockSize_def)

declare read_body.simps [simp del]

lemma read_body_all: "read_body body full n = (full @ body, n + length body)"
proof (induction body full n rule: read_body.induct)
  case (1 body full n)
  then show ?case
    by (cases "take blockSize body = []"; cases "length (take blockSize body) < blockSize")
       (subst read_body.simps; simp add: Let_def blockSize_def min_def split: if_splits)+
qed

text \<open>
  \<open>add\<close> is the node's answer to a blob; a new row gets an identifier of its own.  The body may fail to be
  read.
\<close>

definition new_blob :: "string \<Rightarrow> string \<Rightarrow> string \<Rightarrow> cid \<Rightarrow> Blob table \<Rightarrow> Blob" where
  "new_blob tid did mime c t = \<lparr>bID = Suc (fold max (map bID t) 0), bCreatedAt = tid, bDid = did, bCid = c, bRefCount = 0,
     bMimeType = mime\<rparr>"

definition addBlobToIPFS :: "('k \<Rightarrow> bytes \<Rightarrow> (goerr + cid) \<times> 'k) \<Rightarrow> bytes \<Rightarrow> 'k \<Rightarrow> (goerr + cid) \<times> 'k" where
  "addBlobToIPFS add data k =
     (case add k data of (Inl e, k') \<Rightarrow> (Inl (Wrap ''error adding blob to ipfs'' e), k') | (Inr c, k') \<Rightarrow> (Inr c, k'))"

definition handleRepoUploadBlob ::
  "'m repoLib \<Rightarrow> ('k \<Rightarrow> bytes \<Rightarrow> (goerr + cid) \<times> 'k) \<Rightarrow> faults \<Rightarrow> RepoActor \<Rightarrow> request \<Rightarrow> goerr + bytes \<Rightarrow>
   ('m, 'k) rmState \<Rightarrow> outcome \<times> ('m, 'k) rmState" where
  "handleRepoUploadBlob L add fails repo r body rs =
     (let h = header_get r ''content-type''; mime = (if h = '''' then ''application/octet-stream'' else h) in
      case body of
        Inl e \<Rightarrow> (ServerError None, rs)
      | Inr b \<Rightarrow>
          (let (full, n) = read_body b [] 0 in
           case addBlobToIPFS add full (rsNode rs) of
             (Inl e, k) \<Rightarrow> (ServerError None, rs\<lparr>rsNode := k\<rparr>)
           | (Inr c, k) \<Rightarrow>
               (let d = rsDb rs; rs1 = rs\<lparr>rsNode := k, rsTick := rsTick rs + 1\<rparr> in
                if fails ''blobs.create'' then (ServerError None, rs1)
                else (writeJSON 200 (JObj [(''blob'', JObj [(''$type'', JStr ''blob''),
                         (''ref'', JObj [(''$link'', JStr (lCidString L c))]), (''mimeType'', JStr mime),
                         (''size'', JNum (int n))])]),
                      rs1\<lparr>rsDb := d\<lparr>blobs := blobs d @ [new_blob (lTid L (rsTick rs)) (rDid (raRepo repo)) mime c (blobs d)]\<rparr>\<rparr>))))"


section \<open>Importing a repository\<close>

text \<open>
  What the CAR reader makes of the body: its roots, its first block (an error when there is none) and the
  blocks that follow until the first error, which is taken for the end.
\<close>

record carFile =
  cfRoots :: "cid list"
  cfFirst :: "goerr + block"
  cfRest :: "block list"

text \<open>
  The walk over the tree, in a transaction: a row per record, with the block read from the store.  A key with
  no slash is an index out of range.
\<close>

fun import_records ::
  "'m repoLib \<Rightarrow> faults \<Rightarrow> (cid \<Rightarrow> goerr + bytes) \<Rightarrow> (nat \<Rightarrow> string) \<Rightarrow> string \<Rightarrow> (string \<times> cid) list \<Rightarrow> nat \<Rightarrow>
   Record table \<Rightarrow> Record table result" where
  "import_records L fails get tid did [] n t = Ret t"
| "import_records L fails get tid did ((key, c) # es) n t =
     (case SplitOn CHR ''/'' key of
        nsid # rkey # _ \<Rightarrow>
          (case get c of
             Inl e \<Rightarrow> Fail e
           | Inr b \<Rightarrow>
               if fails ''import.save'' then Fail (ErrDb ''import.save'')
               else import_records L fails get tid did es (n + 1)
                 (sql_upsert rec_key \<lparr>recDid = did, recCreatedAt = tid n, recNsid = nsid, recRkey = rkey,
                    recCid = lCidString L c, recValue = b\<rparr> t))
      | _ \<Rightarrow> Crash)"

text \<open>
  \<open>walk\<close> lists the entries of a tree in the order of the walk, with the error that stops it; \<open>tid\<close> is the
  clock made for the import.  A failed commit of the transaction is not looked at.
\<close>

definition import_tree ::
  "'m repoLib \<Rightarrow> faults \<Rightarrow> ('m \<Rightarrow> (string \<times> cid) list \<times> goerr option) \<Rightarrow> (cid \<Rightarrow> goerr + bytes) \<Rightarrow> (nat \<Rightarrow> string) \<Rightarrow>
   string \<Rightarrow> 'm \<Rightarrow> db \<Rightarrow> db result" where
  "import_tree L fails walk get tid did m d =
     (let (es, end_err) = walk m in
      case import_records L fails get tid did es 0 (records d) of
        Ret t \<Rightarrow> (case end_err of Some e \<Rightarrow> Fail e | None \<Rightarrow> Ret (if fails ''import.commit'' then d else d\<lparr>records := t\<rparr>))
      | Fail e \<Rightarrow> Fail e
      | Crash \<Rightarrow> Crash)"

definition import_commit ::
  "'m repoLib \<Rightarrow> 'k kubo \<Rightarrow> faults \<Rightarrow> bytes \<Rightarrow> string \<Rightarrow> 'm atpRepo \<Rightarrow> IPFSBlockstore \<Rightarrow> ('m, 'k) rmState \<Rightarrow>
   outcome \<times> ('m, 'k) rmState" where
  "import_commit L K fails rotationKey did r bs rs =
     (case commitRepo L (IPFS_Put K) (Some (\<lambda>s c. IPFS_Verify K (snd s) c)) r rotationKey (bs, rsNode rs) of
        (Inl e, bs', k) \<Rightarrow> (ServerError None, rs\<lparr>rsNode := k\<rparr>)
      | (Inr (root, v), bs', k) \<Rightarrow>
          (case UpdateRepo fails did root v (rsDb rs) of
             Inl e \<Rightarrow> (ServerError None, rs\<lparr>rsNode := k\<rparr>)
           | Inr d \<Rightarrow> (writeHeader 200, rs\<lparr>rsNode := k, rsDb := d\<rparr>)))"

definition handleRepoImportRepo ::
  "'m repoLib \<Rightarrow> 'k kubo \<Rightarrow> faults \<Rightarrow> ('m \<Rightarrow> (string \<times> cid) list \<times> goerr option) \<Rightarrow> (nat \<Rightarrow> string) \<Rightarrow> bytes \<Rightarrow>
   (bytes \<Rightarrow> goerr + carFile) \<Rightarrow> RepoActor \<Rightarrow> goerr + bytes \<Rightarrow> ('m, 'k) rmState \<Rightarrow> outcome \<times> ('m, 'k) rmState" where
  "handleRepoImportRepo L K fails walk tid rotationKey car repo body rs =
     (let did = rDid (raRepo repo) in
      case (case body of Inl e \<Rightarrow> Inl e | Inr b \<Rightarrow> car b) of
        Inl e \<Rightarrow> (ServerError None, rs)
      | Inr cf \<Rightarrow>
          (case cfFirst cf of
             Inl e \<Rightarrow> (ServerError None, rs)
           | Inr b0 \<Rightarrow>
               (case IPFS_PutMany K (List.rev (b0 # cfRest cf)) (newBlockstoreForRepo did, rsNode rs) of
                  (Some e, bs, k) \<Rightarrow> (ServerError None, rs\<lparr>rsNode := k\<rparr>)
                | (None, bs, k) \<Rightarrow>
                    let rs1 = rs\<lparr>rsNode := k\<rparr> in
                    (case cfRoots cf of
                       [] \<Rightarrow> (Panic, rs1)
                     | root # _ \<Rightarrow>
                         (case openRepo L (IPFS_Get K (bs, k)) root did of
                            Inl e \<Rightarrow> (ServerError None, rs1)
                          | Inr r \<Rightarrow>
                              (case import_tree L fails walk (IPFS_Get K (bs, k)) tid did (arMST r) (rsDb rs1) of
                                 Fail e \<Rightarrow> (ServerError None, rs1)
                               | Crash \<Rightarrow> (Panic, rs1)
                               | Ret d \<Rightarrow> import_commit L K fails rotationKey did r bs (rs1\<lparr>rsDb := d\<rparr>)))))))"

section \<open>Lists of records are complete\<close>

lemma by_time_after:
  "by_time rv (sql_select (\<lambda>r. case c of None \<Rightarrow> True | Some k \<Rightarrow> if rv then recCreatedAt r > k else recCreatedAt r < k) t) =
   rows_after (\<lambda>a b. if rv then a < b else b < a) recCreatedAt (by_time rv t) c"
  by (cases c) (auto simp: by_time_def rows_after_def sql_select_def filter_sort rev_filter [symmetric])

lemma sorted_by_time:
  "distinct (map recCreatedAt t) \<Longrightarrow>
   sorted_wrt (\<lambda>a b. if rv then recCreatedAt a < recCreatedAt b else recCreatedAt b < recCreatedAt a) (by_time rv t)"
  using sorted_sort_key_strict [of recCreatedAt t] by (cases rv) (simp_all add: by_time_def sorted_wrt_rev)

interpretation records_pager: pager "distinct (map recCreatedAt (in_collection d did nsid)) \<and> 0 < n"
  "\<lambda>a b. if rv then a < b else b < (a :: string)" recCreatedAt "by_time rv (in_collection d did nsid)"
  "record_page rv d did nsid n" "record_next rv d did nsid n" for d did nsid n rv
proof (unfold_locales, goal_cases)
  case 3
  then show ?case using sorted_by_time [of "in_collection d did nsid" rv] by (cases rv) simp_all
next
  case (4 c)
  show ?case
    by (rule exI [of _ n]) (use 4 in \<open>auto simp: record_page_def record_next_def by_time_after Let_def\<close>)
next
  case (5 c k)
  then show ?case by (auto simp: record_next_def Let_def split: if_splits)
qed (auto split: if_splits)

text \<open>
  C28: a reader that follows the cursors of com.atproto.repo.listRecords, in either direction and with any limit,
  sees every record of the collection exactly once in the order of creation, provided no two records of the
  collection have the same creation stamp.
\<close>

theorem list_records_complete:
  assumes "distinct (map recCreatedAt (in_collection d did nsid))" and "length (in_collection d did nsid) < m"
  shows "follow (record_page rv d did nsid (record_limit l)) (record_next rv d did nsid (record_limit l)) m None =
    by_time rv (in_collection d did nsid)"
proof -
  have "0 < record_limit l" by (simp add: record_limit_def)
  moreover have "length (by_time rv (in_collection d did nsid)) < m" using assms(2) by (simp add: by_time_def)
  ultimately show ?thesis
    using records_pager.follow_all [of d did nsid "record_limit l" rv None m] assms(1) by (simp add: rows_after_def)
qed


definition demo_record :: "string \<Rightarrow> string \<Rightarrow> Record" where
  "demo_record k t = \<lparr>recDid = ''did:a'', recCreatedAt = t, recNsid = ''a'', recRkey = k, recCid = '''', recValue = []\<rparr>"

definition demo_records :: db where
  "demo_records = emptyDb\<lparr>records := [demo_record ''x'' ''2'', demo_record ''y'' ''3'', demo_record ''z'' ''1'']\<rparr>"

theorem list_records_complete_witness:
  "map recRkey (follow (record_page False demo_records ''did:a'' ''a'' (record_limit 0))
     (record_next False demo_records ''did:a'' ''a'' (record_limit 0)) 4 None) = [''y'', ''x'', ''z'']"
proof -
  have "distinct (map recCreatedAt (in_collection demo_records ''did:a'' ''a''))" by code_simp
  moreover have "length (in_collection demo_records ''did:a'' ''a'') < 4" by code_simp
  moreover have "map recRkey (by_time False (in_collection demo_records ''did:a'' ''a'')) = [''y'', ''x'', ''z'']" by code_simp
  ultimately show ?thesis using list_records_complete [of demo_records "''did:a''" "''a''" 4 False 0] by simp
qed

section \<open>What an import leaves\<close>

lemma import_records_other:
  "import_records L fails get tid did es n t = Ret t' \<Longrightarrow>
   (\<And>key c rest nsid rkey. (key, c) \<in> set es \<Longrightarrow> SplitOn CHR ''/'' key = nsid # rkey # rest \<Longrightarrow> k \<noteq> (did, nsid, rkey)) \<Longrightarrow>
   sql_first (\<lambda>r. rec_key r = k) t' = sql_first (\<lambda>r. rec_key r = k) t"
proof (induction es arbitrary: n t)
  case (Cons a es)
  obtain key c where a: "a = (key, c)" by (cases a)
  from Cons.prems(1) obtain nsid rkey rest b where s: "SplitOn CHR ''/'' key = nsid # rkey # rest" "get c = Inr b"
    "import_records L fails get tid did es (n + 1) (sql_upsert rec_key \<lparr>recDid = did, recCreatedAt = tid n, recNsid = nsid,
       recRkey = rkey, recCid = lCidString L c, recValue = b\<rparr> t) = Ret t'"
    by (auto simp: a split: list.splits sum.splits if_splits)
  have "k \<noteq> (did, nsid, rkey)" using Cons.prems(2) [of key c] s(1) by (auto simp: a)
  then have "sql_first (\<lambda>r. rec_key r = k) (sql_upsert rec_key \<lparr>recDid = did, recCreatedAt = tid n, recNsid = nsid,
       recRkey = rkey, recCid = lCidString L c, recValue = b\<rparr> t) = sql_first (\<lambda>r. rec_key r = k) t"
    by (intro sql_first_upsert_other) (auto simp: rec_key_def)
  with Cons.IH [OF s(3)] Cons.prems(2) show ?case by (simp add: a) blast
qed simp

text \<open>Where a path of the tree goes in the table.\<close>

definition path_key :: "string \<Rightarrow> string \<Rightarrow> string \<times> string \<times> string" where
  "path_key did key = (did, SplitOn CHR ''/'' key ! 0, SplitOn CHR ''/'' key ! 1)"

definition indexed :: "'m repoLib \<Rightarrow> (cid \<Rightarrow> goerr + bytes) \<Rightarrow> string \<Rightarrow> Record table \<Rightarrow> string \<times> cid \<Rightarrow> bool" where
  "indexed L get did t e \<longleftrightarrow> (\<exists>r b. sql_first (\<lambda>x. rec_key x = path_key did (fst e)) t = Some r \<and>
     recCid r = lCidString L (snd e) \<and> get (snd e) = Inr b \<and> recValue r = b)"

lemma import_records_indexed:
  "import_records L fails get tid did es n t = Ret t' \<Longrightarrow> distinct (map (path_key did \<circ> fst) es) \<Longrightarrow>
   e \<in> set es \<Longrightarrow> indexed L get did t' e"
proof (induction es arbitrary: n t)
  case (Cons a es)
  obtain key c where a: "a = (key, c)" by (cases a)
  from Cons.prems(1) obtain nsid rkey rest b where s: "SplitOn CHR ''/'' key = nsid # rkey # rest" "get c = Inr b"
    "import_records L fails get tid did es (n + 1) (sql_upsert rec_key \<lparr>recDid = did, recCreatedAt = tid n, recNsid = nsid,
       recRkey = rkey, recCid = lCidString L c, recValue = b\<rparr> t) = Ret t'"
    by (auto simp: a split: list.splits sum.splits if_splits)
  let ?r = "\<lparr>recDid = did, recCreatedAt = tid n, recNsid = nsid, recRkey = rkey, recCid = lCidString L c, recValue = b\<rparr>"
  show ?case
  proof (cases "e \<in> set es")
    case True
    with Cons.IH [OF s(3)] Cons.prems(2) show ?thesis by simp
  next
    case False
    with Cons.prems(3) have e: "e = (key, c)" by (simp add: a)
    have k: "path_key did key = (did, nsid, rkey)" by (simp add: path_key_def s(1))
    have "(did, nsid, rkey) \<noteq> (did, nsid', rkey')"
      if "(key', c') \<in> set es" "SplitOn CHR ''/'' key' = nsid' # rkey' # rest'" for key' c' nsid' rkey' rest'
    proof -
      have "path_key did key' = (did, nsid', rkey')" by (simp add: path_key_def that(2))
      moreover have "path_key did key' \<in> (path_key did \<circ> fst) ` set es" using that(1) by (force simp: image_iff)
      ultimately show ?thesis using Cons.prems(2) k by (auto simp: a)
    qed
    then have "sql_first (\<lambda>x. rec_key x = (did, nsid, rkey)) t' = sql_first (\<lambda>x. rec_key x = (did, nsid, rkey)) (sql_upsert rec_key ?r t)"
      by (intro import_records_other [OF s(3)]) blast
    also have "\<dots> = Some ?r" using sql_first_upsert [of rec_key ?r t] by (simp add: rec_key_def)
    finally show ?thesis using s(2) by (simp add: indexed_def e k)
  qed
qed simp


lemma UpdateRepo_rows:
  assumes "UpdateRepo fails did c v d = Inr d'"
  shows "records d' = records d" and "x \<in> set (repos d') \<Longrightarrow> rDid x = did \<Longrightarrow> rRoot x = c \<and> rRev x = v"
proof -
  have d: "d' = d\<lparr>repos := sql_update (\<lambda>x. rDid x = did) (\<lambda>x. x\<lparr>rRoot := c, rRev := v\<rparr>) (repos d)\<rparr>"
    using assms by (simp add: UpdateRepo_def split: if_splits)
  show "records d' = records d" by (simp add: d)
  show "x \<in> set (repos d') \<Longrightarrow> rDid x = did \<Longrightarrow> rRoot x = c \<and> rRev x = v"
  proof -
    assume x: "x \<in> set (repos d')" and did: "rDid x = did"
    from x have "x \<in> set (sql_update (\<lambda>x. rDid x = did) (\<lambda>x. x\<lparr>rRoot := c, rRev := v\<rparr>) (repos d))" by (simp add: d)
    from sql_update_cases [OF this] did show "rRoot x = c \<and> rRev x = v" by (elim disjE bexE conjE) simp_all
  qed
qed

lemmas answers = writeHeader_def ServerError_def genericError_def writeJSON_def

text \<open>The steps an import answered with 200 has taken.\<close>

lemma import_200:
  assumes "handleRepoImportRepo L K fails walk tid key car repo (Inr body) rs = (writeHeader 200, rs')" and "car body = Inr cf"
  obtains root rest bs k r d where "cfRoots cf = root # rest"
    and "openRepo L (IPFS_Get K (bs, k)) root (rDid (raRepo repo)) = Inr r"
    and "import_tree L fails walk (IPFS_Get K (bs, k)) tid (rDid (raRepo repo)) (arMST r) (rsDb rs) = Ret d"
    and "import_commit L K fails key (rDid (raRepo repo)) r bs (rs\<lparr>rsNode := k, rsDb := d\<rparr>) = (writeHeader 200, rs')"
proof -
  let ?did = "rDid (raRepo repo)"
  note h = assms(1)
  obtain b0 where b0: "cfFirst cf = Inr b0"
    using h by (cases "cfFirst cf") (auto simp: handleRepoImportRepo_def assms(2) answers)
  obtain e bs k where p: "IPFS_PutMany K (List.rev (b0 # cfRest cf)) (newBlockstoreForRepo ?did, rsNode rs) = (e, bs, k)"
    by (metis prod_cases3)
  have e: "e = None"
    using h p by (cases e) (auto simp: handleRepoImportRepo_def assms(2) b0 answers)
  obtain root rest where roots: "cfRoots cf = root # rest"
    using h p by (cases "cfRoots cf") (auto simp: handleRepoImportRepo_def assms(2) b0 e writeHeader_def)
  obtain r where r: "openRepo L (IPFS_Get K (bs, k)) root ?did = Inr r"
    using h p by (cases "openRepo L (IPFS_Get K (bs, k)) root ?did")
      (auto simp: handleRepoImportRepo_def assms(2) b0 e roots answers)
  obtain d where d: "import_tree L fails walk (IPFS_Get K (bs, k)) tid ?did (arMST r) (rsDb rs) = Ret d"
    using h p by (cases "import_tree L fails walk (IPFS_Get K (bs, k)) tid ?did (arMST r) (rsDb rs)")
      (auto simp: handleRepoImportRepo_def assms(2) b0 e roots r answers)
  have c: "import_commit L K fails key ?did r bs (rs\<lparr>rsNode := k, rsDb := d\<rparr>) = (writeHeader 200, rs')"
    using h p by (simp add: handleRepoImportRepo_def assms(2) b0 e roots r d)
  show ?thesis by (rule that [OF roots r d c])
qed

text \<open>
  An import that is answered with 200 has indexed the tree it opened: for every path of the tree the
  record table holds a row of the account under that collection and key, with the CID the tree has there and
  the block the store has for that CID; and the account's root is the CID of a commit over the tree signed with
  the rotation key.
\<close>

theorem import_indexes:
  assumes "handleRepoImportRepo L K fails walk tid key car repo (Inr body) rs = (writeHeader 200, rs')"
    and "car body = Inr cf" and "\<not> fails ''import.commit''"
    and "\<And>m. distinct (map (path_key (rDid (raRepo repo)) \<circ> fst) (fst (walk m)))"
  shows "\<exists>root r bs k. hd (cfRoots cf) = root \<and> openRepo L (IPFS_Get K (bs, k)) root (rDid (raRepo repo)) = Inr r \<and>
    (\<forall>e \<in> set (fst (walk (arMST r))). indexed L (IPFS_Get K (bs, k)) (rDid (raRepo repo)) (records (rsDb rs')) e) \<and>
    (\<exists>c v s. commitRepo L (IPFS_Put K) (Some (\<lambda>s c. IPFS_Verify K (snd s) c)) r key (bs, k) = (Inr (c, v), s) \<and>
      (\<forall>x \<in> set (repos (rsDb rs')). rDid x = rDid (raRepo repo) \<longrightarrow> rRoot x = c \<and> rRev x = v))"
proof -
  let ?did = "rDid (raRepo repo)"
  from import_200 [OF assms(1,2)] obtain root rest bs k r d where s: "cfRoots cf = root # rest"
    "openRepo L (IPFS_Get K (bs, k)) root ?did = Inr r"
    "import_tree L fails walk (IPFS_Get K (bs, k)) tid ?did (arMST r) (rsDb rs) = Ret d"
    "import_commit L K fails key ?did r bs (rs\<lparr>rsNode := k, rsDb := d\<rparr>) = (writeHeader 200, rs')" .
  obtain c v s' d' where cm: "commitRepo L (IPFS_Put K) (Some (\<lambda>s c. IPFS_Verify K (snd s) c)) r key (bs, k) = (Inr (c, v), s')"
    "UpdateRepo fails ?did c v d = Inr d'" "rsDb rs' = d'"
    using s(4) by (auto simp: import_commit_def answers split: prod.splits sum.splits)
  obtain es end_err where w: "walk (arMST r) = (es, end_err)" by (cases "walk (arMST r)")
  obtain t where t: "import_records L fails (IPFS_Get K (bs, k)) tid ?did es 0 (records (rsDb rs)) = Ret t" "d = (rsDb rs)\<lparr>records := t\<rparr>"
    using s(3) assms(3) by (auto simp: import_tree_def w split: result.splits option.splits)
  have "distinct (map (path_key ?did \<circ> fst) es)" using assms(4) [of "arMST r"] by (simp add: w)
  then have "\<forall>e \<in> set es. indexed L (IPFS_Get K (bs, k)) ?did t e" using import_records_indexed [OF t(1)] by blast
  then have rows: "\<forall>e \<in> set (fst (walk (arMST r))). indexed L (IPFS_Get K (bs, k)) ?did (records (rsDb rs')) e"
    using UpdateRepo_rows(1) [OF cm(2)] by (simp add: w cm(3) t(2))
  have upd: "\<forall>x \<in> set (repos (rsDb rs')). rDid x = ?did \<longrightarrow> rRoot x = c \<and> rRev x = v"
    using UpdateRepo_rows(2) [OF cm(2)] cm(3) by simp
  show ?thesis
    by (insert s(1,2) cm(1) rows upd, rule exI [of _ root], rule exI [of _ r], rule exI [of _ bs], rule exI [of _ k]) auto
qed

text \<open>A tree of one path, imported.\<close>

definition demo_car :: carFile where
  "demo_car = \<lparr>cfRoots = [[18, 0, 0]], cfFirst = Inr ([18, 0, 0], 0 # 0 # to_bytes ''a/x''),
     cfRest = [([18], [5]), (to_bytes ''a/x'', [])]\<rparr>"

definition demo_walk :: "demo_tree \<Rightarrow> (string \<times> cid) list \<times> goerr option" where
  "demo_walk m = (case m of [] \<Rightarrow> [] | e # _ \<Rightarrow> [e], None)"

definition demo_owner :: RepoActor where
  "demo_owner = \<lparr>raRepo = demo_account, raActor = \<lparr>aDid = ''did:a'', aHandle = ''a''\<rparr>\<rparr>"

abbreviation demo_import :: "outcome \<times> (demo_tree, block list) rmState" where
  "demo_import \<equiv> handleRepoImportRepo demo_repoLib demo_kubo (\<lambda>_. False) demo_walk (\<lambda>_. ''t'') [3] (\<lambda>_. Inr demo_car)
     demo_owner (Inr []) demo_rs"

lemma demo_import_rows:
  "(case demo_import of (x, rs) \<Rightarrow> x = writeHeader 200 \<and>
      map (\<lambda>r. (recRkey r, recValue r)) (records (rsDb rs)) = [(''x'', [5])])"
  by code_simp

theorem import_indexes_witness:
  "\<exists>r bs k. openRepo demo_repoLib (IPFS_Get demo_kubo (bs, k)) [18, 0, 0] ''did:a'' = Inr r \<and>
    (\<forall>e \<in> set (fst (demo_walk (arMST r))). indexed demo_repoLib (IPFS_Get demo_kubo (bs, k)) ''did:a''
      (records (rsDb (snd demo_import))) e)"
proof -
  have ok: "demo_import = (writeHeader 200, snd demo_import)" using demo_import_rows by (cases demo_import) simp
  have dist: "distinct (map (path_key (rDid (raRepo demo_owner)) \<circ> fst) (fst (demo_walk m)))" for m
    by (cases m) (simp_all add: demo_walk_def)
  have did: "rDid (raRepo demo_owner) = ''did:a''" by (simp add: demo_owner_def demo_account_def)
  show ?thesis
    using import_indexes [OF ok refl _ dist] unfolding did by (simp add: demo_car_def) blast
qed

text \<open>A batch with no writes is an index out of range once there are no results.\<close>

lemma empty_batch_panics:
  assumes "did \<noteq> ''''" and "isDid X did" and "rDid (raRepo repo) = did"
  shows "fst (handleApplyWrites X (\<lambda>r ops s. (Ret [], s)) repo (Some (did, [])) s) = Panic"
  using assms by (simp add: handleApplyWrites_def answer_write_def batch_result_def)

end
