(* ===== verification/Mail.thy ===== *)
theory Mail
  imports Http
begin

text \<open>
  The mails of the server (server/mail.go).  The lock around the one mail object makes each sending atomic; without
  mail settings nothing is sent and no error is reported.
\<close>

record mailMessage =
  mmTo :: string
  mmSubject :: string
  mmPlain :: string

text \<open>The host name of the server and the mail server, which may refuse a message.\<close>

record mailYak =
  myHostname :: string
  mySend :: "mailMessage \<Rightarrow> goerr option"

definition send_mail :: "mailYak option \<Rightarrow> string \<Rightarrow> string \<Rightarrow> string \<Rightarrow> goerr option" where
  "send_mail mail email subject text1 =
     (case mail of
        None \<Rightarrow> None
      | Some y \<Rightarrow> mySend y \<lparr>mmTo = email, mmSubject = subject @ myHostname y, mmPlain = text1\<rparr>)"

definition code_mail :: "string \<Rightarrow> string \<Rightarrow> string \<Rightarrow> string" where
  "code_mail what handle c =
     ''Hello '' @ handle @ ''. Your '' @ what @ '' code is '' @ c @ ''. This code will expire in ten minutes.''"

definition sendWelcomeMail :: "mailYak option \<Rightarrow> string \<Rightarrow> string \<Rightarrow> goerr option" where
  "sendWelcomeMail mail email handle =
     send_mail mail email ''Welcome to '' (''Welcome to '' @ email @ ''! Your handle is '' @ handle @ ''.'')"

definition sendPasswordReset :: "mailYak option \<Rightarrow> string \<Rightarrow> string \<Rightarrow> string \<Rightarrow> goerr option" where
  "sendPasswordReset mail email handle c = send_mail mail email ''Password reset for '' (code_mail ''password reset'' handle c)"

definition sendPlcTokenReset :: "mailYak option \<Rightarrow> string \<Rightarrow> string \<Rightarrow> string \<Rightarrow> goerr option" where
  "sendPlcTokenReset mail email handle c = send_mail mail email ''PLC token for '' (code_mail ''PLC operation'' handle c)"

definition sendEmailUpdate :: "mailYak option \<Rightarrow> string \<Rightarrow> string \<Rightarrow> string \<Rightarrow> goerr option" where
  "sendEmailUpdate mail email handle c = send_mail mail email ''Email update for '' (code_mail ''email update'' handle c)"

definition sendEmailVerification :: "mailYak option \<Rightarrow> string \<Rightarrow> string \<Rightarrow> string \<Rightarrow> goerr option" where
  "sendEmailVerification mail email handle c =
     send_mail mail email ''Email verification for '' (code_mail ''email verification'' handle c)"

end
