(* ===== verification/Accounts.thy ===== *)
theory Accounts
  imports Session AtSyntax Events Mail
begin

text \<open>
  The com.atproto.server handlers that read and change one account (server/handle_server_*.go): codes sent by
  mail, e-mail and password, activation, status, invite codes, and the deletion of an account.  The account of
  the request is the row the middleware loaded.  The mails are those of server/mail.go.
\<close>

definition upd_repo :: "string \<Rightarrow> (Repo \<Rightarrow> Repo) \<Rightarrow> db \<Rightarrow> db" where
  "upd_repo did f d = d\<lparr>repos := sql_update (\<lambda>x. rDid x = did) f (repos d)\<rparr>"

lemma upd_repo_row:
  assumes "x \<in> set (repos (upd_repo did f d))" and "rDid x = did" and "\<And>r. rDid (f r) = rDid r"
  shows "\<exists>r \<in> set (repos d). rDid r = did \<and> x = f r"
proof -
  from assms(1) have "x \<in> set (sql_update (\<lambda>x. rDid x = did) f (repos d))" by (simp add: upd_repo_def)
  from sql_update_cases [OF this] assms(2) show ?thesis by blast
qed

text \<open>A function of server/mail.go: address, handle and code; the error of the mail server.\<close>

type_synonym mailer = "string \<Rightarrow> string \<Rightarrow> string \<Rightarrow> goerr option"

section \<open>Codes\<close>

text \<open>Two random parts with a dash; a failing source of randomness panics.\<close>

definition fresh_code :: "nat \<Rightarrow> (nat \<Rightarrow> nat option) \<Rightarrow> (nat \<Rightarrow> nat option) \<Rightarrow> string option" where
  "fresh_code n draw1 draw2 =
     (case RandomVarchar draw1 n of
        None \<Rightarrow> None
      | Some a \<Rightarrow> (case RandomVarchar draw2 n of None \<Rightarrow> None | Some b \<Rightarrow> Some (a @ ''-'' @ b)))"

text \<open>What the four request handlers share: a code stored with an expiry in ten minutes, and a mail.\<close>

definition send_code ::
  "server \<Rightarrow> mailer \<Rightarrow> (nat \<Rightarrow> nat option) \<Rightarrow> (nat \<Rightarrow> nat option) \<Rightarrow> string \<Rightarrow> (string \<Rightarrow> time \<Rightarrow> Repo \<Rightarrow> Repo) \<Rightarrow> outcome \<Rightarrow>
   RepoActor \<Rightarrow> db \<Rightarrow> outcome \<times> db" where
  "send_code sv mail draw1 draw2 label set_code answer repo d =
     (case fresh_code 5 draw1 draw2 of
        None \<Rightarrow> (Panic, d)
      | Some c \<Rightarrow>
          (case db_exec sv label (upd_repo (rDid (raRepo repo)) (set_code c (sNow sv + 10 * Minute))) d of
             Inl e \<Rightarrow> (ServerError None, d)
           | Inr d' \<Rightarrow>
               (case mail (rEmail (raRepo repo)) (aHandle (raActor repo)) c of
                  Some e \<Rightarrow> (ServerError None, d')
                | None \<Rightarrow> (answer, d'))))"

definition handleServerRequestEmailConfirmation ::
  "server \<Rightarrow> mailYak option \<Rightarrow> (nat \<Rightarrow> nat option) \<Rightarrow> (nat \<Rightarrow> nat option) \<Rightarrow> RepoActor \<Rightarrow> db \<Rightarrow> outcome \<times> db" where
  "handleServerRequestEmailConfirmation sv mail draw1 draw2 repo d =
     (if rEmailConfirmedAt (raRepo repo) \<noteq> None then (InputError (Some ''InvalidRequest''), d)
      else send_code sv (sendEmailVerification mail) draw1 draw2 ''repos.verification''
        (\<lambda>c t x. x\<lparr>rEmailVerificationCode := Some c, rEmailVerificationCodeExpiresAt := Some t\<rparr>) (writeHeader 200) repo d)"

definition handleServerRequestEmailUpdate ::
  "server \<Rightarrow> mailYak option \<Rightarrow> (nat \<Rightarrow> nat option) \<Rightarrow> (nat \<Rightarrow> nat option) \<Rightarrow> RepoActor \<Rightarrow> db \<Rightarrow> outcome \<times> db" where
  "handleServerRequestEmailUpdate sv mail draw1 draw2 repo d =
     (let confirmed = (rEmailConfirmedAt (raRepo repo) \<noteq> None);
          answer = writeJSON 200 (JObj [(''tokenRequired'', JBool confirmed)])
      in if confirmed then send_code sv (sendEmailUpdate mail) draw1 draw2 ''repos.emailUpdate''
           (\<lambda>c t x. x\<lparr>rEmailUpdateCode := Some c, rEmailUpdateCodeExpiresAt := Some t\<rparr>) answer repo d
         else (answer, d))"

text \<open>\<open>req\<close>: the e-mail address of the body, \<open>None\<close> when it does not decode.\<close>

definition handleServerRequestPasswordReset ::
  "server \<Rightarrow> mailYak option \<Rightarrow> (nat \<Rightarrow> nat option) \<Rightarrow> (nat \<Rightarrow> nat option) \<Rightarrow> RepoActor option \<Rightarrow> string option \<Rightarrow> db \<Rightarrow> outcome \<times> db" where
  "handleServerRequestPasswordReset sv mail draw1 draw2 ctx req d =
     (let go = (\<lambda>repo. send_code sv (sendPasswordReset mail) draw1 draw2 ''repos.passwordReset''
            (\<lambda>c t x. x\<lparr>rPasswordResetCode := Some c, rPasswordResetCodeExpiresAt := Some t\<rparr>) (writeHeader 200) repo d)
      in case ctx of
           Some repo \<Rightarrow> go repo
         | None \<Rightarrow>
             (case req of
                None \<Rightarrow> (ServerError None, d)
              | Some email \<Rightarrow>
                  if email = '''' then (InputError None, d)
                  else (case getRepoActorByEmail (sFails sv) d email of
                          Inl e \<Rightarrow> (ServerError None, d)
                        | Inr repo \<Rightarrow> go repo)))"

definition handleIdentityRequestPlcOperationSignature ::
  "server \<Rightarrow> mailYak option \<Rightarrow> (nat \<Rightarrow> nat option) \<Rightarrow> (nat \<Rightarrow> nat option) \<Rightarrow> RepoActor \<Rightarrow> db \<Rightarrow> outcome \<times> db" where
  "handleIdentityRequestPlcOperationSignature sv mail draw1 draw2 repo d =
     send_code sv (sendPlcTokenReset mail) draw1 draw2 ''repos.plcCode''
       (\<lambda>c t x. x\<lparr>rPlcOperationCode := Some c, rPlcOperationCodeExpiresAt := Some t\<rparr>) (writeHeader 200) repo d"

text \<open>Checking a code against the stored one and its expiry; \<open>absent\<close> and \<open>wrong\<close> are the answers of the handler.\<close>

definition code_error :: "time \<Rightarrow> outcome \<Rightarrow> outcome \<Rightarrow> string option \<Rightarrow> time option \<Rightarrow> string \<Rightarrow> outcome option" where
  "code_error now absent wrong stored expires token =
     (case (stored, expires) of
        (Some c, Some t) \<Rightarrow>
          if c \<noteq> token then Some wrong else if now > t then Some ExpiredTokenError else None
      | _ \<Rightarrow> Some absent)"

lemma code_error_None:
  "code_error now absent wrong stored expires token = None \<longleftrightarrow> (\<exists>t. stored = Some token \<and> expires = Some t \<and> now \<le> t)"
  by (auto simp: code_error_def split: option.splits)

definition handleServerConfirmEmail :: "server \<Rightarrow> RepoActor \<Rightarrow> (string \<times> string) option \<Rightarrow> db \<Rightarrow> outcome \<times> db" where
  "handleServerConfirmEmail sv repo req d =
     (case req of
        None \<Rightarrow> (ServerError None, d)
      | Some (email, token) \<Rightarrow>
          if email = '''' \<or> token = '''' then (InputError None, d)
          else (case code_error (sNow sv) ExpiredTokenError (InputError (Some ''InvalidToken''))
                  (rEmailVerificationCode (raRepo repo)) (rEmailVerificationCodeExpiresAt (raRepo repo)) token of
                  Some w \<Rightarrow> (w, d)
                | None \<Rightarrow>
                    (case db_exec sv ''repos.confirmEmail'' (upd_repo (rDid (raRepo repo)) (\<lambda>x.
                        x\<lparr>rEmailVerificationCode := None, rEmailVerificationCodeExpiresAt := None,
                          rEmailConfirmedAt := Some (sNow sv)\<rparr>)) d of
                       Inl e \<Rightarrow> (ServerError None, d)
                     | Inr d' \<Rightarrow> (writeHeader 200, d'))))"

text \<open>The new address is not checked against the other accounts here, only by the unique index of the table.\<close>

definition email_taken :: "db \<Rightarrow> string \<Rightarrow> string \<Rightarrow> bool" where
  "email_taken d did email \<longleftrightarrow> (\<exists>x \<in> set (repos d). rEmail x = email \<and> rDid x \<noteq> did)"

definition handleServerUpdateEmail :: "server \<Rightarrow> RepoActor \<Rightarrow> (string \<times> string) option \<Rightarrow> db \<Rightarrow> outcome \<times> db" where
  "handleServerUpdateEmail sv repo req d =
     (case req of
        None \<Rightarrow> (ServerError None, d)
      | Some (email, token) \<Rightarrow>
          if email = '''' then (InputError None, d)
          else (case (if token = '''' then None
                      else code_error (sNow sv) InvalidTokenError InvalidTokenError (rEmailUpdateCode (raRepo repo))
                        (rEmailUpdateCodeExpiresAt (raRepo repo)) token) of
                  Some w \<Rightarrow> (w, d)
                | None \<Rightarrow>
                    if email_taken d (rDid (raRepo repo)) email then (ServerError None, d)
                    else (case db_exec sv ''repos.updateEmail'' (upd_repo (rDid (raRepo repo)) (\<lambda>x.
                        (if rEmail (raRepo repo) \<noteq> email then x\<lparr>rEmailConfirmedAt := None\<rparr> else x)
                          \<lparr>rEmailUpdateCode := None, rEmailUpdateCodeExpiresAt := None, rEmail := email\<rparr>)) d of
                       Inl e \<Rightarrow> (ServerError None, d)
                     | Inr d' \<Rightarrow> (writeHeader 200, d'))))"

definition handleServerResetPassword :: "server \<Rightarrow> RepoActor \<Rightarrow> (string \<times> string) option \<Rightarrow> db \<Rightarrow> outcome \<times> db" where
  "handleServerResetPassword sv repo req d =
     (case req of
        None \<Rightarrow> (ServerError None, d)
      | Some (token, password) \<Rightarrow>
          if token = '''' \<or> password = '''' then (InputError None, d)
          else (case code_error (sNow sv) (InputError (Some ''InvalidToken'')) InvalidTokenError
                  (rPasswordResetCode (raRepo repo)) (rPasswordResetCodeExpiresAt (raRepo repo)) token of
                  Some w \<Rightarrow> (w, d)
                | None \<Rightarrow>
                    (case sBcrypt sv password of
                       None \<Rightarrow> (ServerError None, d)
                     | Some hash \<Rightarrow>
                         (case db_exec sv ''repos.resetPassword'' (upd_repo (rDid (raRepo repo)) (\<lambda>x.
                             x\<lparr>rPasswordResetCode := None, rPasswordResetCodeExpiresAt := None, rPassword := hash\<rparr>)) d of
                            Inl e \<Rightarrow> (ServerError None, d)
                          | Inr d' \<Rightarrow> (writeHeader 200, d')))))"


section \<open>Preferences\<close>

text \<open>\<open>dec\<close> and \<open>enc\<close> are JSON decoding into a map (null is the empty map) and encoding.\<close>

definition handleActorGetPreferences :: "(bytes \<Rightarrow> goerr + obj) \<Rightarrow> RepoActor \<Rightarrow> outcome" where
  "handleActorGetPreferences dec repo =
     (let none = writeJSON 200 (JObj [(''preferences'', JArr [])]) in
      case dec (rPreferences (raRepo repo)) of
        Inl e \<Rightarrow> none
      | Inr m \<Rightarrow> if jget m ''preferences'' \<in> {None, Some JNull} then none else writeJSON 200 (JObj m))"

definition handleActorPutPreferences ::
  "server \<Rightarrow> (obj \<Rightarrow> goerr + bytes) \<Rightarrow> RepoActor \<Rightarrow> goerr + obj \<Rightarrow> db \<Rightarrow> outcome \<times> db" where
  "handleActorPutPreferences sv enc repo req d =
     (case req of
        Inl e \<Rightarrow> (httpError (err_string e) 400, d)
      | Inr m \<Rightarrow>
          (case enc m of
             Inl e \<Rightarrow> (httpError (err_string e) 500, d)
           | Inr b \<Rightarrow>
               (case db_exec sv ''repos.preferences'' (upd_repo (rDid (raRepo repo)) (\<lambda>x. x\<lparr>rPreferences := b\<rparr>)) d of
                  Inl e \<Rightarrow> (httpError (err_string e) 500, d)
                | Inr d' \<Rightarrow> (writeHeader 200, d'))))"

section \<open>Activation and status\<close>

text \<open>The event manager hands an event to the persister; its error is logged only.\<close>

type_synonym add_event = "XRPCStreamEvent \<Rightarrow> DbPersister \<Rightarrow> goerr option \<times> DbPersister"

definition account_event :: "time \<Rightarrow> string \<Rightarrow> bool \<Rightarrow> string option \<Rightarrow> XRPCStreamEvent" where
  "account_event now did active status =
     RepoAccount \<lparr>aeSeq = now div 1000, aeDid = did, aeActive = active, aeStatus = status, aeTime = now\<rparr>"

definition set_active ::
  "server \<Rightarrow> add_event \<Rightarrow> bool \<Rightarrow> RepoActor \<Rightarrow> db \<times> DbPersister \<Rightarrow> outcome \<times> db \<times> DbPersister" where
  "set_active sv add active repo s =
     (let did = rDid (raRepo repo) in
      case db_exec sv ''repos.deactivated'' (upd_repo did (\<lambda>x. x\<lparr>rDeactivated := \<not> active\<rparr>)) (fst s) of
        Inl e \<Rightarrow> (ServerError None, s)
      | Inr d' \<Rightarrow> (writeHeader 200, d', snd (add (account_event (sNow sv) did active
          (if active then None else Some ''deactivated'')) (snd s))))"

definition handleServerActivateAccount ::
  "server \<Rightarrow> add_event \<Rightarrow> RepoActor \<Rightarrow> db \<times> DbPersister \<Rightarrow> outcome \<times> db \<times> DbPersister" where
  "handleServerActivateAccount sv add repo s = set_active sv add True repo s"

definition handleServerDeactivateAccount ::
  "server \<Rightarrow> add_event \<Rightarrow> RepoActor \<Rightarrow> db \<times> DbPersister \<Rightarrow> outcome \<times> db \<times> DbPersister" where
  "handleServerDeactivateAccount sv add repo s = set_active sv add False repo s"

text \<open>
  \<open>blocks\<close> is the count of a table the program does not create, \<open>cidString\<close> casts a root and writes it.
\<close>

definition handleServerCheckAccountStatus ::
  "server \<Rightarrow> (bytes \<Rightarrow> goerr + string) \<Rightarrow> goerr + int \<Rightarrow> RepoActor \<Rightarrow> db \<Rightarrow> outcome" where
  "handleServerCheckAccountStatus sv cidString blocks repo d =
     (let r = raRepo repo; did = rDid r in
      case (if rRoot r = [] then Inr '''' else cidString (rRoot r)) of
        Inl e \<Rightarrow> ServerError None
      | Inr commit \<Rightarrow>
          (case blocks of
             Inl e \<Rightarrow> ServerError None
           | Inr nb \<Rightarrow>
               if sFails sv ''records.count'' \<or> sFails sv ''blobs.count'' then ServerError None
               else let nblobs = int (length (sql_select (\<lambda>b. bDid b = did) (blobs d))) in
                 writeJSON 200 (JObj [(''activated'', JBool (Active r)), (''validDid'', JBool (rRoot r \<noteq> [])),
                   (''repoCommit'', JStr commit), (''repoRev'', JStr (rRev r)), (''repoBlocks'', JNum nb),
                   (''indexedRecords'', JNum (int (length (sql_select (\<lambda>x. recDid x = did) (records d))))),
                   (''privateStateValues'', JNum 0), (''expectedBlobs'', JNum nblobs), (''importedBlobs'', JNum nblobs)])))"

definition handleDescribeServer :: "server \<Rightarrow> string \<Rightarrow> outcome" where
  "handleDescribeServer sv contact = writeJSON 200 (JObj [(''inviteCodeRequired'', JBool (sRequireInvite sv)),
     (''phoneVerificationRequired'', JBool False), (''availableUserDomains'', JArr [JStr (''.'' @ sHostname sv)]),
     (''links'', JObj []), (''contact'', JObj [(''email'', JStr contact)]), (''did'', JStr (sDid sv))])"

text \<open>\<open>pub_key\<close> parses the registered signing key and writes it as did:key.\<close>

definition handleGetSigningKey :: "(bytes \<Rightarrow> goerr + string) \<Rightarrow> RepoActor option \<Rightarrow> outcome" where
  "handleGetSigningKey pub_key ctx =
     (case ctx of
        None \<Rightarrow> UnauthorizedError None
      | Some repo \<Rightarrow>
          if rSigningPublicKey (raRepo repo) = []
          then InputError (Some ''no signing key registered for this account'')
          else (case pub_key (rSigningPublicKey (raRepo repo)) of
                  Inl e \<Rightarrow> ServerError None
                | Inr k \<Rightarrow> writeJSON 200 (JObj [(''did'', JStr (rDid (raRepo repo))), (''publicKey'', JStr k)])))"

section \<open>Invite codes\<close>

definition create_invite :: "server \<Rightarrow> string \<Rightarrow> string \<Rightarrow> int \<Rightarrow> db \<Rightarrow> goerr + db" where
  "create_invite sv c did uses d =
     db_create sv ''inviteCodes.create'' icCode inviteCodes (\<lambda>t d. d\<lparr>inviteCodes := t\<rparr>)
       \<lparr>icCode = c, icDid = did, icRemainingUseCount = uses, icCreatedAt = sNow sv, icDisabled = False\<rparr> d"

definition handleCreateInviteCode :: "server \<Rightarrow> (int \<times> string option) option \<Rightarrow> db \<Rightarrow> outcome \<times> db" where
  "handleCreateInviteCode sv req d =
     (case req of
        None \<Rightarrow> (ServerError None, d)
      | Some (uses, account) \<Rightarrow>
          if uses = 0 then (InputError None, d)
          else (case create_invite sv (sUuid sv 0) (case account of None \<Rightarrow> ''admin'' | Some a \<Rightarrow> a) uses d of
                  Inl e \<Rightarrow> (ServerError None, d)
                | Inr d' \<Rightarrow> (writeJSON 200 (JObj [(''code'', JStr (sUuid sv 0))]), d')))"

text \<open>The codes of one account; \<open>i\<close> numbers the identifiers drawn so far.\<close>

fun create_invites :: "server \<Rightarrow> string \<Rightarrow> int \<Rightarrow> nat \<Rightarrow> nat \<Rightarrow> db \<Rightarrow> (goerr + string list) \<times> db" where
  "create_invites sv did uses i 0 d = (Inr [], d)"
| "create_invites sv did uses i (Suc n) d =
     (case create_invite sv (sUuid sv i) did uses d of
        Inl e \<Rightarrow> (Inl e, d)
      | Inr d1 \<Rightarrow>
          (case create_invites sv did uses (Suc i) n d1 of
             (Inl e, d2) \<Rightarrow> (Inl e, d2)
           | (Inr cs, d2) \<Rightarrow> (Inr (sUuid sv i # cs), d2)))"

fun create_all_invites ::
  "server \<Rightarrow> int \<Rightarrow> nat \<Rightarrow> nat \<Rightarrow> string list \<Rightarrow> db \<Rightarrow> (goerr + json list) \<times> db" where
  "create_all_invites sv uses n i [] d = (Inr [], d)"
| "create_all_invites sv uses n i (did # dids) d =
     (case create_invites sv did uses i n d of
        (Inl e, d1) \<Rightarrow> (Inl e, d1)
      | (Inr cs, d1) \<Rightarrow>
          (case create_all_invites sv uses n (i + n) dids d1 of
             (Inl e, d2) \<Rightarrow> (Inl e, d2)
           | (Inr js, d2) \<Rightarrow>
               (Inr (JObj [(''account'', JStr did), (''codes'', JArr (map JStr cs))] # js), d2)))"

text \<open>A negative count is a negative capacity for the list of codes, which panics.\<close>

definition handleCreateInviteCodes ::
  "server \<Rightarrow> (int option \<times> int \<times> string list option) option \<Rightarrow> db \<Rightarrow> outcome \<times> db" where
  "handleCreateInviteCodes sv req d =
     (case req of
        None \<Rightarrow> (ServerError None, d)
      | Some (count, uses, accounts) \<Rightarrow>
          if uses = 0 then (InputError None, d)
          else let n = (case count of None \<Rightarrow> 1 | Some k \<Rightarrow> k);
                   dids = (case accounts of None \<Rightarrow> [''admin''] | Some as \<Rightarrow> as)
          in if n < 0 \<and> dids \<noteq> [] then (Panic, d)
          else (case create_all_invites sv uses (nat n) 0 dids d of
                  (Inl e, d') \<Rightarrow> (ServerError None, d')
                | (Inr js, d') \<Rightarrow> (writeJSON 200 (JArr js), d')))"

definition invite_view :: "(time \<Rightarrow> string) \<Rightarrow> time \<Rightarrow> string \<Rightarrow> InviteCode \<Rightarrow> InviteCodeUse list \<Rightarrow> json" where
  "invite_view rfc3339 now did c uses =
     JObj [(''code'', JStr (icCode c)), (''available'', JNum (icRemainingUseCount c)), (''disabled'', JBool (icDisabled c)),
       (''forAccount'', JStr did), (''createdBy'', JStr did),
       (''createdAt'', JStr (rfc3339 (if icCreatedAt c = 0 then now else icCreatedAt c))),
       (''uses'', JArr (map (\<lambda>u. JObj [(''usedBy'', JStr (iuUsedBy u)), (''usedAt'', JStr (rfc3339 (iuUsedAt u)))])
          (filter (\<lambda>u. iuUsedBy u \<noteq> '''') uses)))]"

definition handleGetAccountInviteCodes ::
  "server \<Rightarrow> (time \<Rightarrow> string) \<Rightarrow> RepoActor option \<Rightarrow> request \<Rightarrow> db \<Rightarrow> outcome" where
  "handleGetAccountInviteCodes sv rfc3339 ctx r d =
     (case ctx of
        None \<Rightarrow> UnauthorizedError None
      | Some repo \<Rightarrow>
          let did = rDid (raRepo repo); includeUsed = (get_value (qQuery r) ''includeUsed'' \<noteq> ''false'');
              codes = filter (\<lambda>c. icCode c \<noteq> '''') (sql_select (\<lambda>c. icDid c = did) (inviteCodes d));
              uses = (\<lambda>c. sql_select (\<lambda>u. iuCode u = icCode c) (inviteCodeUses d))
          in if sFails sv ''inviteCodes.select'' \<or> (codes \<noteq> [] \<and> sFails sv ''inviteCodeUses.select'') then ServerError None
          else writeJSON 200 (JObj [(''codes'', JArr (map (\<lambda>c. invite_view rfc3339 (sNow sv) did c (uses c))
            (filter (\<lambda>c. includeUsed \<or> uses c = [] \<or> icRemainingUseCount c > 0) codes)))]))"

section \<open>Deletion\<close>

text \<open>The statements of the transaction, in order.\<close>

definition delete_statements :: "string \<Rightarrow> (string \<times> (db \<Rightarrow> db)) list" where
  "delete_statements did =
     [(''delete.records'', \<lambda>d. d\<lparr>records := sql_delete (\<lambda>x. recDid x = did) (records d)\<rparr>),
      (''delete.blobs'', \<lambda>d. d\<lparr>blobs := sql_delete (\<lambda>x. bDid x = did) (blobs d)\<rparr>),
      (''delete.tokens'', \<lambda>d. d\<lparr>tokens := sql_delete (\<lambda>x. tDid x = did) (tokens d)\<rparr>),
      (''delete.refreshTokens'', \<lambda>d. d\<lparr>refreshTokens := sql_delete (\<lambda>x. rtDid x = did) (refreshTokens d)\<rparr>),
      (''delete.inviteCodes'', \<lambda>d. d\<lparr>inviteCodes := sql_delete (\<lambda>x. icDid x = did) (inviteCodes d)\<rparr>),
      (''delete.actors'', \<lambda>d. d\<lparr>actors := sql_delete (\<lambda>x. aDid x = did) (actors d)\<rparr>),
      (''delete.repos'', \<lambda>d. d\<lparr>repos := sql_delete (\<lambda>x. rDid x = did) (repos d)\<rparr>)]"

fun run_statements :: "faults \<Rightarrow> (string \<times> (db \<Rightarrow> db)) list \<Rightarrow> db \<Rightarrow> goerr + db" where
  "run_statements fails [] d = Inr d"
| "run_statements fails ((l, f) # st) d = (if fails l then Inl (ErrDb l) else run_statements fails st (f d))"

definition deleteAccountByDid ::
  "server \<Rightarrow> add_event \<Rightarrow> string \<Rightarrow> db \<times> DbPersister \<Rightarrow> goerr option \<times> db \<times> DbPersister" where
  "deleteAccountByDid sv add did s =
     (if sFails sv ''delete.begin'' then (Some (Wrap ''begin transaction'' (ErrDb ''delete.begin'')), s)
      else (case run_statements (sFails sv) (delete_statements did) (fst s) of
              Inl e \<Rightarrow> (Some (Wrap ''query'' e), s)
            | Inr d' \<Rightarrow>
                if sFails sv ''delete.commit'' then (Some (Wrap ''commit transaction'' (ErrDb ''delete.commit'')), s)
                else (None, d', snd (add (account_event (sNow sv) did False (Some ''deleted'')) (snd s)))))"

definition handleServerDeleteAccount :: outcome where
  "handleServerDeleteAccount = InputError (Some ''Account deletion not supported here. Login on Vow and delete the account there.'')"

definition handleServerRequestAccountDelete :: outcome where
  "handleServerRequestAccountDelete = handleServerDeleteAccount"


section \<open>Properties\<close>

lemma db_exec_Inr: "db_exec sv l f d = Inr d' \<longleftrightarrow> \<not> sFails sv l \<and> d' = f d"
  by (auto simp: db_exec_def)

lemma upd_repo_other: "rDid x \<noteq> did \<Longrightarrow> (\<And>r. rDid (f r) = rDid r) \<Longrightarrow> x \<in> set (repos (upd_repo did f d)) \<longleftrightarrow> x \<in> set (repos d)"
  by (auto simp: upd_repo_def sql_update_def image_iff)

lemma reset_needs_code: "rPasswordResetCode (raRepo repo) = None \<Longrightarrow> status_of (fst (handleServerResetPassword sv repo req d)) \<noteq> 200"
  by (auto simp: handleServerResetPassword_def code_error_def split: option.splits)

text \<open>
  C31: a password is reset only with the code stored for the account, not later than its expiry; the row of the
  account then has the hash of the new password and no code, so that no further reset succeeds until a new
  code has been sent, and the rows of other accounts are as before.
\<close>

theorem reset_password_once:
  assumes "handleServerResetPassword sv repo req d = (w, d')" and "status_of w = 200"
  shows "\<exists>token password hash t. req = Some (token, password) \<and> rPasswordResetCode (raRepo repo) = Some token \<and>
    rPasswordResetCodeExpiresAt (raRepo repo) = Some t \<and> sNow sv \<le> t \<and> sBcrypt sv password = Some hash \<and>
    (\<forall>x \<in> set (repos d'). rDid x = rDid (raRepo repo) \<longrightarrow> rPassword x = hash \<and>
       (\<forall>a sv' req' d''. status_of (fst (handleServerResetPassword sv' \<lparr>raRepo = x, raActor = a\<rparr> req' d'')) \<noteq> 200)) \<and>
    (\<forall>x. rDid x \<noteq> rDid (raRepo repo) \<longrightarrow> (x \<in> set (repos d') \<longleftrightarrow> x \<in> set (repos d)))"
proof -
  let ?f = "\<lambda>h x. x\<lparr>rPasswordResetCode := None, rPasswordResetCodeExpiresAt := None, rPassword := h\<rparr>"
  from assms obtain token password hash where r: "req = Some (token, password)" "sBcrypt sv password = Some hash"
    "code_error (sNow sv) (InputError (Some ''InvalidToken'')) InvalidTokenError
       (rPasswordResetCode (raRepo repo)) (rPasswordResetCodeExpiresAt (raRepo repo)) token = None"
    "d' = upd_repo (rDid (raRepo repo)) (?f hash) d"
    by (auto simp: handleServerResetPassword_def db_exec_Inr code_error_def split: option.splits if_splits sum.splits)
  have "rPassword x = hash \<and> rPasswordResetCode x = None" if "x \<in> set (repos d')" "rDid x = rDid (raRepo repo)" for x
    using upd_repo_row [of x "rDid (raRepo repo)" "?f hash" d] that r(4) by auto
  then have "\<forall>x \<in> set (repos d'). rDid x = rDid (raRepo repo) \<longrightarrow> rPassword x = hash \<and>
       (\<forall>a sv' req' d''. status_of (fst (handleServerResetPassword sv' \<lparr>raRepo = x, raActor = a\<rparr> req' d'')) \<noteq> 200)"
    using reset_needs_code by simp
  moreover have "\<forall>x. rDid x \<noteq> rDid (raRepo repo) \<longrightarrow> (x \<in> set (repos d') \<longleftrightarrow> x \<in> set (repos d))"
    using upd_repo_other [of _ "rDid (raRepo repo)" "?f hash" d] r(4) by simp
  ultimately show ?thesis using r(1,2,3) unfolding code_error_None by blast
qed

text \<open>A reset in time, on a table with another account.\<close>

definition reset_server :: server where
  "reset_server = \<lparr>sHostname = ''pds'', sDid = ''did:web:pds'', sAdminPassword = '''', sRequireInvite = False,
     sNow = 100, sFails = (\<lambda>_. False), sSignATP = (\<lambda>_. None), sUuid = (\<lambda>_. ''''), sBcryptOk = (\<lambda>_ _. False),
     sBcrypt = (\<lambda>p. Some (''hash of '' @ p))\<rparr>"

definition reset_repo :: Repo where
  "reset_repo = zeroRepo\<lparr>rDid := ''did:plc:a'', rPasswordResetCode := Some ''AAAAA-BBBBB'',
     rPasswordResetCodeExpiresAt := Some 100\<rparr>"

definition reset_actor :: RepoActor where
  "reset_actor = \<lparr>raRepo = reset_repo, raActor = \<lparr>aDid = ''did:plc:a'', aHandle = ''a.pds''\<rparr>\<rparr>"

definition reset_db :: db where
  "reset_db = emptyDb\<lparr>repos := [reset_repo, zeroRepo\<lparr>rDid := ''did:plc:b''\<rparr>]\<rparr>"

theorem reset_password_once_witness:
  "\<exists>w d'. handleServerResetPassword reset_server reset_actor (Some (''AAAAA-BBBBB'', ''new'')) reset_db = (w, d') \<and>
     status_of w = 200 \<and> zeroRepo\<lparr>rDid := ''did:plc:b''\<rparr> \<in> set (repos d') \<and>
     (\<forall>x \<in> set (repos d'). rDid x = ''did:plc:a'' \<longrightarrow> rPassword x = ''hash of new'')"
proof -
  let ?run = "handleServerResetPassword reset_server reset_actor (Some (''AAAAA-BBBBB'', ''new'')) reset_db"
  have run: "?run = (fst ?run, snd ?run)" and ok: "status_of (fst ?run) = 200"
    by (simp, simp add: handleServerResetPassword_def code_error_def reset_actor_def reset_repo_def reset_server_def db_exec_def)
  from reset_password_once [OF run ok]
  have "\<forall>x \<in> set (repos (snd ?run)). rDid x = ''did:plc:a'' \<longrightarrow> rPassword x = ''hash of new''"
    and "zeroRepo\<lparr>rDid := ''did:plc:b''\<rparr> \<in> set (repos (snd ?run))"
    by (auto simp: reset_actor_def reset_repo_def reset_server_def reset_db_def)
  with run ok show ?thesis by metis
qed

text \<open>An update of the address with an empty code asks for no code, whatever is pending.\<close>

lemma empty_token_updates_email:
  assumes "email \<noteq> ''''" and "\<not> email_taken d (rDid (raRepo repo)) email" and "\<not> sFails sv ''repos.updateEmail''"
    and "x \<in> set (repos (snd (handleServerUpdateEmail sv repo (Some (email, '''')) d)))" and "rDid x = rDid (raRepo repo)"
  shows "fst (handleServerUpdateEmail sv repo (Some (email, '''')) d) = writeHeader 200 \<and> rEmail x = email"
proof -
  let ?f = "\<lambda>x. (if rEmail (raRepo repo) \<noteq> email then x\<lparr>rEmailConfirmedAt := None\<rparr> else x)
      \<lparr>rEmailUpdateCode := None, rEmailUpdateCodeExpiresAt := None, rEmail := email\<rparr>"
  have h: "handleServerUpdateEmail sv repo (Some (email, '''')) d = (writeHeader 200, upd_repo (rDid (raRepo repo)) ?f d)"
    using assms(1-3) by (simp add: handleServerUpdateEmail_def db_exec_def)
  have keep: "\<And>r. rDid (?f r) = rDid r" by simp
  from assms(4) have "x \<in> set (repos (upd_repo (rDid (raRepo repo)) ?f d))" unfolding h snd_conv .
  from upd_repo_row [OF this assms(5) keep] obtain r where "x = ?f r" by blast
  then have "rEmail x = email" by simp
  with h show ?thesis by simp
qed

text \<open>What was put is read back, when it has preferences and decodes to itself.\<close>

lemma preferences_round_trip:
  assumes "enc m = Inr b" and "dec b = Inr m" and "jget m ''preferences'' = Some v" and "v \<noteq> JNull"
    and "handleActorPutPreferences sv enc repo (Inr m) d = (w, d')" and "status_of w = 200"
    and "x \<in> set (repos d')" and "rDid x = rDid (raRepo repo)"
  shows "handleActorGetPreferences dec \<lparr>raRepo = x, raActor = a\<rparr> = writeJSON 200 (JObj m)"
proof -
  have "d' = upd_repo (rDid (raRepo repo)) (\<lambda>x. x\<lparr>rPreferences := b\<rparr>) d"
    using assms(1,5,6) by (auto simp: handleActorPutPreferences_def db_exec_Inr split: sum.splits)
  with upd_repo_row [of x "rDid (raRepo repo)" "\<lambda>x. x\<lparr>rPreferences := b\<rparr>" d] assms(7,8)
  obtain r where "x = r\<lparr>rPreferences := b\<rparr>" by auto
  then have "rPreferences x = b" by simp
  with assms(2,3,4) show ?thesis by (simp add: handleActorGetPreferences_def)
qed

text \<open>What the statements of a deletion leave.\<close>

lemma deleted_rows:
  assumes "deleteAccountByDid sv add did (d, p) = (None, d', p')"
  shows "d' = d\<lparr>records := sql_delete (\<lambda>x. recDid x = did) (records d),
      blobs := sql_delete (\<lambda>x. bDid x = did) (blobs d), tokens := sql_delete (\<lambda>x. tDid x = did) (tokens d),
      refreshTokens := sql_delete (\<lambda>x. rtDid x = did) (refreshTokens d),
      inviteCodes := sql_delete (\<lambda>x. icDid x = did) (inviteCodes d),
      actors := sql_delete (\<lambda>x. aDid x = did) (actors d), repos := sql_delete (\<lambda>x. rDid x = did) (repos d)\<rparr>"
    and "p' = snd (add (account_event (sNow sv) did False (Some ''deleted'')) p)"
proof -
  from assms have "run_statements (sFails sv) (delete_statements did) d = Inr d'"
    and p': "p' = snd (add (account_event (sNow sv) did False (Some ''deleted'')) p)"
    by (auto simp: deleteAccountByDid_def split: if_splits sum.splits)
  from this(1) show "d' = d\<lparr>records := sql_delete (\<lambda>x. recDid x = did) (records d),
      blobs := sql_delete (\<lambda>x. bDid x = did) (blobs d), tokens := sql_delete (\<lambda>x. tDid x = did) (tokens d),
      refreshTokens := sql_delete (\<lambda>x. rtDid x = did) (refreshTokens d),
      inviteCodes := sql_delete (\<lambda>x. icDid x = did) (inviteCodes d),
      actors := sql_delete (\<lambda>x. aDid x = did) (actors d), repos := sql_delete (\<lambda>x. rDid x = did) (repos d)\<rparr>"
    by (simp add: delete_statements_def split: if_splits)
  from p' show "p' = snd (add (account_event (sNow sv) did False (Some ''deleted'')) p)" .
qed

text \<open>
  C32: deleting an account is all or nothing: after an error the database and the event log are as before, and
  otherwise no record, blob, session, invite code, actor or repository of the account is left, every other row
  of these tables is, the account is no longer found, and a deletion event has been handed to the event manager.
\<close>

theorem account_deleted:
  "case deleteAccountByDid sv add did (d, p) of
     (Some e, s) \<Rightarrow> s = (d, p)
   | (None, d', p') \<Rightarrow>
       set (records d') = {x \<in> set (records d). recDid x \<noteq> did} \<and> set (blobs d') = {x \<in> set (blobs d). bDid x \<noteq> did} \<and>
       set (tokens d') = {x \<in> set (tokens d). tDid x \<noteq> did} \<and>
       set (refreshTokens d') = {x \<in> set (refreshTokens d). rtDid x \<noteq> did} \<and>
       set (inviteCodes d') = {x \<in> set (inviteCodes d). icDid x \<noteq> did} \<and>
       set (actors d') = {x \<in> set (actors d). aDid x \<noteq> did} \<and> set (repos d') = {x \<in> set (repos d). rDid x \<noteq> did} \<and>
       (\<exists>e. getRepoActorByDid (sFails sv) d' did = Inl e) \<and>
       p' = snd (add (account_event (sNow sv) did False (Some ''deleted'')) p)"
proof (cases "deleteAccountByDid sv add did (d, p)")
  case (fields r d' p')
  show ?thesis
  proof (cases r)
    case (Some e)
    with fields show ?thesis by (auto simp: deleteAccountByDid_def split: if_splits sum.splits)
  next
    case None
    note rows = deleted_rows [OF fields [unfolded None]]
    have "\<exists>e. getRepoActorByDid (sFails sv) d' did = Inl e"
    proof (cases "getRepoActorByDid (sFails sv) d' did")
      case (Inr x)
      from getRepoActorByDid_Inr [OF this] show ?thesis by (auto simp: rows(1) sql_delete_def)
    qed simp
    with rows fields None show ?thesis by (simp add: sql_simps)
  qed
qed

text \<open>The OAuth tables are not among the tables of the transaction.\<close>

lemma oauth_rows_survive:
  "deleteAccountByDid sv add did (d, p) = (r, d', p') \<Longrightarrow> oauthTokens d' = oauthTokens d \<and> authRequests d' = authRequests d"
  by (auto simp: deleteAccountByDid_def delete_statements_def split: if_splits sum.splits)

end
