(* ===== verification/Identity.thy ===== *)
theory Identity
  imports Encoding AtSyntax
begin

text \<open>
  identity/: resolving handles and DID documents over DNS and HTTP, and the passport, which keeps what it
  resolved in a cache behind an interface.  DNS, HTTP, JSON decoding and the expiring LRU cache are parameters.
\<close>

section \<open>Documents and logs\<close>

record DidDocVerificationMethod =
  vmId :: string
  vmType :: string
  vmController :: string
  vmPublicKeyMultibase :: string

record DidDocService =
  dsId :: string
  dsType :: string
  dsServiceEndpoint :: string

record DidDoc =
  ddContext :: "string list"
  ddId :: string
  ddAlsoKnownAs :: "string list"
  ddVerificationMethods :: "DidDocVerificationMethod list"
  ddService :: "DidDocService list"

record OperationService =
  osType :: string
  osEndpoint :: string

record DidData =
  daDid :: string
  daVerificationMethods :: "(string \<times> string) list"
  daRotationKeys :: "string list"
  daAlsoKnownAs :: "string list"
  daServices :: "(string \<times> OperationService) list"

record DidLogEntry =
  leSig :: string
  lePrev :: "string option"
  leType :: string
  leServices :: "(string \<times> OperationService) list"
  leAlsoKnownAs :: "string list"
  leRotationKeys :: "string list"
  leVerificationMethods :: "(string \<times> string) list"

record DidAuditEntry =
  auDid :: string
  auOperation :: DidLogEntry
  auCid :: string
  auNullified :: bool
  auCreatedAt :: string

text \<open>
  The outside: TXT records, and a GET answered with a status and a body whose reading may fail; decoding of
  the three documents.
\<close>

record netLib =
  nTXT :: "string \<Rightarrow> goerr + string list"
  nGet :: "string \<Rightarrow> goerr + nat \<times> (goerr + bytes)"
  nDecodeDoc :: "bytes \<Rightarrow> goerr + DidDoc"
  nDecodeData :: "bytes \<Rightarrow> goerr + DidData"
  nDecodeLog :: "bytes \<Rightarrow> goerr + DidAuditEntry list"

section \<open>Handles\<close>

text \<open>The element at index 1 of a string with the prefix \<open>did=\<close> split at \<open>did=\<close>: what stands before the next one.\<close>

fun until_did :: "string \<Rightarrow> string" where
  "until_did [] = []"
| "until_did (c # cs) = (if HasPrefix (c # cs) ''did='' then [] else c # until_did cs)"

fun txt_did :: "syntaxLib \<Rightarrow> string list \<Rightarrow> string option" where
  "txt_did X [] = None"
| "txt_did X (r # rs) =
     (if HasPrefix r ''did='' \<and> isDid X (until_did (drop 4 r)) then Some (until_did (drop 4 r)) else txt_did X rs)"

definition ResolveHandleFromTXT :: "syntaxLib \<Rightarrow> netLib \<Rightarrow> string \<Rightarrow> goerr + string" where
  "ResolveHandleFromTXT X N handle =
     (case nTXT N (''_atproto.'' @ handle) of
        Inl e \<Rightarrow> Inl (Wrap ''handle could not be resolved via txt'' e)
      | Inr recs \<Rightarrow>
          (case txt_did X recs of
             None \<Rightarrow> Inl (Err ''handle could not be resolved via txt: no record found'')
           | Some did \<Rightarrow> Inr did))"

definition ResolveHandleFromWellKnown :: "syntaxLib \<Rightarrow> netLib \<Rightarrow> string \<Rightarrow> goerr + string" where
  "ResolveHandleFromWellKnown X N handle =
     (case nGet N (''https://'' @ handle @ ''/.well-known/atproto-did'') of
        Inl e \<Rightarrow> Inl (Wrap ''handle could not be resolved via web'' e)
      | Inr (_, Inl e) \<Rightarrow> Inl (Wrap ''handle could not be resolved via web'' e)
      | Inr (status, Inr b) \<Rightarrow>
          if status \<noteq> 200 then Inl (Err ''handle could not be resolved via web: invalid status code'')
          else if \<not> isDid X (of_bytes b) then Inl (Err ''handle could not be resolved via web: invalid did in document'')
          else Inr (of_bytes b))"

definition ResolveHandle :: "syntaxLib \<Rightarrow> netLib \<Rightarrow> string \<Rightarrow> goerr + string" where
  "ResolveHandle X N handle =
     (if \<not> isHandle X handle then Inl (Err ''handle syntax'')
      else (case ResolveHandleFromTXT X N handle of
              Inr did \<Rightarrow> Inr did
            | Inl _ \<Rightarrow>
                (case ResolveHandleFromWellKnown X N handle of
                   Inr did \<Rightarrow> Inr did
                 | Inl _ \<Rightarrow> Inl (Err ''handle could not be resolved''))))"

section \<open>Documents\<close>

definition DidToDocUrl :: "string \<Rightarrow> goerr + string" where
  "DidToDocUrl did =
     (if HasPrefix did ''did:plc:'' then Inr (''https://plc.directory/'' @ did)
      else (case CutPrefix did ''did:web:'' of
              Some host \<Rightarrow> Inr (''https://'' @ host @ ''/.well-known/did.json'')
            | None \<Rightarrow> Inl (Err ''did was not a supported did type'')))"

text \<open>A GET whose body is decoded when the status is 200, and the error otherwise.\<close>

definition get_decoded :: "netLib \<Rightarrow> string \<Rightarrow> (bytes \<Rightarrow> goerr + 'a) \<Rightarrow> string \<Rightarrow> goerr + 'a" where
  "get_decoded N url dec msg1 =
     (case nGet N url of
        Inl e \<Rightarrow> Inl e
      | Inr (status, b) \<Rightarrow>
          if status \<noteq> 200 then Inl (Err msg1)
          else (case b of Inl e \<Rightarrow> Inl e | Inr bs \<Rightarrow> dec bs))"

definition FetchDidDoc :: "netLib \<Rightarrow> string \<Rightarrow> goerr + DidDoc" where
  "FetchDidDoc N did =
     (case DidToDocUrl did of
        Inl e \<Rightarrow> Inl e
      | Inr u \<Rightarrow> get_decoded N u (nDecodeDoc N) (''unable to find did doc at url. did: '' @ did @ ''. url: '' @ u))"

definition FetchDidData :: "netLib \<Rightarrow> string \<Rightarrow> goerr + DidData" where
  "FetchDidData N did =
     get_decoded N (''https://plc.directory/'' @ did @ ''/data'') (nDecodeData N) ''could not find identity in plc registry''"

definition FetchDidAuditLog :: "netLib \<Rightarrow> string \<Rightarrow> goerr + DidAuditEntry list" where
  "FetchDidAuditLog N did =
     get_decoded N (''https://plc.directory/'' @ did @ ''/log/audit'') (nDecodeLog N) ''could not find identity in plc registry''"

text \<open>The endpoint of the last PDS service of the document.\<close>

definition pds_endpoint :: "DidDoc \<Rightarrow> string" where
  "pds_endpoint doc = fold (\<lambda>s found. if dsId s = ''#atproto_pds'' then dsServiceEndpoint s else found) (ddService doc) ''''"

definition ResolveService :: "netLib \<Rightarrow> string \<Rightarrow> goerr + string" where
  "ResolveService N did =
     (case FetchDidDoc N did of
        Inl e \<Rightarrow> Inl e
      | Inr doc \<Rightarrow>
          if pds_endpoint doc = '''' then Inl (Err ''could not find atproto_pds service in identity services'')
          else Inr (pds_endpoint doc))"

lemma txt_did_valid: "txt_did X rs = Some d \<Longrightarrow> isDid X d"
  by (induction rs) (auto split: if_splits)

lemma ResolveHandle_valid: "ResolveHandle X N h = Inr d \<Longrightarrow> isHandle X h \<and> isDid X d"
  by (auto simp: ResolveHandle_def ResolveHandleFromTXT_def ResolveHandleFromWellKnown_def dest: txt_did_valid
      split: sum.splits if_splits option.splits)

section \<open>The passport\<close>

text \<open>
  The interface of the cache, as a record of its methods; looking up may change the cache, as it does for one
  that evicts what was used least recently.
\<close>

record 'c backingCache =
  bcGetDoc :: "time \<Rightarrow> string \<Rightarrow> 'c \<Rightarrow> DidDoc option \<times> 'c"
  bcPutDoc :: "time \<Rightarrow> string \<Rightarrow> DidDoc \<Rightarrow> 'c \<Rightarrow> 'c"
  bcBustDoc :: "string \<Rightarrow> 'c \<Rightarrow> 'c"
  bcGetDid :: "time \<Rightarrow> string \<Rightarrow> 'c \<Rightarrow> string option \<times> 'c"
  bcPutDid :: "time \<Rightarrow> string \<Rightarrow> string \<Rightarrow> 'c \<Rightarrow> 'c"
  bcBustDid :: "string \<Rightarrow> 'c \<Rightarrow> 'c"

text \<open>
  What FetchDoc and ResolveHandle share: the cached value unless the cache is skipped, else the fetched one,
  which is put into the cache.
\<close>

definition cached_or_fetched ::
  "(time \<Rightarrow> string \<Rightarrow> 'c \<Rightarrow> 'v option \<times> 'c) \<Rightarrow> (time \<Rightarrow> string \<Rightarrow> 'v \<Rightarrow> 'c \<Rightarrow> 'c) \<Rightarrow> bool \<Rightarrow> time \<Rightarrow> (string \<Rightarrow> goerr + 'v) \<Rightarrow>
   string \<Rightarrow> 'c \<Rightarrow> (goerr + 'v) \<times> 'c" where
  "cached_or_fetched get put skipCache now fetch k c =
     (let (cached, c1) = (if skipCache then (None, c) else get now k c) in
      case cached of
        Some v \<Rightarrow> (Inr v, c1)
      | None \<Rightarrow> (case fetch k of Inl e \<Rightarrow> (Inl e, c1) | Inr v \<Rightarrow> (Inr v, put now k v c1)))"

definition FetchDoc ::
  "'c backingCache \<Rightarrow> bool \<Rightarrow> time \<Rightarrow> (string \<Rightarrow> goerr + DidDoc) \<Rightarrow> string \<Rightarrow> 'c \<Rightarrow> (goerr + DidDoc) \<times> 'c" where
  "FetchDoc B skipCache now fetch did c = cached_or_fetched (bcGetDoc B) (bcPutDoc B) skipCache now fetch did c"

definition Passport_ResolveHandle ::
  "'c backingCache \<Rightarrow> bool \<Rightarrow> time \<Rightarrow> (string \<Rightarrow> goerr + string) \<Rightarrow> string \<Rightarrow> 'c \<Rightarrow> (goerr + string) \<times> 'c" where
  "Passport_ResolveHandle B skipCache now resolve handle c =
     cached_or_fetched (bcGetDid B) (bcPutDid B) skipCache now resolve handle c"

definition BustDoc :: "'c backingCache \<Rightarrow> string \<Rightarrow> 'c \<Rightarrow> 'c" where
  "BustDoc B did c = bcBustDoc B did c"

definition BustDid :: "'c backingCache \<Rightarrow> string \<Rightarrow> 'c \<Rightarrow> 'c" where
  "BustDid B handle c = bcBustDid B handle c"


section \<open>The contract of a cache\<close>

text \<open>
  A cache keeps at most what was put and not removed or replaced since, with the time it was put at: \<open>kept\<close>
  names those entries, \<open>ttl\<close> how long they are served: the library drops an entry once the time is after its expiry, so it is
  still served at that instant.
\<close>

definition cache_law ::
  "duration \<Rightarrow> ('c \<Rightarrow> (string \<times> 'v \<times> time) set) \<Rightarrow> (time \<Rightarrow> string \<Rightarrow> 'c \<Rightarrow> 'v option \<times> 'c) \<Rightarrow>
   (time \<Rightarrow> string \<Rightarrow> 'v \<Rightarrow> 'c \<Rightarrow> 'c) \<Rightarrow> (string \<Rightarrow> 'c \<Rightarrow> 'c) \<Rightarrow> bool" where
  "cache_law ttl kept get put bust \<longleftrightarrow>
     (\<forall>now k c v c'. get now k c = (Some v, c') \<longrightarrow> (\<exists>t. (k, v, t) \<in> kept c \<and> now \<le> t + ttl)) \<and>
     (\<forall>now k c. kept (snd (get now k c)) \<subseteq> kept c) \<and>
     (\<forall>now k v c. kept (put now k v c) \<subseteq> insert (k, v, now) {e \<in> kept c. fst e \<noteq> k}) \<and>
     (\<forall>k c. kept (bust k c) \<subseteq> {e \<in> kept c. fst e \<noteq> k})"

lemma cached_or_fetched_kept:
  assumes "cache_law ttl kept get put bust" and "e \<in> kept (snd (cached_or_fetched get put skip now (\<lambda>_. net) k c))"
  shows "(\<exists>v. net = Inr v \<and> e = (k, v, now)) \<or> e \<in> kept c \<and> (skip \<and> (\<exists>v. net = Inr v) \<longrightarrow> fst e \<noteq> k)"
proof -
  note l = assms(1) [unfolded cache_law_def]
  have g: "kept (snd (get now k c)) \<subseteq> kept c" and p: "kept (put now k v c') \<subseteq> insert (k, v, now) {e \<in> kept c'. fst e \<noteq> k}" for v c'
    using l by blast+
  show ?thesis
  proof (cases skip)
    case True
    with assms(2) p [of _ c] show ?thesis by (cases net) (auto simp: cached_or_fetched_def)
  next
    case False
    obtain r c1 where r: "get now k c = (r, c1)" by (cases "get now k c")
    with g have "kept c1 \<subseteq> kept c" by simp
    then show ?thesis
      using assms(2) p [of _ c1] False by (cases r; cases net) (auto simp: cached_or_fetched_def r)
  qed
qed

lemma cached_or_fetched_frame:
  assumes "kept (snd (get now k c)) \<subseteq> kept c" and "\<And>v c. kept (put now k v c) \<subseteq> kept c"
  shows "kept (snd (cached_or_fetched get put skip now (\<lambda>_. net) k c)) \<subseteq> kept c"
proof -
  obtain r c1 where r: "get now k c = (r, c1)" by (cases "get now k c")
  show ?thesis
    using assms(1) assms(2) [of _ c, THEN subsetD] assms(2) [of _ c1, THEN subsetD]
    by (cases skip; cases r; cases net) (auto simp: cached_or_fetched_def r)
qed

locale backing_cache =
  fixes ok :: bool
    and B :: "'c backingCache"
    and ttl :: duration
    and docs :: "'c \<Rightarrow> (string \<times> DidDoc \<times> time) set"
    and dids :: "'c \<Rightarrow> (string \<times> string \<times> time) set"
  assumes doc_law: "ok \<Longrightarrow> cache_law ttl docs (bcGetDoc B) (bcPutDoc B) (bcBustDoc B)"
    and did_law: "ok \<Longrightarrow> cache_law ttl dids (bcGetDid B) (bcPutDid B) (bcBustDid B)"
    and doc_frame: "ok \<Longrightarrow> docs (snd (bcGetDid B now k c)) \<subseteq> docs c" "ok \<Longrightarrow> docs (bcPutDid B now k v c) \<subseteq> docs c"
      "ok \<Longrightarrow> docs (bcBustDid B k c) \<subseteq> docs c"
    and did_frame: "ok \<Longrightarrow> dids (snd (bcGetDoc B now k c)) \<subseteq> dids c" "ok \<Longrightarrow> dids (bcPutDoc B now k doc c) \<subseteq> dids c"
      "ok \<Longrightarrow> dids (bcBustDoc B k c) \<subseteq> dids c"

text \<open>The calls the server makes on the passport, with what the network answers when it is asked.\<close>

datatype passport_call =
    CallFetch bool time string "goerr + DidDoc"
  | CallResolve bool time string "goerr + string"
  | CallBustDoc string
  | CallBustDid string

fun passport_step :: "'c backingCache \<Rightarrow> passport_call \<Rightarrow> 'c \<Rightarrow> 'c" where
  "passport_step B (CallFetch skip now did net) c = snd (FetchDoc B skip now (\<lambda>_. net) did c)"
| "passport_step B (CallResolve skip now h net) c = snd (Passport_ResolveHandle B skip now (\<lambda>_. net) h c)"
| "passport_step B (CallBustDoc did) c = BustDoc B did c"
| "passport_step B (CallBustDid h) c = BustDid B h c"

definition passport_run :: "'c backingCache \<Rightarrow> passport_call list \<Rightarrow> 'c \<Rightarrow> 'c" where
  "passport_run B calls c = fold (passport_step B) calls c"

text \<open>
  An entry stands in the history: a call fetched the document at that time, and since then it was neither
  busted nor replaced by a fetch that skips the cache.
\<close>

definition fetched :: "passport_call list \<Rightarrow> string \<times> DidDoc \<times> time \<Rightarrow> bool" where
  "fetched calls e \<longleftrightarrow> (\<exists>pre skip post. calls = pre @ CallFetch skip (snd (snd e)) (fst e) (Inr (fst (snd e))) # post \<and>
     CallBustDoc (fst e) \<notin> set post \<and> (\<forall>t d. CallFetch True t (fst e) (Inr d) \<notin> set post))"

lemma fetched_append:
  assumes "fetched calls e" and "call \<noteq> CallBustDoc (fst e)" and "\<And>t d. call \<noteq> CallFetch True t (fst e) (Inr d)"
  shows "fetched (calls @ [call]) e"
proof -
  from assms(1) obtain pre skip post where
    p: "calls = pre @ CallFetch skip (snd (snd e)) (fst e) (Inr (fst (snd e))) # post"
    and n: "CallBustDoc (fst e) \<notin> set post" "\<forall>t d. CallFetch True t (fst e) (Inr d) \<notin> set post"
    unfolding fetched_def by blast
  have "calls @ [call] = pre @ CallFetch skip (snd (snd e)) (fst e) (Inr (fst (snd e))) # (post @ [call])" using p by simp
  moreover have "CallBustDoc (fst e) \<notin> set (post @ [call])" using n(1) assms(2) by auto
  moreover have "\<forall>t d. CallFetch True t (fst e) (Inr d) \<notin> set (post @ [call])" using n(2) assms(3) by fastforce
  ultimately show ?thesis unfolding fetched_def by blast
qed

lemma fetched_now: "fetched (calls @ [CallFetch skip now did (Inr doc)]) (did, doc, now)"
  unfolding fetched_def by (intro exI [of _ calls] exI [of _ skip] exI [of _ "[]"]) simp

context backing_cache
begin

lemma kept_fetched:
  assumes "ok" and "docs c0 = {}"
  shows "e \<in> docs (passport_run B calls c0) \<Longrightarrow> fetched calls e"
proof (induction calls arbitrary: e rule: rev_induct)
  case Nil
  then show ?case using assms(2) by (simp add: passport_run_def)
next
  case (snoc call calls)
  note law = doc_law [OF assms(1), unfolded cache_law_def]
  define c where "c = passport_run B calls c0"
  have IH: "e \<in> docs c \<Longrightarrow> fetched calls e" using snoc.IH by (simp add: c_def)
  have e: "e \<in> docs (passport_step B call c)" using snoc.prems by (simp add: passport_run_def c_def)
  show ?case
  proof (cases call)
    case (CallFetch skip now did net)
    from cached_or_fetched_kept [OF doc_law [OF assms(1)]] e
    have "(\<exists>doc. net = Inr doc \<and> e = (did, doc, now)) \<or> e \<in> docs c \<and> (skip \<and> (\<exists>v. net = Inr v) \<longrightarrow> fst e \<noteq> did)"
      unfolding CallFetch passport_step.simps FetchDoc_def by blast
    then show ?thesis
      using IH fetched_append [of calls e call] fetched_now [of calls skip now did] by (auto simp: CallFetch)
  next
    case (CallResolve skip now h net)
    have "e \<in> docs c"
      using e cached_or_fetched_frame [of docs "bcGetDid B" now h c "bcPutDid B" skip net] doc_frame [OF assms(1)]
      unfolding CallResolve passport_step.simps Passport_ResolveHandle_def by blast
    then show ?thesis using IH fetched_append [of calls e call] by (auto simp: CallResolve)
  next
    case (CallBustDoc did)
    then have "e \<in> docs (bcBustDoc B did c)" using e by (simp add: BustDoc_def)
    then have "e \<in> docs c \<and> fst e \<noteq> did" using law by blast
    then show ?thesis using IH fetched_append [of calls e call] by (auto simp: CallBustDoc)
  next
    case (CallBustDid h)
    then have "e \<in> docs c" using e doc_frame(3) [OF assms(1)] by (auto simp: BustDid_def)
    then show ?thesis using IH fetched_append [of calls e call] by (auto simp: CallBustDid)
  qed
qed

lemma served_fetched:
  assumes "ok" and "docs c0 = {}" and "fst (FetchDoc B skip now (\<lambda>_. net) did (passport_run B calls c0)) = Inr doc"
  shows "net = Inr doc \<or> \<not> skip \<and> (\<exists>t. now \<le> t + ttl \<and> fetched calls (did, doc, t))"
proof (cases "\<not> skip \<and> fst (bcGetDoc B now did (passport_run B calls c0)) = Some doc")
  case True
  then obtain t where "(did, doc, t) \<in> docs (passport_run B calls c0)" "now \<le> t + ttl"
    using doc_law [OF assms(1), unfolded cache_law_def] by (metis prod.collapse)
  then show ?thesis using kept_fetched [OF assms(1,2)] True by blast
next
  case False
  then show ?thesis using assms(3) by (auto simp: FetchDoc_def cached_or_fetched_def split: prod.splits option.splits sum.splits if_splits)
qed

end

section \<open>The cache in memory\<close>

text \<open>The expiring LRU of the library: its three operations, for a state that holds one kind of value.\<close>

record ('v, 'l) lruLib =
  lruGet :: "time \<Rightarrow> string \<Rightarrow> 'l \<Rightarrow> 'v option \<times> 'l"
  lruAdd :: "time \<Rightarrow> string \<Rightarrow> 'v \<Rightarrow> 'l \<Rightarrow> 'l"
  lruRemove :: "string \<Rightarrow> 'l \<Rightarrow> 'l"
  lruNew :: "nat \<Rightarrow> duration \<Rightarrow> 'l"

record ('d, 'h) MemCache =
  docCache :: 'd
  didCache :: 'h

definition NewMemCache :: "(DidDoc, 'd) lruLib \<Rightarrow> (string, 'h) lruLib \<Rightarrow> nat \<Rightarrow> ('d, 'h) MemCache" where
  "NewMemCache U V n = \<lparr>docCache = lruNew U n (5 * Minute), didCache = lruNew V n (5 * Minute)\<rparr>"

definition memCache :: "(DidDoc, 'd) lruLib \<Rightarrow> (string, 'h) lruLib \<Rightarrow> ('d, 'h) MemCache backingCache" where
  "memCache U V = \<lparr>
     bcGetDoc = (\<lambda>now did mc. let (r, l) = lruGet U now did (docCache mc) in (r, mc\<lparr>docCache := l\<rparr>)),
     bcPutDoc = (\<lambda>now did doc mc. mc\<lparr>docCache := lruAdd U now did doc (docCache mc)\<rparr>),
     bcBustDoc = (\<lambda>did mc. mc\<lparr>docCache := lruRemove U did (docCache mc)\<rparr>),
     bcGetDid = (\<lambda>now h mc. let (r, l) = lruGet V now h (didCache mc) in (r, mc\<lparr>didCache := l\<rparr>)),
     bcPutDid = (\<lambda>now h did mc. mc\<lparr>didCache := lruAdd V now h did (didCache mc)\<rparr>),
     bcBustDid = (\<lambda>h mc. mc\<lparr>didCache := lruRemove V h (didCache mc)\<rparr>)\<rparr>"

definition lru_law :: "duration \<Rightarrow> ('l \<Rightarrow> (string \<times> 'v \<times> time) set) \<Rightarrow> ('v, 'l) lruLib \<Rightarrow> bool" where
  "lru_law ttl kept U \<longleftrightarrow> cache_law ttl kept (lruGet U) (lruAdd U) (lruRemove U) \<and> (\<forall>n. kept (lruNew U n ttl) = {})"

lemma cache_law_lift:
  assumes "cache_law ttl kept get put bust"
    and "\<And>now k s. get' now k s = (let (r, l) = get now k (sel s) in (r, upd (\<lambda>_. l) s))"
    and "\<And>now k v s. put' now k v s = upd (\<lambda>_. put now k v (sel s)) s"
    and "\<And>k s. bust' k s = upd (\<lambda>_. bust k (sel s)) s" and "\<And>f s. sel (upd f s) = f (sel s)"
  shows "cache_law ttl (kept \<circ> sel) get' put' bust'"
proof -
  note l = assms(1) [unfolded cache_law_def]
  have "\<exists>t. (k, v, t) \<in> kept (sel s) \<and> now \<le> t + ttl" if "get' now k s = (Some v, s')" for now k s v s'
    using that l by (cases "get now k (sel s)") (auto simp: assms(2))
  moreover have "kept (sel (snd (get' now k s))) \<subseteq> kept (sel s)" for now k s
    using l by (cases "get now k (sel s)") (auto simp: assms(2,5), (metis snd_conv subsetD)?)
  moreover have "kept (sel (put' now k v s)) \<subseteq> insert (k, v, now) {e \<in> kept (sel s). fst e \<noteq> k}"
    and "kept (sel (bust' k s)) \<subseteq> {e \<in> kept (sel s). fst e \<noteq> k}" for now k v s
    using l by (simp_all add: assms(3,4,5))
  ultimately show ?thesis unfolding cache_law_def comp_def by blast
qed

interpretation mem: backing_cache "lru_law (5 * Minute) kd U \<and> lru_law (5 * Minute) kh V" "memCache U V" "5 * Minute"
  "kd \<circ> docCache" "kh \<circ> didCache" for kd kh U V
proof (unfold_locales, goal_cases)
  case 1
  then have l: "cache_law (5 * Minute) kd (lruGet U) (lruAdd U) (lruRemove U)" by (simp add: lru_law_def)
  show ?case by (rule cache_law_lift [OF l, of _ docCache docCache_update]) (simp_all add: memCache_def)
next
  case 2
  then have l: "cache_law (5 * Minute) kh (lruGet V) (lruAdd V) (lruRemove V)" by (simp add: lru_law_def)
  show ?case by (rule cache_law_lift [OF l, of _ didCache didCache_update]) (simp_all add: memCache_def)
qed (auto simp: memCache_def split: prod.splits)


section \<open>Properties\<close>

text \<open>
  C29: whatever calls the server made on the passport before, a document it serves for a DID is the one the
  network answers now or, unless the cache is skipped, one that an earlier call fetched at most five minutes
  ago and that has neither been busted nor been replaced by a fetch that skips the cache.
\<close>

theorem passport_fresh:
  assumes "lru_law (5 * Minute) kd U" and "lru_law (5 * Minute) kh V"
    and "fst (FetchDoc (memCache U V) skip now (\<lambda>_. net) did (passport_run (memCache U V) calls (NewMemCache U V n))) = Inr doc"
  shows "net = Inr doc \<or> \<not> skip \<and> (\<exists>t. now \<le> t + 5 * Minute \<and> fetched calls (did, doc, t))"
proof -
  have "(kd \<circ> docCache) (NewMemCache U V n) = {}" using assms(1) by (simp add: NewMemCache_def lru_law_def)
  with assms show ?thesis using mem.served_fetched [of kd U kh V "NewMemCache U V n" skip now net did calls doc] by simp
qed

text \<open>A list of entries with their times is such a cache.\<close>

definition demo_lru :: "('v, (string \<times> 'v \<times> time) list) lruLib" where
  "demo_lru = \<lparr>lruGet = (\<lambda>now k l. (case map_of l k of Some (v, t) \<Rightarrow> if now \<le> t + 5 * Minute then Some v else None | None \<Rightarrow> None, l)),
     lruAdd = (\<lambda>now k v l. (k, v, now) # filter (\<lambda>e. fst e \<noteq> k) l), lruRemove = (\<lambda>k l. filter (\<lambda>e. fst e \<noteq> k) l),
     lruNew = (\<lambda>n ttl. [])\<rparr>"

lemma demo_lru_law: "lru_law (5 * Minute) set demo_lru"
  by (auto simp: lru_law_def cache_law_def demo_lru_def split: option.splits if_splits dest: map_of_SomeD)

definition demo_doc :: DidDoc where
  "demo_doc = \<lparr>ddContext = [], ddId = ''did:web:a'', ddAlsoKnownAs = [''at://a''], ddVerificationMethods = [], ddService = []\<rparr>"

theorem passport_fresh_witness:
  "\<exists>t. Minute \<le> t + 5 * Minute \<and> fetched [CallFetch False 0 ''did:web:a'' (Inr demo_doc)] (''did:web:a'', demo_doc, t)"
proof -
  have "fst (FetchDoc (memCache demo_lru demo_lru) False Minute (\<lambda>_. Inl (Err ''offline'')) ''did:web:a''
      (passport_run (memCache demo_lru demo_lru) [CallFetch False 0 ''did:web:a'' (Inr demo_doc)]
        (NewMemCache demo_lru demo_lru 10))) = Inr demo_doc"
    by (simp add: passport_run_def FetchDoc_def cached_or_fetched_def memCache_def NewMemCache_def demo_lru_def)
  from passport_fresh [OF demo_lru_law demo_lru_law this] show ?thesis by simp
qed

end
