(* ===== verification/Plc.thy ===== *)
theory Plc
  imports Identity
begin

text \<open>
  plc/: the client of the PLC directory.  It builds the credentials and operations of a DID, signs them with the
  rotation key, derives the DID from the genesis operation and sends operations.  Keys, CBOR, JSON, SHA-256 and
  HTTP are parameters; the base32 encoding of Go's standard library is written out.
\<close>

section \<open>base32.StdEncoding\<close>

definition b32_char :: "nat \<Rightarrow> char" where
  "b32_char k = letters ! k"

definition byte_bits :: "byte \<Rightarrow> bool list" where
  "byte_bits b = map (\<lambda>i. bit b (7 - i)) [0..<8]"

definition bits_val :: "bool list \<Rightarrow> nat" where
  "bits_val bs = foldl (\<lambda>n b. 2 * n + (if b then 1 else 0)) 0 bs"

text \<open>Groups of five bits, the last one filled with zeros.\<close>

fun quintets :: "bool list \<Rightarrow> nat list" where
  "quintets (a # b # c # d # e # r) = bits_val [a, b, c, d, e] # quintets r"
| "quintets [] = []"
| "quintets r = [bits_val (take 5 (r @ replicate 5 False))]"

definition base32_encode :: "bytes \<Rightarrow> string" where
  "base32_encode bs =
     (let cs = map b32_char (quintets (concat (map byte_bits bs))) in
      cs @ replicate ((8 - length cs mod 8) mod 8) CHR ''='')"

lemma bits_val_bound: "bits_val bs < 2 ^ length bs"
proof (induction bs rule: rev_induct)
  case (snoc b bs)
  then show ?case by (simp add: bits_val_def)
qed (simp add: bits_val_def)

lemma quintets_bound: "k \<in> set (quintets bs) \<Longrightarrow> k < 32"
proof -
  have five: "bits_val x < 32" if "length x = 5" for x using bits_val_bound [of x] that by simp
  show "k \<in> set (quintets bs) \<Longrightarrow> k < 32" by (induction bs rule: quintets.induct) (auto intro: five)
qed

lemma length_quintets: "length (quintets bs) = (length bs + 4) div 5"
  by (induction bs rule: quintets.induct) auto

lemma length_byte_bits: "length (concat (map byte_bits bs)) = 8 * length bs"
  by (induction bs) (simp_all add: byte_bits_def)

lemma base32_alphabet:
  assumes "n \<le> (8 * length bs + 4) div 5"
  shows "length (take n (base32_encode bs)) = n" and "set (take n (base32_encode bs)) \<subseteq> set letters"
proof -
  let ?cs = "map b32_char (quintets (concat (map byte_bits bs)))"
  have "length letters = 32" by (simp add: letters_def)
  have l: "length ?cs = (8 * length bs + 4) div 5" by (simp add: length_quintets length_byte_bits)
  have t: "take n (base32_encode bs) = take n ?cs" using assms l by (simp add: base32_encode_def Let_def)
  show "length (take n (base32_encode bs)) = n" using assms l unfolding t by simp
  have "b32_char k \<in> set letters" if "k < 32" for k
    using that \<open>length letters = 32\<close> by (simp add: b32_char_def)
  then have "set ?cs \<subseteq> set letters" using quintets_bound by auto
  then show "set (take n (base32_encode bs)) \<subseteq> set letters" unfolding t by (meson order_trans set_take_subset)
qed

section \<open>Operations\<close>

record DidCredentials =
  dcVerificationMethods :: "(string \<times> string) list"
  dcRotationKeys :: "string list"
  dcAlsoKnownAs :: "string list"
  dcServices :: "(string \<times> OperationService) list"

record Operation =
  plType :: string
  plVerificationMethods :: "(string \<times> string) list"
  plRotationKeys :: "string list"
  plAlsoKnownAs :: "string list"
  plServices :: "(string \<times> OperationService) list"
  plPrev :: "string option"
  plSig :: string

text \<open>
  The libraries: parsing a private key, the did:key of a private key's public half, signing, CBOR of the JSON
  of an operation, SHA-256, JSON, and a POST answered with a status and a body whose reading may fail.
\<close>

record plcLib =
  pkParsePriv :: "bytes \<Rightarrow> goerr + bytes"
  pkDIDKey :: "bytes \<Rightarrow> goerr + string"
  pkServiceDIDKey :: "bytes \<Rightarrow> goerr + string"
  pkHashAndSign :: "bytes \<Rightarrow> bytes \<Rightarrow> goerr + bytes"
  plcCbor :: "Operation \<Rightarrow> goerr + bytes"
  plcSha256 :: "bytes \<Rightarrow> bytes"
  plcJson :: "Operation \<Rightarrow> goerr + bytes"
  plcPost :: "string \<Rightarrow> bytes \<Rightarrow> goerr + nat \<times> (goerr + bytes)"

definition MarshalCBOR :: "plcLib \<Rightarrow> Operation option \<Rightarrow> goerr + bytes" where
  "MarshalCBOR P op1 = (case op1 of None \<Rightarrow> Inr [0xF6] | Some x \<Rightarrow> plcCbor P x)"

record plcClient =
  plcService :: string
  plcPdsHostname :: string
  plcRotationKey :: bytes
  plcServiceAuthKey :: bytes

definition NewClient :: "plcLib \<Rightarrow> string \<Rightarrow> bytes \<Rightarrow> string \<Rightarrow> bytes \<Rightarrow> goerr + plcClient" where
  "NewClient P service rotationKey hostname serviceAuthKey =
     (case pkParsePriv P rotationKey of
        Inl e \<Rightarrow> Inl e
      | Inr rk \<Rightarrow> Inr \<lparr>plcService = (if service = '''' then ''https://plc.directory'' else service),
          plcPdsHostname = hostname, plcRotationKey = rk, plcServiceAuthKey = serviceAuthKey\<rparr>)"

definition CreateDidCredentialsFromPublicKey ::
  "plcLib \<Rightarrow> plcClient \<Rightarrow> string \<Rightarrow> string \<Rightarrow> string \<Rightarrow> goerr + DidCredentials" where
  "CreateDidCredentialsFromPublicKey P c sigkey recovery handle =
     (case pkDIDKey P (plcRotationKey c) of
        Inl e \<Rightarrow> Inl e
      | Inr rot \<Rightarrow>
          (case pkServiceDIDKey P (plcServiceAuthKey c) of
             Inl e \<Rightarrow> Inl e
           | Inr svc \<Rightarrow> Inr \<lparr>dcVerificationMethods = [(''atproto'', sigkey), (''atproto_service'', svc)],
               dcRotationKeys = (if recovery \<noteq> '''' then [recovery, rot] else [rot]),
               dcAlsoKnownAs = [''at://'' @ handle],
               dcServices = [(''atproto_pds'', \<lparr>osType = ''AtprotoPersonalDataServer'',
                 osEndpoint = ''https://'' @ plcPdsHostname c\<rparr>)]\<rparr>))"

definition CreateDidCredentials :: "plcLib \<Rightarrow> plcClient \<Rightarrow> bytes \<Rightarrow> string \<Rightarrow> string \<Rightarrow> goerr + DidCredentials" where
  "CreateDidCredentials P c sigkey recovery handle =
     (case pkDIDKey P sigkey of Inl e \<Rightarrow> Inl e | Inr k \<Rightarrow> CreateDidCredentialsFromPublicKey P c k recovery handle)"

definition RotationKeyBytes :: "plcClient \<Rightarrow> bytes" where
  "RotationKeyBytes c = plcRotationKey c"

definition SignOp :: "plcLib \<Rightarrow> plcClient \<Rightarrow> Operation \<Rightarrow> goerr + Operation" where
  "SignOp P c op1 =
     (case MarshalCBOR P (Some op1) of
        Inl e \<Rightarrow> Inl e
      | Inr b \<Rightarrow> (case pkHashAndSign P (plcRotationKey c) b of Inl e \<Rightarrow> Inl e | Inr sg \<Rightarrow> Inr (op1\<lparr>plSig := b64_encode sg\<rparr>)))"

definition DidFromOp :: "plcLib \<Rightarrow> Operation \<Rightarrow> goerr + string" where
  "DidFromOp P op1 =
     (case MarshalCBOR P (Some op1) of
        Inl e \<Rightarrow> Inl e
      | Inr b \<Rightarrow> Inr (''did:plc:'' @ take 24 (ToLower (base32_encode (plcSha256 P b)))))"

definition genesis_op :: "DidCredentials \<Rightarrow> Operation" where
  "genesis_op creds = \<lparr>plType = ''plc_operation'', plVerificationMethods = dcVerificationMethods creds,
     plRotationKeys = dcRotationKeys creds, plAlsoKnownAs = dcAlsoKnownAs creds, plServices = dcServices creds,
     plPrev = None, plSig = ''''\<rparr>"

definition CreateDID :: "plcLib \<Rightarrow> plcClient \<Rightarrow> bytes \<Rightarrow> string \<Rightarrow> string \<Rightarrow> goerr + string \<times> Operation" where
  "CreateDID P c sigkey recovery handle =
     (case CreateDidCredentials P c sigkey recovery handle of
        Inl e \<Rightarrow> Inl e
      | Inr creds \<Rightarrow>
          (case SignOp P c (genesis_op creds) of
             Inl e \<Rightarrow> Inl e
           | Inr op1 \<Rightarrow> (case DidFromOp P op1 of Inl e \<Rightarrow> Inl e | Inr did \<Rightarrow> Inr (did, op1))))"

text \<open>The status of the answer is not looked at.\<close>

definition SendOperation :: "plcLib \<Rightarrow> plcClient \<Rightarrow> string \<Rightarrow> Operation \<Rightarrow> goerr option" where
  "SendOperation P c did op1 =
     (case plcJson P op1 of
        Inl e \<Rightarrow> Some e
      | Inr b \<Rightarrow>
          (case plcPost P (plcService c @ ''/'' @ QueryEscape did) b of
             Inl e \<Rightarrow> Some e
           | Inr (_, Inl _) \<Rightarrow> Some (Err ''error sending operation'')
           | Inr (_, Inr _) \<Rightarrow> None))"

lemma SendOperation_ignores_status:
  "plcJson P op1 = Inr b \<Longrightarrow> plcPost P (plcService c @ ''/'' @ QueryEscape did) b = Inr (500, Inr body) \<Longrightarrow>
   SendOperation P c did op1 = None"
  by (simp add: SendOperation_def)

section \<open>Properties\<close>

text \<open>
  C30: a DID made for a new account is well-formed, that is did:plc: and 24 letters or digits of the base32
  alphabet in lower case, it is the hash of the operation that is returned with it, and that operation is a
  genesis operation signed by the rotation key, which names the handle, this server, the signing key and, after
  a recovery key, the rotation key; so the document of the DID is looked up in the PLC directory.
\<close>

theorem created_did_well_formed:
  assumes "\<And>b. length (plcSha256 P b) = 32" and "CreateDID P c sigkey recovery handle = Inr (did, op1)"
  shows "\<exists>s rot sig k. did = ''did:plc:'' @ s \<and> length s = 24 \<and> set s \<subseteq> set ''abcdefghijklmnopqrstuvwxyz234567'' \<and>
    DidFromOp P op1 = Inr did \<and> DidToDocUrl did = Inr (''https://plc.directory/'' @ did) \<and>
    plPrev op1 = None \<and> plAlsoKnownAs op1 = [''at://'' @ handle] \<and>
    pkDIDKey P (plcRotationKey c) = Inr rot \<and> last (plRotationKeys op1) = rot \<and>
    (recovery \<noteq> '''' \<longrightarrow> hd (plRotationKeys op1) = recovery) \<and>
    pkDIDKey P sigkey = Inr k \<and> map_of (plVerificationMethods op1) ''atproto'' = Some k \<and>
    map_option osEndpoint (map_of (plServices op1) ''atproto_pds'') = Some (''https://'' @ plcPdsHostname c) \<and>
    (\<exists>b. plcCbor P (op1\<lparr>plSig := ''''\<rparr>) = Inr b \<and> pkHashAndSign P (plcRotationKey c) b = Inr sig \<and> plSig op1 = b64_encode sig)"
proof -
  from assms(2) obtain creds where c: "CreateDidCredentials P c sigkey recovery handle = Inr creds"
    and sg: "SignOp P c (genesis_op creds) = Inr op1" and did: "DidFromOp P op1 = Inr did"
    by (auto simp: CreateDID_def split: sum.splits)
  from c obtain k rot svc where k: "pkDIDKey P sigkey = Inr k" "pkDIDKey P (plcRotationKey c) = Inr rot"
    "creds = \<lparr>dcVerificationMethods = [(''atproto'', k), (''atproto_service'', svc)],
       dcRotationKeys = (if recovery \<noteq> '''' then [recovery, rot] else [rot]), dcAlsoKnownAs = [''at://'' @ handle],
       dcServices = [(''atproto_pds'', \<lparr>osType = ''AtprotoPersonalDataServer'', osEndpoint = ''https://'' @ plcPdsHostname c\<rparr>)]\<rparr>"
    by (auto simp: CreateDidCredentials_def CreateDidCredentialsFromPublicKey_def split: sum.splits)
  from sg obtain b sig where b: "plcCbor P (genesis_op creds) = Inr b" "pkHashAndSign P (plcRotationKey c) b = Inr sig"
    "op1 = (genesis_op creds)\<lparr>plSig := b64_encode sig\<rparr>"
    by (auto simp: SignOp_def MarshalCBOR_def split: sum.splits)
  from did obtain b' where d: "did = ''did:plc:'' @ take 24 (ToLower (base32_encode (plcSha256 P b')))"
    by (auto simp: DidFromOp_def split: sum.splits)
  let ?s = "take 24 (ToLower (base32_encode (plcSha256 P b')))"
  have s: "?s = map lower_char (take 24 (base32_encode (plcSha256 P b')))" by (simp add: ToLower_def take_map)
  have "lower_char ` set letters = set ''abcdefghijklmnopqrstuvwxyz234567''" by code_simp
  then have len: "length ?s = 24" and alpha: "set ?s \<subseteq> set ''abcdefghijklmnopqrstuvwxyz234567''"
    unfolding s using base32_alphabet [of 24 "plcSha256 P b'"] assms(1) by auto
  have url: "DidToDocUrl did = Inr (''https://plc.directory/'' @ did)" by (simp add: d DidToDocUrl_def HasPrefix_def)
  show ?thesis
    by (insert len alpha url did k(1,2) b(1,2), rule exI [of _ ?s], rule exI [of _ rot], rule exI [of _ sig], rule exI [of _ k])
       (simp add: d b(3) k(3) genesis_op_def)
qed

definition demo_plcLib :: plcLib where
  "demo_plcLib = \<lparr>pkParsePriv = Inr, pkDIDKey = (\<lambda>k. Inr (''did:key:'' @ of_bytes k)), pkServiceDIDKey = (\<lambda>k. Inr ''did:key:s''),
     pkHashAndSign = (\<lambda>k b. Inr (k @ b)), plcCbor = (\<lambda>x. Inr [of_nat (length (plSig x))]),
     plcSha256 = (\<lambda>b. take 32 (b @ replicate 32 0)), plcJson = (\<lambda>x. Inr []), plcPost = (\<lambda>u b. Inr (500, Inr []))\<rparr>"

definition demo_plcClient :: plcClient where
  "demo_plcClient = \<lparr>plcService = ''https://plc.directory'', plcPdsHostname = ''pds'', plcRotationKey = [65], plcServiceAuthKey = [66]\<rparr>"

theorem created_did_well_formed_witness:
  "\<exists>did op1. CreateDID demo_plcLib demo_plcClient [67] '''' ''alice'' = Inr (did, op1) \<and> length did = 32"
proof -
  have len: "length (plcSha256 demo_plcLib b) = 32" for b by (simp add: demo_plcLib_def)
  obtain did op1 where c: "CreateDID demo_plcLib demo_plcClient [67] '''' ''alice'' = Inr (did, op1)"
    by (simp add: CreateDID_def CreateDidCredentials_def CreateDidCredentialsFromPublicKey_def SignOp_def MarshalCBOR_def
        DidFromOp_def demo_plcLib_def demo_plcClient_def)
  from created_did_well_formed [OF len c] have "length did = 32" by auto
  with c show ?thesis by blast
qed

end
