(* ===== verification/IdentityHandlers.thy ===== *)
theory IdentityHandlers
  imports Accounts Identity Plc Webauthn SignerConnect "HOL-Library.List_Lexorder" "HOL-Library.Char_ord"
begin

text \<open>
  The handlers that change or show an identity: com.atproto.identity.* (server/handle_identity_*.go), the
  registration of a passkey (server/handle_server_supply_signing_key.go), resolveHandle and the documents under
  /.well-known.  A Go map is the list of its entries in key order, nil and empty slices are not distinguished.
\<close>

section \<open>What the handlers use\<close>

text \<open>
  The account rows, the event log, the passport's cache, and every operation posted to the directory so far.
\<close>

record 'c idState =
  idDb :: db
  idEvents :: DbPersister
  idCache :: 'c
  idSent :: "(string \<times> Operation) list"

text \<open>
  \<open>ilAsk\<close> is RequestSignature of the hub (account, request id, message); \<open>ilK256\<close> parses a public key and
  gives its did:key and its bytes, \<open>ilP256\<close> says whether a key parses.
\<close>

record 'c identityLib =
  ilServer :: server
  ilPlc :: plcLib
  ilClient :: plcClient
  ilNet :: netLib
  ilCache :: "'c backingCache"
  ilAsk :: "string \<Rightarrow> string \<Rightarrow> string \<Rightarrow> goerr + bytes"
  ilAdd :: add_event
  ilRFC3339 :: "time \<Rightarrow> string"
  ilK256 :: "bytes \<Rightarrow> goerr + string \<times> bytes"
  ilP256 :: "bytes \<Rightarrow> bool"

fun map_put :: "string \<Rightarrow> 'v \<Rightarrow> (string \<times> 'v) list \<Rightarrow> (string \<times> 'v) list" where
  "map_put k v [] = [(k, v)]"
| "map_put k v ((k1, v1) # m) =
     (if k = k1 then (k, v) # m else if k < k1 then (k, v) # (k1, v1) # m else (k1, v1) # map_put k v m)"

lemma map_of_map_put [simp]: "map_of (map_put k v m) = (map_of m)(k \<mapsto> v)"
  by (induction k v m rule: map_put.induct) auto

section \<open>Operations\<close>

text \<open>The operation that follows the last one of the log, unchanged.\<close>

definition next_op :: "DidAuditEntry \<Rightarrow> Operation" where
  "next_op prior = (let o1 = auOperation prior in
     \<lparr>plType = ''plc_operation'', plVerificationMethods = leVerificationMethods o1,
      plRotationKeys = leRotationKeys o1, plAlsoKnownAs = leAlsoKnownAs o1, plServices = leServices o1,
      plPrev = Some (auCid prior), plSig = ''''\<rparr>)"

definition service_json :: "OperationService \<Rightarrow> json" where
  "service_json s = JObj [(''type'', JStr (osType s)), (''endpoint'', JStr (osEndpoint s))]"

definition Operation_json :: "Operation \<Rightarrow> json" where
  "Operation_json o1 =
     JObj ([(''type'', JStr (plType o1)),
       (''verificationMethods'', JObj (map (\<lambda>(k, v). (k, JStr v)) (plVerificationMethods o1))),
       (''rotationKeys'', JArr (map JStr (plRotationKeys o1))), (''alsoKnownAs'', JArr (map JStr (plAlsoKnownAs o1))),
       (''services'', JObj (map (\<lambda>(k, v). (k, service_json v)) (plServices o1))),
       (''prev'', case plPrev o1 of None \<Rightarrow> JNull | Some p \<Rightarrow> JStr p)] @
      (if plSig o1 \<noteq> '''' then [(''sig'', JStr (plSig o1))] else []))"

text \<open>
  What the three handlers share that let the passkey sign: the operation's CBOR is sent to the signer, the
  answer becomes the signature; \<open>Inl\<close> is the response that ends the request.
\<close>

definition passkey_sign :: "'c identityLib \<Rightarrow> string \<Rightarrow> string \<Rightarrow> Operation \<Rightarrow> outcome + Operation" where
  "passkey_sign I did rkey o1 =
     (case MarshalCBOR (ilPlc I) (Some o1) of
        Inl e \<Rightarrow> Inl (ServerError None)
      | Inr b \<Rightarrow>
          let rid = sUuid (ilServer I) 0;
              m = buildSignRequestMsg (ilRFC3339 I) rid did (b64_encode b)
                    [pending_op ''plc_operation'' ''identity'' rkey] (sNow (ilServer I) + signerRequestTimeout)
          in case ilAsk I did rid m of
               Inl e \<Rightarrow> Inl (the (HandleSignerError (Some e)))
             | Inr sg \<Rightarrow> Inr (o1\<lparr>plSig := b64_encode sg\<rparr>))"

text \<open>As long as no passkey is registered the server's rotation key signs.\<close>

definition authorised_sign :: "'c identityLib \<Rightarrow> RepoActor \<Rightarrow> string \<Rightarrow> Operation \<Rightarrow> outcome + Operation" where
  "authorised_sign I repo rkey o1 =
     (if rSigningPublicKey (raRepo repo) = []
      then (case SignOp (ilPlc I) (ilClient I) o1 of Inl e \<Rightarrow> Inl (ServerError None) | Inr o2 \<Rightarrow> Inr o2)
      else passkey_sign I (rDid (raRepo repo)) rkey o1)"

text \<open>
  An operation that cannot be encoded is not posted.  One that was posted counts as sent even when the request fails or
  the answer cannot be read: it may have reached the directory.
\<close>

definition send_op :: "'c identityLib \<Rightarrow> string \<Rightarrow> Operation \<Rightarrow> 'c idState \<Rightarrow> goerr option \<times> 'c idState" where
  "send_op I did o1 s = (SendOperation (ilPlc I) (ilClient I) did o1,
     case plcJson (ilPlc I) o1 of Inl e \<Rightarrow> s | Inr b \<Rightarrow> s\<lparr>idSent := idSent s @ [(did, o1)]\<rparr>)"

lemma send_op_cases:
  obtains (unposted) e where "send_op I did o1 s = (Some e, s)"
  | (posted) "send_op I did o1 s = (SendOperation (ilPlc I) (ilClient I) did o1, s\<lparr>idSent := idSent s @ [(did, o1)]\<rparr>)"
  by (cases "plcJson (ilPlc I) o1") (auto simp: send_op_def SendOperation_def)

definition bust_doc :: "'c identityLib \<Rightarrow> string \<Rightarrow> 'c idState \<Rightarrow> 'c idState" where
  "bust_doc I did s = s\<lparr>idCache := BustDoc (ilCache I) did (idCache s)\<rparr>"

definition identity_event :: "'c identityLib \<Rightarrow> string \<Rightarrow> string option \<Rightarrow> 'c idState \<Rightarrow> 'c idState" where
  "identity_event I did handle s = (let now = sNow (ilServer I) in
     s\<lparr>idEvents := snd (ilAdd I (RepoIdentity \<lparr>ieSeq = now div 1000, ieDid = did, ieHandle = handle, ieTime = now\<rparr>)
       (idEvents s))\<rparr>)"

section \<open>Recommended credentials\<close>

definition credentials_json :: "DidCredentials \<Rightarrow> json" where
  "credentials_json c =
     JObj [(''verificationMethods'', JObj (map (\<lambda>(k, v). (k, JStr v)) (dcVerificationMethods c))),
       (''rotationKeys'', JArr (map JStr (dcRotationKeys c))), (''alsoKnownAs'', JArr (map JStr (dcAlsoKnownAs c))),
       (''services'', JObj (map (\<lambda>(k, v). (k, service_json v)) (dcServices c)))]"

definition handleGetRecommendedDidCredentials :: "'c identityLib \<Rightarrow> RepoActor \<Rightarrow> outcome" where
  "handleGetRecommendedDidCredentials I repo =
     (if rSigningPublicKey (raRepo repo) = [] then InputError (Some ''no signing key registered for this account'')
      else (case ilK256 I (rSigningPublicKey (raRepo repo)) of
              Inl e \<Rightarrow> ServerError None
            | Inr (key, _) \<Rightarrow>
                (case CreateDidCredentialsFromPublicKey (ilPlc I) (ilClient I) key '''' (aHandle (raActor repo)) of
                   Inl e \<Rightarrow> ServerError None
                 | Inr creds \<Rightarrow>
                     if \<not> HasPrefix (rDid (raRepo repo)) ''did:plc:'' then writeJSON 200 (credentials_json creds)
                     else (case FetchDidAuditLog (ilNet I) (rDid (raRepo repo)) of
                             Inl e \<Rightarrow> writeJSON 200 (credentials_json creds)
                           | Inr alog \<Rightarrow>
                               if alog = [] then Panic
                               else writeJSON 200 (credentials_json
                               (creds\<lparr>dcRotationKeys := leRotationKeys (auOperation (last alog))\<rparr>))))))"

section \<open>Signing an operation\<close>

record SignPlcRequest =
  spToken :: string
  spVerificationMethods :: "(string \<times> string) list option"
  spRotationKeys :: "string list option"
  spAlsoKnownAs :: "string list option"
  spServices :: "(string \<times> OperationService) list option"

definition requested_op :: "SignPlcRequest \<Rightarrow> DidAuditEntry \<Rightarrow> Operation" where
  "requested_op req prior = (let o1 = next_op prior in
     o1\<lparr>plVerificationMethods := case_option (plVerificationMethods o1) id (spVerificationMethods req),
       plRotationKeys := case_option (plRotationKeys o1) id (spRotationKeys req),
       plAlsoKnownAs := case_option (plAlsoKnownAs o1) id (spAlsoKnownAs req),
       plServices := case_option (plServices o1) id (spServices req)\<rparr>)"

definition handleSignPlcOperation :: "'c identityLib \<Rightarrow> RepoActor \<Rightarrow> SignPlcRequest option \<Rightarrow> db \<Rightarrow> outcome \<times> db" where
  "handleSignPlcOperation I repo req d =
     (let sv = ilServer I; did = rDid (raRepo repo) in
      case req of
        None \<Rightarrow> (ServerError None, d)
      | Some req \<Rightarrow>
          if \<not> HasPrefix did ''did:plc:'' then (InputError None, d)
          else (case code_error (sNow sv) (InputError (Some ''InvalidToken'')) InvalidTokenError
                  (rPlcOperationCode (raRepo repo)) (rPlcOperationCodeExpiresAt (raRepo repo)) (spToken req) of
                  Some w \<Rightarrow> (w, d)
                | None \<Rightarrow>
                    (case FetchDidAuditLog (ilNet I) did of
                       Inl e \<Rightarrow> (ServerError None, d)
                     | Inr alog \<Rightarrow>
                         if alog = [] then (Panic, d)
                         else
                         (case passkey_sign I did '''' (requested_op req (last alog)) of
                            Inl w \<Rightarrow> (w, d)
                          | Inr o2 \<Rightarrow>
                              (case db_exec sv ''repos.clearPlcCode'' (upd_repo did (\<lambda>x.
                                  x\<lparr>rPlcOperationCode := None, rPlcOperationCodeExpiresAt := None\<rparr>)) d of
                                 Inl e \<Rightarrow> (ServerError None, d)
                               | Inr d' \<Rightarrow> (writeJSON 200 (JObj [(''operation'', Operation_json o2)]), d'))))))"


section \<open>Submitting an operation\<close>

definition service_of :: "Operation \<Rightarrow> OperationService" where
  "service_of o1 = (case map_of (plServices o1) ''atproto_pds'' of
     None \<Rightarrow> \<lparr>osType = '''', osEndpoint = ''''\<rparr> | Some s \<Rightarrow> s)"

definition endpoint_of :: "DidCredentials \<Rightarrow> string" where
  "endpoint_of c = (case map_of (dcServices c) ''atproto_pds'' of None \<Rightarrow> '''' | Some s \<Rightarrow> osEndpoint s)"

text \<open>The checks of a submitted operation, in order; the answer of the first that fails.\<close>

definition submit_checks :: "'c identityLib \<Rightarrow> RepoActor \<Rightarrow> Operation \<Rightarrow> outcome option" where
  "submit_checks I repo o1 =
     (let r = raRepo repo in
      if \<not> HasPrefix (rDid r) ''did:plc:'' then Some (InputError None)
      else if rSigningPublicKey r = [] then Some (InputError (Some ''no signing key registered for this account''))
      else (case ilK256 I (rSigningPublicKey r) of
        Inl e \<Rightarrow> Some (ServerError None)
      | Inr (key, _) \<Rightarrow>
          (case FetchDidAuditLog (ilNet I) (rDid r) of
             Inl e \<Rightarrow> Some (ServerError None)
           | Inr alog \<Rightarrow>
               if alog = [] then Some Panic
               else
               if \<not> list_ex (\<lambda>rk. rk \<in> set (leRotationKeys (auOperation (last alog)))) (plRotationKeys o1)
               then Some (InputError (Some ''operation must retain at least one current rotation key''))
               else if case_option '''' id (map_of (plVerificationMethods o1) ''atproto'') \<noteq> key then Some (InputError (Some ''verificationMethods.atproto must match the registered signing key''))
               else (case CreateDidCredentialsFromPublicKey (ilPlc I) (ilClient I) key '''' (aHandle (raActor repo)) of
                  Inl e \<Rightarrow> Some (ServerError None)
                | Inr required \<Rightarrow>
                    if osType (service_of o1) \<noteq> ''AtprotoPersonalDataServer''
                    then Some (InputError (Some ''services.atproto_pds must be AtprotoPersonalDataServer''))
                    else if osEndpoint (service_of o1) \<noteq> endpoint_of required
                    then Some (InputError (Some ''services.atproto_pds endpoint must point to this PDS''))
                    else None))))"

definition handleSubmitPlcOperation ::
  "'c identityLib \<Rightarrow> RepoActor \<Rightarrow> Operation option \<Rightarrow> 'c idState \<Rightarrow> outcome \<times> 'c idState" where
  "handleSubmitPlcOperation I repo req s =
     (let did = rDid (raRepo repo) in
      case req of
        None \<Rightarrow> (ServerError None, s)
      | Some o1 \<Rightarrow>
          (case submit_checks I repo o1 of
             Some w \<Rightarrow> (w, s)
           | None \<Rightarrow>
               (case send_op I did o1 s of
                  (Some e, s1) \<Rightarrow> (ServerError None, s1)
                | (None, s1) \<Rightarrow> (writeHeader 200, identity_event I did None (bust_doc I did s1)))))"

section \<open>Changing the handle\<close>

definition renamed :: "string \<Rightarrow> string \<Rightarrow> string list \<Rightarrow> string list" where
  "renamed old new aka = filter (\<lambda>a. a \<noteq> ''at://'' @ old) aka @ [''at://'' @ new]"

definition set_handle :: "string \<Rightarrow> string \<Rightarrow> db \<Rightarrow> db" where
  "set_handle did handle d = d\<lparr>actors := sql_update (\<lambda>a. aDid a = did) (\<lambda>a. a\<lparr>aHandle := handle\<rparr>) (actors d)\<rparr>"

text \<open>Handles are unique: the update fails when another account has the handle.\<close>

definition handle_taken :: "db \<Rightarrow> string \<Rightarrow> string \<Rightarrow> bool" where
  "handle_taken d did handle \<longleftrightarrow> (\<exists>a \<in> set (actors d). aHandle a = handle \<and> aDid a \<noteq> did)"

definition publish_handle ::
  "'c identityLib \<Rightarrow> RepoActor \<Rightarrow> string \<Rightarrow> 'c idState \<Rightarrow> outcome option \<times> 'c idState" where
  "publish_handle I repo handle s =
     (let did = rDid (raRepo repo) in
      if \<not> HasPrefix did ''did:plc:'' then (None, s)
      else (case FetchDidAuditLog (ilNet I) did of
              Inl e \<Rightarrow> (Some (ServerError None), s)
            | Inr alog \<Rightarrow>
                if alog = [] then (Some Panic, s)
                else
                let o1 = next_op (last alog) in
                (case authorised_sign I repo handle
                        (o1\<lparr>plAlsoKnownAs := renamed (aHandle (raActor repo)) handle (plAlsoKnownAs o1)\<rparr>) of
                   Inl w \<Rightarrow> (Some w, s)
                 | Inr o2 \<Rightarrow>
                     (case send_op I did o2 s of
                        (Some e, s1) \<Rightarrow> (Some (ServerError None), s1)
                      | (None, s1) \<Rightarrow> (None, s1)))))"

definition handleIdentityUpdateHandle ::
  "'c identityLib \<Rightarrow> syntaxLib \<Rightarrow> RepoActor \<Rightarrow> string option \<Rightarrow> 'c idState \<Rightarrow> outcome \<times> 'c idState" where
  "handleIdentityUpdateHandle I X repo req s =
     (let did = rDid (raRepo repo) in
      case req of
        None \<Rightarrow> (ServerError None, s)
      | Some h0 \<Rightarrow>
          let handle = ToLower h0 in
          if \<not> isHandle X handle then (InputError None, s)
          else (case publish_handle I repo handle s of
                  (Some w, s1) \<Rightarrow> (w, s1)
                | (None, s1) \<Rightarrow>
                    let s2 = identity_event I did (Some handle) (bust_doc I did s1) in
                    if handle_taken (idDb s2) did handle then (ServerError None, s2)
                    else (case db_exec (ilServer I) ''actors.handle'' (set_handle did handle) (idDb s2) of
                            Inl e \<Rightarrow> (ServerError None, s2)
                          | Inr d' \<Rightarrow> (writeHeader 200, s2\<lparr>idDb := d'\<rparr>))))"

section \<open>Registering a passkey\<close>

record SupplySigningKeyRequest =
  skClientDataJSON :: string
  skAttestationObject :: string
  skSigningPublicKey :: string

definition pdsDIDKey :: "'c identityLib \<Rightarrow> goerr + string" where
  "pdsDIDKey I = pkServiceDIDKey (ilPlc I) (plcServiceAuthKey (ilClient I))"

text \<open>The keys of a request: key and credential of the passkey, did:key and bytes of the signing key.\<close>

definition supplied_keys ::
  "'c identityLib \<Rightarrow> ('pub, 'kpub) webauthnLib \<Rightarrow> SupplySigningKeyRequest option \<Rightarrow>
   outcome + bytes \<times> bytes \<times> string \<times> bytes" where
  "supplied_keys I W req =
     (case req of
        None \<Rightarrow> Inl (InputError (Some ''could not decode request body''))
      | Some q \<Rightarrow>
          if skClientDataJSON q = '''' \<or> skAttestationObject q = '''' \<or> skSigningPublicKey q = ''''
          then Inl (InputError (Some ''clientDataJSON and attestationObject are required''))
          else (case parseAttestationObject W (skAttestationObject q) of
             Inl e \<Rightarrow> Inl (InputError (Some ''could not parse attestation object''))
           | Inr (keyBytes, credentialID) \<Rightarrow>
               if \<not> ilP256 I keyBytes then Inl (InputError (Some ''invalid P-256 public key in attestation''))
               else (case b64_decode (skSigningPublicKey q) of
                  None \<Rightarrow> Inl (InputError (Some ''invalid signing public key encoding''))
                | Some sk \<Rightarrow>
                    (case ilK256 I sk of
                       Inl e \<Rightarrow> Inl (InputError (Some ''invalid derived secp256k1 public key''))
                     | Inr (key, kb) \<Rightarrow> Inr (keyBytes, credentialID, key, kb)))))"

definition transfer_op :: "DidAuditEntry \<Rightarrow> string \<Rightarrow> string \<Rightarrow> Operation" where
  "transfer_op prior key pds = (let o1 = next_op prior in
     o1\<lparr>plVerificationMethods := map_put ''atproto_service'' pds (map_put ''atproto'' key (plVerificationMethods o1)),
        plRotationKeys := [key]\<rparr>)"

text \<open>
  The operation of the directory, signed and sent; \<open>Inr\<close> has the rotation keys and the operation, when the
  passkey has signed it.
\<close>

definition transfer ::
  "'c identityLib \<Rightarrow> RepoActor \<Rightarrow> string \<Rightarrow> string \<Rightarrow> 'c idState \<Rightarrow>
   (outcome + string list \<times> Operation option) \<times> 'c idState" where
  "transfer I repo key pds s =
     (let did = rDid (raRepo repo) in
      if \<not> HasPrefix did ''did:plc:'' then (Inr ([], None), s)
      else (case FetchDidAuditLog (ilNet I) did of
              Inl e \<Rightarrow> (Inl (ServerError None), s)
            | Inr alog \<Rightarrow>
                if alog = [] then (Inl Panic, s)
                else
                (case authorised_sign I repo ''supply_signing_key'' (transfer_op (last alog) key pds) of
                   Inl w \<Rightarrow> (Inl w, s)
                 | Inr o2 \<Rightarrow>
                     (case send_op I did o2 s of
                        (Some e, s1) \<Rightarrow> (Inl (ServerError None), s1)
                      | (None, s1) \<Rightarrow> (Inr ([key], if rSigningPublicKey (raRepo repo) = [] then None else Some o2), s1)))))"

definition handleSupplySigningKey ::
  "'c identityLib \<Rightarrow> ('pub, 'kpub) webauthnLib \<Rightarrow> RepoActor option \<Rightarrow> SupplySigningKeyRequest option \<Rightarrow>
   'c idState \<Rightarrow> outcome \<times> 'c idState" where
  "handleSupplySigningKey I W ctx req s =
     (case ctx of
        None \<Rightarrow> (UnauthorizedError None, s)
      | Some repo \<Rightarrow>
          (case supplied_keys I W req of
             Inl w \<Rightarrow> (w, s)
           | Inr (keyBytes, credentialID, key, kb) \<Rightarrow>
               (case pdsDIDKey I of
                  Inl e \<Rightarrow> (ServerError None, s)
                | Inr pds \<Rightarrow>
                    (case transfer I repo key pds s of
                       (Inl w, s1) \<Rightarrow> (w, s1)
                     | (Inr (rot, o2), s1) \<Rightarrow>
                         (case db_exec (ilServer I) ''repos.keys'' (upd_repo (rDid (raRepo repo)) (\<lambda>x.
                             x\<lparr>rAuthPublicKey := keyBytes, rSigningPublicKey := kb, rCredentialID := credentialID\<rparr>)) (idDb s1) of
                            Inl e \<Rightarrow> (ServerError None, s1)
                          | Inr d' \<Rightarrow>
                              (writeJSON 200 (JObj ([(''did'', JStr (rDid (raRepo repo))), (''publicKey'', JStr key),
                                 (''serviceKey'', JStr pds), (''credentialId'', JStr (b64_encode credentialID)),
                                 (''rotationKeys'', JArr (map JStr rot))] @
                                 (case o2 of None \<Rightarrow> [] | Some o3 \<Rightarrow> [(''signedOperation'', Operation_json o3)]))),
                               bust_doc I (rDid (raRepo repo)) (s1\<lparr>idDb := d'\<rparr>)))))))"

section \<open>Resolving handles\<close>

text \<open>The parsed handle is the given one; an account of the server is found before the network is asked.\<close>

definition handleResolveHandle ::
  "'c identityLib \<Rightarrow> syntaxLib \<Rightarrow> request \<Rightarrow> 'c idState \<Rightarrow> outcome \<times> 'c idState" where
  "handleResolveHandle I X r s =
     (let handle = get_value (qQuery r) ''handle'' in
      if handle = '''' then (InputError (Some ''Handle must be supplied in request.''), s)
      else if \<not> isHandle X handle then (InputError (Some ''Invalid handle.''), s)
      else (case getActorByHandle (sFails (ilServer I)) (idDb s) handle of
              Inr a \<Rightarrow> (writeJSON 200 (JObj [(''did'', JStr (aDid a))]), s)
            | Inl _ \<Rightarrow>
                (case Passport_ResolveHandle (ilCache I) True (sNow (ilServer I)) (ResolveHandle X (ilNet I)) handle
                        (idCache s) of
                   (Inl e, c) \<Rightarrow> (ServerError None, s\<lparr>idCache := c\<rparr>)
                 | (Inr did, c) \<Rightarrow> (writeJSON 200 (JObj [(''did'', JStr did)]), s\<lparr>idCache := c\<rparr>))))"

section \<open>Documents under /.well-known\<close>

definition handleWellKnown :: "server \<Rightarrow> outcome" where
  "handleWellKnown sv = writeJSON 200 (JObj [(''@context'', JArr [JStr ''https://www.w3.org/ns/did/v1'']),
     (''id'', JStr (sDid sv)),
     (''service'', JArr [JObj [(''id'', JStr ''#atproto_pds''), (''serviceEndpoint'', JStr (''https://'' @ sHostname sv)),
        (''type'', JStr ''AtprotoPersonalDataServer'')]])])"

definition plain_text :: "string \<Rightarrow> outcome" where
  "plain_text t = Reply \<lparr>code = 200, hdrs = [(''Content-Type'', ''text/plain'')], payload = BText t\<rparr>"

definition request_domain :: "server \<Rightarrow> request \<Rightarrow> string" where
  "request_domain sv r = (let host = (if RequestHost r = '''' then sHostname sv else RequestHost r) in
     ToLower (TrimSpace (hd (SplitOn (CHR '':'') host))))"

definition handleAtprotoDid :: "server \<Rightarrow> request \<Rightarrow> db \<Rightarrow> outcome" where
  "handleAtprotoDid sv r d =
     (let host = request_domain sv r in
      if host = sHostname sv then plain_text (sDid sv)
      else if \<not> HasSuffix host (''.'' @ sHostname sv) then writeHeader 404
      else (case getActorByHandle (sFails sv) d host of
              Inl e \<Rightarrow> if e = ErrRecordNotFound then writeHeader 404 else ServerError None
            | Inr a \<Rightarrow> plain_text (aDid a)))"

definition handleOauthProtectedResource :: "server \<Rightarrow> outcome" where
  "handleOauthProtectedResource sv = (let u = ''https://'' @ sHostname sv in
     writeJSON 200 (JObj [(''authorization_servers'', JArr [JStr u]), (''bearer_methods_supported'', JArr [JStr ''header'']),
       (''resource'', JStr u), (''resource_documentation'', JStr ''https://atproto.com''), (''scopes_supported'', JArr [])]))"

definition VowSupportedScopes :: "string list" where
  "VowSupportedScopes = [''atproto'', ''transition:email'', ''transition:generic'', ''transition:chat.bsky'']"

definition handleOauthAuthorizationServer :: "server \<Rightarrow> outcome" where
  "handleOauthAuthorizationServer sv =
     (let u = ''https://'' @ sHostname sv; strs = (\<lambda>l. JArr (map JStr l)) in
      writeJSON 200 (JObj [(''issuer'', JStr u), (''request_parameter_supported'', JBool True),
        (''request_uri_parameter_supported'', JBool True), (''require_request_uri_registration'', JBool True),
        (''scopes_supported'', strs VowSupportedScopes), (''subject_types_supported'', strs [''public'']),
        (''response_types_supported'', strs [''code'']),
        (''response_modes_supported'', strs [''query'', ''fragment'', ''form_post'']),
        (''grant_types_supported'', strs [''authorization_code'', ''refresh_token'']),
        (''code_challenge_methods_supported'', strs [''S256'']), (''ui_locales_supported'', strs [''en-US'']),
        (''display_values_supported'', strs [''page'', ''popup'', ''touch'']),
        (''request_object_signing_alg_values_supported'', strs [''ES256'']),
        (''authorization_response_iss_parameter_supported'', JBool True),
        (''request_object_encryption_alg_values_supported'', strs []),
        (''request_object_encryption_enc_values_supported'', strs []), (''jwks_uri'', JStr (u @ ''/oauth/jwks'')),
        (''authorization_endpoint'', JStr (u @ ''/oauth/authorize'')), (''token_endpoint'', JStr (u @ ''/oauth/token'')),
        (''token_endpoint_auth_methods_supported'', strs [''none'', ''private_key_jwt'']),
        (''token_endpoint_auth_signing_alg_values_supported'', strs [''ES256'']),
        (''revocation_endpoint'', JStr (u @ ''/oauth/revoke'')), (''introspection_endpoint'', JStr (u @ ''/oauth/introspect'')),
        (''pushed_authorization_request_endpoint'', JStr (u @ ''/oauth/par'')),
        (''require_pushed_authorization_requests'', JBool True), (''dpop_signing_alg_values_supported'', strs [''ES256'']),
        (''protected_resources'', strs [u]), (''client_id_metadata_document_supported'', JBool True)]))"


section \<open>Properties\<close>

lemma identity_event_simps [simp]:
  "idDb (identity_event I did h s) = idDb s" "idSent (identity_event I did h s) = idSent s"
  "idCache (identity_event I did h s) = idCache s"
  by (simp_all add: identity_event_def Let_def)

lemma bust_doc_simps [simp]:
  "idDb (bust_doc I did s) = idDb s" "idSent (bust_doc I did s) = idSent s" "idEvents (bust_doc I did s) = idEvents s"
  by (simp_all add: bust_doc_def)

lemma FetchDidAuditLog_cases:
  obtains e where "FetchDidAuditLog N did = Inl e" | "FetchDidAuditLog N did = Inr []"
    | alog where "FetchDidAuditLog N did = Inr alog" "alog \<noteq> []"
  by (cases "FetchDidAuditLog N did"; cases "projr (FetchDidAuditLog N did)") auto

lemma submit_checks_None:
  assumes "submit_checks I repo o1 = None"
  shows "\<exists>alog rk key kb. HasPrefix (rDid (raRepo repo)) ''did:plc:'' \<and> FetchDidAuditLog (ilNet I) (rDid (raRepo repo)) = Inr alog \<and>
    alog \<noteq> [] \<and> rk \<in> set (plRotationKeys o1) \<and> rk \<in> set (leRotationKeys (auOperation (last alog))) \<and>
    ilK256 I (rSigningPublicKey (raRepo repo)) = Inr (key, kb) \<and>
    case_option '''' id (map_of (plVerificationMethods o1) ''atproto'') = key \<and>
    osType (service_of o1) = ''AtprotoPersonalDataServer'' \<and>
    osEndpoint (service_of o1) = ''https://'' @ plcPdsHostname (ilClient I)"
proof (cases "FetchDidAuditLog (ilNet I) (rDid (raRepo repo))")
  case (Inl e)
  with assms show ?thesis by (auto simp: submit_checks_def Let_def split: if_splits sum.splits)
next
  case (Inr alog)
  with assms have "alog \<noteq> []"
    by (auto simp: submit_checks_def Let_def split: if_splits sum.splits)
  with assms Inr show ?thesis
    by (auto simp: submit_checks_def Let_def list_ex_iff endpoint_of_def CreateDidCredentialsFromPublicKey_def
        split: if_splits sum.splits) blast
qed

text \<open>
  An operation submitted for an account reaches the directory only when the account is a did:plc one, the
  operation keeps one of the current rotation keys, its signing key is the registered one and its data server is
  this one; otherwise nothing changes.  The rows of the database never change, and after success the cached
  document of the account is dropped and the change is announced.
\<close>

theorem submit_plc_sound:
  assumes "handleSubmitPlcOperation I repo req s = (w, s')" and "did = rDid (raRepo repo)"
  shows "(s' = s \<and> status_of w \<noteq> 200) \<or>
    (\<exists>o1 alog rk key kb. req = Some o1 \<and> idSent s' = idSent s @ [(did, o1)] \<and> idDb s' = idDb s \<and>
       HasPrefix did ''did:plc:'' \<and> FetchDidAuditLog (ilNet I) did = Inr alog \<and> alog \<noteq> [] \<and>
       rk \<in> set (plRotationKeys o1) \<and> rk \<in> set (leRotationKeys (auOperation (last alog))) \<and>
       ilK256 I (rSigningPublicKey (raRepo repo)) = Inr (key, kb) \<and>
       case_option '''' id (map_of (plVerificationMethods o1) ''atproto'') = key \<and>
       osType (service_of o1) = ''AtprotoPersonalDataServer'' \<and>
       osEndpoint (service_of o1) = ''https://'' @ plcPdsHostname (ilClient I) \<and>
       (status_of w = 200 \<longrightarrow> SendOperation (ilPlc I) (ilClient I) did o1 = None \<and>
          s' = identity_event I did None (bust_doc I did (s\<lparr>idSent := idSent s @ [(did, o1)]\<rparr>))))"
proof (cases req)
  case None
  with assms show ?thesis by (auto simp: handleSubmitPlcOperation_def)
next
  case (Some o1)
  show ?thesis
  proof (cases "submit_checks I repo o1")
    case (Some w1)
    have "status_of w1 \<noteq> 200"
      using Some by (auto simp: submit_checks_def Let_def split: if_splits sum.splits list.splits)
    with Some \<open>req = Some o1\<close> assms show ?thesis by (auto simp: handleSubmitPlcOperation_def)
  next
    case None
    have "(s' = s \<and> status_of w \<noteq> 200) \<or> idSent s' = idSent s @ [(did, o1)] \<and> idDb s' = idDb s \<and>
       (status_of w = 200 \<longrightarrow> SendOperation (ilPlc I) (ilClient I) did o1 = None \<and>
          s' = identity_event I did None (bust_doc I did (s\<lparr>idSent := idSent s @ [(did, o1)]\<rparr>)))"
      by (rule send_op_cases [of I did o1 s])
        (use assms \<open>req = Some o1\<close> None in \<open>auto simp: handleSubmitPlcOperation_def Let_def split: option.splits\<close>)
    with submit_checks_None [OF None] \<open>req = Some o1\<close> assms(2) show ?thesis by blast
  qed
qed

text \<open>What the hub is asked to sign for an operation, and its answer.\<close>

definition passkey_signed :: "'c identityLib \<Rightarrow> string \<Rightarrow> string \<Rightarrow> Operation \<Rightarrow> bool" where
  "passkey_signed I did rkey o2 \<longleftrightarrow>
     (\<exists>b sg. plcCbor (ilPlc I) (o2\<lparr>plSig := ''''\<rparr>) = Inr b \<and> plSig o2 = b64_encode sg \<and>
        ilAsk I did (sUuid (ilServer I) 0) (buildSignRequestMsg (ilRFC3339 I) (sUuid (ilServer I) 0) did (b64_encode b)
          [pending_op ''plc_operation'' ''identity'' rkey] (sNow (ilServer I) + signerRequestTimeout)) = Inr sg)"

lemma passkey_sign_Inr:
  assumes "passkey_sign I did rkey o1 = Inr o2" and "plSig o1 = ''''"
  shows "passkey_signed I did rkey o2 \<and> (\<exists>sg. o2 = o1\<lparr>plSig := sg\<rparr>)"
proof -
  from assms(2) have "o1\<lparr>plSig := ''''\<rparr> = o1" by simp
  with assms(1) show ?thesis
    by (auto simp: passkey_sign_def passkey_signed_def MarshalCBOR_def Let_def split: sum.splits)
qed

definition rotation_signed :: "'c identityLib \<Rightarrow> Operation \<Rightarrow> bool" where
  "rotation_signed I o2 \<longleftrightarrow> (\<exists>b sg. plcCbor (ilPlc I) (o2\<lparr>plSig := ''''\<rparr>) = Inr b \<and> plSig o2 = b64_encode sg \<and>
     pkHashAndSign (ilPlc I) (plcRotationKey (ilClient I)) b = Inr sg)"

lemma authorised_sign_Inr:
  assumes "authorised_sign I repo rkey o1 = Inr o2" and "plSig o1 = ''''"
  shows "(if rSigningPublicKey (raRepo repo) = [] then rotation_signed I o2
          else passkey_signed I (rDid (raRepo repo)) rkey o2) \<and> (\<exists>sg. o2 = o1\<lparr>plSig := sg\<rparr>)"
proof (cases "rSigningPublicKey (raRepo repo) = []")
  case True
  from assms(2) have "o1\<lparr>plSig := ''''\<rparr> = o1" by simp
  with assms(1) True show ?thesis
    by (auto simp: authorised_sign_def SignOp_def MarshalCBOR_def rotation_signed_def split: sum.splits)
next
  case False
  with assms passkey_sign_Inr [of I _ rkey o1 o2] show ?thesis by (auto simp: authorised_sign_def)
qed

lemma next_op_sig [simp]: "plSig (next_op e) = ''''"
  by (simp add: next_op_def Let_def)

lemma publish_handle_cases:
  assumes "publish_handle I repo handle s = (r, s')" and "HasPrefix (rDid (raRepo repo)) ''did:plc:''"
  shows "(s' = s \<and> r \<noteq> None) \<or>
    (\<exists>alog o1. FetchDidAuditLog (ilNet I) (rDid (raRepo repo)) = Inr alog \<and> alog \<noteq> [] \<and>
      s' = s\<lparr>idSent := idSent s @ [(rDid (raRepo repo), o1)]\<rparr> \<and>
      (\<exists>sg. o1 = next_op (last alog)\<lparr>plAlsoKnownAs := renamed (aHandle (raActor repo)) handle
          (leAlsoKnownAs (auOperation (last alog))), plSig := sg\<rparr>) \<and>
      (if rSigningPublicKey (raRepo repo) = [] then rotation_signed I o1
       else passkey_signed I (rDid (raRepo repo)) handle o1))"
proof (rule FetchDidAuditLog_cases [of "ilNet I" "rDid (raRepo repo)"])
  fix alog
  assume l: "FetchDidAuditLog (ilNet I) (rDid (raRepo repo)) = Inr alog" "alog \<noteq> []"
  let ?o = "next_op (last alog)\<lparr>plAlsoKnownAs := renamed (aHandle (raActor repo)) handle (plAlsoKnownAs (next_op (last alog)))\<rparr>"
  show ?thesis
  proof (cases "authorised_sign I repo handle ?o")
    case (Inl w)
    with assms l show ?thesis by (auto simp: publish_handle_def Let_def)
  next
    case (Inr o2)
    from authorised_sign_Inr [OF this] have a: "if rSigningPublicKey (raRepo repo) = [] then rotation_signed I o2
        else passkey_signed I (rDid (raRepo repo)) handle o2" and b: "\<exists>sg. o2 = ?o\<lparr>plSig := sg\<rparr>" by simp_all
    have "(s' = s \<and> r \<noteq> None) \<or> s' = s\<lparr>idSent := idSent s @ [(rDid (raRepo repo), o2)]\<rparr>"
      by (rule send_op_cases [of I "rDid (raRepo repo)" o2 s])
        (use assms l Inr in \<open>auto simp: publish_handle_def Let_def split: option.splits\<close>)
    with l a b show ?thesis by (auto simp: next_op_def Let_def)
  qed
qed (use assms in \<open>auto simp: publish_handle_def Let_def\<close>)

lemma transfer_cases:
  assumes "transfer I repo key pds s = (r, s')" and "HasPrefix (rDid (raRepo repo)) ''did:plc:''"
  shows "(s' = s \<and> (\<exists>w. r = Inl w)) \<or>
    (\<exists>alog o1. FetchDidAuditLog (ilNet I) (rDid (raRepo repo)) = Inr alog \<and> alog \<noteq> [] \<and>
      s' = s\<lparr>idSent := idSent s @ [(rDid (raRepo repo), o1)]\<rparr> \<and> (\<exists>sg. o1 = transfer_op (last alog) key pds\<lparr>plSig := sg\<rparr>) \<and>
      (if rSigningPublicKey (raRepo repo) = [] then rotation_signed I o1
       else passkey_signed I (rDid (raRepo repo)) ''supply_signing_key'' o1))"
proof (rule FetchDidAuditLog_cases [of "ilNet I" "rDid (raRepo repo)"])
  fix alog
  assume l: "FetchDidAuditLog (ilNet I) (rDid (raRepo repo)) = Inr alog" "alog \<noteq> []"
  have sig0: "plSig (transfer_op (last alog) key pds) = ''''" by (simp add: transfer_op_def Let_def)
  show ?thesis
  proof (cases "authorised_sign I repo ''supply_signing_key'' (transfer_op (last alog) key pds)")
    case (Inl w)
    with assms l show ?thesis by (auto simp: transfer_def Let_def)
  next
    case (Inr o2)
    have "(s' = s \<and> (\<exists>w. r = Inl w)) \<or> s' = s\<lparr>idSent := idSent s @ [(rDid (raRepo repo), o2)]\<rparr>"
      by (rule send_op_cases [of I "rDid (raRepo repo)" o2 s])
        (use assms l Inr in \<open>auto simp: transfer_def Let_def split: option.splits\<close>)
    with l authorised_sign_Inr [OF Inr sig0] show ?thesis by auto
  qed
qed (use assms in \<open>auto simp: transfer_def Let_def\<close>)


text \<open>
  C34: once a passkey is registered for a did:plc account, neither changing the handle nor registering another
  passkey changes anything - rows, event log, cache, directory - unless the signer has signed, in this request
  and for this account, the operation that is sent to the directory.
\<close>

theorem passkey_authorises_identity:
  assumes "rSigningPublicKey (raRepo repo) \<noteq> []" and "did = rDid (raRepo repo)" and "HasPrefix did ''did:plc:''"
    and "handleIdentityUpdateHandle I X repo (Some h) s = (w, s') \<and> rkey = ToLower h \<or>
      handleSupplySigningKey I W (Some repo) q s = (w, s') \<and> rkey = ''supply_signing_key''"
    and "s' \<noteq> s"
  shows "\<exists>o1. idSent s' = idSent s @ [(did, o1)] \<and> passkey_signed I did rkey o1"
  using assms(4)
proof (elim disjE conjE)
  assume run: "handleIdentityUpdateHandle I X repo (Some h) s = (w, s')" and k: "rkey = ToLower h"
  obtain r s1 where p: "publish_handle I repo (ToLower h) s = (r, s1)" by (cases "publish_handle I repo (ToLower h) s")
  from run p assms(5) have sent: "idSent s' = idSent s1" and ch: "r \<noteq> None \<longrightarrow> s1 \<noteq> s"
    by (auto simp: handleIdentityUpdateHandle_def Let_def split: if_splits option.splits sum.splits)
  from publish_handle_cases [OF p] assms(1-3) ch sent k show ?thesis by auto
next
  assume run: "handleSupplySigningKey I W (Some repo) q s = (w, s')" and k: "rkey = ''supply_signing_key''"
  obtain kb cr key sk pds where q: "supplied_keys I W q = Inr (kb, cr, key, sk)" "pdsDIDKey I = Inr pds"
    using run assms(5) by (auto simp: handleSupplySigningKey_def split: sum.splits)
  obtain r s1 where p: "transfer I repo key pds s = (r, s1)" by (cases "transfer I repo key pds s")
  from run p q assms(5) have sent: "idSent s' = idSent s1" and ch: "(\<exists>w. r = Inl w) \<longrightarrow> s1 \<noteq> s"
    by (auto simp: handleSupplySigningKey_def split: sum.splits prod.splits)
  from transfer_cases [OF p] assms(1-3) ch sent k show ?thesis by auto
qed

lemma authorised_sign_error:
  "authorised_sign I repo rkey o1 = Inl w \<Longrightarrow> status_of w \<in> {400, 500}"
  by (auto simp: authorised_sign_def passkey_sign_def HandleSignerError_def Let_def split: if_splits sum.splits)

lemma transfer_error_status:
  assumes "r = Inl w" and "transfer I repo key pds s = (r, s')"
  shows "status_of w \<noteq> 200"
proof -
  have "status_of w1 \<noteq> 200" if "authorised_sign I repo rkey o1 = Inl w1" for rkey o1 w1
    using authorised_sign_error [OF that] by auto
  with assms show ?thesis
    by (auto simp: transfer_def send_op_def Let_def split: if_splits sum.splits list.splits option.splits)
qed

text \<open>
  C33: a registered passkey takes the account over.  The operation sent follows the last one of the log, has the
  new key as its only rotation key and as the signing key, the server's key for service tokens, and keeps every
  other verification method, the handle and the services; the server's rotation key signs it exactly when no
  passkey was registered.  The row of the account has the new keys, the rows of other accounts are as before.
\<close>

theorem supply_key_transfers:
  assumes "handleSupplySigningKey I W (Some repo) q s = (w, s')" and "status_of w = 200"
    and "did = rDid (raRepo repo)" and "HasPrefix did ''did:plc:''"
  shows "\<exists>keyBytes cred key kb pds alog o1. supplied_keys I W q = Inr (keyBytes, cred, key, kb) \<and>
    FetchDidAuditLog (ilNet I) did = Inr alog \<and> alog \<noteq> [] \<and> idSent s' = idSent s @ [(did, o1)] \<and>
    plPrev o1 = Some (auCid (last alog)) \<and> plRotationKeys o1 = [key] \<and>
    map_of (plVerificationMethods o1) =
      (map_of (leVerificationMethods (auOperation (last alog))))(''atproto'' \<mapsto> key, ''atproto_service'' \<mapsto> pds) \<and>
    pkServiceDIDKey (ilPlc I) (plcServiceAuthKey (ilClient I)) = Inr pds \<and>
    plAlsoKnownAs o1 = leAlsoKnownAs (auOperation (last alog)) \<and> plServices o1 = leServices (auOperation (last alog)) \<and>
    (if rSigningPublicKey (raRepo repo) = [] then rotation_signed I o1
     else passkey_signed I did ''supply_signing_key'' o1) \<and>
    (\<forall>x \<in> set (repos (idDb s')). rDid x = did \<longrightarrow>
       rAuthPublicKey x = keyBytes \<and> rSigningPublicKey x = kb \<and> rCredentialID x = cred) \<and>
    (\<forall>x. rDid x \<noteq> did \<longrightarrow> (x \<in> set (repos (idDb s')) \<longleftrightarrow> x \<in> set (repos (idDb s))))"
proof -
  obtain keyBytes cred key kb where q: "supplied_keys I W q = Inr (keyBytes, cred, key, kb)"
    using assms(1,2) by (auto simp: handleSupplySigningKey_def supplied_keys_def Let_def split: sum.splits option.splits if_splits)
  with assms(1,2) obtain pds where pds: "pdsDIDKey I = Inr pds" by (auto simp: handleSupplySigningKey_def split: sum.splits)
  obtain r s1 where p: "transfer I repo key pds s = (r, s1)" by (cases "transfer I repo key pds s")
  let ?f = "\<lambda>x. x\<lparr>rAuthPublicKey := keyBytes, rSigningPublicKey := kb, rCredentialID := cred\<rparr>"
  have "\<not> (\<exists>w1. r = Inl w1)"
  proof
    assume "\<exists>w1. r = Inl w1"
    then obtain w1 where "r = Inl w1" ..
    with p have "status_of w1 \<noteq> 200" by (rule transfer_error_status [rotated])
    with \<open>r = Inl w1\<close> assms(1,2) q pds p show False by (simp add: handleSupplySigningKey_def)
  qed
  with assms(1,2) q pds p have d': "idDb s' = upd_repo did ?f (idDb s1)" and sent: "idSent s' = idSent s1"
    by (auto simp: handleSupplySigningKey_def db_exec_Inr assms(3) split: sum.splits prod.splits)
  from transfer_cases [OF p] \<open>\<not> (\<exists>w1. r = Inl w1)\<close> assms(3,4) obtain alog o1 sg where t:
    "FetchDidAuditLog (ilNet I) did = Inr alog" "alog \<noteq> []" "s1 = s\<lparr>idSent := idSent s @ [(did, o1)]\<rparr>"
    "o1 = transfer_op (last alog) key pds\<lparr>plSig := sg\<rparr>"
    "if rSigningPublicKey (raRepo repo) = [] then rotation_signed I o1 else passkey_signed I did ''supply_signing_key'' o1"
    by blast
  have keep: "\<And>r. rDid (?f r) = rDid r" by simp
  have rows: "\<forall>x \<in> set (repos (idDb s')). rDid x = did \<longrightarrow>
       rAuthPublicKey x = keyBytes \<and> rSigningPublicKey x = kb \<and> rCredentialID x = cred"
  proof (intro ballI impI)
    fix x assume "x \<in> set (repos (idDb s'))" and "rDid x = did"
    from upd_repo_row [OF this(1) [unfolded d'] this(2) keep] obtain r where "x = ?f r" by blast
    then show "rAuthPublicKey x = keyBytes \<and> rSigningPublicKey x = kb \<and> rCredentialID x = cred" by simp
  qed
  have other: "\<forall>x. rDid x \<noteq> did \<longrightarrow> (x \<in> set (repos (idDb s')) \<longleftrightarrow> x \<in> set (repos (idDb s)))"
    unfolding d' using upd_repo_other [of _ did ?f "idDb s1", OF _ keep] t(3) by simp
  have op: "plPrev o1 = Some (auCid (last alog)) \<and> plRotationKeys o1 = [key] \<and>
    map_of (plVerificationMethods o1) =
      (map_of (leVerificationMethods (auOperation (last alog))))(''atproto'' \<mapsto> key, ''atproto_service'' \<mapsto> pds) \<and>
    plAlsoKnownAs o1 = leAlsoKnownAs (auOperation (last alog)) \<and> plServices o1 = leServices (auOperation (last alog))"
    by (simp add: t(4) transfer_op_def next_op_def Let_def)
  have sent1: "idSent s' = idSent s @ [(did, o1)]" by (simp add: sent t(3))
  show ?thesis using q t(1,2,5) sent1 op pds rows other unfolding pdsDIDKey_def by blast
qed


text \<open>
  The DNS-free way to a hosted account: whoever fetches https://<handle>/.well-known/atproto-did from this
  server resolves the handle to the DID that resolveHandle answers for it here.
\<close>

theorem well_known_resolves:
  assumes "getActorByHandle (sFails (ilServer I)) (idDb s) h = Inr a" and "isHandle X h" and "isDid X (aDid a)" and "h \<noteq> ''''"
    and "HasSuffix h (''.'' @ sHostname (ilServer I))" and "ToLower h = h" and "CHR '':'' \<notin> set h" and "TrimSpace h = h"
    and "RequestHost r = h" and "handleAtprotoDid (ilServer I) r (idDb s) = Reply w"
    and "payload w = BText t" and "nGet N (''https://'' @ h @ ''/.well-known/atproto-did'') = Inr (code w, Inr (to_bytes t))"
    and "get_value (qQuery q) ''handle'' = h"
  shows "ResolveHandleFromWellKnown X N h = Inr (aDid a) \<and>
    handleResolveHandle I X q s = (writeJSON 200 (JObj [(''did'', JStr (aDid a))]), s)"
proof -
  have "length h > length (sHostname (ilServer I))"
    using assms(5) by (auto simp: HasSuffix_def HasPrefix_def dest: arg_cong [of _ _ length])
  then have "request_domain (ilServer I) r = h" and "h \<noteq> sHostname (ilServer I)"
    using assms(4,6-9) by (auto simp: request_domain_def SplitOn_no_sep)
  with assms(1,5,10,11) have "code w = 200" and "t = aDid a"
    by (auto simp: handleAtprotoDid_def plain_text_def Let_def)
  with assms(3,12) have "ResolveHandleFromWellKnown X N h = Inr (aDid a)"
    by (simp add: ResolveHandleFromWellKnown_def)
  with assms(1,2,4,13) show ?thesis by (simp add: handleResolveHandle_def Let_def)
qed

text \<open>
  An operation is signed for an account only with the code mailed to it, not later than its expiry; the code
  is used up, and what is signed by the passkey is the last operation of the log with the requested fields
  replaced.
\<close>

theorem sign_plc_once:
  assumes "handleSignPlcOperation I repo req d = (w, d')" and "status_of w = 200" and "did = rDid (raRepo repo)"
  shows "\<exists>q t alog o2 sg. req = Some q \<and> rPlcOperationCode (raRepo repo) = Some (spToken q) \<and>
    rPlcOperationCodeExpiresAt (raRepo repo) = Some t \<and> sNow (ilServer I) \<le> t \<and>
    FetchDidAuditLog (ilNet I) did = Inr alog \<and> alog \<noteq> [] \<and> o2 = requested_op q (last alog)\<lparr>plSig := sg\<rparr> \<and>
    passkey_signed I did '''' o2 \<and> w = writeJSON 200 (JObj [(''operation'', Operation_json o2)]) \<and>
    (\<forall>x \<in> set (repos d'). rDid x = did \<longrightarrow>
       (\<forall>a I' req' d''. status_of (fst (handleSignPlcOperation I' \<lparr>raRepo = x, raActor = a\<rparr> req' d'')) \<noteq> 200))"
proof -
  let ?f = "\<lambda>x. x\<lparr>rPlcOperationCode := None, rPlcOperationCodeExpiresAt := None\<rparr>"
  from assms(1,2) obtain q alog where q: "req = Some q" "FetchDidAuditLog (ilNet I) did = Inr alog" "alog \<noteq> []"
    "code_error (sNow (ilServer I)) (InputError (Some ''InvalidToken'')) InvalidTokenError (rPlcOperationCode (raRepo repo))
       (rPlcOperationCodeExpiresAt (raRepo repo)) (spToken q) = None"
    by (auto simp: handleSignPlcOperation_def assms(3) Let_def code_error_def split: option.splits if_splits sum.splits)
  have sig0: "plSig (requested_op q (last alog)) = ''''" by (simp add: requested_op_def Let_def)
  have bad: "status_of w1 \<noteq> 200" if "passkey_sign I did '''' o1 = Inl w1" for o1 w1
    using that by (auto simp: passkey_sign_def HandleSignerError_def Let_def split: if_splits sum.splits)
  from assms(1,2) q bad obtain o2 where p: "passkey_sign I did '''' (requested_op q (last alog)) = Inr o2"
    and w: "w = writeJSON 200 (JObj [(''operation'', Operation_json o2)])" and d': "d' = upd_repo did ?f d"
    by (auto simp: handleSignPlcOperation_def assms(3) [symmetric] Let_def db_exec_Inr split: if_splits sum.splits)
  have keep: "\<And>r. rDid (?f r) = rDid r" by simp
  have "status_of (fst (handleSignPlcOperation I' \<lparr>raRepo = x, raActor = a\<rparr> req' d'')) \<noteq> 200"
    if "x \<in> set (repos d')" and "rDid x = did" for x a I' req' d''
  proof -
    from upd_repo_row [OF that(1) [unfolded d'] that(2) keep] obtain r where "x = ?f r" by blast
    then show ?thesis by (cases req') (auto simp: handleSignPlcOperation_def code_error_def Let_def)
  qed
  with q(1-3) w passkey_sign_Inr [OF p sig0] q(4) [unfolded code_error_None] show ?thesis by blast
qed

text \<open>
  A handle another account has is published in the directory before the database refuses it: the request fails,
  the operation stays sent.
\<close>

lemma taken_handle_published:
  assumes "publish_handle I repo (ToLower h) s = (None, s1)" and "isHandle X (ToLower h)"
    and "handle_taken (idDb s) (rDid (raRepo repo)) (ToLower h)" and "HasPrefix (rDid (raRepo repo)) ''did:plc:''"
  shows "\<exists>o1. fst (handleIdentityUpdateHandle I X repo (Some h) s) = ServerError None \<and>
    idSent (snd (handleIdentityUpdateHandle I X repo (Some h) s)) = idSent s @ [(rDid (raRepo repo), o1)] \<and>
    last (plAlsoKnownAs o1) = ''at://'' @ ToLower h"
proof -
  from publish_handle_cases [OF assms(1,4)] obtain o1 where "s1 = s\<lparr>idSent := idSent s @ [(rDid (raRepo repo), o1)]\<rparr>"
    and "last (plAlsoKnownAs o1) = ''at://'' @ ToLower h"
    by (auto simp: renamed_def)
  with assms(1-3) show ?thesis by (simp add: handleIdentityUpdateHandle_def Let_def)
qed

text \<open>After a renaming every actor row of the account has the new handle, and the rows of others are as before.\<close>

lemma update_handle_rows:
  assumes "handleIdentityUpdateHandle I X repo (Some h) s = (w, s')" and "status_of w = 200" and "did = rDid (raRepo repo)"
    and "HasPrefix did ''did:plc:'' \<longrightarrow> fst (publish_handle I repo (ToLower h) s) = None"
  shows "isHandle X (ToLower h) \<and> \<not> handle_taken (idDb s) did (ToLower h) \<and> idDb s' = set_handle did (ToLower h) (idDb s)"
proof -
  obtain r s1 where p: "publish_handle I repo (ToLower h) s = (r, s1)" by (cases "publish_handle I repo (ToLower h) s")
  with assms(3,4) have "r = None" by (cases "HasPrefix did ''did:plc:''") (auto simp: publish_handle_def Let_def)
  moreover from this p have "idDb s1 = idDb s"
    by (auto simp: publish_handle_def send_op_def Let_def split: if_splits sum.splits option.splits)
  ultimately show ?thesis
    using p assms(1-3) by (auto simp: handleIdentityUpdateHandle_def db_exec_Inr Let_def split: if_splits sum.splits)
qed


section \<open>Examples\<close>

definition id_entry :: DidAuditEntry where
  "id_entry = \<lparr>auDid = ''did:plc:a'', auOperation = \<lparr>leSig = '''', lePrev = None, leType = ''plc_operation'',
     leServices = [(''atproto_pds'', \<lparr>osType = ''AtprotoPersonalDataServer'', osEndpoint = ''https://pds''\<rparr>)],
     leAlsoKnownAs = [''at://a.pds''], leRotationKeys = [''did:key:A''], leVerificationMethods = [(''atproto'', ''did:key:C'')]\<rparr>,
     auCid = ''c0'', auNullified = False, auCreatedAt = ''''\<rparr>"

definition id_net :: netLib where
  "id_net = \<lparr>nTXT = (\<lambda>_. Inl (Err ''nxdomain'')),
     nGet = (\<lambda>u. if u = ''https://a.pds/.well-known/atproto-did'' then Inr (200, Inr (to_bytes ''did:plc:a'')) else Inr (200, Inr [])),
     nDecodeDoc = (\<lambda>_. Inl (Err ''json'')), nDecodeData = (\<lambda>_. Inl (Err ''json'')), nDecodeLog = (\<lambda>_. Inr [id_entry])\<rparr>"

definition id_cache :: "unit backingCache" where
  "id_cache = \<lparr>bcGetDoc = (\<lambda>_ _ c. (None, c)), bcPutDoc = (\<lambda>_ _ _ c. c), bcBustDoc = (\<lambda>_ c. c),
     bcGetDid = (\<lambda>_ _ c. (None, c)), bcPutDid = (\<lambda>_ _ _ c. c), bcBustDid = (\<lambda>_ c. c)\<rparr>"

definition id_lib :: "unit identityLib" where
  "id_lib = \<lparr>ilServer = reset_server, ilPlc = demo_plcLib, ilClient = demo_plcClient, ilNet = id_net, ilCache = id_cache,
     ilAsk = (\<lambda>_ _ _. Inr [1, 2]), ilAdd = (\<lambda>_ p. (None, p)), ilRFC3339 = (\<lambda>_. ''''),
     ilK256 = (\<lambda>b. Inr (''did:key:'' @ of_bytes b, b)), ilP256 = (\<lambda>_. True)\<rparr>"

definition id_repo :: Repo where
  "id_repo = zeroRepo\<lparr>rDid := ''did:plc:a'', rSigningPublicKey := [67], rPlcOperationCode := Some ''CODE'',
     rPlcOperationCodeExpiresAt := Some 100\<rparr>"

definition id_actor :: RepoActor where
  "id_actor = \<lparr>raRepo = id_repo, raActor = \<lparr>aDid = ''did:plc:a'', aHandle = ''a.pds''\<rparr>\<rparr>"

definition id_state :: "unit idState" where
  "id_state = \<lparr>idDb = emptyDb\<lparr>repos := [id_repo], actors := [\<lparr>aDid = ''did:plc:a'', aHandle = ''a.pds''\<rparr>]\<rparr>,
     idEvents = \<lparr>dpSeq = 0, dpRetention = 0, dpTable = [], dpSent = []\<rparr>, idCache = (), idSent = []\<rparr>"





text \<open>A new operation that keeps the rotation key is sent.\<close>

definition id_op :: Operation where
  "id_op = next_op id_entry\<lparr>plRotationKeys := [''did:key:Z'', ''did:key:A'']\<rparr>"

lemma id_submits: "submit_checks id_lib id_actor id_op = None"
  by code_simp

theorem submit_plc_sound_witness:
  "idSent (snd (handleSubmitPlcOperation id_lib id_actor (Some id_op) id_state)) = [(''did:plc:a'', id_op)]"
proof -
  let ?run = "handleSubmitPlcOperation id_lib id_actor (Some id_op) id_state"
  have run: "?run = (fst ?run, snd ?run)" by simp
  have "idSent (snd ?run) \<noteq> idSent id_state" by code_simp
  then have "snd ?run \<noteq> id_state" by auto
  with submit_plc_sound [OF run refl] show ?thesis by (auto simp: id_actor_def id_repo_def id_state_def)
qed

theorem sign_plc_once_witness:
  "\<exists>w d' o2. handleSignPlcOperation id_lib id_actor (Some \<lparr>spToken = ''CODE'', spVerificationMethods = None,
       spRotationKeys = Some [''did:key:C''], spAlsoKnownAs = None, spServices = None\<rparr>) (idDb id_state) = (w, d') \<and>
     w = writeJSON 200 (JObj [(''operation'', Operation_json o2)]) \<and> plRotationKeys o2 = [''did:key:C'']"
proof -
  let ?q = "\<lparr>spToken = ''CODE'', spVerificationMethods = None, spRotationKeys = Some [''did:key:C''], spAlsoKnownAs = None,
    spServices = None\<rparr>"
  let ?run = "handleSignPlcOperation id_lib id_actor (Some ?q) (idDb id_state)"
  have run: "?run = (fst ?run, snd ?run)" by simp
  have "status_of (fst ?run) = 200" by code_simp
  from sign_plc_once [OF run this refl] obtain o2 where
    "fst ?run = writeJSON 200 (JObj [(''operation'', Operation_json o2)])" "plRotationKeys o2 = [''did:key:C'']"
    by (auto simp: requested_op_def Let_def)
  then show ?thesis by (metis surjective_pairing)
qed

definition id_supply :: SupplySigningKeyRequest where
  "id_supply = \<lparr>skClientDataJSON = ''AA'', skAttestationObject = b64_encode (replicate 32 9 @ [0x40] @ replicate 22 0),
     skSigningPublicKey = b64_encode [68]\<rparr>"

lemma id_supplied: "supplied_keys id_lib demo_webauthn (Some id_supply) = Inr (3 # replicate 32 5, [], ''did:key:D'', [68])"
  by code_simp

lemma id_supply_ok: "status_of (fst (handleSupplySigningKey id_lib demo_webauthn (Some id_actor) (Some id_supply) id_state)) = 200"
  by code_simp

theorem supply_key_transfers_witness:
  "\<exists>o1. idSent (snd (handleSupplySigningKey id_lib demo_webauthn (Some id_actor) (Some id_supply) id_state)) = [(''did:plc:a'', o1)] \<and>
     plRotationKeys o1 = [''did:key:D'']"
proof -
  let ?run = "handleSupplySigningKey id_lib demo_webauthn (Some id_actor) (Some id_supply) id_state"
  have run: "?run = (fst ?run, snd ?run)" by simp
  have "HasPrefix (rDid (raRepo id_actor)) ''did:plc:''" by (simp add: id_actor_def id_repo_def HasPrefix_def)
  from supply_key_transfers [OF run id_supply_ok refl this] show ?thesis
    by (auto simp: id_supplied id_actor_def id_repo_def id_state_def)
qed

theorem passkey_authorises_identity_witness:
  "\<exists>o1. passkey_signed id_lib ''did:plc:a'' ''supply_signing_key'' o1"
proof -
  let ?run = "handleSupplySigningKey id_lib demo_webauthn (Some id_actor) (Some id_supply) id_state"
  have pre: "HasPrefix (rDid (raRepo id_actor)) ''did:plc:''" and key: "rSigningPublicKey (raRepo id_actor) \<noteq> []"
    by (simp_all add: id_actor_def id_repo_def HasPrefix_def)
  have run: "handleIdentityUpdateHandle id_lib X id_actor (Some h) id_state = (fst ?run, snd ?run) \<and>
      ''supply_signing_key'' = ToLower h \<or>
      handleSupplySigningKey id_lib demo_webauthn (Some id_actor) (Some id_supply) id_state = (fst ?run, snd ?run) \<and>
      ''supply_signing_key'' = ''supply_signing_key''" for X h
    by simp
  have "idSent (snd ?run) \<noteq> idSent id_state" by code_simp
  then have "snd ?run \<noteq> id_state" by auto
  from passkey_authorises_identity [OF key refl pre run this] show ?thesis by (auto simp: id_actor_def id_repo_def)
qed

definition id_syntax :: syntaxLib where
  "id_syntax = \<lparr>isHandle = (\<lambda>h. CHR ''.'' \<in> set h), isDid = (\<lambda>d. HasPrefix d ''did:''), isRkey = (\<lambda>_. True), isNsid = (\<lambda>_. True)\<rparr>"

definition id_request :: "string \<Rightarrow> (string \<times> string) list \<Rightarrow> request" where
  "id_request h q = \<lparr>qMethod = ''GET'', qHost = h, qTLS = True, qHeaders = [], qString = '''', qPath = '''',
     qQuery = q, qForm = [], qRemoteAddr = ''''\<rparr>"

theorem well_known_resolves_witness:
  "ResolveHandleFromWellKnown id_syntax id_net ''a.pds'' = Inr ''did:plc:a''"
proof -
  let ?r = "id_request ''a.pds'' []"
  have a: "getActorByHandle (sFails (ilServer id_lib)) (idDb id_state) ''a.pds'' = Inr \<lparr>aDid = ''did:plc:a'', aHandle = ''a.pds''\<rparr>"
    by code_simp
  have w: "handleAtprotoDid (ilServer id_lib) ?r (idDb id_state) = Reply \<lparr>code = 200, hdrs = [(''Content-Type'', ''text/plain'')],
      payload = BText ''did:plc:a''\<rparr>" by code_simp
  have "ResolveHandleFromWellKnown id_syntax id_net ''a.pds'' = Inr (aDid \<lparr>aDid = ''did:plc:a'', aHandle = ''a.pds''\<rparr>) \<and>
    handleResolveHandle id_lib id_syntax (id_request ''a.pds'' [(''handle'', ''a.pds'')]) id_state =
      (writeJSON 200 (JObj [(''did'', JStr (aDid \<lparr>aDid = ''did:plc:a'', aHandle = ''a.pds''\<rparr>))]), id_state)"
    by (rule well_known_resolves [OF a _ _ _ _ _ _ _ _ w]) code_simp+
  then show ?thesis by simp
qed

end
