(* ===== verification/AccountCreate.thy ===== *)
theory AccountCreate
  imports IdentityHandlers RepoHandlers
begin

text \<open>
  Creating an account (server/handle_server_create_account.go): the checks, the identity made with the directory,
  the genesis commit, the rows, the invite code and the session.
\<close>

section \<open>What the handler uses\<close>

record CreateAccountRequest =
  crEmail :: string
  crHandle :: string
  crDid :: "string option"
  crPassword :: string
  crInviteCode :: string

text \<open>The state of the identity handlers and the node that keeps the blocks.\<close>

record ('c, 'k) acState =
  acId :: "'c idState"
  acNode :: 'k

text \<open>
  \<open>clValid\<close> is the struct validator, \<open>clDraw1\<close> and \<open>clDraw2\<close> the random numbers of the two parts of a mail
  code, \<open>clEmptyTree\<close> the empty tree of the library.
\<close>

record ('c, 'm, 'k, 'key, 'doc) createLib =
  clId :: "'c identityLib"
  clSyntax :: syntaxLib
  clRepo :: "'m repoLib"
  clKubo :: "'k kubo"
  clEmptyTree :: 'm
  clJwt :: "('key, 'doc) jwtLib"
  clDocKey :: "'doc \<Rightarrow> string \<Rightarrow> 'key option"
  clDraw1 :: "nat \<Rightarrow> nat option"
  clDraw2 :: "nat \<Rightarrow> nat option"
  clValid :: "CreateAccountRequest \<Rightarrow> bool"

abbreviation clServer :: "('c, 'm, 'k, 'key, 'doc) createLib \<Rightarrow> server" where
  "clServer E \<equiv> ilServer (clId E)"

text \<open>\<open>strings.Replace\<close> of one occurrence by nothing.\<close>

fun remove_first :: "string \<Rightarrow> string \<Rightarrow> string" where
  "remove_first p [] = []"
| "remove_first p (c # cs) = (if HasPrefix (c # cs) p then drop (length p) (c # cs) else c # remove_first p cs)"

section \<open>The checks\<close>

text \<open>A DID the caller brings must be the issuer of a service token made for this call; otherwise one is made later.\<close>

definition claim_did ::
  "('c, 'm, 'k, 'key, 'doc) createLib \<Rightarrow> request \<Rightarrow> CreateAccountRequest \<Rightarrow> db \<Rightarrow> outcome + string" where
  "claim_did E r req d =
     (case crDid req of
        None \<Rightarrow> Inr ''''
      | Some did \<Rightarrow>
          let token = TrimSpace (remove_first ''Bearer '' (header_get r ''authorization'')) in
          if token = '''' then Inl (UnauthorizedError (Some ''must authenticate to use an existing did''))
          else (case validateServiceAuth (clJwt E) (clDocKey E) (sFails (clServer E)) d token
                       ''com.atproto.server.createAccount'' of
                  Inl e \<Rightarrow> Inl (UnauthorizedError (Some ''invalid authorization token''))
                | Inr authDid \<Rightarrow>
                    if authDid \<noteq> did then Inl (ForbiddenError (Some ''auth did did not match signup did'')) else Inr did))"

text \<open>The uses left on a code; a code that does not exist has none.\<close>

definition invite_remaining :: "server \<Rightarrow> string \<Rightarrow> db \<Rightarrow> goerr + int" where
  "invite_remaining sv c d =
     (if sFails sv ''inviteCodes.first'' then Inl (ErrDb ''inviteCodes.first'')
      else Inr (case sql_first (\<lambda>x. icCode x = c) (inviteCodes d) of None \<Rightarrow> 0 | Some x \<Rightarrow> icRemainingUseCount x))"

definition invite_error :: "server \<Rightarrow> string \<Rightarrow> db \<Rightarrow> outcome option" where
  "invite_error sv c d =
     (if \<not> sRequireInvite sv then None
      else if TrimSpace c = '''' then Some (InputError (Some ''InvalidInviteCode''))
      else (case invite_remaining sv c d of
              Inl e \<Rightarrow> Some (ServerError None)
            | Inr n \<Rightarrow> if n < 1 then Some (InputError (Some ''InvalidInviteCode'')) else None))"

definition email_error :: "server \<Rightarrow> string \<Rightarrow> string \<Rightarrow> db \<Rightarrow> outcome option" where
  "email_error sv did email d =
     (case getRepoByEmail (sFails sv) d email of
        Inl e \<Rightarrow> if e = ErrRecordNotFound then None else Some (ServerError None)
      | Inr x \<Rightarrow> if rDid x \<noteq> did then Some (InputError (Some ''EmailNotAvailable'')) else None)"

definition under_domain :: "server \<Rightarrow> string \<Rightarrow> bool" where
  "under_domain sv handle \<longleftrightarrow> HasSuffix handle (''.'' @ sHostname sv) \<or> handle = sHostname sv"

text \<open>\<open>Inr\<close> is the actor row that already has the handle, when it is the caller's own.\<close>

definition available ::
  "('c, 'm, 'k, 'key, 'doc) createLib \<Rightarrow> CreateAccountRequest \<Rightarrow> string \<Rightarrow> 'c idState \<Rightarrow> (outcome + Actor option) \<times> 'c idState" where
  "available E req did s =
     (let I = clId E; sv = clServer E; d = idDb s in
      case (case getActorByHandle (sFails sv) d (crHandle req) of
              Inl e \<Rightarrow> if e = ErrRecordNotFound then Inr None else Inl (ServerError None)
            | Inr a \<Rightarrow> if aDid a \<noteq> did then Inl (InputError (Some ''HandleNotAvailable'')) else Inr (Some a)) of
        Inl w \<Rightarrow> (Inl w, s)
      | Inr actor \<Rightarrow>
          let (res, c) = Passport_ResolveHandle (ilCache I) False (sNow sv) (ResolveHandle (clSyntax E) (ilNet I))
                (crHandle req) (idCache s);
              s1 = s\<lparr>idCache := c\<rparr>
          in if (case res of Inr r \<Rightarrow> r \<noteq> did | Inl _ \<Rightarrow> False)
             then (Inl (InputError (Some ''HandleNotAvailable'')), s1)
             else (case invite_error sv (crInviteCode req) d of
                     Some w \<Rightarrow> (Inl w, s1)
                   | None \<Rightarrow>
                       (case email_error sv did (crEmail req) d of
                          Some w \<Rightarrow> (Inl w, s1)
                        | None \<Rightarrow>
                            if \<not> under_domain sv (crHandle req) then (Inl (InputError (Some ''UnsupportedDomain'')), s1)
                            else (Inr actor, s1))))"

section \<open>Identity, repository, rows\<close>

definition create_identity ::
  "'c identityLib \<Rightarrow> string \<Rightarrow> 'c idState \<Rightarrow> (goerr + string) \<times> 'c idState" where
  "create_identity I handle s =
     (case CreateDID (ilPlc I) (ilClient I) (RotationKeyBytes (ilClient I)) '''' handle of
        Inl e \<Rightarrow> (Inl e, s)
      | Inr (did, o1) \<Rightarrow>
          (case send_op I did o1 s of (Some e, s1) \<Rightarrow> (Inl e, s1) | (None, s1) \<Rightarrow> (Inr did, s1)))"

text \<open>The commit of the empty tree, signed with the rotation key of the server; root and revision.\<close>

definition genesis_commit ::
  "('c, 'm, 'k, 'key, 'doc) createLib \<Rightarrow> string \<Rightarrow> 'k \<Rightarrow> (goerr + cid \<times> string) \<times> 'k" where
  "genesis_commit E did k =
     (let (res, s) = commitRepo (clRepo E) (IPFS_Put (clKubo E)) (Some (\<lambda>s c. IPFS_Verify (clKubo E) (snd s) c))
            \<lparr>arDID = did, arClock = '''', arMST = clEmptyTree E\<rparr> (RotationKeyBytes (ilClient (clId E)))
            (newBlockstoreForRepo did, k)
      in (res, snd s))"

definition new_repo :: "time \<Rightarrow> string \<Rightarrow> string \<Rightarrow> string \<Rightarrow> string \<Rightarrow> bytes \<Rightarrow> string \<Rightarrow> Repo" where
  "new_repo now did email c hash root rev1 =
     zeroRepo\<lparr>rDid := did, rCreatedAt := now, rEmail := email, rEmailVerificationCode := Some c, rPassword := hash,
       rRoot := root, rRev := rev1\<rparr>"

text \<open>
  One transaction.  The did and the e-mail address of a repository and the did and the handle of an actor are
  unique; the actor row the caller already has is saved as it is.
\<close>

definition insert_account :: "server \<Rightarrow> Repo \<Rightarrow> string \<Rightarrow> Actor option \<Rightarrow> db \<Rightarrow> goerr + db" where
  "insert_account sv urepo handle actor d =
     (if sFails sv ''account.repo'' \<or> rEmail urepo \<in> set (map rEmail (repos d)) then Inl (ErrDb ''account.repo'')
      else (case sql_insert rDid urepo (repos d) of
              None \<Rightarrow> Inl (ErrDb ''account.repo'')
            | Some rs \<Rightarrow>
                (case (case actor of
                         Some a \<Rightarrow> Some (sql_upsert aDid a (actors d))
                       | None \<Rightarrow>
                           if handle \<in> set (map aHandle (actors d)) then None
                           else sql_insert aDid \<lparr>aDid = rDid urepo, aHandle = handle\<rparr> (actors d)) of
                   None \<Rightarrow> Inl (ErrDb ''account.actor'')
                 | Some as \<Rightarrow>
                     if sFails sv ''account.actor'' \<or> sFails sv ''account.commit'' then Inl (ErrDb ''account.actor'')
                     else Inr (d\<lparr>repos := rs, actors := as\<rparr>))))"

definition decrement_invite :: "server \<Rightarrow> string \<Rightarrow> db \<Rightarrow> goerr + db" where
  "decrement_invite sv c d = db_exec sv ''inviteCodes.decrement''
     (\<lambda>d. d\<lparr>inviteCodes := sql_update (\<lambda>x. icCode x = c)
        (\<lambda>x. x\<lparr>icRemainingUseCount := icRemainingUseCount x - 1\<rparr>) (inviteCodes d)\<rparr>) d"

definition record_use :: "server \<Rightarrow> string \<Rightarrow> string \<Rightarrow> db \<Rightarrow> db" where
  "record_use sv c did d =
     (if sFails sv ''inviteCodeUses.create'' then d
      else d\<lparr>inviteCodeUses := inviteCodeUses d @ [\<lparr>iuCode = c, iuUsedBy = did, iuUsedAt = sNow sv\<rparr>]\<rparr>)"

section \<open>The handler\<close>

definition no_did :: "CreateAccountRequest \<Rightarrow> bool" where
  "no_did req \<longleftrightarrow> crDid req = None \<or> crDid req = Some ''''"

text \<open>The invite code is used up and a session is opened.\<close>

definition open_account ::
  "server \<Rightarrow> CreateAccountRequest \<Rightarrow> Repo \<Rightarrow> 'c idState \<Rightarrow> outcome \<times> 'c idState" where
  "open_account sv req urepo s =
     (case (if sRequireInvite sv then decrement_invite sv (crInviteCode req) (idDb s) else Inr (idDb s)) of
        Inl e \<Rightarrow> (ServerError None, s)
      | Inr d2 \<Rightarrow>
          (case createSession sv urepo (if sRequireInvite sv then record_use sv (crInviteCode req) (rDid urepo) d2 else d2) of
             (Inl e, d3) \<Rightarrow> (ServerError None, s\<lparr>idDb := d3\<rparr>)
           | (Inr sess, d3) \<Rightarrow>
               (writeJSON 200 (JObj [(''accessJwt'', JStr (AccessToken sess)), (''refreshJwt'', JStr (RefreshTokenStr sess)),
                  (''handle'', JStr (crHandle req)), (''did'', JStr (rDid urepo))]), s\<lparr>idDb := d3\<rparr>)))"

definition finish_account ::
  "('c, 'm, 'k, 'key, 'doc) createLib \<Rightarrow> CreateAccountRequest \<Rightarrow> Repo \<Rightarrow> Actor option \<Rightarrow> 'c idState \<Rightarrow> outcome \<times> 'c idState" where
  "finish_account E req urepo actor s =
     (case insert_account (clServer E) urepo (crHandle req) actor (idDb s) of
        Inl e \<Rightarrow> (ServerError None, s)
      | Inr d1 \<Rightarrow>
          open_account (clServer E) req urepo
            (if no_did req then identity_event (clId E) (rDid urepo) (Some (crHandle req)) (s\<lparr>idDb := d1\<rparr>)
             else s\<lparr>idDb := d1\<rparr>))"

definition make_account ::
  "('c, 'm, 'k, 'key, 'doc) createLib \<Rightarrow> CreateAccountRequest \<Rightarrow> string \<Rightarrow> Actor option \<Rightarrow> ('c, 'k) acState \<Rightarrow>
   outcome \<times> ('c, 'k) acState" where
  "make_account E req did actor s =
     (case sBcrypt (clServer E) (crPassword req) of
        None \<Rightarrow> (ServerError None, s)
      | Some hash \<Rightarrow>
          (case (if no_did req then genesis_commit E did (acNode s) else (Inr ([], ''''), acNode s)) of
             (Inl e, k) \<Rightarrow> (ServerError None, s\<lparr>acNode := k\<rparr>)
           | (Inr (root, rev1), k) \<Rightarrow>
               (case fresh_code 6 (clDraw1 E) (clDraw2 E) of
                  None \<Rightarrow> (Panic, s\<lparr>acNode := k\<rparr>)
                | Some c \<Rightarrow>
                    (case finish_account E req (new_repo (sNow (clServer E)) did (crEmail req) c hash root rev1) actor (acId s) of
                       (w, i) \<Rightarrow> (w, s\<lparr>acId := i, acNode := k\<rparr>)))))"

definition handleCreateAccount ::
  "('c, 'm, 'k, 'key, 'doc) createLib \<Rightarrow> request \<Rightarrow> CreateAccountRequest option \<Rightarrow> ('c, 'k) acState \<Rightarrow>
   outcome \<times> ('c, 'k) acState" where
  "handleCreateAccount E r body s =
     (case body of
        None \<Rightarrow> (ServerError None, s)
      | Some b \<Rightarrow>
          let req = b\<lparr>crHandle := ToLower (crHandle b)\<rparr> in
          if \<not> clValid E req then (InputError None, s)
          else (case claim_did E r req (idDb (acId s)) of
                  Inl w \<Rightarrow> (w, s)
                | Inr did0 \<Rightarrow>
                    (case available E req did0 (acId s) of
                       (Inl w, i) \<Rightarrow> (w, s\<lparr>acId := i\<rparr>)
                     | (Inr actor, i) \<Rightarrow>
                         (case (if did0 = '''' then create_identity (clId E) (crHandle req) i else (Inr did0, i)) of
                            (Inl e, i1) \<Rightarrow> (ServerError None, s\<lparr>acId := i1\<rparr>)
                          | (Inr did, i1) \<Rightarrow> make_account E req did actor (s\<lparr>acId := i1\<rparr>)))))"


section \<open>Properties\<close>

lemma createSession_db_ok:
  assumes "createSession sv urepo d = (res, d')" and "db_ok d"
  shows "db_ok d'" and "repos d' = repos d" and "actors d' = actors d" and "inviteCodes d' = inviteCodes d"
    and "inviteCodeUses d' = inviteCodeUses d"
  using assms
  by (auto simp: createSession_def db_ok_def Let_def split: sum.splits dest!: db_create_Inr dest: keyed_insert)

lemma sql_upsert_present:
  assumes "keyed key t" and "r \<in> set t"
  shows "sql_upsert key r t = t"
proof -
  have same: "x = r" if "x \<in> set t" "key x = key r" for x
    using assms that unfolding keyed_def by (metis distinct_map inj_onD)
  have "map (\<lambda>x. if key x = key r then r else x) t = t" by (rule map_idI) (use same in auto)
  with assms(2) show ?thesis by (auto simp: sql_upsert_def)
qed

text \<open>The rows of a new account.\<close>

lemma insert_account_Inr:
  assumes "insert_account sv urepo handle actor d = Inr d'" and "db_ok d"
    and "\<And>a. actor = Some a \<Longrightarrow> a \<in> set (actors d) \<and> aHandle a = handle \<and> aDid a = rDid urepo"
  shows "db_ok d'" and "repos d' = repos d @ [urepo]" and "rDid urepo \<notin> rDid ` set (repos d)"
    and "\<lparr>aDid = rDid urepo, aHandle = handle\<rparr> \<in> set (actors d')" and "set (actors d) \<subseteq> set (actors d')"
    and "inviteCodes d' = inviteCodes d" and "inviteCodeUses d' = inviteCodeUses d"
proof -
  obtain rs as where i: "sql_insert rDid urepo (repos d) = Some rs" "rEmail urepo \<notin> set (map rEmail (repos d))"
    "(case actor of Some a \<Rightarrow> Some (sql_upsert aDid a (actors d))
      | None \<Rightarrow> if handle \<in> set (map aHandle (actors d)) then None
          else sql_insert aDid \<lparr>aDid = rDid urepo, aHandle = handle\<rparr> (actors d)) = Some as"
    "d' = d\<lparr>repos := rs, actors := as\<rparr>"
    using assms(1) by (auto simp: insert_account_def split: if_splits option.splits)
  have rs: "rs = repos d @ [urepo]" "rDid urepo \<notin> rDid ` set (repos d)"
    using i(1) by (auto simp: sql_insert_def split: if_splits)
  have as: "keyed aDid as \<and> keyed aHandle as \<and> \<lparr>aDid = rDid urepo, aHandle = handle\<rparr> \<in> set as \<and> set (actors d) \<subseteq> set as"
  proof (cases actor)
    case None
    with i(3) have "as = actors d @ [\<lparr>aDid = rDid urepo, aHandle = handle\<rparr>]" "handle \<notin> set (map aHandle (actors d))"
      "rDid urepo \<notin> set (map aDid (actors d))" by (auto simp: sql_insert_def split: if_splits)
    with assms(2) show ?thesis by (auto simp: db_ok_def keyed_def)
  next
    case (Some a)
    with assms(2,3) i(3) have "as = actors d" "a \<in> set (actors d)" "aHandle a = handle" "aDid a = rDid urepo"
      by (auto simp: db_ok_def sql_upsert_present)
    with assms(2) show ?thesis by (cases a) (auto simp: db_ok_def)
  qed
  show "db_ok d'" using assms(2) rs as i(2) by (auto simp: i(4) db_ok_def keyed_def)
  show "repos d' = repos d @ [urepo]" "rDid urepo \<notin> rDid ` set (repos d)"
    "\<lparr>aDid = rDid urepo, aHandle = handle\<rparr> \<in> set (actors d')" "set (actors d) \<subseteq> set (actors d')"
    "inviteCodes d' = inviteCodes d" "inviteCodeUses d' = inviteCodeUses d"
    using rs as by (auto simp: i(4))
qed

lemma decrement_invite_ok: "decrement_invite sv c d = Inr d' \<Longrightarrow> db_ok d \<Longrightarrow> db_ok d' \<and> repos d' = repos d \<and> actors d' = actors d"
  by (auto simp: decrement_invite_def db_exec_Inr db_ok_def intro!: keyed_update)

lemma record_use_simps [simp]:
  "repos (record_use sv c did d) = repos d" "actors (record_use sv c did d) = actors d"
  "inviteCodes (record_use sv c did d) = inviteCodes d" "db_ok (record_use sv c did d) = db_ok d"
  by (auto simp: record_use_def db_ok_def)

definition invites_after :: "server \<Rightarrow> CreateAccountRequest \<Rightarrow> db \<Rightarrow> InviteCode table" where
  "invites_after sv req d = (if sRequireInvite sv
     then sql_update (\<lambda>x. icCode x = crInviteCode req) (\<lambda>x. x\<lparr>icRemainingUseCount := icRemainingUseCount x - 1\<rparr>) (inviteCodes d)
     else inviteCodes d)"

text \<open>The answer has the tokens of a session the database knows.\<close>

definition signed_in :: "outcome \<Rightarrow> string \<Rightarrow> string \<Rightarrow> db \<Rightarrow> bool" where
  "signed_in w handle did d \<longleftrightarrow>
     (\<exists>sess :: Session. w = writeJSON 200 (JObj [(''accessJwt'', JStr (AccessToken sess)), (''refreshJwt'', JStr (RefreshTokenStr sess)),
        (''handle'', JStr handle), (''did'', JStr did)]) \<and> AccessToken sess \<in> tToken ` set (tokens d))"

lemma open_account_cases:
  assumes "open_account sv req urepo s = (w, s')" and "db_ok (idDb s)"
  shows "db_ok (idDb s') \<and> idSent s' = idSent s \<and> (status_of w = 200 \<longrightarrow>
    repos (idDb s') = repos (idDb s) \<and> actors (idDb s') = actors (idDb s) \<and>
    inviteCodes (idDb s') = invites_after sv req (idDb s) \<and>
    signed_in w (crHandle req) (rDid urepo) (idDb s'))"
proof (cases "if sRequireInvite sv then decrement_invite sv (crInviteCode req) (idDb s) else Inr (idDb s)")
  case (Inl e)
  with assms show ?thesis by (auto simp: open_account_def)
next
  case (Inr d2)
  let ?d3 = "if sRequireInvite sv then record_use sv (crInviteCode req) (rDid urepo) d2 else d2"
  obtain res d4 where c: "createSession sv urepo ?d3 = (res, d4)" by fastforce
  have ok3: "db_ok ?d3" and eq3: "repos ?d3 = repos (idDb s)" "actors ?d3 = actors (idDb s)"
    using Inr assms(2) decrement_invite_ok [of sv "crInviteCode req" "idDb s" d2] by (auto split: if_splits)
  have inv: "inviteCodes ?d3 = invites_after sv req (idDb s)"
    using Inr by (auto simp: decrement_invite_def db_exec_Inr invites_after_def split: if_splits)
  note c_ok = createSession_db_ok [OF c ok3]
  show ?thesis
  proof (cases res)
    case e: (Inl e)
    from assms(1) Inr c e have "w = ServerError None" "s' = s\<lparr>idDb := d4\<rparr>" by (auto simp: open_account_def)
    with c_ok(1) show ?thesis by simp
  next
    case sess: (Inr sess)
    from assms(1) Inr c sess have w: "w = writeJSON 200 (JObj [(''accessJwt'', JStr (AccessToken sess)),
        (''refreshJwt'', JStr (RefreshTokenStr sess)), (''handle'', JStr (crHandle req)), (''did'', JStr (rDid urepo))])"
      and s': "s' = s\<lparr>idDb := d4\<rparr>" by (auto simp: open_account_def)
    have "AccessToken sess \<in> tToken ` set (tokens d4)" using createSession_Inr(1) [OF c [unfolded sess]] by simp
    then have "signed_in w (crHandle req) (rDid urepo) d4" unfolding signed_in_def w by blast
    then show ?thesis by (simp add: s' c_ok eq3 inv)
  qed
qed

text \<open>What finishing an account does to the rows, whatever follows.\<close>

lemma finish_account_cases:
  assumes "finish_account E req urepo actor s = (w, s')" and "db_ok (idDb s)"
    and "\<And>a. actor = Some a \<Longrightarrow> a \<in> set (actors (idDb s)) \<and> aHandle a = crHandle req \<and> aDid a = rDid urepo"
  shows "db_ok (idDb s') \<and> idSent s' = idSent s \<and> (status_of w = 200 \<longrightarrow>
    repos (idDb s') = repos (idDb s) @ [urepo] \<and> rDid urepo \<notin> rDid ` set (repos (idDb s)) \<and>
    \<lparr>aDid = rDid urepo, aHandle = crHandle req\<rparr> \<in> set (actors (idDb s')) \<and>
    inviteCodes (idDb s') = invites_after (clServer E) req (idDb s) \<and>
    signed_in w (crHandle req) (rDid urepo) (idDb s'))"
proof (cases "insert_account (clServer E) urepo (crHandle req) actor (idDb s)")
  case (Inl e)
  with assms(1,2) show ?thesis by (auto simp: finish_account_def)
next
  case (Inr d1)
  note rows = insert_account_Inr [OF Inr assms(2,3)]
  obtain s1 where run: "open_account (clServer E) req urepo s1 = (w, s')" and eq1: "idDb s1 = d1" "idSent s1 = idSent s"
    using assms(1) Inr by (auto simp: finish_account_def)
  have "invites_after (clServer E) req d1 = invites_after (clServer E) req (idDb s)"
    by (simp add: invites_after_def rows(6))
  with open_account_cases [OF run] rows eq1 show ?thesis by auto
qed


lemma claim_did_Inr:
  assumes "claim_did E r req d = Inr did"
  shows "case crDid req of None \<Rightarrow> did = ''''
    | Some x \<Rightarrow> did = x \<and> (\<exists>token. validateServiceAuth (clJwt E) (clDocKey E) (sFails (clServer E)) d token
         ''com.atproto.server.createAccount'' = Inr x)"
  using assms by (auto simp: claim_did_def Let_def split: option.splits if_splits sum.splits)

lemma invite_error_None:
  assumes "invite_error sv c d = None" and "sRequireInvite sv"
  shows "\<exists>x \<in> set (inviteCodes d). icCode x = c \<and> icRemainingUseCount x \<ge> 1"
  using assms by (auto simp: invite_error_def invite_remaining_def split: if_splits option.splits dest!: sql_first_Some)

lemma available_frame: "available E req did s = (res, s1) \<Longrightarrow> idDb s1 = idDb s \<and> idSent s1 = idSent s"
  by (auto simp: available_def Let_def split: sum.splits prod.splits if_splits option.splits)

lemma getActorByHandle_Inr:
  "getActorByHandle fails d h = Inr a \<Longrightarrow> a \<in> set (actors d) \<and> aDid a \<noteq> '''' \<and> (h = '''' \<or> aHandle a = h)"
  by (auto simp: getActorByHandle_def split: if_splits option.splits dest!: sql_first_Some)

lemma available_Inr:
  assumes "available E req did s = (Inr actor, s1)" and "sHostname (clServer E) \<noteq> ''''"
  shows "under_domain (clServer E) (crHandle req)" and "invite_error (clServer E) (crInviteCode req) (idDb s) = None"
    and "\<And>a. actor = Some a \<Longrightarrow> a \<in> set (actors (idDb s)) \<and> aHandle a = crHandle req \<and> aDid a = did \<and> did \<noteq> ''''"
proof -
  show u: "under_domain (clServer E) (crHandle req)" and "invite_error (clServer E) (crInviteCode req) (idDb s) = None"
    using assms(1) by (auto simp: available_def Let_def split: sum.splits prod.splits if_splits option.splits)
  from u assms(2) have "crHandle req \<noteq> ''''" by (auto simp: under_domain_def HasSuffix_def HasPrefix_def)
  moreover fix a assume "actor = Some a"
  with assms(1) have "getActorByHandle (sFails (clServer E)) (idDb s) (crHandle req) = Inr a \<and> aDid a = did"
    by (auto simp: available_def Let_def split: sum.splits prod.splits if_splits option.splits)
  ultimately show "a \<in> set (actors (idDb s)) \<and> aHandle a = crHandle req \<and> aDid a = did \<and> did \<noteq> ''''"
    using getActorByHandle_Inr by blast
qed

lemma create_identity_cases:
  assumes "create_identity I h s = (res, s1)"
  shows "idDb s1 = idDb s" and "res = Inr did \<Longrightarrow> \<exists>o1. DidFromOp (ilPlc I) o1 = Inr did \<and> idSent s1 = idSent s @ [(did, o1)]"
  using assms by (auto simp: create_identity_def send_op_def SendOperation_def CreateDID_def split: sum.splits option.splits)

lemma genesis_commit_verified:
  assumes "genesis_commit E did k = (Inr (root, v), k')"
  shows "IPFS_Verify (clKubo E) k' root = None"
  using assms
  by (auto simp: genesis_commit_def commitRepo_def finaliseCommit_def Let_def split: prod.splits sum.splits option.splits)

text \<open>The rows, once the identity is known.\<close>

lemma make_account_cases:
  assumes "make_account E req did actor s = (w, s')" and "db_ok (idDb (acId s))"
    and "\<And>a. actor = Some a \<Longrightarrow> a \<in> set (actors (idDb (acId s))) \<and> aHandle a = crHandle req \<and> aDid a = did"
  shows "db_ok (idDb (acId s')) \<and> idSent (acId s') = idSent (acId s) \<and> (status_of w = 200 \<longrightarrow>
    (\<exists>urepo. rDid urepo = did \<and> rEmail urepo = crEmail req \<and> repos (idDb (acId s')) = repos (idDb (acId s)) @ [urepo] \<and>
      did \<notin> rDid ` set (repos (idDb (acId s))) \<and> \<lparr>aDid = did, aHandle = crHandle req\<rparr> \<in> set (actors (idDb (acId s'))) \<and>
      inviteCodes (idDb (acId s')) = invites_after (clServer E) req (idDb (acId s)) \<and>
      (no_did req \<longrightarrow> IPFS_Verify (clKubo E) (acNode s') (rRoot urepo) = None) \<and>
      signed_in w (crHandle req) did (idDb (acId s'))))"
proof (cases "sBcrypt (clServer E) (crPassword req)")
  case None
  with assms(1,2) show ?thesis by (auto simp: make_account_def)
next
  case (Some hash)
  obtain g k where g: "(if no_did req then genesis_commit E did (acNode s) else (Inr ([], ''''), acNode s)) = (g, k)" by fastforce
  show ?thesis
  proof (cases g)
    case (Inl e)
    with assms(1,2) Some g show ?thesis by (auto simp: make_account_def)
  next
    case (Inr rr)
    obtain root v where rr: "rr = (root, v)" by (cases rr)
    show ?thesis
    proof (cases "fresh_code 6 (clDraw1 E) (clDraw2 E)")
      case None
      with assms(1,2) Some g Inr rr show ?thesis by (auto simp: make_account_def)
    next
      case (Some c)
      let ?u = "new_repo (sNow (clServer E)) did (crEmail req) c hash root v"
      have u: "rDid ?u = did" "rEmail ?u = crEmail req" "rRoot ?u = root" by (simp_all add: new_repo_def)
      obtain i where f: "finish_account E req ?u actor (acId s) = (w, i)" and s': "s' = s\<lparr>acId := i, acNode := k\<rparr>"
        using assms(1) Some \<open>sBcrypt _ _ = Some hash\<close> g Inr rr
        by (cases "finish_account E req ?u actor (acId s)") (auto simp: make_account_def)
      have "no_did req \<longrightarrow> IPFS_Verify (clKubo E) k root = None"
        using g Inr rr genesis_commit_verified by (auto split: if_splits)
      with finish_account_cases [OF f assms(2)] assms(3) u s' show ?thesis by auto
    qed
  qed
qed

text \<open>The stages a creation that answers 200 has been through.\<close>

lemma create_account_stages:
  assumes "handleCreateAccount E r (Some b) s = (w, s')" and "status_of w = 200"
    and "req = b\<lparr>crHandle := ToLower (crHandle b)\<rparr>"
  obtains did0 actor i did i1 where "claim_did E r req (idDb (acId s)) = Inr did0"
    and "available E req did0 (acId s) = (Inr actor, i)"
    and "(if did0 = '''' then create_identity (clId E) (crHandle req) i else (Inr did0, i)) = (Inr did, i1)"
    and "make_account E req did actor (s\<lparr>acId := i1\<rparr>) = (w, s')"
proof -
  have "\<not> isl (claim_did E r req (idDb (acId s)))"
    using assms(1,2) by (auto simp: handleCreateAccount_def Let_def assms(3) claim_did_def split: if_splits sum.splits option.splits)
  then obtain did0 where c: "claim_did E r req (idDb (acId s)) = Inr did0" by (cases "claim_did E r req (idDb (acId s))") auto
  obtain av i where a: "available E req did0 (acId s) = (av, i)" by fastforce
  have "status_of w1 \<noteq> 200" if "av = Inl w1" for w1
    using a that by (auto simp: available_def invite_error_def email_error_def Let_def
        split: if_splits sum.splits option.splits prod.splits)
  with assms(1,2) c a obtain actor where av: "av = Inr actor"
    by (cases av) (auto simp: handleCreateAccount_def Let_def assms(3) split: if_splits)
  obtain cr i1 where cr: "(if did0 = '''' then create_identity (clId E) (crHandle req) i else (Inr did0, i)) = (cr, i1)" by fastforce
  have run: "(case cr of Inl e \<Rightarrow> (ServerError None, s\<lparr>acId := i1\<rparr>) | Inr did \<Rightarrow> make_account E req did actor (s\<lparr>acId := i1\<rparr>)) = (w, s')"
    using assms(1,2) c a av cr by (auto simp: handleCreateAccount_def Let_def assms(3) [symmetric] split: if_splits)
  with assms(2) obtain did where "cr = Inr did" by (cases cr) auto
  with that [of did0 actor i did i1] c a av cr run show ?thesis by simp
qed

text \<open>Where the handler stops before it makes the rows, and the call that makes them.\<close>

lemma create_account_outcome:
  assumes "sHostname (clServer E) \<noteq> ''''" and "req = b\<lparr>crHandle := ToLower (crHandle b)\<rparr>"
  obtains (stopped) i where "idDb i = idDb (acId s)" and "snd (handleCreateAccount E r (Some b) s) = s\<lparr>acId := i\<rparr>"
  | (made) did actor i where "idDb i = idDb (acId s)"
    and "snd (handleCreateAccount E r (Some b) s) = snd (make_account E req did actor (s\<lparr>acId := i\<rparr>))"
    and "\<And>x. actor = Some x \<Longrightarrow> x \<in> set (actors (idDb (acId s))) \<and> aHandle x = crHandle req \<and> aDid x = did"
proof (cases "clValid E req \<and> \<not> isl (claim_did E r req (idDb (acId s)))")
  case False
  then have "snd (handleCreateAccount E r (Some b) s) = s\<lparr>acId := acId s\<rparr>"
    by (auto simp: handleCreateAccount_def assms(2) Let_def split: sum.splits)
  with stopped show ?thesis by blast
next
  case True
  then obtain did0 where c: "claim_did E r req (idDb (acId s)) = Inr did0" by (cases "claim_did E r req (idDb (acId s))") auto
  obtain av i where a: "available E req did0 (acId s) = (av, i)" by fastforce
  have fr: "idDb i = idDb (acId s)" using available_frame [OF a] by simp
  obtain cr i1 where cr: "(if did0 = '''' then create_identity (clId E) (crHandle req) i else (Inr did0, i)) = (cr, i1)" by fastforce
  have i1: "idDb i1 = idDb (acId s)"
    using cr fr create_identity_cases(1) [of "clId E" "crHandle req" i cr i1] by (auto split: if_splits)
  have run: "snd (handleCreateAccount E r (Some b) s) = (case av of Inl w \<Rightarrow> s\<lparr>acId := i\<rparr> | Inr actor \<Rightarrow>
      (case cr of Inl e \<Rightarrow> s\<lparr>acId := i1\<rparr> | Inr did \<Rightarrow> snd (make_account E req did actor (s\<lparr>acId := i1\<rparr>))))"
    using True c a cr
    by (cases "did0 = ''''") (auto simp: handleCreateAccount_def assms(2) [symmetric] Let_def split: sum.splits)
  show ?thesis
  proof (cases av)
    case (Inl w)
    with stopped [OF fr] run show ?thesis by simp
  next
    case av: (Inr actor)
    show ?thesis
    proof (cases cr)
      case (Inl e)
      with stopped [OF i1] run av show ?thesis by simp
    next
      case (Inr did)
      have "x \<in> set (actors (idDb (acId s))) \<and> aHandle x = crHandle req \<and> aDid x = did" if "actor = Some x" for x
        using available_Inr(3) [OF a [unfolded av] assms(1) that] cr Inr by (auto split: if_splits)
      with made [OF i1, of did actor] run av Inr show ?thesis by simp
    qed
  qed
qed

text \<open>Where the DID of a new account comes from.\<close>

lemma account_source:
  assumes c: "claim_did E r req d = Inr did0" and fr: "idSent i = idSent i0"
    and cr: "(if did0 = '''' then create_identity (clId E) (crHandle req) i else (Inr did0, i)) = (Inr did, i1)"
  shows "case crDid req of
      None \<Rightarrow> \<exists>o1. DidFromOp (ilPlc (clId E)) o1 = Inr did \<and> idSent i1 = idSent i0 @ [(did, o1)]
    | Some x \<Rightarrow> x \<noteq> '''' \<longrightarrow> did = x \<and> idSent i1 = idSent i0 \<and>
        (\<exists>token. validateServiceAuth (clJwt E) (clDocKey E) (sFails (clServer E)) d token
           ''com.atproto.server.createAccount'' = Inr x)"
proof (cases "crDid req")
  case None
  with claim_did_Inr [OF c] have "did0 = ''''" by simp
  with cr create_identity_cases(2) [of "clId E" "crHandle req" i "Inr did" i1 did] None fr show ?thesis by simp
next
  case (Some x)
  with claim_did_Inr [OF c] cr fr show ?thesis by (auto split: if_splits)
qed

text \<open>
  C36: Creating an account makes exactly one account.  The row is new, with the address and under the handle of the
  request, in lower case and in the domain of the server; the DID is either made for the account, its operation sent to
  the directory and its genesis commit stored on the node, or the one the caller brought and proved with a service token
  for this call; the invite code, where one is required, had a use left and has one less; the answer carries a session.
\<close>

theorem account_created:
  assumes "handleCreateAccount E r (Some b) s = (w, s')" and "status_of w = 200" and "db_ok (idDb (acId s))"
    and "sHostname (clServer E) \<noteq> ''''" and "req = b\<lparr>crHandle := ToLower (crHandle b)\<rparr>"
  shows "\<exists>did urepo. rDid urepo = did \<and> rEmail urepo = crEmail b \<and>
    repos (idDb (acId s')) = repos (idDb (acId s)) @ [urepo] \<and> did \<notin> rDid ` set (repos (idDb (acId s))) \<and>
    \<lparr>aDid = did, aHandle = ToLower (crHandle b)\<rparr> \<in> set (actors (idDb (acId s'))) \<and>
    under_domain (clServer E) (ToLower (crHandle b)) \<and> signed_in w (ToLower (crHandle b)) did (idDb (acId s')) \<and>
    (case crDid b of
       None \<Rightarrow> (\<exists>o1. DidFromOp (ilPlc (clId E)) o1 = Inr did \<and> idSent (acId s') = idSent (acId s) @ [(did, o1)]) \<and>
         IPFS_Verify (clKubo E) (acNode s') (rRoot urepo) = None
     | Some x \<Rightarrow> x \<noteq> '''' \<longrightarrow> did = x \<and> idSent (acId s') = idSent (acId s) \<and>
         (\<exists>token. validateServiceAuth (clJwt E) (clDocKey E) (sFails (clServer E)) (idDb (acId s)) token
            ''com.atproto.server.createAccount'' = Inr x)) \<and>
    (sRequireInvite (clServer E) \<longrightarrow>
       (\<exists>ic \<in> set (inviteCodes (idDb (acId s))). icCode ic = crInviteCode b \<and> icRemainingUseCount ic \<ge> 1)) \<and>
    inviteCodes (idDb (acId s')) = invites_after (clServer E) req (idDb (acId s)) \<and> db_ok (idDb (acId s'))"
proof -
  have req: "crEmail req = crEmail b" "crDid req = crDid b" "crInviteCode req = crInviteCode b"
    "crHandle req = ToLower (crHandle b)" by (simp_all add: assms(5))
  obtain did0 actor i did i1 where c: "claim_did E r req (idDb (acId s)) = Inr did0"
    and a: "available E req did0 (acId s) = (Inr actor, i)"
    and cr: "(if did0 = '''' then create_identity (clId E) (crHandle req) i else (Inr did0, i)) = (Inr did, i1)"
    and m: "make_account E req did actor (s\<lparr>acId := i1\<rparr>) = (w, s')"
    by (rule create_account_stages [OF assms(1,2,5)])
  note ok = available_Inr [OF a assms(4)]
  have fr: "idDb i = idDb (acId s)" "idSent i = idSent (acId s)" using available_frame [OF a] by simp_all
  have i1: "idDb i1 = idDb (acId s)"
    using cr fr(1) create_identity_cases(1) [of "clId E" "crHandle req" i "Inr did" i1] by (auto split: if_splits)
  have act: "x \<in> set (actors (idDb (acId (s\<lparr>acId := i1\<rparr>)))) \<and> aHandle x = crHandle req \<and> aDid x = did" if "actor = Some x" for x
    using ok(3) [OF that] cr i1 by (auto split: if_splits)
  note src = account_source [OF c fr(2) cr]
  from make_account_cases [OF m _ act] assms(2,3) i1 obtain urepo where "rDid urepo = did" "rEmail urepo = crEmail b"
    "repos (idDb (acId s')) = repos (idDb (acId s)) @ [urepo]" "did \<notin> rDid ` set (repos (idDb (acId s)))"
    "\<lparr>aDid = did, aHandle = ToLower (crHandle b)\<rparr> \<in> set (actors (idDb (acId s')))"
    "inviteCodes (idDb (acId s')) = invites_after (clServer E) req (idDb (acId s))"
    "no_did req \<longrightarrow> IPFS_Verify (clKubo E) (acNode s') (rRoot urepo) = None"
    "signed_in w (ToLower (crHandle b)) did (idDb (acId s'))" "db_ok (idDb (acId s'))" "idSent (acId s') = idSent i1"
    by (auto simp: req)
  moreover have "no_did req" if "crDid b = None" using that by (simp add: no_did_def req)
  ultimately show ?thesis
    using src ok(1,2) invite_error_None [OF ok(2)] by (auto simp: req split: option.splits)
qed

text \<open>A server that can sign opens a session when no stored token looks like one it signs.\<close>

definition can_open :: "server \<Rightarrow> db \<Rightarrow> bool" where
  "can_open sv d \<longleftrightarrow> (\<forall>b. sSignATP sv b \<noteq> None) \<and> (\<forall>l. \<not> sFails sv l) \<and>
     (\<forall>t \<in> set (tokens d). CHR ''.'' \<notin> set (tToken t)) \<and> (\<forall>t \<in> set (refreshTokens d). CHR ''.'' \<notin> set (rtToken t))"

lemma signed_dot: "signInternalJWT sv c = Inr t \<Longrightarrow> CHR ''.'' \<in> set t"
  by (auto simp: signInternalJWT_def Let_def split: option.splits)

lemma createSession_opens:
  assumes "can_open sv d"
  shows "\<not> isl (fst (createSession sv urepo d))"
proof -
  have ex: "\<exists>t. signInternalJWT sv c = Inr t" for c
    using assms by (auto simp: signInternalJWT_def can_open_def Let_def split: option.splits)
  have t: "x \<notin> tToken ` set (tokens d)" if "signInternalJWT sv c = Inr x" for c x
    using signed_dot [OF that] assms by (auto simp: can_open_def)
  have rt: "x \<notin> rtToken ` set (refreshTokens d)" if "signInternalJWT sv c = Inr x" for c x
    using signed_dot [OF that] assms by (auto simp: can_open_def)
  obtain a where a: "signInternalJWT sv (session_claims sv (rDid urepo) ''com.atproto.access'' (sNow sv + 3 * Hour) (sUuid sv 0)) = Inr a"
    using ex by blast
  obtain b where b: "signInternalJWT sv (session_claims sv (rDid urepo) ''com.atproto.refresh'' (sNow sv + 7 * 24 * Hour) (sUuid sv 0)) = Inr b"
    using ex by blast
  show ?thesis
    using t [OF a] rt [OF b] assms unfolding createSession_def Let_def a b
    by (simp add: db_create_def sql_insert_def can_open_def)
qed

lemma open_account_opens:
  assumes "can_open sv (idDb s)"
  shows "status_of (fst (open_account sv req urepo s)) = 200"
proof -
  have "\<exists>d2. (if sRequireInvite sv then decrement_invite sv (crInviteCode req) (idDb s) else Inr (idDb s)) = Inr d2 \<and>
      tokens d2 = tokens (idDb s) \<and> refreshTokens d2 = refreshTokens (idDb s)"
    using assms by (cases "sRequireInvite sv") (simp_all add: decrement_invite_def db_exec_def can_open_def)
  then obtain d2 where d2: "(if sRequireInvite sv then decrement_invite sv (crInviteCode req) (idDb s) else Inr (idDb s)) = Inr d2"
      "tokens d2 = tokens (idDb s)" "refreshTokens d2 = refreshTokens (idDb s)" by blast
  let ?d = "if sRequireInvite sv then record_use sv (crInviteCode req) (rDid urepo) d2 else d2"
  have "can_open sv ?d" using assms d2(2,3) by (auto simp: can_open_def record_use_def)
  from createSession_opens [OF this, of urepo] obtain sess d3 where c: "createSession sv urepo ?d = (Inr sess, d3)"
    by (cases "fst (createSession sv urepo ?d)") (auto simp: prod_eq_iff)
  show ?thesis unfolding open_account_def d2(1) sum.case c by simp
qed

lemma finish_account_opens:
  assumes "insert_account (clServer E) urepo (crHandle req) actor (idDb s) = Inr d1" and "can_open (clServer E) (idDb s)"
  shows "status_of (fst (finish_account E req urepo actor s)) = 200"
proof -
  have "can_open (clServer E) d1"
    using assms by (auto simp: insert_account_def can_open_def split: if_splits option.splits)
  with assms(1) show ?thesis by (simp add: finish_account_def open_account_opens)
qed

section \<open>An account is made\<close>

definition cr_lib :: "(unit, demo_tree, block list, unit, unit) createLib" where
  "cr_lib = \<lparr>clId = id_lib\<lparr>ilServer := demo_server\<rparr>, clSyntax = id_syntax, clRepo = demo_repoLib, clKubo = demo_kubo,
     clEmptyTree = [], clJwt = demo_jwt, clDocKey = (\<lambda>_ _. None), clDraw1 = (\<lambda>_. Some 0), clDraw2 = (\<lambda>_. Some 1),
     clValid = (\<lambda>_. True)\<rparr>"

definition cr_request :: CreateAccountRequest where
  "cr_request = \<lparr>crEmail = ''b@x'', crHandle = ''Bob.pds'', crDid = None, crPassword = ''secret'', crInviteCode = ''inv''\<rparr>"

definition cr_state :: "(unit, block list) acState" where
  "cr_state = \<lparr>acId = id_state\<lparr>idDb := demo_db\<lparr>inviteCodes := [\<lparr>icCode = ''inv'', icDid = ''admin'',
     icRemainingUseCount = 1, icCreatedAt = 0, icDisabled = False\<rparr>]\<rparr>\<rparr>, acNode = [([], [])]\<rparr>"

abbreviation cr_run :: "outcome \<times> (unit, block list) acState" where
  "cr_run \<equiv> handleCreateAccount cr_lib (demo_request ''/xrpc/com.atproto.server.createAccount'' []) (Some cr_request) cr_state"

abbreviation cr_made :: "(goerr + string) \<times> unit idState" where
  "cr_made \<equiv> create_identity (clId cr_lib) ''bob.pds'' (acId cr_state)"

abbreviation cr_did :: string where
  "cr_did \<equiv> ''did:plc:amaaaaaaaaaaaaaaaaaaaaaa''"

lemma cr_made: "fst cr_made = Inr cr_did"
  by code_simp

abbreviation cr_genesis :: "(goerr + cid \<times> string) \<times> block list" where
  "cr_genesis \<equiv> genesis_commit cr_lib cr_did (acNode cr_state)"

lemma cr_succeeds: "status_of (fst cr_run) = 200"
proof -
  let ?req = "cr_request\<lparr>crHandle := ''bob.pds''\<rparr>"
  have h: "ToLower (crHandle cr_request) = ''bob.pds''" by code_simp
  have r1: "claim_did cr_lib (demo_request ''/xrpc/com.atproto.server.createAccount'' []) ?req (idDb (acId cr_state)) = Inr ''''" by code_simp
  have r2: "available cr_lib ?req '''' (acId cr_state) = (Inr None, acId cr_state)" by code_simp
  define did where "did = cr_did"
  have "isl (fst cr_genesis) = False" by code_simp
  then have r4: "fst cr_genesis = Inr (projr (fst cr_genesis))" by (cases "fst cr_genesis") simp_all
  obtain root v k where g: "genesis_commit cr_lib did (acNode cr_state) = (Inr (root, v), k)"
    using r4 unfolding did_def by (metis prod.collapse)
  have r5: "fresh_code 6 (clDraw1 cr_lib) (clDraw2 cr_lib) = Some ''AAAAAA-BBBBBB''" by code_simp
  have misc: "clValid cr_lib ?req" "no_did ?req" "sBcrypt (clServer cr_lib) (crPassword ?req) = Some ''secret''"
    "crHandle ?req = ''bob.pds''" by code_simp+
  let ?u = "new_repo (sNow (clServer cr_lib)) did (crEmail ?req) ''AAAAAA-BBBBBB'' ''secret'' root v"
  obtain i where i: "cr_made = (Inr did, i)" using cr_made unfolding did_def by (metis prod.collapse)
  from create_identity_cases(1) [OF i] have idb: "idDb i = idDb (acId cr_state)" .
  have new: "rEmail ?u \<notin> set (map rEmail (repos (idDb i)))" "rDid ?u \<notin> rDid ` set (repos (idDb i))"
     "''bob.pds'' \<notin> set (map aHandle (actors (idDb i)))" "did \<notin> aDid ` set (actors (idDb i))"
    unfolding idb did_def new_repo_def Repo.simps by code_simp+
  have "\<exists>d1. insert_account (clServer cr_lib) ?u ''bob.pds'' None (idDb i) = Inr d1"
    using new by (simp add: insert_account_def sql_insert_def new_repo_def cr_lib_def demo_server_def)
  then obtain d1 where ins: "insert_account (clServer cr_lib) ?u (crHandle ?req) None (idDb i) = Inr d1" using misc(4) by auto
  have "can_open (clServer cr_lib) (idDb i)"
    unfolding idb by (simp add: can_open_def cr_lib_def demo_server_def cr_state_def id_state_def demo_db_def emptyDb_def)
  from finish_account_opens [OF ins this]
  have fin: "status_of (fst (finish_account cr_lib ?req ?u None i)) = 200" .
  have "make_account cr_lib ?req did None (cr_state\<lparr>acId := i\<rparr>) =
      (fst (finish_account cr_lib ?req ?u None i), cr_state\<lparr>acId := snd (finish_account cr_lib ?req ?u None i), acNode := k\<rparr>)"
    using g r5 misc by (simp add: make_account_def split_beta)
  with fin h r1 r2 i misc(1) show ?thesis by (simp add: handleCreateAccount_def Let_def)
qed

theorem account_created_witness:
  "\<exists>urepo. repos (idDb (acId (snd cr_run))) = [demo_repo, urepo] \<and> rEmail urepo = ''b@x'' \<and>
     map icRemainingUseCount (inviteCodes (idDb (acId (snd cr_run)))) = [0] \<and>
     \<lparr>aDid = rDid urepo, aHandle = ''bob.pds''\<rparr> \<in> set (actors (idDb (acId (snd cr_run)))) \<and>
     length (idSent (acId (snd cr_run))) = 1"
proof -
  have run: "cr_run = (fst cr_run, snd cr_run)" by simp
  note st = cr_succeeds
  have db: "db_ok (idDb (acId cr_state))" by code_simp
  have host: "sHostname (clServer cr_lib) \<noteq> ''''" by code_simp
  have h: "ToLower (crHandle cr_request) = ''bob.pds''" "crEmail cr_request = ''b@x''" "crDid cr_request = None"
    by code_simp+
  have d: "repos (idDb (acId cr_state)) = [demo_repo]" "idSent (acId cr_state) = []" by code_simp+
  have inv: "map icRemainingUseCount (invites_after (clServer cr_lib) (cr_request\<lparr>crHandle := ToLower (crHandle cr_request)\<rparr>)
      (idDb (acId cr_state))) = [0]" by code_simp
  from account_created [OF run st db host refl] show ?thesis
    unfolding h d option.case using inv h by auto
qed

end
