(* ===== verification/AccountPages.thy ===== *)
theory AccountPages
  imports AccountCreate OauthFlow
begin

text \<open>
  The pages a browser uses (server/handle_account*.go): sign-up, sign-in and sign-out, the account page with its
  OAuth sessions, revoking one, the compatibility switch, and deleting the account with the passkey.
\<close>

section \<open>The session cookie\<close>

text \<open>
  The values of a session are an object: the did and the lists of flash messages.  A handler that saves the session
  adds a cookie, with its values and the seconds it is kept (negative: removed), to the response; \<open>can_save\<close> says
  whether the values can be encoded.
\<close>

type_synonym savings = "(obj \<times> int) list"

definition session_seconds :: int where
  "session_seconds = 30 * 24 * 3600"

definition flashes_of :: "string \<Rightarrow> obj \<Rightarrow> json list" where
  "flashes_of k vals = (case jget vals k of Some (JArr l) \<Rightarrow> l | _ \<Rightarrow> [])"

definition AddFlash :: "string \<Rightarrow> string \<Rightarrow> obj \<Rightarrow> obj" where
  "AddFlash text1 k vals = map_put k (JArr (flashes_of k vals @ [JStr text1])) vals"

definition save_session :: "(obj \<Rightarrow> bool) \<Rightarrow> int \<Rightarrow> obj \<Rightarrow> savings \<Rightarrow> savings" where
  "save_session can_save age vals cs = (if can_save vals then cs @ [(vals, age)] else cs)"

definition no_flashes :: "obj \<Rightarrow> obj" where
  "no_flashes vals = filter (\<lambda>(k, v). k \<noteq> ''error'' \<and> k \<noteq> ''success'') vals"

text \<open>The messages shown on a page, which are removed from the session.\<close>

definition getFlashesFromSession :: "(obj \<Rightarrow> bool) \<Rightarrow> obj \<Rightarrow> savings \<Rightarrow> json \<times> savings" where
  "getFlashesFromSession can_save vals cs =
     (JObj [(''errors'', JArr (flashes_of ''error'' vals)), (''successes'', JArr (flashes_of ''success'' vals))],
      save_session can_save session_seconds (no_flashes vals) cs)"

text \<open>\<open>sess\<close> are the values of the cookie, \<open>None\<close> when it does not decode: Get then makes a new session.\<close>

definition sess_or_new :: "obj option \<Rightarrow> obj" where
  "sess_or_new sess = (case sess of None \<Rightarrow> [] | Some vals \<Rightarrow> vals)"

section \<open>Signing in and out\<close>

text \<open>A cookie that does not decode leaves no session: reading its flash messages is a nil dereference.\<close>

definition handleAccountSigninGet ::
  "server \<Rightarrow> (obj \<Rightarrow> bool) \<Rightarrow> obj option \<Rightarrow> request \<Rightarrow> db \<Rightarrow> outcome \<times> savings" where
  "handleAccountSigninGet sv can_save sess r d =
     (case getSessionRepoOrErr sv sess d of
        Inr _ \<Rightarrow> (Redirect ''/account'' 303, [])
      | Inl _ \<Rightarrow>
          (case sess of
             None \<Rightarrow> (Panic, [])
           | Some vals \<Rightarrow>
               (let (flashes, cs) = getFlashesFromSession can_save vals [] in
                (html ''signin.html'' [(''flashes'', flashes), (''QueryParams'', JStr (values_encode (qQuery r)))], cs))))"

definition signin_query :: "string \<Rightarrow> string" where
  "signin_query q = (if q \<noteq> '''' then CHR ''?'' # q else '''')"

definition signin_fail :: "(obj \<Rightarrow> bool) \<Rightarrow> obj \<Rightarrow> string \<Rightarrow> string \<Rightarrow> outcome \<times> savings" where
  "signin_fail can_save vals msg1 q =
     (Redirect (''/account/signin'' @ signin_query q) 303, save_session can_save session_seconds (AddFlash msg1 ''error'' vals) [])"

text \<open>\<open>bcrypt_err\<close> compares a hash with a password: no error, a mismatch or another error.\<close>

definition handleAccountSigninPost ::
  "server \<Rightarrow> (obj \<Rightarrow> bool) \<Rightarrow> (string \<Rightarrow> string \<Rightarrow> goerr option) \<Rightarrow> goerr \<Rightarrow> obj option \<Rightarrow>
   (string \<times> string) list option \<Rightarrow> db \<Rightarrow> outcome \<times> savings" where
  "handleAccountSigninPost sv can_save bcrypt_err mismatch sess form d =
     (case form of
        None \<Rightarrow> (ServerError None, [])
      | Some f \<Rightarrow>
          let vals = sess_or_new sess; q = get_value f ''query_params'' in
          (case getRepoActorByIdentifier (sFails sv) d (ToLower (get_value f ''username'')) of
             Inl e \<Rightarrow> signin_fail can_save vals
               (if e = ErrRecordNotFound then ''Handle or password is incorrect'' else ''Something went wrong!'') q
           | Inr repo \<Rightarrow>
               (case bcrypt_err (rPassword (raRepo repo)) (get_value f ''password'') of
                  Some e \<Rightarrow> signin_fail can_save vals
                    (if errors_is e mismatch then ''Handle or password is incorrect'' else ''Something went wrong!'') q
                | None \<Rightarrow>
                    let new_vals = [(''did'', JStr (rDid (raRepo repo)))] in
                    if \<not> can_save new_vals then (ServerError None, [])
                    else (Redirect (if q \<noteq> '''' then ''/oauth/authorize'' @ signin_query q else ''/account'') 303,
                          [(new_vals, session_seconds)]))))"

definition handleAccountSignout :: "(obj \<Rightarrow> bool) \<Rightarrow> obj option \<Rightarrow> request \<Rightarrow> outcome \<times> savings" where
  "handleAccountSignout can_save sess r =
     (case sess of
        None \<Rightarrow> (httpError ''session error'' 500, [])
      | Some _ \<Rightarrow>
          if \<not> can_save [] then (httpError ''session save error'' 500, [])
          else (Redirect (''/account/signin'' @ (if get_value (qQuery r) ''request_uri'' \<noteq> ''''
                   then CHR ''?'' # values_encode (qQuery r) else '''')) 303, [([], -1)]))"

section \<open>The account page\<close>

text \<open>
  \<open>client_name\<close> is the name in the metadata of a client, when they can be fetched; \<open>durafmt\<close> writes a duration.
  The bound on the creation time lies in the future.
\<close>

definition token_info ::
  "(string \<Rightarrow> string option) \<Rightarrow> (duration \<Rightarrow> string) \<Rightarrow> time \<Rightarrow> OauthToken \<Rightarrow> json" where
  "token_info client_name durafmt now t =
     JObj [(''ClientName'', JStr (case client_name (otClientId t) of None \<Rightarrow> otClientId t | Some n \<Rightarrow> n)),
       (''Age'', JStr (durafmt (SessionAge (GetSessionAgeFromToken now t)))),
       (''LastUpdated'', JStr (durafmt (now - otUpdatedAt t))),
       (''ExpiresIn'', JStr (durafmt (if caMethod (otClientAuth t) \<noteq> ''none'' then ConfidentialClientSessionLifetime
          else PublicClientSessionLifetime))),
       (''Token'', JStr (otToken t)), (''Ip'', JStr (otIp t))]"

definition handleAccount ::
  "server \<Rightarrow> (obj \<Rightarrow> bool) \<Rightarrow> (string \<Rightarrow> string option) \<Rightarrow> (duration \<Rightarrow> string) \<Rightarrow> obj option \<Rightarrow> db \<Rightarrow> outcome \<times> savings" where
  "handleAccount sv can_save client_name durafmt sess d =
     (case getSessionRepoOrErr sv sess d of
        Inl _ \<Rightarrow> (Redirect ''/account/signin'' 303, [])
      | Inr repo \<Rightarrow>
          let vals = sess_or_new sess; r = raRepo repo in
          if sFails sv ''oauthTokens.select''
          then let vals1 = AddFlash ''Unable to fetch sessions. See server logs for more details.'' ''error'' vals;
                   (flashes, cs) = getFlashesFromSession can_save vals1 (save_session can_save session_seconds vals1 [])
               in (html ''account.html'' [(''flashes'', flashes)], cs)
          else let ts = sort_key otCreatedAt (sql_select (\<lambda>t. otSub t = rDid r \<and>
                          otCreatedAt t < sNow sv + ConfidentialClientSessionLifetime) (oauthTokens d));
                   (flashes, cs) = getFlashesFromSession can_save vals []
               in (html ''account.html'' [(''Handle'', JStr (aHandle (raActor repo))), (''Did'', JStr (rDid r)),
                     (''HasSigningKey'', JBool (rSigningPublicKey r \<noteq> [])),
                     (''CredentialID'', JStr (if rCredentialID r \<noteq> [] then b64_encode (rCredentialID r) else '''')),
                     (''CompatMode'', JBool (rCompatMode r)),
                     (''Tokens'', JArr (map (token_info client_name durafmt (sNow sv)) ts)), (''flashes'', flashes)], cs))"

text \<open>An account revokes its own tokens only.\<close>

definition handleAccountRevoke ::
  "server \<Rightarrow> (obj \<Rightarrow> bool) \<Rightarrow> obj option \<Rightarrow> (string \<times> string) list option \<Rightarrow> db \<Rightarrow> (outcome \<times> savings) \<times> db" where
  "handleAccountRevoke sv can_save sess form d =
     (case form of
        None \<Rightarrow> ((ServerError None, []), d)
      | Some f \<Rightarrow>
          (case getSessionRepoOrErr sv sess d of
             Inl _ \<Rightarrow> ((Redirect ''/account/signin'' 303, []), d)
           | Inr repo \<Rightarrow>
               (case db_exec sv ''oauthTokens.revoke'' (\<lambda>d. d\<lparr>oauthTokens := sql_delete
                   (\<lambda>t. otSub t = rDid (raRepo repo) \<and> otToken t = get_value f ''token'') (oauthTokens d)\<rparr>) d of
                  Inl e \<Rightarrow> ((Redirect ''/account'' 303, save_session can_save session_seconds (AddFlash
                    ''Unable to revoke session. See server logs for more details.'' ''error'' (sess_or_new sess)) []), d)
                | Inr d' \<Rightarrow> ((Redirect ''/account'' 303, save_session can_save session_seconds (AddFlash
                    ''Session successfully revoked!'' ''success'' (sess_or_new sess)) []), d'))))"

definition handleAccountUpdateCompat :: "server \<Rightarrow> obj option \<Rightarrow> bool option \<Rightarrow> db \<Rightarrow> outcome \<times> db" where
  "handleAccountUpdateCompat sv sess req d =
     (case req of
        None \<Rightarrow> (writeJSON 400 (JObj [(''error'', JStr ''bad_request''), (''message'', JStr ''Invalid JSON body'')]), d)
      | Some switch \<Rightarrow>
          (case getSessionRepoOrErr sv sess d of
             Inl _ \<Rightarrow> (writeJSON 401 (JObj [(''error'', JStr ''unauthorized'')]), d)
           | Inr repo \<Rightarrow>
               (case db_exec sv ''repos.compat'' (upd_repo (rDid (raRepo repo)) (\<lambda>x. x\<lparr>rCompatMode := switch\<rparr>)) d of
                  Inl e \<Rightarrow> (writeJSON 500 (JObj [(''error'', JStr ''server_error'')]), d)
                | Inr d' \<Rightarrow> (writeJSON 200 (JObj [(''compat'', JBool switch), (''success'', JBool True)]), d'))))"


section \<open>Deleting the account\<close>

record AccountDeleteRequest =
  adCredentialID :: string
  adClientDataJSON :: string
  adAuthenticatorData :: string
  adSignature :: string

definition delete_denied :: "nat \<Rightarrow> string \<Rightarrow> outcome" where
  "delete_denied status msg1 = writeJSON status (JObj [(''error'', JStr msg1)])"

text \<open>The bytes of the three fields the assertion needs, or the answer of the first that does not decode.\<close>

definition assertion_fields :: "AccountDeleteRequest \<Rightarrow> outcome + bytes \<times> bytes \<times> bytes" where
  "assertion_fields q =
     (case b64_decode (adClientDataJSON q) of
        None \<Rightarrow> Inl (delete_denied 400 ''invalid clientDataJSON encoding'')
      | Some c \<Rightarrow>
          (case b64_decode (adAuthenticatorData q) of
             None \<Rightarrow> Inl (delete_denied 400 ''invalid authenticatorData encoding'')
           | Some a \<Rightarrow>
               (case b64_decode (adSignature q) of
                  None \<Rightarrow> Inl (delete_denied 400 ''invalid signature encoding'')
                | Some sg \<Rightarrow> Inr (c, a, sg))))"

definition handleAccountDelete ::
  "server \<Rightarrow> ('pub, 'kpub) webauthnLib \<Rightarrow> add_event \<Rightarrow> (obj \<Rightarrow> bool) \<Rightarrow> obj option \<Rightarrow> RepoActor option \<Rightarrow>
   AccountDeleteRequest option \<Rightarrow> db \<times> DbPersister \<Rightarrow> (outcome \<times> savings) \<times> db \<times> DbPersister" where
  "handleAccountDelete sv W add can_save sess ctx req s =
     (case ctx of
        None \<Rightarrow> ((delete_denied 401 ''Unauthorized'', []), s)
      | Some repo \<Rightarrow>
          let did = rDid (raRepo repo) in
          if rAuthPublicKey (raRepo repo) = [] then
            ((writeJSON 400 (JObj [(''error'', JStr ''NoSigningKey''),
               (''message'', JStr ''No passkey is registered for this account. Please register a passkey first.'')]), []), s)
          else (case req of
             None \<Rightarrow> ((ServerError None, []), s)
           | Some q \<Rightarrow>
               if adClientDataJSON q = '''' \<or> adAuthenticatorData q = '''' \<or> adSignature q = '''' then
                 ((delete_denied 400 ''clientDataJSON, authenticatorData, and signature are required'', []), s)
               else (case assertion_fields q of
                  Inl w \<Rightarrow> ((w, []), s)
                | Inr (c, a, sg) \<Rightarrow>
                    (case verifyAssertion W (rAuthPublicKey (raRepo repo)) (deletion_challenge W did) c a sg (sHostname sv) of
                       Inl e \<Rightarrow> ((delete_denied 401 (''passkey verification failed: '' @ err_string e), []), s)
                     | Inr _ \<Rightarrow>
                         (case deleteAccountByDid sv add did s of
                            (Some e, s1) \<Rightarrow> ((ServerError None, []), s1)
                          | (None, s1) \<Rightarrow>
                              ((writeHeader 200, case sess of None \<Rightarrow> [] | Some vals \<Rightarrow> save_session can_save (-1) vals []), s1))))))"

section \<open>Signing up\<close>

definition renderSignupForm ::
  "server \<Rightarrow> (obj \<Rightarrow> bool) \<Rightarrow> request \<Rightarrow> obj \<Rightarrow> savings \<Rightarrow> string \<Rightarrow> string \<Rightarrow> string \<Rightarrow> outcome \<times> savings" where
  "renderSignupForm sv can_save r vals cs handle email invite =
     (let (flashes, cs1) = getFlashesFromSession can_save vals cs in
      (html ''signup.html'' [(''Hostname'', JStr (sHostname sv)), (''HandleSuffix'', JStr ('', e.g. alice.'' @ sHostname sv)),
         (''RequireInvite'', JBool (sRequireInvite sv)), (''FormHandle'', JStr handle), (''FormEmail'', JStr email),
         (''FormInviteCode'', JStr invite), (''QueryParams'', JStr (values_encode (qQuery r))), (''flashes'', flashes)], cs1))"

definition handleAccountSignupGet ::
  "server \<Rightarrow> (obj \<Rightarrow> bool) \<Rightarrow> obj option \<Rightarrow> request \<Rightarrow> db \<Rightarrow> outcome \<times> savings" where
  "handleAccountSignupGet sv can_save sess r d =
     (case getSessionRepoOrErr sv sess d of
        Inr _ \<Rightarrow> (Redirect ''/account'' 303, [])
      | Inl _ \<Rightarrow> renderSignupForm sv can_save r (sess_or_new sess) [] '''' '''' '''')"

text \<open>The handle of the form: the domain of the server is added to a name without a dot.\<close>

definition full_handle :: "server \<Rightarrow> string \<Rightarrow> string" where
  "full_handle sv handle = ToLower (if CHR ''.'' \<in> set handle then handle else handle @ ''.'' @ sHostname sv)"

definition went_wrong :: string where
  "went_wrong = ''Something went wrong. Please try again.''"

definition signup_invite :: "server \<Rightarrow> string \<Rightarrow> db \<Rightarrow> string option" where
  "signup_invite sv invite d =
     (if \<not> sRequireInvite sv then None
      else if invite = '''' then Some ''An invite code is required.''
      else (case invite_remaining sv invite d of
              Inl e \<Rightarrow> Some went_wrong
            | Inr n \<Rightarrow> if n < 1 then Some ''This invite code has already been used.'' else None))"

text \<open>The checks before anything is made: the message of the first that fails.\<close>

definition signup_checks ::
  "('c, 'm, 'k, 'key, 'doc) createLib \<Rightarrow> string \<Rightarrow> string \<Rightarrow> string \<Rightarrow> string \<Rightarrow> 'c idState \<Rightarrow> string option \<times> 'c idState" where
  "signup_checks E handle email password invite s =
     (let I = clId E; sv = clServer E; d = idDb s in
      if \<not> isHandle (clSyntax E) handle then (Some ''Invalid handle. Use only letters, numbers and hyphens.'', s)
      else if \<not> under_domain sv handle then (Some (''Handle must be under '' @ sHostname sv @ ''.''), s)
      else if length password < 6 then (Some ''Password must be at least 6 characters.'', s)
      else (case signup_invite sv invite d of
        Some m \<Rightarrow> (Some m, s)
      | None \<Rightarrow>
          (case getActorByHandle (sFails sv) d handle of
             Inr _ \<Rightarrow> (Some ''That handle is already taken.'', s)
           | Inl e \<Rightarrow>
               if e \<noteq> ErrRecordNotFound then (Some went_wrong, s)
               else let (res, c) = Passport_ResolveHandle (ilCache I) False (sNow sv) (ResolveHandle (clSyntax E) (ilNet I))
                          handle (idCache s);
                        s1 = s\<lparr>idCache := c\<rparr>
               in if (case res of Inr r \<Rightarrow> r \<noteq> '''' | Inl _ \<Rightarrow> False) then (Some ''That handle is already taken.'', s1)
                  else (case getRepoByEmail (sFails sv) d email of
                          Inr x \<Rightarrow> if rDid x \<noteq> '''' then (Some ''That email address is already registered.'', s1) else (None, s1)
                        | Inl e \<Rightarrow> if e \<noteq> ErrRecordNotFound then (Some went_wrong, s1) else (None, s1)))))"

text \<open>From the rows on; errors of the invite code's bookkeeping are only logged.\<close>

definition signup_finish ::
  "('c, 'm, 'k, 'key, 'doc) createLib \<Rightarrow> string \<Rightarrow> string \<Rightarrow> Repo \<Rightarrow> 'c idState \<Rightarrow> string option \<times> 'c idState" where
  "signup_finish E handle invite urepo s =
     (let sv = clServer E in
      case insert_account sv urepo handle None (idDb s) of
        Inl e \<Rightarrow> (Some went_wrong, s)
      | Inr d1 \<Rightarrow>
          let s1 = identity_event (clId E) (rDid urepo) (Some handle) (s\<lparr>idDb := d1\<rparr>);
              d2 = (case decrement_invite sv invite (idDb s1) of Inl e \<Rightarrow> idDb s1 | Inr d2 \<Rightarrow> d2)
          in (None, if sRequireInvite sv then s1\<lparr>idDb := record_use sv invite (rDid urepo) d2\<rparr> else s1))"

text \<open>\<open>Inl\<close> is the message shown on the form, or \<open>None\<close> for a panic; \<open>Inr\<close> the did of the new account.\<close>

definition signup_make ::
  "('c, 'm, 'k, 'key, 'doc) createLib \<Rightarrow> string \<Rightarrow> string \<Rightarrow> string \<Rightarrow> string \<Rightarrow> ('c, 'k) acState \<Rightarrow>
   (string option + string) \<times> ('c, 'k) acState" where
  "signup_make E handle email password invite s =
     (case create_identity (clId E) handle (acId s) of
        (Inl e, i) \<Rightarrow> (Inl (Some went_wrong), s\<lparr>acId := i\<rparr>)
      | (Inr did, i) \<Rightarrow>
          (case sBcrypt (clServer E) password of
             None \<Rightarrow> (Inl (Some went_wrong), s\<lparr>acId := i\<rparr>)
           | Some hash \<Rightarrow>
               (case genesis_commit E did (acNode s) of
                  (Inl e, k) \<Rightarrow> (Inl (Some went_wrong), s\<lparr>acId := i, acNode := k\<rparr>)
                | (Inr (root, rev1), k) \<Rightarrow>
                    (case fresh_code 6 (clDraw1 E) (clDraw2 E) of
                       None \<Rightarrow> (Inl None, s\<lparr>acId := i, acNode := k\<rparr>)
                     | Some c \<Rightarrow>
                         (case signup_finish E handle invite (new_repo (sNow (clServer E)) did email c hash root rev1) i of
                            (Some m, i1) \<Rightarrow> (Inl (Some m), s\<lparr>acId := i1, acNode := k\<rparr>)
                          | (None, i1) \<Rightarrow> (Inr did, s\<lparr>acId := i1, acNode := k\<rparr>))))))"

definition signup_run ::
  "('c, 'm, 'k, 'key, 'doc) createLib \<Rightarrow> string \<Rightarrow> string \<Rightarrow> string \<Rightarrow> string \<Rightarrow> ('c, 'k) acState \<Rightarrow>
   (string option + string) \<times> ('c, 'k) acState" where
  "signup_run E handle email password invite s =
     (case signup_checks E handle email password invite (acId s) of
        (Some m, i) \<Rightarrow> (Inl (Some m), s\<lparr>acId := i\<rparr>)
      | (None, i) \<Rightarrow> signup_make E handle email password invite (s\<lparr>acId := i\<rparr>))"

definition handleAccountSignupPost ::
  "('c, 'm, 'k, 'key, 'doc) createLib \<Rightarrow> (obj \<Rightarrow> bool) \<Rightarrow> obj option \<Rightarrow> request \<Rightarrow> (string \<times> string) list option \<Rightarrow>
   ('c, 'k) acState \<Rightarrow> (outcome \<times> savings) \<times> ('c, 'k) acState" where
  "handleAccountSignupPost E can_save sess r form s =
     (case form of
        None \<Rightarrow> ((ServerError None, []), s)
      | Some f \<Rightarrow>
          let sv = clServer E; vals = sess_or_new sess; handle0 = TrimSpace (get_value f ''handle'');
              email = TrimSpace (get_value f ''email''); password = get_value f ''password'';
              invite = TrimSpace (get_value f ''invite_code''); q = get_value f ''query_params'';
              fail = (\<lambda>handle m. let vals1 = AddFlash m ''error'' vals in
                renderSignupForm sv can_save r vals1 (save_session can_save session_seconds vals1 []) handle email invite)
          in if handle0 = '''' \<or> email = '''' \<or> password = '''' then (fail handle0 ''All fields are required.'', s)
             else let handle = full_handle sv handle0 in
               (case signup_run E handle email password invite s of
                  (Inl (Some m), s1) \<Rightarrow> (fail handle m, s1)
                | (Inl None, s1) \<Rightarrow> ((Panic, []), s1)
                | (Inr did, s1) \<Rightarrow>
                    let new_vals = [(''did'', JStr did)] in
                    if \<not> can_save new_vals then ((ServerError None, []), s1)
                    else ((Redirect (if q \<noteq> '''' then ''/oauth/authorize?'' @ q else ''/account'') 303,
                           [(new_vals, session_seconds)]), s1)))"


section \<open>Properties\<close>

lemma jget_map_put [simp]: "jget (map_put k v vals) k' = (if k' = k then Some v else jget vals k')"
  by (simp add: jget_def)

lemma jstr_AddFlash [simp]: "k \<noteq> ''did'' \<Longrightarrow> jstr (AddFlash m k vals) ''did'' = jstr vals ''did''"
  by (simp add: jstr_def AddFlash_def)

lemma jstr_no_flashes [simp]: "jstr (no_flashes vals) ''did'' = jstr vals ''did''"
proof -
  have "map_of (no_flashes vals) ''did'' = map_of vals ''did''"
    by (induction vals) (auto simp: no_flashes_def)
  then show ?thesis by (simp add: jstr_def jget_def)
qed

lemma jstr_new [simp]: "jstr [] k = None" "jstr [(''did'', JStr x)] ''did'' = Some x"
  by (simp_all add: jstr_def jget_def)

lemma set_save_session: "(v, a) \<in> set (save_session can_save age vals cs) \<Longrightarrow> (v, a) \<in> set cs \<or> v = vals \<and> a = age"
  by (auto simp: save_session_def split: if_splits)

lemma set_flash_savings:
  "(v, a) \<in> set (snd (getFlashesFromSession can_save vals cs)) \<Longrightarrow> (v, a) \<in> set cs \<or> v = no_flashes vals"
  by (auto simp: getFlashesFromSession_def dest: set_save_session)

text \<open>Rendering the form again, or failing to sign in, leaves the did of the session as it was.\<close>

lemma signup_form_did:
  assumes "(v, a) \<in> set (snd (renderSignupForm sv can_save r (AddFlash m ''error'' vals)
      (save_session can_save age (AddFlash m ''error'' vals) []) h e i))"
  shows "jstr v ''did'' = jstr vals ''did''"
proof -
  let ?vals1 = "AddFlash m ''error'' vals"
  let ?cs = "save_session can_save age ?vals1 []"
  from assms have "(v, a) \<in> set (snd (getFlashesFromSession can_save ?vals1 ?cs))"
    by (simp add: renderSignupForm_def split: prod.splits)
  then have "v = ?vals1 \<or> v = no_flashes ?vals1"
    by (auto dest!: set_flash_savings set_save_session)
  then show ?thesis by auto
qed

lemma signin_fail_did: "(v, a) \<in> set (snd (signin_fail can_save vals m q)) \<Longrightarrow> jstr v ''did'' = jstr vals ''did''"
  by (auto simp: signin_fail_def dest!: set_save_session)

text \<open>The account a form makes.\<close>

lemma signup_finish_cases:
  assumes "signup_finish E handle invite urepo s = (m, s')" and "db_ok (idDb s)"
  shows "db_ok (idDb s') \<and> (m = None \<longrightarrow> repos (idDb s') = repos (idDb s) @ [urepo] \<and>
    \<lparr>aDid = rDid urepo, aHandle = handle\<rparr> \<in> set (actors (idDb s')) \<and> rDid urepo \<notin> rDid ` set (repos (idDb s)))"
proof (cases "insert_account (clServer E) urepo handle None (idDb s)")
  case (Inl e)
  with assms show ?thesis by (auto simp: signup_finish_def)
next
  case (Inr d1)
  note rows = insert_account_Inr [OF Inr assms(2), simplified]
  let ?s1 = "identity_event (clId E) (rDid urepo) (Some handle) (s\<lparr>idDb := d1\<rparr>)"
  define d2 where "d2 = (case decrement_invite (clServer E) invite (idDb ?s1) of Inl e \<Rightarrow> idDb ?s1 | Inr d2 \<Rightarrow> d2)"
  have d2: "db_ok d2 \<and> repos d2 = repos d1 \<and> actors d2 = actors d1"
    using decrement_invite_ok [of "clServer E" invite d1] rows(1)
    by (cases "decrement_invite (clServer E) invite d1") (simp_all add: d2_def)
  have "m = None \<and> s' = (if sRequireInvite (clServer E)
      then ?s1\<lparr>idDb := record_use (clServer E) invite (rDid urepo) d2\<rparr> else ?s1)"
    using assms(1) Inr unfolding signup_finish_def d2_def Let_def by simp
  then show ?thesis using rows(1-4) d2 by (cases "sRequireInvite (clServer E)") simp_all
qed

lemma signup_checks_frame: "signup_checks E h e p i s = (m, s') \<Longrightarrow> idDb s' = idDb s"
  by (auto simp: signup_checks_def Let_def split: if_splits option.splits sum.splits prod.splits)

lemma signup_make_cases:
  assumes "signup_make E handle email password invite s = (res, s')" and "db_ok (idDb (acId s))"
  shows "db_ok (idDb (acId s')) \<and> (\<forall>did. res = Inr did \<longrightarrow> (\<exists>urepo. rDid urepo = did \<and> rEmail urepo = email \<and>
    repos (idDb (acId s')) = repos (idDb (acId s)) @ [urepo] \<and> did \<notin> rDid ` set (repos (idDb (acId s))) \<and>
    \<lparr>aDid = did, aHandle = handle\<rparr> \<in> set (actors (idDb (acId s')))))"
proof (cases "create_identity (clId E) handle (acId s)")
  case fields: (Pair cr i)
  note i = create_identity_cases(1) [OF fields]
  show ?thesis
  proof (cases cr)
    case (Inl e)
    with fields assms i show ?thesis by (auto simp: signup_make_def)
  next
    case did: (Inr did)
    show ?thesis
    proof (cases "\<exists>hash root v k c. sBcrypt (clServer E) password = Some hash \<and> genesis_commit E did (acNode s) = (Inr (root, v), k) \<and>
        fresh_code 6 (clDraw1 E) (clDraw2 E) = Some c")
      case False
      with fields did assms i show ?thesis by (auto simp: signup_make_def split: option.splits sum.splits prod.splits)
    next
      case True
      then obtain hash root v k c where t: "sBcrypt (clServer E) password = Some hash"
        "genesis_commit E did (acNode s) = (Inr (root, v), k)" "fresh_code 6 (clDraw1 E) (clDraw2 E) = Some c" by blast
      let ?u = "new_repo (sNow (clServer E)) did email c hash root v"
      obtain m i1 where f: "signup_finish E handle invite ?u i = (m, i1)" by fastforce
      have u: "rDid ?u = did" "rEmail ?u = email" by (simp_all add: new_repo_def)
      have "s' = s\<lparr>acId := i1, acNode := k\<rparr> \<and> (m = None \<longrightarrow> res = Inr did) \<and> (m \<noteq> None \<longrightarrow> (\<exists>e. res = Inl e))"
        using assms(1) fields did t f by (auto simp: signup_make_def split: option.splits)
      with signup_finish_cases [OF f] assms(2) i u show ?thesis by (cases m) auto
    qed
  qed
qed

lemma signup_run_cases:
  assumes "signup_run E handle email password invite s = (res, s')" and "db_ok (idDb (acId s))"
  shows "db_ok (idDb (acId s')) \<and> (\<forall>did. res = Inr did \<longrightarrow> (\<exists>urepo. rDid urepo = did \<and> rEmail urepo = email \<and>
    repos (idDb (acId s')) = repos (idDb (acId s)) @ [urepo] \<and> did \<notin> rDid ` set (repos (idDb (acId s))) \<and>
    \<lparr>aDid = did, aHandle = handle\<rparr> \<in> set (actors (idDb (acId s')))))"
proof (cases "signup_checks E handle email password invite (acId s)")
  case fields: (Pair m i)
  note i = signup_checks_frame [OF fields]
  show ?thesis
  proof (cases m)
    case None
    with assms(1) fields have "signup_make E handle email password invite (s\<lparr>acId := i\<rparr>) = (res, s')"
      by (simp add: signup_run_def)
    from signup_make_cases [OF this] assms(2) i show ?thesis by simp
  next
    case (Some x)
    with assms fields i show ?thesis by (auto simp: signup_run_def)
  qed
qed

text \<open>What the sign-up form answers: the form again, a bare answer, or a cookie for the account that was made.\<close>

lemma signup_post_cases:
  assumes "handleAccountSignupPost E can_save sess r (Some f) s = ((w, cs), s')"
  shows "(\<exists>m h. renderSignupForm (clServer E) can_save r (AddFlash m ''error'' (sess_or_new sess))
        (save_session can_save session_seconds (AddFlash m ''error'' (sess_or_new sess)) []) h
        (TrimSpace (get_value f ''email'')) (TrimSpace (get_value f ''invite_code'')) = (w, cs)) \<or> cs = [] \<or>
    (\<exists>x. cs = [([(''did'', JStr x)], session_seconds)] \<and>
       signup_run E (full_handle (clServer E) (TrimSpace (get_value f ''handle''))) (TrimSpace (get_value f ''email''))
         (get_value f ''password'') (TrimSpace (get_value f ''invite_code'')) s = (Inr x, s'))"
proof (cases "TrimSpace (get_value f ''handle'') = '''' \<or> TrimSpace (get_value f ''email'') = '''' \<or> get_value f ''password'' = ''''")
  case True
  with assms have "renderSignupForm (clServer E) can_save r (AddFlash ''All fields are required.'' ''error'' (sess_or_new sess))
      (save_session can_save session_seconds (AddFlash ''All fields are required.'' ''error'' (sess_or_new sess)) [])
      (TrimSpace (get_value f ''handle'')) (TrimSpace (get_value f ''email'')) (TrimSpace (get_value f ''invite_code'')) = (w, cs)"
    by (simp add: handleAccountSignupPost_def Let_def)
  then show ?thesis by blast
next
  case False
  obtain res s1 where "signup_run E (full_handle (clServer E) (TrimSpace (get_value f ''handle''))) (TrimSpace (get_value f ''email''))
      (get_value f ''password'') (TrimSpace (get_value f ''invite_code'')) s = (res, s1)" by fastforce
  with assms False show ?thesis
    by (cases res) (auto simp: handleAccountSignupPost_def Let_def split: if_splits option.splits)
qed

text \<open>
  C37: A browser is signed in as an account only with its password, or as the account it has just made.  When a response
  sets a cookie with a DID that the cookie of the request did not have, either the form's name is that of an account
  with this DID and the password matches its hash, or the account did not exist before and exists now, under the handle
  and the address of the form.
\<close>

theorem session_cookie_sound:
  assumes "(vals, age) \<in> set cs" and "jstr vals ''did'' = Some did" and "\<And>v. sess = Some v \<Longrightarrow> jstr v ''did'' \<noteq> Some did"
    and "cs = snd (handleAccountSigninPost sv can_save bcrypt_err mismatch sess (Some f) d) \<or>
      handleAccountSignupPost E can_save sess r (Some f) s = ((w, cs), s') \<and> db_ok (idDb (acId s))"
  shows "(\<exists>repo. getRepoActorByIdentifier (sFails sv) d (ToLower (get_value f ''username'')) = Inr repo \<and>
      rDid (raRepo repo) = did \<and> bcrypt_err (rPassword (raRepo repo)) (get_value f ''password'') = None) \<or>
    (\<exists>urepo. rDid urepo = did \<and> rEmail urepo = TrimSpace (get_value f ''email'') \<and>
      repos (idDb (acId s')) = repos (idDb (acId s)) @ [urepo] \<and> did \<notin> rDid ` set (repos (idDb (acId s))) \<and>
      \<lparr>aDid = did, aHandle = full_handle (clServer E) (TrimSpace (get_value f ''handle''))\<rparr> \<in> set (actors (idDb (acId s'))))"
  using assms(4)
proof (elim disjE conjE)
  assume cs: "cs = snd (handleAccountSigninPost sv can_save bcrypt_err mismatch sess (Some f) d)"
  have old: "jstr (sess_or_new sess) ''did'' \<noteq> Some did" using assms(3) by (auto simp: sess_or_new_def split: option.splits)
  have no_fail: "(vals, age) \<notin> set (snd (signin_fail can_save (sess_or_new sess) m q))" for m q
    using signin_fail_did [of vals age can_save "sess_or_new sess" m q] assms(2) old by auto
  obtain repo where repo: "getRepoActorByIdentifier (sFails sv) d (ToLower (get_value f ''username'')) = Inr repo"
    using assms(1) no_fail by (auto simp: cs handleAccountSigninPost_def Let_def split: sum.splits)
  with assms(1) no_fail have ok: "bcrypt_err (rPassword (raRepo repo)) (get_value f ''password'') = None"
    by (auto simp: cs handleAccountSigninPost_def Let_def split: option.splits)
  with repo assms(1,2) have "rDid (raRepo repo) = did"
    by (auto simp: cs handleAccountSigninPost_def Let_def split: if_splits)
  with repo ok show ?thesis by blast
next
  assume run: "handleAccountSignupPost E can_save sess r (Some f) s = ((w, cs), s')" and db: "db_ok (idDb (acId s))"
  let ?h = "full_handle (clServer E) (TrimSpace (get_value f ''handle''))"
  let ?e = "TrimSpace (get_value f ''email'')" let ?i = "TrimSpace (get_value f ''invite_code'')"
  have old: "jstr (sess_or_new sess) ''did'' \<noteq> Some did" using assms(3) by (auto simp: sess_or_new_def split: option.splits)
  have no_fail: "renderSignupForm (clServer E) can_save r (AddFlash m ''error'' (sess_or_new sess))
      (save_session can_save session_seconds (AddFlash m ''error'' (sess_or_new sess)) []) h ?e ?i \<noteq> (w, cs)" for m h
    using signup_form_did [of vals age "clServer E" can_save r m "sess_or_new sess" session_seconds h ?e ?i] assms(1,2) old by auto
  with signup_post_cases [OF run] assms(1) obtain x where "cs = [([(''did'', JStr x)], session_seconds)]"
    and sr: "signup_run E ?h ?e (get_value f ''password'') ?i s = (Inr x, s')" by auto
  with assms(1,2) have "x = did" by simp
  with signup_run_cases [OF sr db] show ?thesis by blast
qed


lemma create_account_db_ok:
  assumes "db_ok (idDb (acId s))" and "sHostname (clServer E) \<noteq> ''''"
  shows "db_ok (idDb (acId (snd (handleCreateAccount E r body s))))"
proof (cases body)
  case (Some b)
  show ?thesis
  proof (rule create_account_outcome [OF assms(2) refl, where b = b and s = s and r = r])
    fix i
    assume "idDb i = idDb (acId s)" "snd (handleCreateAccount E r (Some b) s) = s\<lparr>acId := i\<rparr>"
    with Some assms(1) show ?thesis by simp
  next
    fix did actor i
    let ?req = "b\<lparr>crHandle := ToLower (crHandle b)\<rparr>"
    assume i: "idDb i = idDb (acId s)"
      and run: "snd (handleCreateAccount E r (Some b) s) = snd (make_account E ?req did actor (s\<lparr>acId := i\<rparr>))"
      and own: "\<And>x. actor = Some x \<Longrightarrow> x \<in> set (actors (idDb (acId s))) \<and> aHandle x = crHandle ?req \<and> aDid x = did"
    obtain w s2 where m: "make_account E ?req did actor (s\<lparr>acId := i\<rparr>) = (w, s2)" by fastforce
    have "x \<in> set (actors (idDb (acId (s\<lparr>acId := i\<rparr>)))) \<and> aHandle x = crHandle ?req \<and> aDid x = did" if "actor = Some x" for x
      using own [OF that] i by simp
    from make_account_cases [OF m _ this] assms(1) i run m Some show ?thesis by simp
  qed
qed (use assms in \<open>simp add: handleCreateAccount_def\<close>)

text \<open>
  No two accounts ever share a DID, an e-mail address or a handle, and no two sessions a token: both ways to create
  an account keep the keys of the tables, whatever the request is and wherever they stop.
\<close>

theorem account_keys_kept:
  assumes "db_ok (idDb (acId s))" and "sHostname (clServer E) \<noteq> ''''"
  shows "db_ok (idDb (acId (snd (handleCreateAccount E r body s)))) \<and>
    db_ok (idDb (acId (snd (handleAccountSignupPost E can_save sess r form s))))"
proof
  show "db_ok (idDb (acId (snd (handleCreateAccount E r body s))))" by (rule create_account_db_ok [OF assms])
  show "db_ok (idDb (acId (snd (handleAccountSignupPost E can_save sess r form s))))"
  proof (cases form)
    case None
    with assms show ?thesis by (simp add: handleAccountSignupPost_def)
  next
    case (Some f)
    let ?run = "signup_run E (full_handle (clServer E) (TrimSpace (get_value f ''handle''))) (TrimSpace (get_value f ''email''))
      (get_value f ''password'') (TrimSpace (get_value f ''invite_code'')) s"
    have "db_ok (idDb (acId (snd ?run)))" using signup_run_cases [of E _ _ _ _ s "fst ?run" "snd ?run"] assms(1) by simp
    with assms Some show ?thesis
      by (auto simp: handleAccountSignupPost_def Let_def split: prod.splits sum.splits option.splits)
  qed
qed


text \<open>A cookie the server cannot decode makes the sign-in page panic.\<close>

lemma stale_cookie_panics: "fst (handleAccountSigninGet sv can_save None r d) = Panic"
  by (simp add: handleAccountSigninGet_def getSessionRepoOrErr_def)

text \<open>Revoking touches no token of another account.\<close>

lemma revoke_own_only:
  assumes "getSessionRepoOrErr sv sess d = Inr repo" and "otSub t \<noteq> rDid (raRepo repo)"
  shows "t \<in> set (oauthTokens (snd (handleAccountRevoke sv can_save sess form d))) \<longleftrightarrow> t \<in> set (oauthTokens d)"
  using assms by (auto simp: handleAccountRevoke_def db_exec_def sql_delete_def split: option.splits)

section \<open>A sign-in, a new account and a deletion\<close>

definition pg_repo :: Repo where
  "pg_repo = demo_repo\<lparr>rPassword := ''pw'', rAuthPublicKey := replicate 33 2\<rparr>"

definition pg_actor :: RepoActor where
  "pg_actor = \<lparr>raRepo = pg_repo, raActor = \<lparr>aDid = ''did:plc:a'', aHandle = ''a.pds''\<rparr>\<rparr>"

definition pg_db :: db where
  "pg_db = demo_db\<lparr>repos := [pg_repo]\<rparr>"

abbreviation pg_bcrypt :: "string \<Rightarrow> string \<Rightarrow> goerr option" where
  "pg_bcrypt h p \<equiv> if h = p then None else Some (Err ''mismatch'')"

abbreviation pg_form :: "(string \<times> string) list" where
  "pg_form \<equiv> [(''username'', ''A.pds''), (''password'', ''pw'')]"

theorem session_cookie_sound_witness:
  "snd (handleAccountSigninPost demo_server (\<lambda>_. True) pg_bcrypt (Err ''mismatch'') (Some []) (Some pg_form) pg_db) =
     [([(''did'', JStr ''did:plc:a'')], session_seconds)] \<and>
   (\<exists>repo. getRepoActorByIdentifier (sFails demo_server) pg_db (ToLower (get_value pg_form ''username'')) = Inr repo \<and>
     rDid (raRepo repo) = ''did:plc:a'' \<and> pg_bcrypt (rPassword (raRepo repo)) (get_value pg_form ''password'') = None)"
proof -
  let ?cs = "snd (handleAccountSigninPost demo_server (\<lambda>_. True) pg_bcrypt (Err ''mismatch'') (Some []) (Some pg_form) pg_db)"
  have cs: "?cs = [([(''did'', JStr ''did:plc:a'')], session_seconds)]" by code_simp
  have "([(''did'', JStr ''did:plc:a'')], session_seconds) \<in> set ?cs" unfolding cs by simp
  from session_cookie_sound [OF this, of "''did:plc:a''" "Some []" demo_server "\<lambda>_. True" pg_bcrypt "Err ''mismatch''"
      pg_form pg_db cr_lib demo_oreq cr_state Panic cr_state] cs
  show ?thesis by auto
qed

theorem account_keys_kept_witness:
  "db_ok (idDb (acId (snd (handleAccountSignupPost cr_lib (\<lambda>_. True) None demo_oreq
     (Some [(''handle'', ''bob''), (''email'', ''b@x''), (''password'', ''secret''), (''invite_code'', ''inv'')]) cr_state))))"
proof -
  have "db_ok (idDb (acId cr_state))" "sHostname (clServer cr_lib) \<noteq> ''''" by code_simp+
  from account_keys_kept [OF this] show ?thesis by blast
qed

definition pg_webauthn :: "(unit, unit) webauthnLib" where
  "pg_webauthn = demo_webauthn\<lparr>jsonClientData := (\<lambda>_. Some (''webauthn.get'', b64_encode (replicate 32 9)))\<rparr>"

definition pg_delete :: AccountDeleteRequest where
  "pg_delete = \<lparr>adCredentialID = '''', adClientDataJSON = ''AA'',
     adAuthenticatorData = b64_encode (replicate 32 9 @ [1, 0, 0, 0, 0]), adSignature = b64_encode (der_sig 3 4)\<rparr>"

abbreviation pg_deleted :: "(outcome \<times> savings) \<times> db \<times> DbPersister" where
  "pg_deleted \<equiv> handleAccountDelete demo_server pg_webauthn (\<lambda>_ p. (None, p)) (\<lambda>_. True)
     (Some [(''did'', JStr ''did:plc:a'')]) (Some pg_actor) (Some pg_delete)
     (pg_db, \<lparr>dpSeq = 0, dpRetention = 0, dpTable = [], dpSent = []\<rparr>)"

lemma pg_deletes: "status_of (fst (fst pg_deleted)) = 200"
  by code_simp


end
