(* ===== verification/Proxy.thy ===== *)
theory Proxy
  imports Identity SignerConnect
begin

text \<open>
  Forwarding requests to another service of the network (server/handle_proxy.go), and the feed request that
  changes the token it carries (server/handle_proxy_get_feed.go).  A lookup of a record that this server does not have
  is forwarded in the simpler way of server/handle_repo_get_record.go.
\<close>

section \<open>Where a request goes\<close>

text \<open>
  \<open>plFetch\<close> fetches a DID document, \<open>plNewRequest\<close> says whether a URL makes a request, \<open>plDo\<close> sends one;
  \<open>plATURI\<close> parses an AT URI into collection, authority and record key, \<open>plGetRecord\<close> fetches a record from an
  endpoint and gives the DID of the feed generator, or \<open>None\<close> when the record is another one.
\<close>

record upstream =
  upMethod :: string
  upUrl :: string
  upHeaders :: "(string \<times> string) list"
  upBody :: "bytes option"

record answer =
  anStatus :: nat
  anHeaders :: "(string \<times> string list) list"
  anBody :: bytes

record 'c proxyLib =
  plFallback :: string
  plCache :: "'c backingCache"
  plFetch :: "string \<Rightarrow> goerr + DidDoc"
  plAsk :: "string \<Rightarrow> string \<Rightarrow> string \<Rightarrow> goerr + bytes"
  plNewRequest :: "string \<Rightarrow> bool"
  plDo :: "upstream \<Rightarrow> goerr + answer"
  plATURI :: "string \<Rightarrow> (string \<times> string \<times> string) option"
  plGetRecord :: "string \<Rightarrow> string \<Rightarrow> string \<Rightarrow> string \<Rightarrow> goerr + string option"

definition service_endpoint :: "string \<Rightarrow> DidDoc \<Rightarrow> string" where
  "service_endpoint i doc = fold (\<lambda>s found. if dsId s = i then dsServiceEndpoint s else found) (ddService doc) ''''"

definition getAtprotoProxyEndpointFromRequest ::
  "'c proxyLib \<Rightarrow> time \<Rightarrow> request \<Rightarrow> 'c \<Rightarrow> (goerr + string \<times> string) \<times> 'c" where
  "getAtprotoProxyEndpointFromRequest P now r c =
     (let h = header_get r ''atproto-proxy''; svc = (if h = '''' then plFallback P else h) in
      case SplitOn (CHR ''#'') svc of
        [svcDid, i] \<Rightarrow>
          (case FetchDoc (plCache P) False now (plFetch P) svcDid c of
             (Inl e, c1) \<Rightarrow> (Inl e, c1)
           | (Inr doc, c1) \<Rightarrow> (Inr (service_endpoint (CHR ''#'' # i) doc, svcDid), c1))
      | _ \<Rightarrow> (Inl (Err ''invalid service header''), c))"

section \<open>What is sent\<close>

definition del_header :: "string \<Rightarrow> (string \<times> string) list \<Rightarrow> (string \<times> string) list" where
  "del_header k hs = filter (\<lambda>(n, _). ToLower n \<noteq> ToLower k) hs"

definition set_header :: "string \<Rightarrow> string \<Rightarrow> (string \<times> string) list \<Rightarrow> (string \<times> string) list" where
  "set_header k v hs = del_header k hs @ [(k, v)]"

text \<open>
  The method the token is for and its audience: the overrides of the context, or the last part of the path and the
  service.
\<close>

definition token_method :: "string option \<Rightarrow> string \<Rightarrow> string" where
  "token_method lxm name = (case lxm of Some l \<Rightarrow> (if l = '''' then name else l) | None \<Rightarrow> name)"

definition proxy_token ::
  "'c proxyLib \<Rightarrow> server \<Rightarrow> RepoActor \<Rightarrow> string \<Rightarrow> string \<Rightarrow> goerr + string" where
  "proxy_token P sv repo aud lxm =
     (if rCompatMode (raRepo repo) then requestUserSignedServiceAuthJWT sv (plAsk P) repo aud lxm 0
      else signServiceAuthJWT sv repo aud lxm 0)"

definition TrimPrefix :: "string \<Rightarrow> string \<Rightarrow> string" where
  "TrimPrefix s p = (case CutPrefix s p of Some t \<Rightarrow> t | None \<Rightarrow> s)"

text \<open>The forwarded request, or the answer that ends this one.\<close>

definition proxy_request ::
  "'c proxyLib \<Rightarrow> server \<Rightarrow> RepoActor option \<Rightarrow> string option \<Rightarrow> string option \<Rightarrow> request \<Rightarrow> bytes \<Rightarrow> 'c \<Rightarrow>
   (outcome + upstream) \<times> 'c" where
  "proxy_request P sv ctx lxm aud r body c =
     (case SplitOn (CHR ''/'') (qPath r) of
        [_, _, name] \<Rightarrow>
          (case getAtprotoProxyEndpointFromRequest P (sNow sv) r c of
             (Inl e, c1) \<Rightarrow> (Inl (ServerError None), c1)
           | (Inr (endpoint, svcDid), c1) \<Rightarrow>
               let url = ''https://'' @ TrimPrefix endpoint ''https://'' @ qString r;
                   up = \<lparr>upMethod = qMethod r, upUrl = url, upHeaders = qHeaders r,
                         upBody = (if qMethod r \<noteq> ''GET'' then Some body else None)\<rparr>
               in if \<not> plNewRequest P url then (Inl (ServerError None), c1)
                  else (case ctx of
                     None \<Rightarrow> (Inr (up\<lparr>upHeaders := del_header ''authorization'' (upHeaders up)\<rparr>), c1)
                   | Some repo \<Rightarrow>
                       (case proxy_token P sv repo (token_method aud svcDid) (token_method lxm name) of
                          Inl e \<Rightarrow> (Inl (the (HandleSignerError (Some e))), c1)
                        | Inr t \<Rightarrow>
                            (Inr (up\<lparr>upHeaders := set_header ''authorization'' (''Bearer '' @ t) (upHeaders up)\<rparr>), c1))))
      | _ \<Rightarrow> (Inl (ServerError None), c))"

section \<open>What comes back\<close>

definition hopByHop :: "string list" where
  "hopByHop = [''Connection'', ''Keep-Alive'', ''Proxy-Authenticate'', ''Proxy-Authorization'', ''TE'', ''Trailers'',
     ''Transfer-Encoding'', ''Upgrade'', ''Content-Length'']"

definition corsHeaders :: "string list" where
  "corsHeaders = [''Access-Control-Allow-Origin'', ''Access-Control-Allow-Methods'', ''Access-Control-Allow-Headers'',
     ''Access-Control-Expose-Headers'', ''Access-Control-Max-Age'', ''Access-Control-Allow-Credentials'']"

definition stripped :: "string \<Rightarrow> bool" where
  "stripped k \<longleftrightarrow> list_ex (\<lambda>h. ToLower k = ToLower h) (hopByHop @ corsHeaders)"

definition relayed :: "answer \<Rightarrow> response" where
  "relayed a = \<lparr>code = anStatus a, hdrs = map (\<lambda>(k, v). (k, JoinWith '','' v)) (filter (\<lambda>(k, _). \<not> stripped k) (anHeaders a)),
     payload = BBytes (anBody a)\<rparr>"

definition handleProxy ::
  "'c proxyLib \<Rightarrow> server \<Rightarrow> RepoActor option \<Rightarrow> string option \<Rightarrow> string option \<Rightarrow> request \<Rightarrow> bytes \<Rightarrow> 'c \<Rightarrow> outcome \<times> 'c" where
  "handleProxy P sv ctx lxm aud r body c =
     (case proxy_request P sv ctx lxm aud r body c of
        (Inl w, c1) \<Rightarrow> (w, c1)
      | (Inr up, c1) \<Rightarrow> (case plDo P up of Inl e \<Rightarrow> (ServerError None, c1) | Inr a \<Rightarrow> (Reply (relayed a), c1)))"

text \<open>The token of a feed request is for the generator of the feed; a record of another type panics.\<close>

definition handleProxyBskyFeedGetFeed ::
  "'c proxyLib \<Rightarrow> server \<Rightarrow> RepoActor option \<Rightarrow> request \<Rightarrow> bytes \<Rightarrow> 'c \<Rightarrow> outcome \<times> 'c" where
  "handleProxyBskyFeedGetFeed P sv ctx r body c =
     (case plATURI P (get_value (qQuery r) ''feed'') of
        None \<Rightarrow> (InputError (Some ''invalid feed uri''), c)
      | Some (coll, authority, rkey) \<Rightarrow>
          (case getAtprotoProxyEndpointFromRequest P (sNow sv) r c of
             (Inl e, c1) \<Rightarrow> (ServerError None, c1)
           | (Inr (endpoint, _), c1) \<Rightarrow>
               (case plGetRecord P endpoint coll authority rkey of
                  Inl e \<Rightarrow> (ServerError None, c1)
                | Inr None \<Rightarrow> (Panic, c1)
                | Inr (Some did) \<Rightarrow> handleProxy P sv ctx (Some ''app.bsky.feed.getFeedSkeleton'') (Some did) r body c1)))"

text \<open>
  A record that is not found here is asked of the app view: a plain request with nothing of the caller's, whose answer
  is passed on with all its headers.  The query of the original string is what follows its first question mark.
\<close>

definition TrimSuffix :: "string \<Rightarrow> string \<Rightarrow> string" where
  "TrimSuffix s p = List.rev (TrimPrefix (List.rev s) (List.rev p))"

definition RawQuery :: "request \<Rightarrow> string" where
  "RawQuery r = drop 1 (dropWhile (\<lambda>ch. ch \<noteq> CHR ''?'') (qString r))"

definition app_view_request :: "string \<Rightarrow> request \<Rightarrow> upstream" where
  "app_view_request endpoint r = \<lparr>upMethod = ''GET'', upUrl = TrimSuffix endpoint ''/'' @ qPath r @ ''?'' @ RawQuery r,
     upHeaders = [], upBody = None\<rparr>"

definition copied :: "answer \<Rightarrow> response" where
  "copied a = \<lparr>code = anStatus a, hdrs = concat (map (\<lambda>(k, vs). map (Pair k) vs) (anHeaders a)), payload = BBytes (anBody a)\<rparr>"

definition proxyToAppView :: "'c proxyLib \<Rightarrow> time \<Rightarrow> request \<Rightarrow> 'c \<Rightarrow> outcome \<times> 'c" where
  "proxyToAppView P now r c =
     (case getAtprotoProxyEndpointFromRequest P now r c of
        (Inl e, c1) \<Rightarrow> (ServerError None, c1)
      | (Inr (endpoint, svcDid), c1) \<Rightarrow>
          let up = app_view_request endpoint r
          in if \<not> plNewRequest P (upUrl up) then (ServerError None, c1)
             else (case plDo P up of Inl e \<Rightarrow> (ServerError None, c1) | Inr a \<Rightarrow> (Reply (copied a), c1)))"

section \<open>Properties\<close>

lemma del_header_values: "header_values (r\<lparr>qHeaders := del_header k hs\<rparr>) k = []"
  by (auto simp: header_values_def del_header_def filter_empty_conv)

lemma set_header_values: "header_values (r\<lparr>qHeaders := set_header k v hs\<rparr>) k = [v]"
  by (auto simp: header_values_def set_header_def del_header_def filter_empty_conv)

lemma header_others:
  "del_header k (del_header k hs) = del_header k hs" "del_header k (set_header k x hs) = del_header k hs"
  by (auto simp: del_header_def set_header_def)

text \<open>
  C39: A proxied request goes to the endpoint that the document of the named service gives, with the method, query and
  body of the call, and its Authorization header is replaced: there is none when the caller is not signed in, and
  otherwise exactly one, a service token made for this request, for the account and the called method, and for the
  named service (or, for feeds, the generator).  So the caller's access token is not passed on.  Every other header is,
  unchanged and in its place: also the session cookie and the DPoP proof of the caller, when the request has them.
\<close>

theorem proxy_authorization_replaced:
  assumes "proxy_request P sv ctx lxm aud r body c = (Inr up, c')"
  shows "\<exists>a b name svcDid i doc. SplitOn (CHR ''/'') (qPath r) = [a, b, name] \<and>
    SplitOn (CHR ''#'') (if header_get r ''atproto-proxy'' = '''' then plFallback P else header_get r ''atproto-proxy'') = [svcDid, i] \<and>
    fst (FetchDoc (plCache P) False (sNow sv) (plFetch P) svcDid c) = Inr doc \<and>
    upUrl up = ''https://'' @ TrimPrefix (service_endpoint (CHR ''#'' # i) doc) ''https://'' @ qString r \<and>
    header_values (r\<lparr>qHeaders := upHeaders up\<rparr>) ''authorization'' =
      (case ctx of None \<Rightarrow> []
       | Some repo \<Rightarrow> [''Bearer '' @ projr (proxy_token P sv repo (token_method aud svcDid) (token_method lxm name))]) \<and>
    (\<forall>repo. ctx = Some repo \<longrightarrow> \<not> isl (proxy_token P sv repo (token_method aud svcDid) (token_method lxm name))) \<and>
    del_header ''authorization'' (upHeaders up) = del_header ''authorization'' (qHeaders r) \<and>
    upMethod up = qMethod r \<and> upBody up = (if qMethod r = ''GET'' then None else Some body)"
proof -
  obtain a b name where p: "SplitOn (CHR ''/'') (qPath r) = [a, b, name]"
    using assms by (auto simp: proxy_request_def split: list.splits)
  with assms obtain endpoint svcDid c1 where g: "getAtprotoProxyEndpointFromRequest P (sNow sv) r c = (Inr (endpoint, svcDid), c1)"
    by (auto simp: proxy_request_def split: prod.splits sum.splits)
  then obtain i doc where s:
    "SplitOn (CHR ''#'') (if header_get r ''atproto-proxy'' = '''' then plFallback P else header_get r ''atproto-proxy'') = [svcDid, i]"
    "fst (FetchDoc (plCache P) False (sNow sv) (plFetch P) svcDid c) = Inr doc" "endpoint = service_endpoint (CHR ''#'' # i) doc"
    by (auto simp: getAtprotoProxyEndpointFromRequest_def Let_def split: list.splits prod.splits sum.splits)
  have u: "upUrl up = ''https://'' @ TrimPrefix endpoint ''https://'' @ qString r \<and>
    upMethod up = qMethod r \<and> upBody up = (if qMethod r = ''GET'' then None else Some body) \<and>
    (case ctx of None \<Rightarrow> upHeaders up = del_header ''authorization'' (qHeaders r)
     | Some repo \<Rightarrow> \<exists>t. proxy_token P sv repo (token_method aud svcDid) (token_method lxm name) = Inr t \<and>
         upHeaders up = set_header ''authorization'' (''Bearer '' @ t) (qHeaders r))"
    using assms p g by (auto simp: proxy_request_def Let_def split: if_splits option.splits sum.splits)
  have h: "header_values (r\<lparr>qHeaders := upHeaders up\<rparr>) ''authorization'' =
      (case ctx of None \<Rightarrow> []
       | Some repo \<Rightarrow> [''Bearer '' @ projr (proxy_token P sv repo (token_method aud svcDid) (token_method lxm name))]) \<and>
    (\<forall>repo. ctx = Some repo \<longrightarrow> \<not> isl (proxy_token P sv repo (token_method aud svcDid) (token_method lxm name))) \<and>
    del_header ''authorization'' (upHeaders up) = del_header ''authorization'' (qHeaders r)"
  proof (cases ctx)
    case None
    with u have "upHeaders up = del_header ''authorization'' (qHeaders r)" by simp
    with None show ?thesis by (simp add: del_header_values header_others)
  next
    case (Some repo)
    with u obtain t where t: "proxy_token P sv repo (token_method aud svcDid) (token_method lxm name) = Inr t"
      "upHeaders up = set_header ''authorization'' (''Bearer '' @ t) (qHeaders r)"
      by auto
    with Some show ?thesis by (simp add: set_header_values header_others)
  qed
  show ?thesis using p s u h by blast
qed

text \<open>The answer of the service never sets the CORS or hop-by-hop headers of this one.\<close>

lemma relayed_headers: "(k, v) \<in> set (hdrs (relayed a)) \<Longrightarrow> \<forall>h \<in> set (hopByHop @ corsHeaders). ToLower k \<noteq> ToLower h"
  by (auto simp: relayed_def stripped_def list_ex_iff)


text \<open>A signed-in call with a session token and a cookie, to a service named in the header; only the cookie is passed on.\<close>

definition px_doc :: DidDoc where
  "px_doc = \<lparr>ddContext = [], ddId = ''did:web:view'', ddAlsoKnownAs = [], ddVerificationMethods = [],
     ddService = [\<lparr>dsId = ''#app'', dsType = '''', dsServiceEndpoint = ''https://view''\<rparr>]\<rparr>"

definition px_lib :: "unit proxyLib" where
  "px_lib = \<lparr>plFallback = '''', plCache = \<lparr>bcGetDoc = (\<lambda>_ _ c. (None, c)), bcPutDoc = (\<lambda>_ _ _ c. c), bcBustDoc = (\<lambda>_ c. c),
     bcGetDid = (\<lambda>_ _ c. (None, c)), bcPutDid = (\<lambda>_ _ _ c. c), bcBustDid = (\<lambda>_ c. c)\<rparr>, plFetch = (\<lambda>_. Inr px_doc),
     plAsk = (\<lambda>_ _ _. Inl (Err ''none'')), plNewRequest = (\<lambda>_. True), plDo = (\<lambda>_. Inl (Err ''net'')),
     plATURI = (\<lambda>_. None), plGetRecord = (\<lambda>_ _ _ _. Inl (Err ''net''))\<rparr>"

definition px_server :: server where
  "px_server = \<lparr>sHostname = ''pds'', sDid = ''did:web:pds'', sAdminPassword = '''', sRequireInvite = False, sNow = 0,
     sFails = (\<lambda>_. False), sSignATP = (\<lambda>_. Some [1]), sUuid = (\<lambda>_. ''u''), sBcryptOk = (\<lambda>_ _. False), sBcrypt = (\<lambda>_. None)\<rparr>"

definition px_request :: request where
  "px_request = \<lparr>qMethod = ''GET'', qHost = ''pds'', qTLS = True,
     qHeaders = [(''Authorization'', ''Bearer secret''), (''Cookie'', ''session=s''), (''atproto-proxy'', ''did:web:view#app'')],
     qString = ''/xrpc/a.b.c'', qPath = ''/xrpc/a.b.c'', qQuery = [], qForm = [], qRemoteAddr = ''''\<rparr>"

definition px_actor :: RepoActor where
  "px_actor = \<lparr>raRepo = zeroRepo\<lparr>rDid := ''did:plc:a''\<rparr>, raActor = \<lparr>aDid = ''did:plc:a'', aHandle = ''a''\<rparr>\<rparr>"

theorem proxy_authorization_replaced_witness:
  "\<exists>up t. fst (proxy_request px_lib px_server (Some px_actor) None None px_request [] ()) = Inr up \<and>
     upUrl up = ''https://view/xrpc/a.b.c'' \<and>
     proxy_token px_lib px_server px_actor ''did:web:view'' ''a.b.c'' = Inr t \<and>
     header_values (px_request\<lparr>qHeaders := upHeaders up\<rparr>) ''authorization'' = [''Bearer '' @ t] \<and>
     del_header ''authorization'' (upHeaders up) = [(''Cookie'', ''session=s''), (''atproto-proxy'', ''did:web:view#app'')]"
proof -
  let ?run = "proxy_request px_lib px_server (Some px_actor) None None px_request [] ()"
  obtain tk where tk: "proxy_token px_lib px_server px_actor ''did:web:view'' ''a.b.c'' = Inr tk"
    by (simp add: proxy_token_def signServiceAuthJWT_def px_server_def px_actor_def zeroRepo_def Let_def)
  have parts: "SplitOn (CHR ''/'') (qPath px_request) = ['''', ''xrpc'', ''a.b.c'']" "SplitOn (CHR ''#'')
      (if header_get px_request ''atproto-proxy'' = '''' then plFallback px_lib else header_get px_request ''atproto-proxy'') =
      [''did:web:view'', ''app'']" by code_simp+
  have doc: "fst (FetchDoc (plCache px_lib) False (sNow px_server) (plFetch px_lib) ''did:web:view'' ()) = Inr px_doc" by code_simp
  have url: "''https://'' @ TrimPrefix (service_endpoint ''#app'' px_doc) ''https://'' @ qString px_request = ''https://view/xrpc/a.b.c''"
    by code_simp
  have tok: "token_method None ''did:web:view'' = ''did:web:view''" "token_method None ''a.b.c'' = ''a.b.c''"
    by (simp_all add: token_method_def)
  have dest: "getAtprotoProxyEndpointFromRequest px_lib (sNow px_server) px_request () = (Inr (''https://view'', ''did:web:view''), ())"
    by code_simp
  have new: "plNewRequest px_lib u" for u by (simp add: px_lib_def)
  obtain up where run: "?run = (Inr up, ())"
    using tk new by (simp add: proxy_request_def parts(1) dest tok Let_def)
  from proxy_authorization_replaced [OF run] obtain a b name svcDid i doc where t:
    "SplitOn (CHR ''/'') (qPath px_request) = [a, b, name]"
    "SplitOn (CHR ''#'') (if header_get px_request ''atproto-proxy'' = '''' then plFallback px_lib
       else header_get px_request ''atproto-proxy'') = [svcDid, i]"
    "fst (FetchDoc (plCache px_lib) False (sNow px_server) (plFetch px_lib) svcDid ()) = Inr doc"
    "upUrl up = ''https://'' @ TrimPrefix (service_endpoint (CHR ''#'' # i) doc) ''https://'' @ qString px_request"
    "header_values (px_request\<lparr>qHeaders := upHeaders up\<rparr>) ''authorization'' =
       [''Bearer '' @ projr (proxy_token px_lib px_server px_actor (token_method None svcDid) (token_method None name))]"
    "del_header ''authorization'' (upHeaders up) = del_header ''authorization'' (qHeaders px_request)"
    by (simp only: option.case) blast
  have eq: "name = ''a.b.c''" "svcDid = ''did:web:view''" "i = ''app''" using t(1,2) unfolding parts by simp_all
  have "doc = px_doc" using t(3) doc unfolding eq by simp
  with t(4) url have "upUrl up = ''https://view/xrpc/a.b.c''" unfolding eq by simp
  moreover have "header_values (px_request\<lparr>qHeaders := upHeaders up\<rparr>) ''authorization'' = [''Bearer '' @ tk]"
    using t(5) unfolding eq tok tk by simp
  moreover have "del_header ''authorization'' (upHeaders up) = [(''Cookie'', ''session=s''), (''atproto-proxy'', ''did:web:view#app'')]"
    unfolding t(6) by code_simp
  ultimately show ?thesis using tk unfolding run fst_conv by blast
qed

end
