(* ===== verification/VowServer.thy ===== *)
theory VowServer
  imports AccountPages Proxy
begin

text \<open>
  The server as a whole (server/server.go): what New asks for, the table of routes and their guards, the crawl requests
  and the cleanup that run beside it, the pages that need no account (server/handle_root.go, handle_health.go,
  handle_robots.go, handle_age_assurance.go, handle_label_query_labels.go, handle_oauth_jwks.go).
\<close>

section \<open>Starting\<close>

record Args =
  agAddr :: string
  agDbName :: string
  agVersion :: string
  agDid :: string
  agHostname :: string
  agRotationKeyPath :: string
  agJwkPath :: string
  agContactEmail :: string
  agRelays :: "string list"
  agAdminPassword :: string
  agRequireInvite :: bool
  agSmtpUser :: string
  agSmtpPass :: string
  agSmtpHost :: string
  agSmtpPort :: string
  agSmtpEmail :: string
  agSmtpName :: string
  agNodeURL :: string
  agGatewayURL :: string
  agSessionSecret :: string
  agSessionCookieKey :: string
  agFallbackProxy :: string

record config =
  cfVersion :: string
  cfDid :: string
  cfHostname :: string
  cfContactEmail :: string
  cfEnforcePeering :: bool
  cfRelays :: "string list"
  cfAdminPassword :: string
  cfRequireInvite :: bool
  cfSmtpEmail :: string
  cfSmtpName :: string
  cfSessionCookieKey :: string
  cfFallbackProxy :: string

text \<open>The first argument that is missing or wrong.\<close>

definition args_error :: "syntaxLib \<Rightarrow> Args \<Rightarrow> string option" where
  "args_error X a =
     (if agAddr a = '''' then Some ''addr must be set''
      else if agDbName a = '''' then Some ''db name must be set''
      else if agDid a = '''' then Some ''vow did must be set''
      else if agContactEmail a = '''' then Some ''vow contact email is required''
      else if \<not> isDid X (agDid a) then Some ''error parsing vow did''
      else if agHostname a = '''' then Some ''vow hostname must be set''
      else if agAdminPassword a = '''' then Some ''admin password must be set''
      else if agSessionSecret a = '''' then Some ''session secret is required''
      else None)"

text \<open>
  The outside of New: opening the database with its pragmas, reading a file (\<open>Inr None\<close> when it does not exist), the
  private key of a JWK, the client of the IPFS node and the sender of mail for a host, a port and a login; random bytes,
  the clock and the failing statements.
\<close>

record startLib =
  slOpenDb :: "string \<Rightarrow> goerr option"
  slReadFile :: "string \<Rightarrow> goerr + bytes option"
  slJwk :: "bytes \<Rightarrow> goerr + bytes"
  slIpfs :: "string \<Rightarrow> goerr option"
  slMail :: "string \<Rightarrow> string \<Rightarrow> string \<Rightarrow> mailMessage \<Rightarrow> goerr option"
  slRandom :: bytes
  slNow :: time
  slFails :: faults

definition must_read :: "startLib \<Rightarrow> string \<Rightarrow> goerr + bytes" where
  "must_read S path = (case slReadFile S path of Inl e \<Rightarrow> Inl e | Inr None \<Rightarrow> Inl (Err ''no such file'') | Inr (Some b) \<Rightarrow> Inr b)"

record ('d, 'h, 'j) vow =
  vwConfig :: config
  vwPlc :: plcClient
  vwKey :: bytes
  vwSessionSecret :: string
  vwHub :: signerHub
  vwPersister :: DbPersister
  vwPassport :: "('d, 'h) MemCache"
  vwDpop :: "'j dpopManager"
  vwMail :: "mailYak option"
  vwLastCrawl :: time
  vwNodeURL :: string
  vwGatewayURL :: string
  vwWritten :: "(string \<times> bytes) list" \<comment> \<open>the files written\<close>

definition new_config :: "Args \<Rightarrow> config" where
  "new_config a = \<lparr>cfVersion = agVersion a, cfDid = agDid a, cfHostname = agHostname a, cfContactEmail = agContactEmail a,
     cfEnforcePeering = False, cfRelays = agRelays a, cfAdminPassword = agAdminPassword a, cfRequireInvite = agRequireInvite a,
     cfSmtpEmail = agSmtpEmail a, cfSmtpName = agSmtpName a, cfSessionCookieKey = agSessionCookieKey a,
     cfFallbackProxy = agFallbackProxy a\<rparr>"

definition new_mail :: "startLib \<Rightarrow> Args \<Rightarrow> mailYak option" where
  "new_mail S a =
     (if agSmtpUser a = '''' \<or> agSmtpPass a = '''' \<or> agSmtpHost a = '''' \<or> agSmtpPort a = '''' \<or> agSmtpEmail a = '''' \<or> agSmtpName a = ''''
      then None
      else Some \<lparr>myHostname = agHostname a, mySend = slMail S (agSmtpHost a @ '':'' @ agSmtpPort a) (agSmtpUser a) (agSmtpPass a)\<rparr>)"

text \<open>Without a secret the manager makes one, and the server stores it.\<close>

definition NewDpopManager ::
  "(bytes \<Rightarrow> bytes \<Rightarrow> bytes) \<Rightarrow> 'j \<Rightarrow> startLib \<Rightarrow> duration \<Rightarrow> bytes option \<Rightarrow> 'j dpopManager \<times> (string \<times> bytes) list" where
  "NewDpopManager hmac jti S interval sec =
     (\<lparr>dmNonce = NewNonce hmac (slNow S) (slRandom S) interval sec, jtiCache = jti\<rparr>,
      if sec = None then [(''nonce.secret'', slRandom S)] else [])"

definition nonce_secret :: "startLib \<Rightarrow> bytes option" where
  "nonce_secret S = (case slReadFile S ''nonce.secret'' of Inr b \<Rightarrow> b | Inl e \<Rightarrow> None)"

text \<open>\<open>jti\<close> is the empty cache of proof identifiers.\<close>

definition new_vow ::
  "(bytes \<Rightarrow> bytes \<Rightarrow> bytes) \<Rightarrow> 'j \<Rightarrow> (DidDoc, 'd) lruLib \<Rightarrow> (string, 'h) lruLib \<Rightarrow> startLib \<Rightarrow> Args \<Rightarrow> bytes \<Rightarrow> plcClient \<Rightarrow>
   DbPersister \<Rightarrow> ('d, 'h, 'j) vow" where
  "new_vow hmac jti U V S a atp c p =
     (let (dm, files) = NewDpopManager hmac jti S (NonceMaxRotationInterval div 3) (nonce_secret S) in
      \<lparr>vwConfig = new_config a, vwPlc = c, vwKey = atp, vwSessionSecret = agSessionSecret a, vwHub = NewSignerHub,
        vwPersister = p, vwPassport = NewMemCache U V 10000, vwDpop = dm, vwMail = new_mail S a, vwLastCrawl = 0,
        vwNodeURL = agNodeURL a, vwGatewayURL = agGatewayURL a, vwWritten = files\<rparr>)"

definition New ::
  "syntaxLib \<Rightarrow> plcLib \<Rightarrow> (bytes \<Rightarrow> bytes \<Rightarrow> bytes) \<Rightarrow> 'j \<Rightarrow> (DidDoc, 'd) lruLib \<Rightarrow> (string, 'h) lruLib \<Rightarrow> startLib \<Rightarrow> Args \<Rightarrow>
   EventRecord table \<Rightarrow> goerr + ('d, 'h, 'j) vow" where
  "New X P hmac jti U V S a events =
     (case args_error X a of
        Some m \<Rightarrow> Inl (Err m)
      | None \<Rightarrow>
          (case slOpenDb S (agDbName a) of Some e \<Rightarrow> Inl e | None \<Rightarrow>
          (case must_read S (agRotationKeyPath a) of Inl e \<Rightarrow> Inl e | Inr rk \<Rightarrow>
          (case must_read S (agJwkPath a) of Inl e \<Rightarrow> Inl e | Inr jwk \<Rightarrow>
          (case slJwk S jwk of Inl e \<Rightarrow> Inl e | Inr atp \<Rightarrow>
          (case NewClient P ''https://plc.directory'' rk (agHostname a) atp of Inl e \<Rightarrow> Inl e | Inr c \<Rightarrow>
          (case NewDbPersister (slFails S) (slNow S) (72 * Hour) events of Inl e \<Rightarrow> Inl (Wrap ''failed to create event persister'' e)
           | Inr p \<Rightarrow>
          (case slIpfs S (agNodeURL a) of Some e \<Rightarrow> Inl (Wrap ''failed to create IPFS client'' e) | None \<Rightarrow>
             Inr (new_vow hmac jti U V S a atp c p)))))))))"

section \<open>Routes\<close>

datatype guard = Public | WebSession | DpopBase | Authed | AdminOnly

type_synonym route = "string \<times> string \<times> guard \<times> string"

text \<open>Method (\<open>*\<close>: any), pattern, guard and handler, in the order they are registered.\<close>

definition public_xrpc :: "route list" where
  "public_xrpc =
     [(''GET'', ''/xrpc/_health'', Public, ''handleHealth''),
      (''GET'', ''/xrpc/com.atproto.identity.resolveHandle'', Public, ''handleResolveHandle''),
      (''POST'', ''/xrpc/com.atproto.server.createAccount'', Public, ''handleCreateAccount''),
      (''POST'', ''/xrpc/com.atproto.server.createSession'', Public, ''handleCreateSession''),
      (''GET'', ''/xrpc/com.atproto.server.describeServer'', Public, ''handleDescribeServer''),
      (''GET'', ''/xrpc/com.atproto.repo.describeRepo'', Public, ''handleDescribeRepo''),
      (''GET'', ''/xrpc/com.atproto.sync.listRepos'', Public, ''handleListRepos''),
      (''GET'', ''/xrpc/com.atproto.repo.listRecords'', Public, ''handleListRecords''),
      (''GET'', ''/xrpc/com.atproto.repo.getRecord'', Public, ''handleRepoGetRecord''),
      (''GET'', ''/xrpc/com.atproto.sync.getRecord'', Public, ''handleSyncGetRecord''),
      (''GET'', ''/xrpc/com.atproto.sync.getBlocks'', Public, ''handleGetBlocks''),
      (''GET'', ''/xrpc/com.atproto.sync.getLatestCommit'', Public, ''handleSyncGetLatestCommit''),
      (''GET'', ''/xrpc/com.atproto.sync.getRepoStatus'', Public, ''handleSyncGetRepoStatus''),
      (''GET'', ''/xrpc/com.atproto.sync.getRepo'', Public, ''handleSyncGetRepo''),
      (''GET'', ''/xrpc/com.atproto.sync.subscribeRepos'', Public, ''handleSyncSubscribeRepos''),
      (''GET'', ''/xrpc/com.atproto.sync.listBlobs'', Public, ''handleSyncListBlobs''),
      (''GET'', ''/xrpc/com.atproto.sync.getBlob'', Public, ''handleSyncGetBlob''),
      (''GET'', ''/xrpc/com.atproto.label.queryLabels'', Public, ''handleLabelQueryLabels''),
      (''POST'', ''/xrpc/com.atproto.server.requestPasswordReset'', Public, ''handleServerRequestPasswordReset''),
      (''POST'', ''/xrpc/com.atproto.server.deleteAccount'', Public, ''handleServerDeleteAccount'')]"

definition page_routes :: "route list" where
  "page_routes =
     [(''*'', ''/static/*'', Public, ''static''), (''*'', ''/metrics'', Public, ''metrics''),
      (''GET'', ''/'', Public, ''handleRoot''),
      (''GET'', ''/.well-known/did.json'', Public, ''handleWellKnown''),
      (''GET'', ''/.well-known/atproto-did'', Public, ''handleAtprotoDid''),
      (''GET'', ''/.well-known/oauth-protected-resource'', Public, ''handleOauthProtectedResource''),
      (''GET'', ''/.well-known/oauth-authorization-server'', Public, ''handleOauthAuthorizationServer''),
      (''GET'', ''/robots.txt'', Public, ''handleRobots''),
      (''GET'', ''/account'', Public, ''handleAccount''), (''POST'', ''/account/revoke'', Public, ''handleAccountRevoke''),
      (''GET'', ''/account/signin'', Public, ''handleAccountSigninGet''),
      (''POST'', ''/account/signin'', Public, ''handleAccountSigninPost''),
      (''GET'', ''/account/signup'', Public, ''handleAccountSignupGet''),
      (''POST'', ''/account/signup'', Public, ''handleAccountSignupPost''),
      (''GET'', ''/account/signout'', Public, ''handleAccountSignout''),
      (''POST'', ''/account/supply-signing-key'', WebSession, ''handleSupplySigningKey''),
      (''POST'', ''/account/passkey-challenge'', WebSession, ''handlePasskeyChallenge''),
      (''POST'', ''/account/passkey-assertion-challenge'', WebSession, ''handlePasskeyAssertionChallenge''),
      (''POST'', ''/account/delete'', WebSession, ''handleAccountDelete''),
      (''GET'', ''/account/signer'', Public, ''handleAccountSigner''),
      (''POST'', ''/account/compat'', WebSession, ''handleAccountUpdateCompat''),
      (''GET'', ''/oauth/jwks'', Public, ''handleOauthJwks''),
      (''GET'', ''/oauth/authorize'', Public, ''handleOauthAuthorizeGet''),
      (''POST'', ''/oauth/authorize'', Public, ''handleOauthAuthorizePost''),
      (''POST'', ''/oauth/par'', DpopBase, ''handleOauthPar''), (''POST'', ''/oauth/token'', DpopBase, ''handleOauthToken'')]"

definition authed_route :: "string \<times> string \<times> string \<Rightarrow> route" where
  "authed_route r = (case r of (m, name, h) \<Rightarrow> (m, ''/xrpc/'' @ name, Authed, h))"

definition authed_routes :: "route list" where
  "authed_routes = map authed_route
     [(''GET'', ''com.atproto.server.getSession'', ''handleGetSession''),
      (''POST'', ''com.atproto.server.refreshSession'', ''handleRefreshSession''),
      (''POST'', ''com.atproto.server.deleteSession'', ''handleDeleteSession''),
      (''GET'', ''com.atproto.identity.getRecommendedDidCredentials'', ''handleGetRecommendedDidCredentials''),
      (''POST'', ''com.atproto.identity.updateHandle'', ''handleIdentityUpdateHandle''),
      (''POST'', ''com.atproto.identity.requestPlcOperationSignature'', ''handleIdentityRequestPlcOperationSignature''),
      (''POST'', ''com.atproto.identity.signPlcOperation'', ''handleSignPlcOperation''),
      (''POST'', ''com.atproto.identity.submitPlcOperation'', ''handleSubmitPlcOperation''),
      (''POST'', ''com.atproto.server.confirmEmail'', ''handleServerConfirmEmail''),
      (''POST'', ''com.atproto.server.requestEmailConfirmation'', ''handleServerRequestEmailConfirmation''),
      (''POST'', ''com.atproto.server.requestEmailUpdate'', ''handleServerRequestEmailUpdate''),
      (''POST'', ''com.atproto.server.resetPassword'', ''handleServerResetPassword''),
      (''POST'', ''com.atproto.server.updateEmail'', ''handleServerUpdateEmail''),
      (''GET'', ''com.atproto.server.getAccountInviteCodes'', ''handleGetAccountInviteCodes''),
      (''GET'', ''com.atproto.server.getServiceAuth'', ''handleServerGetServiceAuth''),
      (''GET'', ''com.atproto.server.checkAccountStatus'', ''handleServerCheckAccountStatus''),
      (''POST'', ''com.atproto.server.deactivateAccount'', ''handleServerDeactivateAccount''),
      (''POST'', ''com.atproto.server.activateAccount'', ''handleServerActivateAccount''),
      (''POST'', ''com.atproto.server.requestAccountDelete'', ''handleServerRequestAccountDelete''),
      (''POST'', ''com.atproto.server.supplySigningKey'', ''handleSupplySigningKey''),
      (''GET'', ''com.atproto.server.getSigningKey'', ''handleGetSigningKey''),
      (''GET'', ''com.atproto.server.signerConnect'', ''handleSignerConnect''),
      (''GET'', ''com.atproto.repo.listMissingBlobs'', ''handleListMissingBlobs''),
      (''POST'', ''com.atproto.repo.createRecord'', ''handleCreateRecord''),
      (''POST'', ''com.atproto.repo.putRecord'', ''handlePutRecord''),
      (''POST'', ''com.atproto.repo.deleteRecord'', ''handleDeleteRecord''),
      (''POST'', ''com.atproto.repo.applyWrites'', ''handleApplyWrites''),
      (''POST'', ''com.atproto.repo.uploadBlob'', ''handleRepoUploadBlob''),
      (''POST'', ''com.atproto.repo.importRepo'', ''handleRepoImportRepo''),
      (''GET'', ''app.bsky.actor.getPreferences'', ''handleActorGetPreferences''),
      (''POST'', ''app.bsky.actor.putPreferences'', ''handleActorPutPreferences''),
      (''GET'', ''app.bsky.feed.getFeed'', ''handleProxyBskyFeedGetFeed''),
      (''GET'', ''app.bsky.ageassurance.getState'', ''handleAgeAssurance''),
      (''GET'', ''*'', ''handleProxy''), (''POST'', ''*'', ''handleProxy'')]"

definition admin_routes :: "route list" where
  "admin_routes =
     [(''POST'', ''/xrpc/com.atproto.server.createInviteCode'', AdminOnly, ''handleCreateInviteCode''),
      (''POST'', ''/xrpc/com.atproto.server.createInviteCodes'', AdminOnly, ''handleCreateInviteCodes'')]"

definition routes :: "route list" where
  "routes = page_routes @ public_xrpc @ authed_routes @ admin_routes"

definition method_match :: "string \<Rightarrow> string \<Rightarrow> bool" where
  "method_match rm m \<longleftrightarrow> rm = ''*'' \<or> rm = m"

definition exact :: "string \<Rightarrow> bool" where
  "exact pat \<longleftrightarrow> pat \<noteq> '''' \<and> last pat \<noteq> CHR ''*''"

text \<open>
  The router is a library.  It answers with a route that was registered for the method and a pattern that is the path or a
  prefix of it before the star, or itself when there is none, and prefers an exact pattern whatever the order of
  registration.
\<close>

type_synonym router = "string \<Rightarrow> string \<Rightarrow> outcome + guard \<times> string"

definition serves :: "router \<Rightarrow> route list \<Rightarrow> bool" where
  "serves rt tbl \<longleftrightarrow>
     (\<forall>m p g h. rt m p = Inr (g, h) \<longrightarrow>
        (\<exists>rm pat. (rm, pat, g, h) \<in> set tbl \<and> method_match rm m \<and> (if exact pat then pat = p else HasPrefix p (butlast pat)))) \<and>
     (\<forall>m p rm g h. (rm, p, g, h) \<in> set tbl \<and> method_match rm m \<and> exact p \<longrightarrow>
        (\<exists>rm' g' h'. (rm', p, g', h') \<in> set tbl \<and> method_match rm' m \<and> rt m p = Inr (g', h')))"

text \<open>The middleware StripSlashes, before the router.\<close>

definition strip_slash :: "string \<Rightarrow> string" where
  "strip_slash p = (if length p > 1 \<and> last p = CHR ''/'' then butlast p else p)"

text \<open>What a guard lets through: the context the handler sees, or the answer of the middleware.\<close>

definition admit ::
  "server \<Rightarrow> ('k, 'doc) jwtLib \<Rightarrow> ('p, 'j) dpopLib \<Rightarrow> (string \<times> string) option \<Rightarrow> obj option \<Rightarrow> request \<Rightarrow> db \<Rightarrow>
   'j dpopManager \<Rightarrow> guard \<Rightarrow> verdict \<times> 'j dpopManager" where
  "admit sv J L basic sess r d dm g =
     (case g of
        Public \<Rightarrow> (Pass noContext, dm)
      | DpopBase \<Rightarrow> (Pass noContext, dm)
      | WebSession \<Rightarrow> (handleWebSessionMiddleware sv sess d, dm)
      | AdminOnly \<Rightarrow> (handleAdminMiddleware sv basic, dm)
      | Authed \<Rightarrow> authed sv J L r d dm)"

text \<open>
  A request on the whole way: the cross-origin headers, which also answer every preflight, the route, its guard.
  \<open>run\<close> is the handler of a name, with the state \<open>'s\<close> of the server and its DPoP manager.
\<close>

definition serve ::
  "server \<Rightarrow> ('k, 'doc) jwtLib \<Rightarrow> ('p, 'j) dpopLib \<Rightarrow> router \<Rightarrow>
   (string \<Rightarrow> reqContext \<Rightarrow> 's \<times> 'j dpopManager \<Rightarrow> outcome \<times> 's \<times> 'j dpopManager) \<Rightarrow> ('s \<Rightarrow> db) \<Rightarrow>
   (string \<times> string) option \<Rightarrow> obj option \<Rightarrow> string \<Rightarrow> request \<Rightarrow> 's \<times> 'j dpopManager \<Rightarrow> outcome \<times> 's \<times> 'j dpopManager" where
  "serve sv J L rt run db_of basic sess path r s =
     (if qMethod r = ''OPTIONS'' then (corsMiddleware r Panic, s)
      else (case rt (qMethod r) (strip_slash path) of
              Inl w \<Rightarrow> (corsMiddleware r w, s)
            | Inr (g, h) \<Rightarrow>
                (case admit sv J L basic sess r (db_of (fst s)) (snd s) g of
                   (Stop w, dm) \<Rightarrow> (corsMiddleware r w, fst s, dm)
                 | (Pass ctx, dm) \<Rightarrow>
                     let (w, s1) = (if g = DpopBase
                           then BaseMiddleware (hmacSha256 L) (sNow sv) (\<lambda>n. run h ctx (fst s, dm\<lparr>dmNonce := n\<rparr>)) (dmNonce dm)
                           else run h ctx (fst s, dm))
                     in (corsMiddleware r w, s1))))"

section \<open>Beside the requests\<close>

text \<open>The relays asked to crawl, in order, unless the last round was at most a minute ago; their errors are logged.\<close>

definition requestCrawl :: "string list \<Rightarrow> time \<Rightarrow> time \<Rightarrow> (goerr + string list) \<times> time" where
  "requestCrawl relays now last_crawl =
     (if now - last_crawl \<le> 1 * Minute
      then (Inl (Err ''a crawl request has already been made within the last minute''), last_crawl)
      else (Inr relays, now))"

text \<open>One tick of the cleanup; a failing statement is logged.\<close>

definition cleanupExpiredSessions :: "server \<Rightarrow> db \<Rightarrow> db" where
  "cleanupExpiredSessions sv d =
     (let cutoff = sNow sv - ConfidentialClientRefreshLifetime in
      case db_exec sv ''oauthTokens.cleanup'' (\<lambda>d. d\<lparr>oauthTokens := sql_delete (\<lambda>t. otUpdatedAt t < cutoff) (oauthTokens d)\<rparr>) d of
        Inl e \<Rightarrow> d
      | Inr d' \<Rightarrow> d')"

text \<open>The tables a start creates; the table of the events is made with the persister.\<close>

definition migrated :: "string list" where
  "migrated = [''actors'', ''repos'', ''invite_codes'', ''invite_code_uses'', ''tokens'', ''refresh_tokens'', ''records'', ''blobs'',
     ''oauth_tokens'', ''oauth_authorization_requests'']"

definition migrate :: "faults \<Rightarrow> goerr option" where
  "migrate fails = (if list_ex fails migrated then Some (Err ''failed to run migrations'') else None)"

section \<open>Pages without an account\<close>

record homeStats =
  TotalAccounts :: nat
  ActiveAccounts :: nat
  TotalRecords :: nat
  TotalBlobs :: nat
  TotalInviteCodes :: nat

definition count_rows :: "('r \<Rightarrow> bool) \<Rightarrow> 'r table \<Rightarrow> nat" where
  "count_rows P t = length (sql_select P t)"

definition home_stats :: "faults \<Rightarrow> db \<Rightarrow> homeStats" where
  "home_stats fails d =
     (if fails ''home.stats'' then \<lparr>TotalAccounts = 0, ActiveAccounts = 0, TotalRecords = 0, TotalBlobs = 0, TotalInviteCodes = 0\<rparr>
      else \<lparr>TotalAccounts = count_rows (\<lambda>_. True) (repos d), ActiveAccounts = count_rows (\<lambda>r. \<not> rDeactivated r) (repos d),
        TotalRecords = count_rows (\<lambda>_. True) (records d), TotalBlobs = count_rows (\<lambda>_. True) (blobs d),
        TotalInviteCodes = count_rows (\<lambda>c. \<not> icDisabled c \<and> icRemainingUseCount c > 0) (inviteCodes d)\<rparr>)"

definition stats_json :: "homeStats \<Rightarrow> json" where
  "stats_json h = JObj [(''TotalAccounts'', JNum (int (TotalAccounts h))), (''ActiveAccounts'', JNum (int (ActiveAccounts h))),
     (''TotalRecords'', JNum (int (TotalRecords h))), (''TotalBlobs'', JNum (int (TotalBlobs h))),
     (''TotalInviteCodes'', JNum (int (TotalInviteCodes h)))]"

text \<open>\<open>banner\<close> is the text of the raw page up to the version.\<close>

definition handleRoot :: "config \<Rightarrow> string \<Rightarrow> faults \<Rightarrow> request \<Rightarrow> db \<Rightarrow> outcome" where
  "handleRoot cf banner fails r d =
     (if get_value (qQuery r) ''raw'' = ''1'' then plain_text (banner @ cfVersion cf @ [CHR 0x0A])
      else html ''home.html'' [(''Hostname'', JStr (cfHostname cf)), (''Did'', JStr (cfDid cf)),
        (''ContactEmail'', JStr (cfContactEmail cf)), (''Version'', JStr (cfVersion cf)),
        (''RequireInvite'', JBool (cfRequireInvite cf)), (''Stats'', stats_json (home_stats fails d))])"

definition handleHealth :: "config \<Rightarrow> outcome" where
  "handleHealth cf = writeJSON 200 (JObj [(''version'', JStr (''vow '' @ cfVersion cf))])"

definition handleRobots :: outcome where
  "handleRobots = plain_text (''# Beep boop beep boop'' @ [CHR 0x0A, CHR 0x0A] @ ''# Crawl me '' @
     map char_of [240 :: nat, 159, 165, 186] @ [CHR 0x0A] @ ''User-agent: *'' @ [CHR 0x0A] @ ''Allow: /'')"

definition handleAgeAssurance :: "(time \<Rightarrow> string) \<Rightarrow> time \<Rightarrow> RepoActor \<Rightarrow> outcome" where
  "handleAgeAssurance iso8601 now repo =
     writeJSON 200 (JObj [(''metadata'', JObj [(''accountCreatedAt'', JStr (iso8601 (rCreatedAt (raRepo repo))))]),
       (''state'', JObj [(''access'', JStr ''full''), (''lastInitiatedAt'', JStr (iso8601 now)), (''status'', JStr ''assured'')])])"

text \<open>Forwarded without an account when a service is named or configured.\<close>

definition handleLabelQueryLabels :: "'c proxyLib \<Rightarrow> server \<Rightarrow> request \<Rightarrow> bytes \<Rightarrow> 'c \<Rightarrow> outcome \<times> 'c" where
  "handleLabelQueryLabels P sv r body c =
     (if header_get r ''atproto-proxy'' \<noteq> '''' \<or> plFallback P \<noteq> '''' then handleProxy P sv None None None r body c
      else (writeJSON 200 (JObj [(''labels'', JArr [])]), c))"

definition handleOauthJwks :: outcome where
  "handleOauthJwks = writeJSON 200 (JObj [(''keys'', JArr [])])"

section \<open>Properties\<close>

lemma admit_WebSession:
  assumes "handleWebSessionMiddleware sv sess d = Pass ctx"
  shows "\<exists>repo. cRepo ctx = Some repo \<and> raRepo repo \<in> set (repos d)"
  using assms by (auto simp: handleWebSessionMiddleware_def split: option.splits if_splits sum.splits dest: getRepoActorByDid_Inr)

lemma admit_Authed:
  assumes "authed sv J L r d dm = (Pass ctx, dm')"
  shows "\<exists>repo. cRepo ctx = Some repo \<and> raRepo repo \<in> set (repos d)"
proof -
  obtain ctx0 where l: "handleLegacySessionMiddleware sv J r d = Pass ctx0"
    and o: "handleOauthSessionMiddleware sv L r d ctx0 dm = (Pass ctx, dm')"
    using assms by (auto simp: authed_def split: verdict.splits)
  from oauth_Pass [OF o] obtain scheme tok where h: "SplitOn (CHR '' '') (header_get r ''authorization'') = [scheme, tok]"
      "header_get r ''authorization'' \<noteq> ''''"
    and c: "(\<exists>p hs. dpop_account sv tok p hs d = Pass ctx) \<or> scheme \<noteq> ''DPoP'' \<and> ctx = ctx0" by (auto split: if_splits)
  from c show ?thesis
  proof (elim disjE conjE exE)
    fix p hs assume "dpop_account sv tok p hs d = Pass ctx"
    from dpop_account_Pass [OF this] show ?thesis by blast
  next
    assume s: "scheme \<noteq> ''DPoP''" and ctx: "ctx = ctx0"
    have "auth_header r = header_get r ''authorization''" using h(2) by (simp add: auth_header_def Let_def)
    with legacy_Pass [OF l] h(1) s obtain claims svc where
        k: "case jget claims ''lxm'' of None \<Rightarrow> svc = None | Some lxm \<Rightarrow> \<exists>p. svc = Some p \<and> service_auth_repo sv r claims lxm d = Inr p"
      and b: "bearer_account sv r claims svc tok d = Pass ctx0" by auto
    from bearer_account_Pass [OF b] k ctx show ?thesis
      by (auto split: option.splits dest: service_auth_repo_Inr)
  qed
qed

lemma admit_account:
  assumes "admit sv J L basic sess r d dm g = (Pass ctx, dm')" and "g = WebSession \<or> g = Authed"
  shows "\<exists>repo. cRepo ctx = Some repo \<and> raRepo repo \<in> set (repos d)"
  using assms by (auto simp: admit_def dest: admit_WebSession admit_Authed)

text \<open>A router that answers with the first exact match, then with the first matching prefix.\<close>

definition first_route :: router where
  "first_route m p =
     (case find (\<lambda>(rm, pat, g, h). method_match rm m \<and> exact pat \<and> pat = p) routes of
        Some (_, _, g, h) \<Rightarrow> Inr (g, h)
      | None \<Rightarrow>
          (case find (\<lambda>(rm, pat, g, h). method_match rm m \<and> \<not> exact pat \<and> HasPrefix p (butlast pat)) routes of
             Some (_, _, g, h) \<Rightarrow> Inr (g, h)
           | None \<Rightarrow> Inl (writeHeader 404)))"

lemma find_Some_set: "find P xs = Some x \<Longrightarrow> x \<in> set xs \<and> P x"
  by (induction xs) (auto split: if_splits)

lemma first_route_serves: "serves first_route routes"
  unfolding serves_def
proof (intro conjI allI impI)
  fix m p g h assume "first_route m p = Inr (g, h)"
  then obtain rm pat where "(rm, pat, g, h) \<in> set routes" "method_match rm m" "exact pat \<and> pat = p \<or> \<not> exact pat \<and> HasPrefix p (butlast pat)"
    by (auto simp: first_route_def split: option.splits dest!: find_Some_set)
  then show "\<exists>rm pat. (rm, pat, g, h) \<in> set routes \<and> method_match rm m \<and> (if exact pat then pat = p else HasPrefix p (butlast pat))"
    by auto
next
  fix m p rm g h assume a: "(rm, p, g, h) \<in> set routes \<and> method_match rm m \<and> exact p"
  let ?P = "\<lambda>(rm, pat, g, h). method_match rm m \<and> exact pat \<and> pat = p"
  have "find ?P routes \<noteq> None" using a by (auto simp: find_None_iff)
  then obtain x where x: "find ?P routes = Some x" by blast
  obtain rm' pat' g' h' where e: "x = (rm', pat', g', h')" by (cases x)
  with find_Some_set [OF x] have "(rm', p, g', h') \<in> set routes" "method_match rm' m" by auto
  moreover have "first_route m p = Inr (g', h')" using x e by (simp add: first_route_def)
  ultimately show "\<exists>rm' g' h'. (rm', p, g', h') \<in> set routes \<and> method_match rm' m \<and> first_route m p = Inr (g', h')" by blast
qed

text \<open>
  The daily cleanup never ends a session that could still be refreshed: a token it removes has outlived the refresh
  lifetime of its client, by the same rule the token endpoint applies.  When the statement runs, the tokens of
  confidential clients that stay are exactly those that can still be refreshed.
\<close>

theorem cleanup_only_expired:
  assumes "t \<in> set (oauthTokens d)" and "d' = cleanupExpiredSessions sv d"
  shows "(t \<notin> set (oauthTokens d') \<longrightarrow> RefreshExpired (GetSessionAgeFromToken (sNow sv) t)) \<and>
    (\<not> sFails sv ''oauthTokens.cleanup'' \<and> caMethod (otClientAuth t) \<noteq> ''none'' \<longrightarrow>
      (t \<in> set (oauthTokens d') \<longleftrightarrow> \<not> RefreshExpired (GetSessionAgeFromToken (sNow sv) t)))"
  using assms by (auto simp: cleanupExpiredSessions_def db_exec_def sql_delete_def GetSessionAgeFromToken_def Let_def)

text \<open>Two rounds of crawl requests are more than a minute apart.\<close>

lemma crawl_rate:
  assumes "requestCrawl relays now last_crawl = (Inr asked, t)" and "now' - now \<le> Minute"
  shows "asked = relays \<and> fst (requestCrawl relays now' t) = Inl (Err ''a crawl request has already been made within the last minute'')"
  using assms by (auto simp: requestCrawl_def split: if_splits)

text \<open>
  A server that starts has what its handlers rely on: a host name, a DID, an administrator's password and a secret
  for the cookies, none of them empty; the directory is asked for services at its own host name, mail is configured with
  all six values or not at all, the nonces rotate at a positive interval within their bound, no signer is connected yet,
  and a secret for the nonces that was made now has been stored.
\<close>

theorem started_server:
  assumes "New X P hmac jti U V S a events = Inr v"
  shows "cfHostname (vwConfig v) \<noteq> '''' \<and> isDid X (cfDid (vwConfig v)) \<and> cfAdminPassword (vwConfig v) \<noteq> '''' \<and>
    vwSessionSecret v \<noteq> '''' \<and> plcPdsHostname (vwPlc v) = cfHostname (vwConfig v) \<and>
    pkParsePriv P (the (projr (slReadFile S (agRotationKeyPath a)))) = Inr (plcRotationKey (vwPlc v)) \<and>
    (\<forall>y. vwMail v = Some y \<longrightarrow> myHostname y = cfHostname (vwConfig v) \<and>
       '''' \<notin> {agSmtpUser a, agSmtpPass a, agSmtpHost a, agSmtpPort a, cfSmtpEmail (vwConfig v), cfSmtpName (vwConfig v)}) \<and>
    0 < rotationInterval (dmNonce (vwDpop v)) \<and> rotationInterval (dmNonce (vwDpop v)) \<le> NonceMaxRotationInterval \<and>
    conns (vwHub v) = Map.empty \<and> dpRetention (vwPersister v) = 72 * Hour \<and>
    (nonce_secret S = None \<longrightarrow> (''nonce.secret'', secret (dmNonce (vwDpop v))) \<in> set (vwWritten v))"
proof -
  have ok: "args_error X a = None" using assms by (auto simp: New_def split: option.splits)
  then obtain rk atp c p where r: "must_read S (agRotationKeyPath a) = Inr rk"
    "NewClient P ''https://plc.directory'' rk (agHostname a) atp = Inr c"
    "NewDbPersister (slFails S) (slNow S) (72 * Hour) events = Inr p" and v: "v = new_vow hmac jti U V S a atp c p"
    using assms by (auto simp: New_def split: option.splits sum.splits)
  have args: "agHostname a \<noteq> ''''" "isDid X (agDid a)" "agAdminPassword a \<noteq> ''''" "agSessionSecret a \<noteq> ''''"
    using ok by (auto simp: args_error_def split: if_splits)
  have rdf: "slReadFile S (agRotationKeyPath a) = Inr (Some rk)"
    using r(1) by (auto simp: must_read_def split: sum.splits option.splits)
  have client: "plcPdsHostname c = agHostname a" "pkParsePriv P rk = Inr (plcRotationKey c)"
    using r(2) by (auto simp: NewClient_def split: sum.splits)
  have per: "dpRetention p = 72 * Hour" using r(3) by (auto simp: NewDbPersister_def split: if_splits)
  show ?thesis
    using args client per rdf
    by (auto simp: v new_vow_def new_config_def new_mail_def NewDpopManager_def NewNonce_def NewSignerHub_def Let_def
        split: if_splits)
qed

section \<open>A small server starts\<close>

theorem cleanup_only_expired_witness:
  "oauthTokens (cleanupExpiredSessions (demo_server\<lparr>sNow := 100 * 24 * Hour\<rparr>) (demo_db\<lparr>oauthTokens := [demo_otoken]\<rparr>)) = [] \<and>
   RefreshExpired (GetSessionAgeFromToken (100 * 24 * Hour) demo_otoken)"
proof -
  let ?sv = "demo_server\<lparr>sNow := 100 * 24 * Hour\<rparr>" and ?d = "demo_db\<lparr>oauthTokens := [demo_otoken]\<rparr>"
  have gone: "oauthTokens (cleanupExpiredSessions ?sv ?d) = []" by code_simp
  have "demo_otoken \<in> set (oauthTokens ?d)" by simp
  from cleanup_only_expired [OF this refl, of ?sv] gone show ?thesis by simp
qed

definition vs_args :: Args where
  "vs_args = \<lparr>agAddr = '':8080'', agDbName = ''vow.db'', agVersion = ''dev'', agDid = ''did:web:pds'', agHostname = ''pds'',
     agRotationKeyPath = ''rotation.key'', agJwkPath = ''jwk.key'', agContactEmail = ''a@x'', agRelays = [],
     agAdminPassword = ''pw'', agRequireInvite = True, agSmtpUser = '''', agSmtpPass = '''', agSmtpHost = '''',
     agSmtpPort = '''', agSmtpEmail = '''', agSmtpName = '''', agNodeURL = ''http://127.0.0.1:5001'', agGatewayURL = '''',
     agSessionSecret = ''secret'', agSessionCookieKey = ''session'', agFallbackProxy = ''''\<rparr>"

definition vs_start :: startLib where
  "vs_start = \<lparr>slOpenDb = (\<lambda>_. None), slReadFile = (\<lambda>p. if HasSuffix p ''.key'' then Inr (Some [1]) else Inr None),
     slJwk = Inr, slIpfs = (\<lambda>_. None), slMail = (\<lambda>_ _ _ _. None), slRandom = [9], slNow = 0, slFails = (\<lambda>_. False)\<rparr>"

abbreviation vs_new :: "goerr + ((string \<times> DidDoc \<times> time) list, (string \<times> string \<times> time) list, string list) vow" where
  "vs_new \<equiv> New id_syntax demo_plcLib (\<lambda>k b. k) [] demo_lru demo_lru vs_start vs_args []"

theorem started_server_witness:
  "\<exists>v. vs_new = Inr v \<and> plcPdsHostname (vwPlc v) = ''pds'' \<and> (''nonce.secret'', secret (dmNonce (vwDpop v))) \<in> set (vwWritten v)"
proof -
  have "isl vs_new = False" by code_simp
  then obtain v where v: "vs_new = Inr v" by (cases vs_new) auto
  have host: "cfHostname (vwConfig v) = ''pds''"
    using v by (auto simp: New_def new_vow_def new_config_def NewDpopManager_def vs_args_def split: option.splits sum.splits)
  have "nonce_secret vs_start = None" by code_simp
  with started_server [OF v] host v show ?thesis by auto
qed

end
