(* ===== verification/Isolation.thy ===== *)
theory Isolation
  imports VowServer
begin

text \<open>
  What one request may change in the database: the rows of the accounts it speaks for, and nothing of any
  other account; and what it keeps: the keys of every table.  The contract is a relation between the database before and
  after a request; this theory shows it for the statements of the program and for every handler that writes.
\<close>

section \<open>The contract\<close>

text \<open>All rows that belong to one account.\<close>

definition account_rows ::
  "string \<Rightarrow> db \<Rightarrow> Repo table \<times> Actor table \<times> Token table \<times> RefreshToken table \<times> Record table \<times> Blob table \<times> OauthToken table"
where
  "account_rows did d =
     (sql_select (\<lambda>x. rDid x = did) (repos d), sql_select (\<lambda>x. aDid x = did) (actors d),
      sql_select (\<lambda>x. tDid x = did) (tokens d), sql_select (\<lambda>x. rtDid x = did) (refreshTokens d),
      sql_select (\<lambda>x. recDid x = did) (records d), sql_select (\<lambda>x. bDid x = did) (blobs d),
      sql_select (\<lambda>x. otSub x = did) (oauthTokens d))"

text \<open>
  The keys of all tables.  Requests for authorization have a composite key with a running number, so they are left out;
  a blob's number is not zero, the number a scan leaves when no row matches.
\<close>

definition db_wf :: "db \<Rightarrow> bool" where
  "db_wf d \<longleftrightarrow> db_ok (d\<lparr>authRequests := []\<rparr>) \<and> keyed bID (blobs d) \<and> (\<forall>b \<in> set (blobs d). bID b \<noteq> 0) \<and> keyed rec_key (records d)"

definition within :: "string set \<Rightarrow> db \<Rightarrow> db \<Rightarrow> bool" where
  "within who d d' \<longleftrightarrow> (db_wf d \<longrightarrow> db_wf d' \<and> (\<forall>did. did \<notin> who \<longrightarrow> account_rows did d' = account_rows did d))"

text \<open>What an account is proved with: the hash of its password, the key of its passkey, the key that signs.\<close>

definition credentials :: "Repo \<Rightarrow> string \<times> bytes \<times> bytes" where
  "credentials r = (rPassword r, rAuthPublicKey r, rSigningPublicKey r)"

text \<open>Changing a row without its keys and credentials.\<close>

definition plain_update :: "(Repo \<Rightarrow> Repo) \<Rightarrow> bool" where
  "plain_update f \<longleftrightarrow> (\<forall>r. rDid (f r) = rDid r \<and> rEmail (f r) = rEmail r \<and> credentials (f r) = credentials r)"

text \<open>What is used of such a contract: it holds of doing nothing and of one change after another.\<close>

locale db_contract =
  fixes ok :: "db \<Rightarrow> db \<Rightarrow> bool"
  assumes ok_refl: "ok d d"
    and ok_trans: "ok d d1 \<Longrightarrow> ok d1 d2 \<Longrightarrow> ok d d2"
begin

lemma ok_exec: "db_exec sv l f d = Inr d' \<Longrightarrow> ok d (f d) \<Longrightarrow> ok d d'"
  by (simp add: db_exec_Inr)

lemma ok_statements:
  "run_statements fails st d = Inr d' \<Longrightarrow> (\<And>l f x. (l, f) \<in> set st \<Longrightarrow> ok x (f x)) \<Longrightarrow> ok d d'"
proof (induction fails st d rule: run_statements.induct)
  case (1 fails d)
  then show ?case by (simp add: ok_refl)
next
  case (2 fails l f st d)
  from "2.prems"(1) have n: "\<not> fails l" and r: "run_statements fails st (f d) = Inr d'" by (auto split: if_splits)
  from "2.IH" [OF n r] "2.prems"(2) have "ok (f d) d'" by fastforce
  with "2.prems"(2) [of l f d] show ?case by (auto intro: ok_trans)
qed

end

text \<open>
  Handlers under any contract: each keeps it when the statements it is made of do.
\<close>

context db_contract
begin

lemma ok_send_code:
  assumes "\<And>c t. ok d (upd_repo (rDid (raRepo repo)) (set_code c t) d)"
  shows "ok d (snd (send_code sv mail draw1 draw2 l set_code answer repo d))"
  using assms by (auto simp: send_code_def db_exec_def ok_refl split: option.splits)

lemma ok_account_handlers:
  assumes upd: "\<forall>f d. plain_update f \<longrightarrow> ok d (upd_repo (rDid (raRepo repo)) f d)"
  shows "ok d (snd (handleServerRequestEmailConfirmation sv mail draw1 draw2 repo d))"
    and "ok d (snd (handleServerRequestEmailUpdate sv mail draw1 draw2 repo d))"
    and "ok d (snd (handleServerRequestPasswordReset sv mail draw1 draw2 (Some repo) body d))"
    and "ok d (snd (handleIdentityRequestPlcOperationSignature sv mail draw1 draw2 repo d))"
    and "ok d (snd (handleServerConfirmEmail sv repo req d))"
    and "ok d (snd (handleActorPutPreferences sv enc repo prefs d))"
    and "ok d (fst (snd (handleServerActivateAccount sv add repo (d, p))))"
    and "ok d (fst (snd (handleServerDeactivateAccount sv add repo (d, p))))"
    and "ok d (snd (handleSignPlcOperation I repo plc_req d))"
  by (auto simp: handleServerRequestEmailConfirmation_def handleServerRequestEmailUpdate_def
      handleServerRequestPasswordReset_def handleIdentityRequestPlcOperationSignature_def
      handleServerConfirmEmail_def handleActorPutPreferences_def handleServerActivateAccount_def
      handleServerDeactivateAccount_def set_active_def handleSignPlcOperation_def Let_def db_exec_def
      ok_refl plain_update_def credentials_def
      split: option.splits sum.splits intro!: ok_send_code upd [rule_format])

lemma ok_create_invites:
  assumes new: "\<forall>c did d d'. create_invite sv c did uses d = Inr d' \<longrightarrow> ok d d'"
  shows "create_invites sv did uses i n d = (res, d') \<Longrightarrow> ok d d'"
proof (induction n arbitrary: i d res d')
  case (Suc n)
  show ?case
  proof (cases "create_invite sv (sUuid sv i) did uses d")
    case (Inr d1)
    with Suc.prems obtain res2 where "create_invites sv did uses (Suc i) n d1 = (res2, d')"
      by (auto split: prod.splits sum.splits)
    from ok_trans [OF new [rule_format, OF Inr] Suc.IH [OF this]] show ?thesis .
  qed (use Suc.prems in \<open>auto simp: ok_refl\<close>)
qed (simp add: ok_refl)

lemma ok_create_all_invites:
  assumes new: "\<forall>c did d d'. create_invite sv c did uses d = Inr d' \<longrightarrow> ok d d'"
  shows "create_all_invites sv uses n i dids d = (res, d') \<Longrightarrow> ok d d'"
proof (induction dids arbitrary: i d res d')
  case (Cons did dids)
  obtain r1 d1 where c: "create_invites sv did uses i n d = (r1, d1)" by fastforce
  note 1 = ok_create_invites [OF new c]
  show ?case
  proof (cases r1)
    case (Inr cs)
    with Cons.prems c obtain res2 where "create_all_invites sv uses n (i + n) dids d1 = (res2, d')"
      by (auto split: prod.splits sum.splits)
    from ok_trans [OF 1 Cons.IH [OF this]] show ?thesis .
  qed (use Cons.prems c 1 in auto)
qed (simp add: ok_refl)

lemma ok_invite_handlers:
  assumes new: "\<forall>c did uses d d'. create_invite sv c did uses d = Inr d' \<longrightarrow> ok d d'"
  shows "ok d (snd (handleCreateInviteCode sv req1 d))" and "ok d (snd (handleCreateInviteCodes sv req2 d))"
proof -
  show "ok d (snd (handleCreateInviteCode sv req1 d))"
    by (auto simp: handleCreateInviteCode_def ok_refl split: option.splits sum.splits intro: new [rule_format])
  have "ok d d'" if "create_all_invites sv uses n i dids d = (res, d')" for uses n i dids res d'
    using new by (intro ok_create_all_invites [OF _ that]) blast
  then show "ok d (snd (handleCreateInviteCodes sv req2 d))"
    by (auto simp: handleCreateInviteCodes_def Let_def ok_refl simp del: create_all_invites.simps
        split: option.splits sum.splits prod.splits)
qed

text \<open>A request for authorization is stored without a code, the account's consent gives it one.\<close>

lemma ok_store_request:
  assumes new: "\<forall>d a. arCode a = None \<longrightarrow> ok d (d\<lparr>authRequests := authRequests d @ [a]\<rparr>)"
  shows "store_request E cl auth p st = (res, st') \<Longrightarrow> ok (osDb st) (osDb st')"
  by (auto simp: store_request_def Let_def db_exec_def ok_refl split: option.splits if_splits intro!: new [rule_format])

lemma ok_authorize_direct:
  assumes new: "\<forall>d a. arCode a = None \<longrightarrow> ok d (d\<lparr>authRequests := authRequests d @ [a]\<rparr>)"
  shows "authorize_direct E dev r st = (res, st') \<Longrightarrow> ok (osDb st) (osDb st')"
  by (auto simp: authorize_direct_def Let_def ok_refl split: if_splits prod.splits result.splits
      dest!: authenticate_client_frame ok_store_request [OF new])

text \<open>The endpoints that write authorization requests only.\<close>

lemma ok_request_endpoints:
  assumes new: "\<forall>d a. arCode a = None \<longrightarrow> ok d (d\<lparr>authRequests := authRequests d @ [a]\<rparr>)"
  shows "ok (osDb st) (osDb (snd (handleOauthPar E r form st)))"
    and "ok (osDb st) (osDb (snd (handleOauthAuthorizeGet E dev sess r st)))"
proof -
  show "ok (osDb st) (osDb (snd (handleOauthPar E r form st)))"
    by (auto simp: handleOauthPar_def Let_def ok_refl split: option.splits prod.splits sum.splits result.splits
        dest!: check_dpop_frame authenticate_client_frame ok_store_request [OF new])
  show "ok (osDb st) (osDb (snd (handleOauthAuthorizeGet E dev sess r st)))"
    by (auto simp: handleOauthAuthorizeGet_def Let_def ok_refl split: if_splits prod.splits sum.splits
        dest!: ok_authorize_direct [OF new])
qed

lemma ok_authorize_post:
  assumes consent: "\<forall>i sub c ip. GenerateCode (olRandom E 0) = Some c \<longrightarrow> ok (osDb st) ((osDb st)\<lparr>authRequests :=
      sql_update (\<lambda>a. arRequestId a = i) (\<lambda>a. a\<lparr>arSub := Some sub, arCode := Some c, arAccepted := Some True, arIp := ip\<rparr>)
        (authRequests (osDb st))\<rparr>)"
  shows "ok (osDb st) (osDb (snd (handleOauthAuthorizePost E sess r form st)))"
  by (auto simp: handleOauthAuthorizePost_def authorize_accept_def db_exec_def Let_def ok_refl
      split: if_splits prod.splits sum.splits option.splits intro!: consent [rule_format])

lemma ok_token_endpoint:
  assumes "\<And>md auth w d'. token_by_code E f md auth (osDb st) = (w, d') \<Longrightarrow> ok (osDb st) d'"
    and "\<And>md auth pr w d'. token_by_refresh E f md auth pr (osDb st) = (w, d') \<Longrightarrow> ok (osDb st) d'"
  shows "ok (osDb st) (osDb (snd (handleOauthToken E r (Some f) st)))"
  using assms
  by (auto simp: handleOauthToken_def Let_def ok_refl split: prod.splits sum.splits result.splits
      dest!: check_dpop_frame authenticate_client_frame)

lemma ok_compat_page:
  assumes "\<And>repo f. getSessionRepoOrErr sv sess d = Inr repo \<Longrightarrow> plain_update f \<Longrightarrow> ok d (upd_repo (rDid (raRepo repo)) f d)"
  shows "ok d (snd (handleAccountUpdateCompat sv sess req d))"
  using assms
  by (auto simp: handleAccountUpdateCompat_def db_exec_def ok_refl plain_update_def credentials_def
      split: option.splits sum.splits)

end

interpretation within: db_contract "within who"
  by unfold_locales (auto simp: within_def)

lemma within_mono: "within A d d' \<Longrightarrow> A \<subseteq> B \<Longrightarrow> within B d d'"
  by (auto simp: within_def)

section \<open>Statements\<close>

named_theorems own_rows

lemma select_update_other [own_rows]:
  "(\<And>r. P r \<Longrightarrow> \<not> Q r) \<Longrightarrow> (\<And>r. P r \<Longrightarrow> \<not> Q (f r)) \<Longrightarrow> sql_select Q (sql_update P f t) = sql_select Q t"
  by (induction t) (auto simp: sql_select_def sql_update_def)

lemma select_delete_other: "(\<And>r. r \<in> set t \<Longrightarrow> P r \<Longrightarrow> \<not> Q r) \<Longrightarrow> sql_select Q (sql_delete P t) = sql_select Q t"
  by (induction t) (auto simp: sql_select_def sql_delete_def)

lemma select_append_other [own_rows]: "\<not> Q r \<Longrightarrow> sql_select Q (t @ [r]) = sql_select Q t"
  by (simp add: sql_select_def)

lemma select_upsert_other [own_rows]:
  "\<not> Q r \<Longrightarrow> (\<And>x. key x = key r \<Longrightarrow> \<not> Q x) \<Longrightarrow> sql_select Q (sql_upsert key r t) = sql_select Q t"
proof -
  assume r: "\<not> Q r" "\<And>x. key x = key r \<Longrightarrow> \<not> Q x"
  have "filter Q (map (\<lambda>x. if key x = key r then r else x) t) = filter Q t" using r by (induction t) auto
  with r(1) show ?thesis by (simp add: sql_select_def sql_upsert_def)
qed

lemma keyed_append: "keyed key t \<Longrightarrow> key r \<notin> key ` set t \<Longrightarrow> keyed key (t @ [r])"
  by (simp add: keyed_def)

text \<open>A key may change in one row, to a value no other row has.\<close>

lemma keyed_update_one:
  assumes "keyed key t" and "keyed idx t" and "\<And>r. idx (f r) = idx r" and "\<And>r. key (f r) = v"
    and "\<And>r. r \<in> set t \<Longrightarrow> key r = v \<Longrightarrow> idx r = i"
  shows "keyed key (sql_update (\<lambda>r. idx r = i) f t)"
  using assms
proof (induction t)
  case (Cons a t)
  have IH: "keyed key (sql_update (\<lambda>r. idx r = i) f t)" by (rule Cons.IH) (use Cons.prems in \<open>auto simp: keyed_def\<close>)
  show ?case
  proof (cases "idx a = i")
    case True
    with Cons.prems have "i \<notin> idx ` set t" by (auto simp: keyed_def)
    then have "sql_update (\<lambda>r. idx r = i) f t = t" by (auto simp: sql_update_def intro!: map_idI)
    moreover have "v \<notin> key ` set t" using Cons.prems(5) \<open>i \<notin> idx ` set t\<close> by force
    ultimately show ?thesis using True Cons.prems by (simp add: keyed_def sql_update_def)
  next
    case False
    have "key a \<notin> key ` set (sql_update (\<lambda>r. idx r = i) f t)"
      using Cons.prems False by (auto simp: sql_update_def keyed_def)
    then show ?thesis using IH False by (auto simp: keyed_def sql_update_def)
  qed
qed (simp add: keyed_def sql_update_def)

lemmas wf_defs = db_wf_def db_ok_def
lemmas contract_defs = within_def wf_defs account_rows_def

text \<open>Writing one table.\<close>

lemma within_repos:
  "(db_wf d \<Longrightarrow> keyed rDid t \<and> keyed rEmail t) \<Longrightarrow>
   (\<And>x. db_wf d \<Longrightarrow> x \<notin> who \<Longrightarrow> sql_select (\<lambda>r. rDid r = x) t = sql_select (\<lambda>r. rDid r = x) (repos d)) \<Longrightarrow>
   within who d (d\<lparr>repos := t\<rparr>)"
  by (auto simp: contract_defs)

lemma within_actors:
  "(db_wf d \<Longrightarrow> keyed aDid t \<and> keyed aHandle t) \<Longrightarrow>
   (\<And>x. db_wf d \<Longrightarrow> x \<notin> who \<Longrightarrow> sql_select (\<lambda>r. aDid r = x) t = sql_select (\<lambda>r. aDid r = x) (actors d)) \<Longrightarrow>
   within who d (d\<lparr>actors := t\<rparr>)"
  by (auto simp: contract_defs)

lemma within_tokens:
  "(db_wf d \<Longrightarrow> keyed tToken t) \<Longrightarrow>
   (\<And>x. db_wf d \<Longrightarrow> x \<notin> who \<Longrightarrow> sql_select (\<lambda>r. tDid r = x) t = sql_select (\<lambda>r. tDid r = x) (tokens d)) \<Longrightarrow>
   within who d (d\<lparr>tokens := t\<rparr>)"
  by (auto simp: contract_defs)

lemma within_refreshTokens:
  "(db_wf d \<Longrightarrow> keyed rtToken t) \<Longrightarrow>
   (\<And>x. db_wf d \<Longrightarrow> x \<notin> who \<Longrightarrow> sql_select (\<lambda>r. rtDid r = x) t = sql_select (\<lambda>r. rtDid r = x) (refreshTokens d)) \<Longrightarrow>
   within who d (d\<lparr>refreshTokens := t\<rparr>)"
  by (auto simp: contract_defs)

lemma within_records:
  "(db_wf d \<Longrightarrow> keyed rec_key t) \<Longrightarrow>
   (\<And>x. db_wf d \<Longrightarrow> x \<notin> who \<Longrightarrow> sql_select (\<lambda>r. recDid r = x) t = sql_select (\<lambda>r. recDid r = x) (records d)) \<Longrightarrow>
   within who d (d\<lparr>records := t\<rparr>)"
  by (auto simp: contract_defs)

lemma within_blobs:
  "(db_wf d \<Longrightarrow> keyed bID t \<and> (\<forall>b \<in> set t. bID b \<noteq> 0)) \<Longrightarrow>
   (\<And>x. db_wf d \<Longrightarrow> x \<notin> who \<Longrightarrow> sql_select (\<lambda>r. bDid r = x) t = sql_select (\<lambda>r. bDid r = x) (blobs d)) \<Longrightarrow>
   within who d (d\<lparr>blobs := t\<rparr>)"
  by (auto simp: contract_defs)

lemma within_oauthTokens:
  "(db_wf d \<Longrightarrow> keyed otToken t \<and> keyed otRefreshToken t) \<Longrightarrow>
   (\<And>x. db_wf d \<Longrightarrow> x \<notin> who \<Longrightarrow> sql_select (\<lambda>r. otSub r = x) t = sql_select (\<lambda>r. otSub r = x) (oauthTokens d)) \<Longrightarrow>
   within who d (d\<lparr>oauthTokens := t\<rparr>)"
  by (auto simp: contract_defs)

lemma within_inviteCodes: "(db_wf d \<Longrightarrow> keyed icCode t) \<Longrightarrow> within who d (d\<lparr>inviteCodes := t\<rparr>)"
  by (auto simp: contract_defs)

lemma within_shared [simp]:
  "within who d (d\<lparr>inviteCodeUses := us\<rparr>)" "within who d (d\<lparr>authRequests := rs\<rparr>)" "within who d d"
  by (auto simp: contract_defs)

text \<open>The statement forms of the program on the account's own rows.\<close>

lemma within_upd_repo:
  assumes "\<And>r. rDid (f r) = rDid r" and "\<And>r. rEmail (f r) = rEmail r"
  shows "within {did} d (upd_repo did f d)"
  unfolding upd_repo_def
  by (rule within_repos) (auto simp: wf_defs assms own_rows intro: keyed_update)

lemma within_delete:
  "within {did} d (d\<lparr>repos := sql_delete (\<lambda>x. rDid x = did) (repos d)\<rparr>)"
  "within {did} d (d\<lparr>actors := sql_delete (\<lambda>x. aDid x = did) (actors d)\<rparr>)"
  "within {did} d (d\<lparr>tokens := sql_delete (\<lambda>x. tDid x = did) (tokens d)\<rparr>)"
  "within {did} d (d\<lparr>refreshTokens := sql_delete (\<lambda>x. rtDid x = did) (refreshTokens d)\<rparr>)"
  "within {did} d (d\<lparr>records := sql_delete (\<lambda>x. recDid x = did) (records d)\<rparr>)"
  "within {did} d (d\<lparr>blobs := sql_delete (\<lambda>x. bDid x = did) (blobs d)\<rparr>)"
  "within {did} d (d\<lparr>inviteCodes := sql_delete (\<lambda>x. icDid x = did) (inviteCodes d)\<rparr>)"
  by (rule within_repos within_actors within_tokens within_refreshTokens within_records within_blobs within_inviteCodes;
      auto simp: wf_defs sql_simps intro: keyed_delete select_delete_other)+

lemma within_deleteAccount:
  "within {did} (fst s) (fst (snd (deleteAccountByDid sv add did s)))"
proof (cases "run_statements (sFails sv) (delete_statements did) (fst s)")
  case (Inr d')
  have "within {did} x (f x)" if "(l, f) \<in> set (delete_statements did)" for l f x
    using that by (auto simp: delete_statements_def within_delete)
  with Inr have "within {did} (fst s) d'" by (rule within.ok_statements)
  with Inr show ?thesis by (auto simp: deleteAccountByDid_def)
qed (auto simp: deleteAccountByDid_def)

section \<open>Sessions\<close>

lemma within_createSession: "within {rDid repo} d (snd (createSession sv repo d))"
proof -
  have t: "within {rDid repo} x x'"
    if "db_create sv l tToken tokens (\<lambda>t d. d\<lparr>tokens := t\<rparr>) r x = Inr x'" "tDid r = rDid repo" for l r x x'
    using that by (auto dest!: db_create_Inr intro!: within_tokens select_append_other
        simp: sql_insert_def wf_defs keyed_append split: if_splits)
  have r: "within {rDid repo} x x'"
    if "db_create sv l rtToken refreshTokens (\<lambda>t d. d\<lparr>refreshTokens := t\<rparr>) r x = Inr x'" "rtDid r = rDid repo" for l r x x'
    using that by (auto dest!: db_create_Inr intro!: within_refreshTokens select_append_other
        simp: sql_insert_def wf_defs keyed_append split: if_splits)
  show ?thesis
    by (auto simp: createSession_def Let_def split: sum.splits dest!: t r intro: within.ok_trans)
qed

text \<open>The accounts whose stored sessions a token names: itself, and the refresh token stored with it.\<close>

definition linked_refresh :: "string \<Rightarrow> db \<Rightarrow> string" where
  "linked_refresh token d = (case sql_first (\<lambda>t. tToken t = token) (tokens d) of None \<Rightarrow> '''' | Some t \<Rightarrow> tRefreshToken t)"

definition session_owners :: "string \<Rightarrow> db \<Rightarrow> string set" where
  "session_owners token d = tDid ` {t \<in> set (tokens d). tToken t = token \<or> tRefreshToken t = token} \<union>
     rtDid ` {r \<in> set (refreshTokens d). rtToken r = token \<or> rtToken r = linked_refresh token d}"

lemma within_createSession_of: "createSession sv repo d = (res, d') \<Longrightarrow> rDid repo \<in> who \<Longrightarrow> within who d d'"
  using within_createSession [of repo d sv] by (auto elim!: within_mono)

lemma within_handleCreateSession:
  "req = Some (ident, pw) \<Longrightarrow> rDid (raRepo (find_login is_did is_handle (ToLower ident) d)) \<in> who \<Longrightarrow>
   within who d (snd (handleCreateSession sv is_did is_handle req d))"
  by (auto simp: handleCreateSession_def Let_def split: prod.splits sum.splits dest: within_createSession_of)

lemma within_handleRefreshSession:
  "within (insert (rDid (raRepo repo)) (session_owners token d)) d (snd (handleRefreshSession sv token repo d))"
proof -
  let ?who = "insert (rDid (raRepo repo)) (session_owners token d)"
  let ?d1 = "d\<lparr>refreshTokens := sql_delete (\<lambda>t. rtToken t = token) (refreshTokens d)\<rparr>"
  let ?d2 = "?d1\<lparr>tokens := sql_delete (\<lambda>t. tRefreshToken t = token) (tokens ?d1)\<rparr>"
  have 1: "within ?who d ?d1"
    by (rule within_refreshTokens) (auto simp: wf_defs session_owners_def intro!: keyed_delete select_delete_other)
  have "within ?who ?d1 ?d2"
    by (rule within_tokens) (auto simp: wf_defs session_owners_def intro!: keyed_delete select_delete_other)
  with 1 have 2: "within ?who d ?d2" by (rule within.ok_trans)
  obtain res d3 where c: "createSession sv (raRepo repo) ?d2 = (res, d3)" by fastforce
  from within.ok_trans [OF 2 within_createSession_of [OF c]] have "within ?who d d3" by simp
  with 1 2 c show ?thesis by (auto simp: handleRefreshSession_def db_exec_def split: sum.splits)
qed

lemma within_handleDeleteSession: "within (session_owners token d) d (snd (handleDeleteSession sv token d))"
proof -
  let ?d1 = "d\<lparr>tokens := sql_delete (\<lambda>t. tToken t = token) (tokens d)\<rparr>"
  let ?d2 = "?d1\<lparr>refreshTokens := sql_delete (\<lambda>t. rtToken t = linked_refresh token d) (refreshTokens d)\<rparr>"
  have 1: "within (session_owners token d) d ?d1"
    by (rule within_tokens) (auto simp: wf_defs session_owners_def intro!: keyed_delete select_delete_other)
  have "within (session_owners token d) ?d1 ?d2"
    by (rule within_refreshTokens) (auto simp: wf_defs session_owners_def intro!: keyed_delete select_delete_other)
  from within.ok_trans [OF 1 this] 1 show ?thesis
    by (auto simp: handleDeleteSession_def db_exec_def Let_def linked_refresh_def)
qed

section \<open>Handlers of one account\<close>

lemma within_email_taken:
  assumes "\<not> email_taken d did email" and "\<And>r. rDid (f r) = rDid r" and "\<And>r. rEmail (f r) = email"
  shows "within {did} d (upd_repo did f d)"
  unfolding upd_repo_def
proof (rule within_repos)
  assume wf: "db_wf d"
  have "keyed rEmail (sql_update (\<lambda>x. rDid x = did) f (repos d))"
    by (rule keyed_update_one [where v = email]) (use wf assms in \<open>auto simp: wf_defs email_taken_def\<close>)
  moreover have "keyed rDid (sql_update (\<lambda>x. rDid x = did) f (repos d))"
    using wf assms(2) by (auto simp: wf_defs intro: keyed_update)
  ultimately show "keyed rDid (sql_update (\<lambda>x. rDid x = did) f (repos d)) \<and> keyed rEmail (sql_update (\<lambda>x. rDid x = did) f (repos d))"
    by simp
qed (auto simp: assms(2) own_rows)

lemma within_handleServerUpdateEmail: "within {rDid (raRepo repo)} d (snd (handleServerUpdateEmail sv repo req d))"
  by (auto simp: handleServerUpdateEmail_def db_exec_def Let_def split: option.splits intro!: within_email_taken)

lemma within_plain_update: "plain_update f \<Longrightarrow> within {did} d (upd_repo did f d)"
  by (auto simp: plain_update_def intro: within_upd_repo)

lemma within_handleServerResetPassword: "within {rDid (raRepo repo)} d (snd (handleServerResetPassword sv repo req d))"
  by (auto simp: handleServerResetPassword_def db_exec_def split: option.splits intro!: within_upd_repo)

lemmas within_account_handlers =
  within.ok_account_handlers [OF allI [OF allI [OF impI [OF within_plain_update]]]]

text \<open>A request for a password reset by address writes a code into the row of that address.\<close>

lemma within_reset_by_mail:
  assumes "\<And>repo. getRepoActorByEmail (sFails sv) d email = Inr repo \<Longrightarrow> rDid (raRepo repo) \<in> who"
  shows "within who d (snd (handleServerRequestPasswordReset sv mail draw1 draw2 None (Some email) d))"
proof (cases "getRepoActorByEmail (sFails sv) d email")
  case (Inr repo)
  have "within {rDid (raRepo repo)} d (snd (handleServerRequestPasswordReset sv mail draw1 draw2 None (Some email) d))"
    using Inr within_account_handlers(3) [of repo d sv mail draw1 draw2]
    by (simp add: handleServerRequestPasswordReset_def)
  then show ?thesis by (rule within_mono) (use assms [OF Inr] in simp)
qed (simp add: handleServerRequestPasswordReset_def)

section \<open>Invite codes\<close>

lemma within_create_invite: "create_invite sv c did uses d = Inr d' \<Longrightarrow> within who d d'"
  by (auto simp: create_invite_def sql_insert_def wf_defs keyed_append split: if_splits
      dest!: db_create_Inr intro!: within_inviteCodes)

lemma within_invite_handlers:
  "within who d (snd (handleCreateInviteCode sv req1 d))" "within who d (snd (handleCreateInviteCodes sv req2 d))"
  by (rule within.ok_invite_handlers; blast intro: within_create_invite)+

section \<open>OAuth\<close>

lemma within_request_endpoints:
  "within who (osDb st) (osDb (snd (handleOauthPar E r form st)))"
  "within who (osDb st) (osDb (snd (handleOauthAuthorizeGet E dev sess r st)))"
  "within who (osDb st) (osDb (snd (handleOauthAuthorizePost E sess r form st)))"
  by (simp_all add: within.ok_request_endpoints within.ok_authorize_post)

text \<open>The accounts a token request speaks for: the one that granted the code, those of the refresh token.\<close>

definition code_owner :: "string \<Rightarrow> db \<Rightarrow> string set" where
  "code_owner c d = {did. \<exists>a \<in> set (authRequests d). arCode a = Some c \<and> arSub a = Some did}"

definition refresh_owner :: "string \<Rightarrow> db \<Rightarrow> string set" where
  "refresh_owner rt d = otSub ` {t \<in> set (oauthTokens d). otRefreshToken t = rt}"

definition grant_owner :: "(string \<times> string) list \<Rightarrow> db \<Rightarrow> string set" where
  "grant_owner f d = (case opt_value f ''code'' of None \<Rightarrow> {} | Some c \<Rightarrow> code_owner c d) \<union>
     (case opt_value f ''refresh_token'' of None \<Rightarrow> {} | Some rt \<Rightarrow> refresh_owner rt d)"

lemma within_create_token: "create_token sv t d = Inr d' \<Longrightarrow> otSub t \<in> who \<Longrightarrow> within who d d'"
  by (auto simp: create_token_def wf_defs keyed_append split: if_splits intro!: within_oauthTokens select_append_other)

lemma within_rotate_token: "rotate_token sv rt access refresh d = Inr d' \<Longrightarrow> refresh_owner rt d \<subseteq> who \<Longrightarrow> within who d d'"
proof -
  assume r: "rotate_token sv rt access refresh d = Inr d'" and w: "refresh_owner rt d \<subseteq> who"
  let ?f = "\<lambda>t. t\<lparr>otToken := access, otRefreshToken := refresh, otExpiresAt := sNow sv + TokenMaxAge, otUpdatedAt := sNow sv\<rparr>"
  have "sql_select (\<lambda>r. otSub r = x) (sql_update (\<lambda>t. otRefreshToken t = rt) ?f ts) = sql_select (\<lambda>r. otSub r = x) ts"
    if "x \<notin> who" "set ts \<subseteq> set (oauthTokens d)" for x ts
    using that w by (induction ts) (auto simp: sql_select_def sql_update_def refresh_owner_def)
  with r show ?thesis by (auto simp: rotate_token_def Let_def split: if_splits intro!: within_oauthTokens)
qed

lemma within_token_by_code:
  assumes "token_by_code E f md auth d = (w, d')" and "opt_value f ''code'' = Some c"
  shows "within (code_owner c d) d d'"
proof -
  let ?d1 = "d\<lparr>authRequests := sql_delete (\<lambda>a. arCode a = Some c) (authRequests d)\<rparr>"
  let ?req = "scan zeroAuthRequest (\<lambda>a. arCode a = Some c) (authRequests d)"
  have "within (code_owner c d) ?d1 d2" if i: "issue_code_token E auth ?req ?d1 = (v, d2)" for v d2
  proof (cases "arSub ?req")
    case None
    with i show ?thesis by (simp add: issue_code_token_def)
  next
    case (Some sub)
    then have "sub \<in> code_owner c d"
      using scan_cases [of zeroAuthRequest "\<lambda>a. arCode a = Some c" "authRequests d"]
      by (auto simp: code_owner_def zeroAuthRequest_def)
    with Some i show ?thesis
      by (auto simp: issue_code_token_def Let_def split: sum.splits option.splits
          dest!: within_create_token [where who = "code_owner c d"] getRepoActorByDid_Inr)
  qed
  then have step: "within (code_owner c d) d d2" if "issue_code_token E auth ?req ?d1 = (v, d2)" for v d2
    using that by (blast intro: within.ok_trans [OF within_shared(2)])
  show ?thesis
    using assms by (auto simp: token_by_code_def Let_def split: if_splits option.splits dest: step)
qed

lemma within_token_by_refresh:
  "token_by_refresh E f md auth pr d = (w, d') \<Longrightarrow> opt_value f ''refresh_token'' = Some rt \<Longrightarrow> within (refresh_owner rt d) d d'"
  by (auto simp: token_by_refresh_def Let_def split: if_splits option.splits sum.splits dest: within_rotate_token)

lemma within_handleOauthToken:
  "within (grant_owner f (osDb st)) (osDb st) (osDb (snd (handleOauthToken E r (Some f) st)))"
proof (rule within.ok_token_endpoint)
  fix md auth w d'
  assume t: "token_by_code E f md auth (osDb st) = (w, d')"
  show "within (grant_owner f (osDb st)) (osDb st) d'"
  proof (cases "opt_value f ''code''")
    case (Some c)
    from within_token_by_code [OF t this] show ?thesis by (rule within_mono) (simp add: grant_owner_def Some)
  qed (use t in \<open>simp add: token_by_code_def Let_def\<close>)
next
  fix md auth pr w d'
  assume t: "token_by_refresh E f md auth pr (osDb st) = (w, d')"
  show "within (grant_owner f (osDb st)) (osDb st) d'"
  proof (cases "opt_value f ''refresh_token''")
    case (Some rt)
    from within_token_by_refresh [OF t this] show ?thesis by (rule within_mono) (simp add: grant_owner_def Some)
  qed (use t in \<open>simp add: token_by_refresh_def Let_def\<close>)
qed

end
