(* ===== verification/IsolationAccounts.thy ===== *)
theory IsolationAccounts
  imports Isolation
begin

text \<open>
  The contract of Isolation for the handlers that change an identity, for the account pages, and for the two ways to
  create an account, which only write rows of an account that did not exist.
\<close>

section \<open>Identity\<close>

lemma identity_frames [simp]:
  "idDb (snd (send_op I did o1 s)) = idDb s" "idDb (identity_event I did h s) = idDb s" "idDb (bust_doc I did s) = idDb s"
  by (simp_all add: send_op_def identity_event_def bust_doc_def Let_def split: sum.split)

lemma handleSubmitPlcOperation_db [simp]: "idDb (snd (handleSubmitPlcOperation I repo req s)) = idDb s"
  by (auto simp: handleSubmitPlcOperation_def send_op_def Let_def split: option.splits prod.splits sum.splits)

lemma publish_handle_db: "publish_handle I repo handle s = (res, s') \<Longrightarrow> idDb s' = idDb s"
  by (auto simp: publish_handle_def send_op_def Let_def split: if_splits sum.splits option.splits prod.splits)

lemma within_set_handle:
  assumes "\<not> handle_taken d did handle"
  shows "within {did} d (set_handle did handle d)"
  unfolding set_handle_def
proof (rule within_actors)
  let ?f = "\<lambda>a. a\<lparr>aHandle := handle\<rparr>"
  assume wf: "db_wf d"
  have "keyed aHandle (sql_update (\<lambda>a. aDid a = did) ?f (actors d))"
    by (rule keyed_update_one [where v = handle]) (use wf assms in \<open>auto simp: wf_defs handle_taken_def\<close>)
  with wf show "keyed aDid (sql_update (\<lambda>a. aDid a = did) ?f (actors d)) \<and> keyed aHandle (sql_update (\<lambda>a. aDid a = did) ?f (actors d))"
    by (auto simp: wf_defs intro: keyed_update)
qed (auto simp: own_rows)

lemma within_handleIdentityUpdateHandle:
  "within {rDid (raRepo repo)} (idDb s) (idDb (snd (handleIdentityUpdateHandle I X repo req s)))"
  by (auto simp: handleIdentityUpdateHandle_def Let_def db_exec_def split: option.splits prod.splits
      dest!: publish_handle_db intro!: within_set_handle)

lemma transfer_db: "transfer I repo key pds s = (res, s') \<Longrightarrow> idDb s' = idDb s"
  by (auto simp: transfer_def send_op_def Let_def split: if_splits sum.splits option.splits prod.splits)

lemma within_handleSupplySigningKey:
  "within {rDid (raRepo repo)} (idDb s) (idDb (snd (handleSupplySigningKey I W (Some repo) req s)))"
  by (auto simp: handleSupplySigningKey_def Let_def db_exec_def split: option.splits prod.splits sum.splits
      dest!: transfer_db intro!: within_upd_repo)

section \<open>Account pages\<close>

lemma within_handleAccountRevoke:
  assumes "\<And>repo. getSessionRepoOrErr sv sess d = Inr repo \<Longrightarrow> rDid (raRepo repo) \<in> who"
  shows "within who d (snd (handleAccountRevoke sv can_save sess form d))"
proof -
  have "within who d (d\<lparr>oauthTokens := sql_delete (\<lambda>t. otSub t = rDid (raRepo repo) \<and> P t) (oauthTokens d)\<rparr>)"
    if "rDid (raRepo repo) \<in> who" for P and repo :: RepoActor
    using that by (intro within_oauthTokens) (auto simp: wf_defs intro!: keyed_delete select_delete_other)
  with assms show ?thesis
    by (cases "getSessionRepoOrErr sv sess d")
       (auto simp: handleAccountRevoke_def db_exec_def split: option.splits)
qed

lemma within_handleAccountUpdateCompat:
  assumes "\<And>repo. getSessionRepoOrErr sv sess d = Inr repo \<Longrightarrow> rDid (raRepo repo) \<in> who"
  shows "within who d (snd (handleAccountUpdateCompat sv sess req d))"
  by (rule within.ok_compat_page, rule within_mono [OF within_plain_update]) (use assms in auto)

lemma within_handleAccountDelete:
  "within {rDid (raRepo repo)} (fst s) (fst (snd (handleAccountDelete sv W add can_save sess (Some repo) req s)))"
proof -
  have "within {rDid (raRepo repo)} (fst s) (fst s')" if "deleteAccountByDid sv add (rDid (raRepo repo)) s = (e, s')" for e s'
    using within_deleteAccount [of "rDid (raRepo repo)" s sv add] that by simp
  then show ?thesis
    by (auto simp: handleAccountDelete_def Let_def split: option.splits sum.splits prod.splits)
qed

section \<open>New accounts\<close>

text \<open>The accounts that do not exist.\<close>

definition absent :: "db \<Rightarrow> string set" where
  "absent d = {did. did \<notin> rDid ` set (repos d)}"

lemma insert_account_requests:
  "insert_account sv urepo handle actor (d\<lparr>authRequests := []\<rparr>) =
     (case insert_account sv urepo handle actor d of Inl e \<Rightarrow> Inl e | Inr d' \<Rightarrow> Inr (d'\<lparr>authRequests := []\<rparr>))"
  by (auto simp: insert_account_def split: option.splits)

lemma insert_account_tables:
  assumes "insert_account sv urepo handle actor d = Inr d'"
  shows "d' = d\<lparr>repos := repos d @ [urepo], actors := (case actor of
    Some a \<Rightarrow> sql_upsert aDid a (actors d) | None \<Rightarrow> actors d @ [\<lparr>aDid = rDid urepo, aHandle = handle\<rparr>])\<rparr>"
  using assms by (auto simp: insert_account_def sql_insert_def split: if_splits option.splits)

lemma within_insert_account:
  assumes i: "insert_account sv urepo handle actor d = Inr d'"
    and own: "\<And>a. actor = Some a \<Longrightarrow> a \<in> set (actors d) \<and> aHandle a = handle \<and> aDid a = rDid urepo"
  shows "within (absent d) d d'" and "rDid urepo \<in> absent d"
proof -
  show new: "rDid urepo \<in> absent d"
    using i by (auto simp: insert_account_def sql_insert_def absent_def split: if_splits option.splits)
  have "within (absent d) d d'"
    unfolding within_def
  proof (intro impI conjI allI)
    assume wf: "db_wf d"
    let ?d = "d\<lparr>authRequests := []\<rparr>"
    have i0: "insert_account sv urepo handle actor ?d = Inr (d'\<lparr>authRequests := []\<rparr>)"
      using i by (simp add: insert_account_requests)
    have own0: "\<And>a. actor = Some a \<Longrightarrow> a \<in> set (actors ?d) \<and> aHandle a = handle \<and> aDid a = rDid urepo" using own by simp
    from wf have "db_ok ?d" by (simp add: db_wf_def)
    then have "db_ok (d'\<lparr>authRequests := []\<rparr>)" by (rule insert_account_Inr(1) [OF i0 _ own0])
    note d' = insert_account_tables [OF i]
    have "blobs d' = blobs d" "records d' = records d" by (simp_all add: d')
    with \<open>db_ok (d'\<lparr>authRequests := []\<rparr>)\<close> wf show "db_wf d'" by (simp add: db_wf_def)
    fix did
    assume "did \<notin> absent d"
    then have ne: "rDid urepo \<noteq> did" using new by (auto simp: absent_def)
    with own show "account_rows did d' = account_rows did d"
      by (subst d') (auto simp: account_rows_def own_rows split: option.splits)
  qed
  then show "within (absent d) d d'" .
qed

lemma within_decrement_invite: "decrement_invite sv c d = Inr d' \<Longrightarrow> within who d d'"
  by (auto simp: decrement_invite_def db_exec_Inr wf_defs intro!: within_inviteCodes keyed_update)

lemma within_record_use: "within who d (record_use sv c did d)"
  by (simp add: record_use_def)

lemma within_open_account:
  assumes "rDid urepo \<in> who" and "open_account sv req urepo s = (w, s')"
  shows "within who (idDb s) (idDb s')"
proof -
  let ?r = "if sRequireInvite sv then decrement_invite sv (crInviteCode req) (idDb s) else Inr (idDb s)"
  show ?thesis
  proof (cases ?r)
    case (Inl e)
    with assms(2) show ?thesis by (simp add: open_account_def)
  next
    case (Inr d2)
    let ?d3 = "if sRequireInvite sv then record_use sv (crInviteCode req) (rDid urepo) d2 else d2"
    obtain res d4 where c: "createSession sv urepo ?d3 = (res, d4)" by fastforce
    have "within who (idDb s) d2" using Inr by (auto split: if_splits dest: within_decrement_invite)
    then have "within who (idDb s) ?d3" using within.ok_trans [OF _ within_record_use] by simp
    from within.ok_trans [OF this within_createSession_of [OF c assms(1)]] have "within who (idDb s) d4" .
    with assms(2) c Inr show ?thesis by (cases res) (auto simp: open_account_def)
  qed
qed

lemma within_finish_account:
  assumes "finish_account E req urepo actor s = (w, s')"
    and "\<And>a. actor = Some a \<Longrightarrow> a \<in> set (actors (idDb s)) \<and> aHandle a = crHandle req \<and> aDid a = rDid urepo"
  shows "within (absent (idDb s)) (idDb s) (idDb s')"
proof (cases "insert_account (clServer E) urepo (crHandle req) actor (idDb s)")
  case (Inl e)
  with assms(1) show ?thesis by (simp add: finish_account_def)
next
  case (Inr d1)
  note ins = within_insert_account [OF Inr assms(2)]
  let ?s1 = "if no_did req then identity_event (clId E) (rDid urepo) (Some (crHandle req)) (s\<lparr>idDb := d1\<rparr>) else s\<lparr>idDb := d1\<rparr>"
  have o1: "open_account (clServer E) req urepo ?s1 = (w, s')" using assms(1) Inr by (simp add: finish_account_def)
  have "within (absent (idDb s)) d1 (idDb s')"
    using within_open_account [OF ins(2) o1] by (simp split: if_splits)
  with ins(1) show ?thesis by (rule within.ok_trans)
qed

lemma within_make_account:
  assumes "make_account E req did actor s = (w, s')"
    and "\<And>a. actor = Some a \<Longrightarrow> a \<in> set (actors (idDb (acId s))) \<and> aHandle a = crHandle req \<and> aDid a = did"
  shows "within (absent (idDb (acId s))) (idDb (acId s)) (idDb (acId s'))"
  using assms by (auto simp: make_account_def new_repo_def split: option.splits prod.splits sum.splits dest!: within_finish_account)

text \<open>A new account changes no row of an account there is.\<close>

lemma within_handleCreateAccount:
  assumes "sHostname (clServer E) \<noteq> ''''"
  shows "within (absent (idDb (acId s))) (idDb (acId s)) (idDb (acId (snd (handleCreateAccount E r body s))))"
proof (cases body)
  case (Some b)
  let ?req = "b\<lparr>crHandle := ToLower (crHandle b)\<rparr>"
  let ?d = "idDb (acId s)"
  show ?thesis
  proof (rule create_account_outcome [OF assms refl, where b = b and s = s and r = r])
    fix i
    assume "idDb i = ?d" "snd (handleCreateAccount E r (Some b) s) = s\<lparr>acId := i\<rparr>"
    with Some show ?thesis by simp
  next
    fix did actor i
    assume i: "idDb i = ?d"
      and run: "snd (handleCreateAccount E r (Some b) s) = snd (make_account E ?req did actor (s\<lparr>acId := i\<rparr>))"
      and own: "\<And>x. actor = Some x \<Longrightarrow> x \<in> set (actors ?d) \<and> aHandle x = crHandle ?req \<and> aDid x = did"
    obtain w s2 where m: "make_account E ?req did actor (s\<lparr>acId := i\<rparr>) = (w, s2)" by fastforce
    from within_make_account [OF m] own i run m Some show ?thesis by simp
  qed
qed (simp add: handleCreateAccount_def)

lemma within_signup_finish:
  assumes "signup_finish E handle invite urepo s = (m, s')"
  shows "within (absent (idDb s)) (idDb s) (idDb s')"
proof (cases "insert_account (clServer E) urepo handle None (idDb s)")
  case (Inl e)
  with assms show ?thesis by (simp add: signup_finish_def)
next
  case (Inr d1)
  let ?sv = "clServer E"
  let ?d2 = "case decrement_invite ?sv invite d1 of Inl e \<Rightarrow> d1 | Inr d2 \<Rightarrow> d2"
  have 1: "within (absent (idDb s)) (idDb s) d1" by (rule within_insert_account(1) [OF Inr]) simp
  have "within (absent (idDb s)) d1 ?d2" by (auto split: sum.splits dest: within_decrement_invite)
  from within.ok_trans [OF within.ok_trans [OF 1 this] within_record_use]
  have "within (absent (idDb s)) (idDb s) (record_use ?sv invite (rDid urepo) ?d2)" .
  with assms Inr 1 show ?thesis by (auto simp: signup_finish_def Let_def cong: sum.case_cong)
qed

lemma signup_checks_db: "signup_checks E handle email password invite s = (m, s') \<Longrightarrow> idDb s' = idDb s"
  by (auto simp: signup_checks_def Let_def split: if_splits option.splits sum.splits prod.splits)

lemma within_signup_make:
  "signup_make E handle email password invite s = (res, s') \<Longrightarrow> within (absent (idDb (acId s))) (idDb (acId s)) (idDb (acId s'))"
  by (auto simp: signup_make_def split: prod.splits sum.splits option.splits
      dest!: create_identity_cases(1) within_signup_finish)

lemma within_signup_run:
  "signup_run E handle email password invite s = (res, s') \<Longrightarrow> within (absent (idDb (acId s))) (idDb (acId s)) (idDb (acId s'))"
  by (auto simp: signup_run_def split: prod.splits option.splits dest!: signup_checks_db within_signup_make)

lemma within_handleAccountSignupPost:
  "within (absent (idDb (acId s))) (idDb (acId s)) (idDb (acId (snd (handleAccountSignupPost E can_save sess r form s))))"
  by (auto simp: handleAccountSignupPost_def Let_def split: option.splits prod.splits sum.splits
      dest!: within_signup_run)

end
