(* ===== verification/IsolationRepo.thy ===== *)
theory IsolationRepo
  imports Isolation
begin

text \<open>
  The contract of Isolation for the repository: the second half of a write, which runs after other requests may have
  changed the database, blobs and imports.
\<close>

section \<open>Blobs\<close>

lemma within_blob_count:
  "within {did} d (d\<lparr>blobs := sql_update (\<lambda>b. bDid b = did \<and> bCid b = c) (\<lambda>b. b\<lparr>bRefCount := f b\<rparr>) (blobs d)\<rparr>)"
  by (rule within_blobs) (auto simp: wf_defs dest!: sql_update_cases intro!: keyed_update select_update_other)

lemma within_incr_refs: "incr_refs fails did cs d = (e, d') \<Longrightarrow> within {did} d d'"
proof (induction fails did cs d rule: incr_refs.induct)
  case (2 fails did c cs d)
  let ?d1 = "d\<lparr>blobs := sql_update (\<lambda>b. bDid b = did \<and> bCid b = c) (\<lambda>b. b\<lparr>bRefCount := bRefCount b + 1\<rparr>) (blobs d)\<rparr>"
  have "within {did} d ?d1" by (rule within_blob_count)
  with 2 show ?case by (auto split: if_splits intro: within.ok_trans)
qed simp

text \<open>
  The row deleted is the account's own: its number is that of a row the update changed, and no other row
  has it; no row has the number zero, which is left when nothing was changed.
\<close>

lemma within_decr_refs: "decr_refs K fails u did cs (d, k) = (e, d', k') \<Longrightarrow> within {did} d d'"
proof (induction cs arbitrary: d k)
  case (Cons c cs)
  let ?P = "\<lambda>b. bDid b = did \<and> bCid b = c"
  let ?bs = "sql_update ?P (\<lambda>b. b\<lparr>bRefCount := bRefCount b - 1\<rparr>) (blobs d)"
  let ?d1 = "d\<lparr>blobs := ?bs\<rparr>"
  have 1: "within {did} d ?d1" by (rule within_blob_count)
  have 2: "within {did} ?d1 (?d1\<lparr>blobs := sql_delete (\<lambda>b. bID b = i) ?bs\<rparr>)"
    if i: "(case sql_first ?P ?bs of None \<Rightarrow> 0 | Some b \<Rightarrow> bID b) = i" for i
  proof (rule within_blobs)
    assume wf: "db_wf ?d1"
    then show "keyed bID (sql_delete (\<lambda>b. bID b = i) ?bs) \<and> (\<forall>b \<in> set (sql_delete (\<lambda>b. bID b = i) ?bs). bID b \<noteq> 0)"
      by (auto simp: wf_defs sql_simps intro: keyed_delete)
    fix x
    assume x: "x \<notin> {did}"
    have "bDid b = did" if "b \<in> set ?bs" "bID b = i" for b
    proof (cases "sql_first ?P ?bs")
      case None
      with i wf that show ?thesis by (auto simp: wf_defs)
    next
      case (Some b0)
      from sql_first_Some [OF this] have "b0 \<in> set ?bs" "bDid b0 = did" by auto
      moreover from Some i that wf \<open>b0 \<in> set ?bs\<close> have "b = b0"
        by (intro keyed_unique [of bID ?bs]) (auto simp: wf_defs)
      ultimately show ?thesis by simp
    qed
    with x show "sql_select (\<lambda>r. bDid r = x) (sql_delete (\<lambda>b. bID b = i) ?bs) = sql_select (\<lambda>r. bDid r = x) (blobs ?d1)"
      by (subst select_delete_other) auto
  qed
  from Cons.prems 1 2 Cons.IH show ?case
    by (auto simp: Let_def split: if_splits prod.splits option.splits intro: within.ok_trans)
qed simp

lemma le_fold_max: "x \<le> n \<or> x \<in> set ns \<Longrightarrow> x \<le> fold max ns (n :: nat)"
proof (induction ns arbitrary: n)
  case (Cons a ns)
  from Cons.prems have "x \<le> max a n \<or> x \<in> set ns" by auto
  from Cons.IH [OF this] show ?case by simp
qed simp

lemma within_handleRepoUploadBlob:
  "within {rDid (raRepo repo)} (rsDb rs) (rsDb (snd (handleRepoUploadBlob L add fails repo r body rs)))"
proof -
  have "within {rDid (raRepo repo)} d (d\<lparr>blobs := blobs d @ [new_blob tid (rDid (raRepo repo)) mime c (blobs d)]\<rparr>)" for d tid mime c
  proof (rule within_blobs)
    assume wf: "db_wf d"
    let ?n = "new_blob tid (rDid (raRepo repo)) mime c (blobs d)"
    have "bID b < bID ?n" if "b \<in> set (blobs d)" for b
      using le_fold_max [of "bID b" 0 "map bID (blobs d)"] that by (simp add: new_blob_def less_Suc_eq_le)
    then have "bID ?n \<notin> bID ` set (blobs d)" by (metis imageE less_irrefl)
    moreover have "bID ?n \<noteq> 0" by (simp add: new_blob_def)
    ultimately show "keyed bID (blobs d @ [?n]) \<and> (\<forall>b \<in> set (blobs d @ [?n]). bID b \<noteq> 0)"
      using wf by (auto simp: wf_defs keyed_append)
  qed (auto simp: new_blob_def intro!: select_append_other)
  then show ?thesis
    by (auto simp: handleRepoUploadBlob_def Let_def split: sum.splits prod.splits)
qed

section \<open>Records\<close>

text \<open>An entry of a write is a row of the account; the account's DID is not empty, or the deletion would match all rows.\<close>

lemma within_persist_entry:
  assumes "recDid e = did" and "did \<noteq> ''''" and "persist_entry L K fails u did e s = (res, s')"
  shows "within {did} (fst s) (fst s')"
proof (cases "recCid e \<noteq> ''''")
  case True
  let ?d1 = "(fst s)\<lparr>records := sql_upsert rec_key e (records (fst s))\<rparr>"
  have 1: "within {did} (fst s) ?d1"
    by (rule within_records) (use assms(1) in \<open>auto simp: wf_defs rec_key_def intro!: keyed_upsert select_upsert_other\<close>)
  have "within {did} ?d1 d'" if "incrementBlobRefs L fails did (recValue e) ?d1 = (r, d')" for r d'
    using that by (auto simp: incrementBlobRefs_def split: sum.splits prod.splits option.splits dest!: within_incr_refs)
  with True assms(3) 1 show ?thesis
    by (auto simp: persist_entry_def split: if_splits prod.splits intro: within.ok_trans)
next
  case False
  let ?d1 = "(fst s)\<lparr>records := sql_delete (delete_matches e) (records (fst s))\<rparr>"
  have 1: "within {did} (fst s) ?d1"
    by (rule within_records) (use assms(1,2) in \<open>auto simp: wf_defs delete_matches_def rec_key_def intro!: keyed_delete select_delete_other\<close>)
  have "within {did} ?d1 (fst s2)" if "decrementBlobRefs L K fails u did (recValue e) (?d1, snd s) = (r, s2)" for r s2
    using that by (cases s2) (auto simp: decrementBlobRefs_def split: sum.splits prod.splits option.splits dest!: within_decr_refs)
  with False assms(3) 1 show ?thesis
    by (auto simp: persist_entry_def split: if_splits intro: within.ok_trans)
qed

lemma within_persist_entries:
  assumes "\<And>e. e \<in> set es \<Longrightarrow> recDid e = did" and "did \<noteq> ''''" and "persist_entries L K fails u did es s = (res, s')"
  shows "within {did} (fst s) (fst s')"
  using assms(1,3)
proof (induction es arbitrary: s res s')
  case (Cons e es)
  obtain r1 s1 where e: "persist_entry L K fails u did e s = (r1, s1)" by (meson surj_pair)
  note 1 = within_persist_entry [OF _ assms(2) e]
  show ?case
  proof (cases r1)
    case (Inl x)
    with Cons.prems e 1 show ?thesis by simp
  next
    case (Inr cs)
    obtain r2 s2 where es: "persist_entries L K fails u did es s1 = (r2, s2)" by (meson surj_pair)
    from Cons.IH [OF _ es] Cons.prems 1 have "within {did} (fst s) (fst s2)" by (auto intro: within.ok_trans)
    with Cons.prems(2) e Inr es show ?thesis by (auto split: sum.splits)
  qed
qed simp

section \<open>Writes\<close>

text \<open>The entries the first half leaves for the second are rows of the account.\<close>

definition own_entries :: "string \<Rightarrow> ('m, 'k) wst \<Rightarrow> bool" where
  "own_entries did w \<longleftrightarrow> (\<forall>e \<in> set (wEntries w). recDid e = did)"

lemma own_entries_apply_op:
  assumes "apply_op L K fails d did op w = (Ret u, w')" and "own_entries did w"
  shows "own_entries did w'"
proof -
  have r: "wEntries w1 = wEntries w" if "resolve_op L op w = (x, w1)" for x w1
    using that by (auto simp: resolve_op_def Let_def split: option.splits if_splits)
  from assms(1) show ?thesis
  proof (cases rule: apply_op_Ret)
    case (1 ty rkey w1)
    with write_record_Ret [OF 1(4)] r [OF 1(1)] assms(2) show ?thesis by (auto simp: own_entries_def)
  next
    case (2 rkey w1)
    with delete_record_Ret [OF 2(3)] r [OF 2(1)] assms(2) show ?thesis by (auto simp: own_entries_def)
  next
    case (3 ty rkey)
    with r [OF 3(1)] assms(2) show ?thesis by (auto simp: own_entries_def)
  qed
qed

lemma own_entries_apply_ops: "apply_ops L K fails d did ops w = (Ret u, w') \<Longrightarrow> own_entries did w \<Longrightarrow> own_entries did w'"
  by (induction ops arbitrary: w)
     (auto split: prod.splits result.splits dest: own_entries_apply_op)

lemma begin_writes_entries:
  assumes "begin_writes L K fails order rid now urepo ops rs = (Ret (AwaitSig st dbs rid' m), rs')"
  shows "\<forall>e \<in> set (pcEntries st). recDid e = rDid urepo"
proof -
  obtain r w uc r1 w1 where w: "apply_ops L K fails (rsDb rs) (rDid urepo) ops
        (start_wst (rDid urepo) (rsTick rs) (rsNode rs) r) = (Ret (), w)"
    and bu: "buildUnsignedCommit L (w_put K) (wRepo w) w = (Inr uc, r1, w1)"
    and q: "request_of L order rid now urepo (rRoot urepo) uc w1 = Ret (AwaitSig st dbs rid' m)"
    by (rule begin_writes_Ret [OF assms])
  have "own_entries (rDid urepo) w"
    by (rule own_entries_apply_ops [OF w]) (simp add: own_entries_def start_wst_def)
  moreover have "pcEntries st = wEntries w1" using request_of_AwaitSig [OF q] by simp
  ultimately show ?thesis using buildUnsignedCommit_w [OF bu] by (simp add: own_entries_def)
qed

lemma within_UpdateRepo: "UpdateRepo fails did root v d = Inr d' \<Longrightarrow> within {did} d d'"
  using within_upd_repo [of "\<lambda>x. x\<lparr>rRoot := root, rRev := v\<rparr>" did d]
  by (auto simp: UpdateRepo_def upd_repo_def split: if_splits)

text \<open>
  The second half, in whatever state other requests have left the database: it writes the account's own rows.
\<close>

lemma within_finish_writes:
  assumes b: "begin_writes L K fails order rid now urepo ops rs0 = (Ret (AwaitSig st dbs rid' m), rs1)"
    and did: "rDid urepo \<noteq> ''''"
  shows "within {rDid urepo} (rsDb rs) (rsDb (snd (finish_writes L K E urepo st dbs answer rs)))"
proof -
  have fin: "within {rDid urepo} (rsDb rs) (rsDb rs')"
    if f: "finaliseWriteFromState L K E urepo st sg dbs rs = (res, rs')" for sg res rs'
  proof (cases "store_commit L K st (rDid urepo) sg dbs (rsNode rs)")
    case sc: (Pair x k1)
    show ?thesis
    proof (cases x)
      case (Inl e)
      with f sc show ?thesis by (auto simp: finaliseWriteFromState_def)
    next
      case (Inr y)
      obtain root car repoOps where y: "y = (root, car, repoOps)" by (cases y)
      obtain r d k where p: "persist_entries L K (reFails E) (reNodeUrl E) (rDid urepo) (pcEntries st) (rsDb rs, k1) = (r, d, k)"
        by (cases "persist_entries L K (reFails E) (reNodeUrl E) (rDid urepo) (pcEntries st) (rsDb rs, k1)")
      have "within {rDid urepo} (rsDb rs) d"
        using within_persist_entries [OF _ did p] begin_writes_entries [OF b] by simp
      with f sc Inr y p show ?thesis
        by (auto simp: finaliseWriteFromState_def Let_def split: sum.splits prod.splits
            dest!: within_UpdateRepo intro: within.ok_trans)
    qed
  qed
  show ?thesis
    by (cases "finish_writes L K E urepo st dbs answer rs")
       (auto simp: finish_writes_def split: sum.splits if_splits option.splits dest: fin)
qed

section \<open>Imports\<close>

lemma import_records_rows:
  "import_records L fails get tid did es n t0 = Ret t \<Longrightarrow>
   (keyed rec_key t0 \<longrightarrow> keyed rec_key t) \<and>
   (\<forall>x. x \<noteq> did \<longrightarrow> sql_select (\<lambda>r. recDid r = x) t = sql_select (\<lambda>r. recDid r = x) t0)"
proof (induction L fails get tid did es n t0 rule: import_records.induct)
  case (2 L fails get tid did key c es n t0)
  then obtain nsid rkey rest b where s: "SplitOn CHR ''/'' key = nsid # rkey # rest" "get c = Inr b" "\<not> fails ''import.save''"
    by (auto split: list.splits sum.splits if_splits)
  let ?r = "\<lparr>recDid = did, recCreatedAt = tid n, recNsid = nsid, recRkey = rkey, recCid = lCidString L c, recValue = b\<rparr>"
  have "import_records L fails get tid did es (n + 1) (sql_upsert rec_key ?r t0) = Ret t" using 2(2) s by simp
  from 2(1) [OF s(1) refl s(2,3) this]
  have k: "keyed rec_key (sql_upsert rec_key ?r t0) \<longrightarrow> keyed rec_key t"
    and o1: "\<forall>x. x \<noteq> did \<longrightarrow> sql_select (\<lambda>r. recDid r = x) t = sql_select (\<lambda>r. recDid r = x) (sql_upsert rec_key ?r t0)"
    by blast+
  have "sql_select (\<lambda>r. recDid r = x) (sql_upsert rec_key ?r t0) = sql_select (\<lambda>r. recDid r = x) t0" if "x \<noteq> did" for x
    by (rule select_upsert_other) (use that in \<open>auto simp: rec_key_def\<close>)
  with k o1 show ?case by (simp add: keyed_upsert)
qed simp

lemma within_import_tree: "import_tree L fails walk get tid did m d = Ret d' \<Longrightarrow> within {did} d d'"
  by (auto simp: import_tree_def wf_defs split: prod.splits result.splits option.splits if_splits
      dest!: import_records_rows intro!: within_records)

lemma within_import_commit:
  "import_commit L K fails rk did r bs rs = (w, rs') \<Longrightarrow> within {did} (rsDb rs) (rsDb rs')"
  by (auto simp: import_commit_def split: prod.splits sum.splits dest: within_UpdateRepo)

lemma within_handleRepoImportRepo:
  "within {rDid (raRepo repo)} (rsDb rs) (rsDb (snd (handleRepoImportRepo L K fails walk tid rk car repo body rs)))"
proof -
  have step: "within {did} d (rsDb (snd (import_commit L K fails rk did r bs rs1)))"
    if "import_tree L fails walk get tid did m d = Ret (rsDb rs1)" for did d get m r bs rs1
    using within.ok_trans [OF within_import_tree [OF that]] within_import_commit [of L K fails rk did r bs rs1]
    by (metis prod.collapse)
  show ?thesis
    by (auto simp: handleRepoImportRepo_def Let_def split: sum.splits prod.splits option.splits list.splits result.splits
        intro: step)
qed

end
