(* ===== verification/KeptRows.thy ===== *)
theory KeptRows
  imports IsolationAccounts IsolationRepo
begin

text \<open>
  The handlers that write, under a contract that allows two things: adding accounts and changing any table but those of
  accounts and of authorization requests, and updating an account without its DID and its credentials.  The contract
  is interpreted for the credentials of the accounts and for the authorization codes; with the general contract of
  theory Isolation it carries their proofs over all the handlers that keep them.
\<close>

section \<open>Frames of the operations\<close>

lemma createSession_frame: "createSession sv r d = (res, d') \<Longrightarrow> repos d' = repos d \<and> authRequests d' = authRequests d"
  by (auto simp: createSession_def Let_def split: sum.splits dest!: db_create_Inr)

lemma same_rb_requests: "same_rb d d' \<Longrightarrow> authRequests d' = authRequests d"
  unfolding same_rb_def by (drule arg_cong [where f = authRequests]) simp

lemma set_root_upd_repo: "d\<lparr>repos := set_root did root v (repos d)\<rparr> = upd_repo did (\<lambda>x. x\<lparr>rRoot := root, rRev := v\<rparr>) d"
  by (simp add: set_root_def upd_repo_def)

lemma finish_writes_frame:
  assumes "finish_writes L K E urepo st dbs answer rs = (r, rs')"
  obtains (rows) "same_rb (rsDb rs) (rsDb rs')"
  | (root) d did root v where "same_rb (rsDb rs) d" and "rsDb rs' = upd_repo did (\<lambda>x. x\<lparr>rRoot := root, rRev := v\<rparr>) d"
proof -
  have "rs' = rs \<or> (\<exists>sg. finaliseWriteFromState L K E urepo st sg dbs rs = (r, rs'))"
    using assms by (auto simp: finish_writes_def split: sum.splits if_splits option.splits)
  then show thesis
  proof (elim disjE exE)
    fix sg
    assume f: "finaliseWriteFromState L K E urepo st sg dbs rs = (r, rs')"
    from finaliseWrite_cases [OF this] show thesis
      by (elim disjE exE conjE)
         (auto dest!: persist_entries_frame UpdateRepo_Inr simp: set_root_upd_repo intro: rows root)
  qed (simp add: rows)
qed

section \<open>The contract\<close>

locale row_contract = db_contract +
  assumes ok_rows: "set (repos d) \<subseteq> set (repos d') \<Longrightarrow> authRequests d' = authRequests d \<Longrightarrow> ok d d'"
    and ok_update: "(\<And>r. rDid (f r) = rDid r) \<Longrightarrow> (\<And>r. credentials (f r) = credentials r) \<Longrightarrow> ok d (upd_repo did f d)"
begin

lemma ok_plain: "plain_update f \<Longrightarrow> ok d (upd_repo did f d)"
  by (simp add: plain_update_def ok_update)

lemma row_session_handlers:
  "ok d (snd (handleCreateSession sv is_did is_handle req d))"
  "ok d (snd (handleRefreshSession sv token repo d))"
  "ok d (snd (handleDeleteSession sv token d))"
  by (auto simp: handleCreateSession_def handleRefreshSession_def handleDeleteSession_def db_exec_def Let_def
      split: option.splits prod.splits sum.splits dest!: createSession_frame intro!: ok_rows)

lemmas row_account_handlers = ok_account_handlers [OF allI [OF allI [OF impI [OF ok_plain]]]]

lemma row_reset_by_mail:
  "ok d (snd (handleServerRequestPasswordReset sv mail draw1 draw2 None (Some email) d))"
  using row_account_handlers(3)
  by (auto simp: handleServerRequestPasswordReset_def ok_refl split: sum.splits)

lemma row_update_email: "ok d (snd (handleServerUpdateEmail sv repo req d))"
  by (auto simp: handleServerUpdateEmail_def ok_refl db_exec_def credentials_def split: option.splits intro!: ok_update)

lemma row_invite_handlers:
  "ok d (snd (handleCreateInviteCode sv req1 d))" "ok d (snd (handleCreateInviteCodes sv req2 d))"
proof -
  have "\<forall>c did uses d d'. create_invite sv c did uses d = Inr d' \<longrightarrow> ok d d'"
    by (auto simp: create_invite_def dest!: db_create_Inr intro!: ok_rows)
  from ok_invite_handlers [OF this]
  show "ok d (snd (handleCreateInviteCode sv req1 d))" "ok d (snd (handleCreateInviteCodes sv req2 d))" .
qed

lemma row_identity_handlers:
  "ok (idDb s) (idDb (snd (handleIdentityUpdateHandle I X repo handle_req s)))"
  by (auto simp: handleIdentityUpdateHandle_def set_handle_def Let_def db_exec_def split: option.splits prod.splits
      dest!: publish_handle_db intro!: ok_rows)

lemma row_page_handlers:
  "ok d (snd (handleAccountRevoke sv can_save sess form d))"
  "ok d (snd (handleAccountUpdateCompat sv sess switch d))"
  by (auto simp: handleAccountRevoke_def db_exec_def ok_refl split: option.splits sum.splits
      intro!: ok_rows ok_compat_page ok_plain)

lemma row_insert_account: "insert_account sv urepo handle actor d = Inr d' \<Longrightarrow> ok d d'"
  by (auto dest!: insert_account_tables intro!: ok_rows)

lemma row_open_account: "open_account sv req urepo s = (w, s') \<Longrightarrow> ok (idDb s) (idDb s')"
  by (auto simp: open_account_def decrement_invite_def record_use_def db_exec_def split: if_splits sum.splits prod.splits
      dest!: createSession_frame intro!: ok_rows)

lemma row_finish_account: "finish_account E req urepo actor s = (w, s') \<Longrightarrow> ok (idDb s) (idDb s')"
  by (auto simp: finish_account_def ok_refl split: sum.splits if_splits
      dest!: row_insert_account row_open_account intro: ok_trans)

lemma row_handleCreateAccount:
  assumes "sHostname (clServer E) \<noteq> ''''"
  shows "ok (idDb (acId a)) (idDb (acId (snd (handleCreateAccount E r body a))))"
proof (cases body)
  case (Some b)
  have m: "ok (idDb (acId s)) (idDb (acId (snd (make_account E req did actor s))))" for req did actor s
    by (auto simp: make_account_def ok_refl split: option.splits prod.splits sum.splits dest: row_finish_account)
  show ?thesis
  proof (rule create_account_outcome [OF assms refl, where b = b and s = a and r = r])
    fix i
    assume "idDb i = idDb (acId a)" "snd (handleCreateAccount E r (Some b) a) = a\<lparr>acId := i\<rparr>"
    with Some show ?thesis by (simp add: ok_refl)
  next
    fix did actor i
    assume "idDb i = idDb (acId a)" "snd (handleCreateAccount E r (Some b) a) =
      snd (make_account E (b\<lparr>crHandle := ToLower (crHandle b)\<rparr>) did actor (a\<lparr>acId := i\<rparr>))"
    with Some m [of "a\<lparr>acId := i\<rparr>"] show ?thesis by simp
  qed
qed (simp add: handleCreateAccount_def ok_refl)

lemma row_signup_finish: "signup_finish E handle invite urepo s = (m, s') \<Longrightarrow> ok (idDb s) (idDb s')"
  by (auto simp: signup_finish_def decrement_invite_def record_use_def db_exec_def Let_def ok_refl
      split: sum.splits if_splits dest!: insert_account_tables intro!: ok_rows)

lemma row_handleAccountSignupPost:
  "ok (idDb (acId a)) (idDb (acId (snd (handleAccountSignupPost E can_save sess r form a))))"
proof -
  have "ok (idDb (acId s)) (idDb (acId s'))" if "signup_make E handle email password invite s = (res, s')"
    for handle email password invite s res s'
    using that by (auto simp: signup_make_def ok_refl split: prod.splits sum.splits option.splits
        dest!: create_identity_cases(1) row_signup_finish)
  then have "ok (idDb (acId s)) (idDb (acId s'))" if "signup_run E handle email password invite s = (res, s')"
    for handle email password invite s res s'
    using that by (fastforce simp: signup_run_def ok_refl split: prod.splits option.splits dest!: signup_checks_db)
  then show ?thesis
    by (auto simp: handleAccountSignupPost_def Let_def ok_refl split: option.splits prod.splits sum.splits)
qed

lemma row_finish_writes: "ok (rsDb rs) (rsDb (snd (finish_writes L K E urepo st dbs answer rs)))"
proof -
  obtain r rs' where f: "finish_writes L K E urepo st dbs answer rs = (r, rs')" by fastforce
  have same: "ok d d'" if "same_rb d d'" for d d'
    using same_rb_repos [OF that] same_rb_requests [OF that] by (auto intro: ok_rows)
  from f show ?thesis
  proof (cases rule: finish_writes_frame)
    case (root d did root v)
    have "ok d (rsDb rs')" unfolding root(2) by (rule ok_update) (simp_all add: credentials_def)
    from ok_trans [OF same [OF root(1)] this] f show ?thesis by simp
  qed (use f same in simp)
qed

lemma row_repo_handlers:
  "ok (rsDb rs) (rsDb (snd (handleRepoUploadBlob L node_add fails repo r body rs)))"
  "ok (rsDb rs) (rsDb (snd (handleRepoImportRepo L K fails walk tid rk car repo body rs)))"
proof -
  show "ok (rsDb rs) (rsDb (snd (handleRepoUploadBlob L node_add fails repo r body rs)))"
    by (auto simp: handleRepoUploadBlob_def Let_def ok_refl split: sum.splits prod.splits intro!: ok_rows)
  have t: "repos d' = repos d \<and> authRequests d' = authRequests d" if "import_tree L fails walk get tid did m d = Ret d'" for get did m d d'
    using that by (auto simp: import_tree_def split: prod.splits result.splits option.splits if_splits)
  have root: "ok d (upd_repo did (\<lambda>x. x\<lparr>rRoot := root, rRev := v\<rparr>) d)" for d did root v
    by (rule ok_update) (simp_all add: credentials_def)
  have c: "ok (rsDb rs1) (rsDb (snd (import_commit L K fails rk did r bs rs1)))" for did r bs rs1
    by (auto simp: import_commit_def ok_refl set_root_upd_repo split: prod.splits sum.splits dest!: UpdateRepo_Inr intro!: root)
  have "ok d (rsDb (snd (import_commit L K fails rk did r bs (rs1\<lparr>rsDb := d'\<rparr>))))"
    if "import_tree L fails walk get tid did m d = Ret d'" for get did m d d' r bs rs1
    using ok_trans [OF ok_rows c [of "rs1\<lparr>rsDb := d'\<rparr>"]] t [OF that] by simp
  then show "ok (rsDb rs) (rsDb (snd (handleRepoImportRepo L K fails walk tid rk car repo body rs)))"
    by (auto simp: handleRepoImportRepo_def Let_def ok_refl split: sum.splits prod.splits option.splits list.splits result.splits)
qed

lemmas row_handlers = row_session_handlers row_account_handlers row_reset_by_mail row_update_email row_invite_handlers
  row_identity_handlers row_page_handlers row_handleCreateAccount row_handleAccountSignupPost row_finish_writes row_repo_handlers

end

end
