(* ===== verification/Commands.thy ===== *)
theory Commands
  imports VowServer
begin

text \<open>
  The command line (cmd/vow/main.go and flags.go): the flags with their defaults, the arguments the server is started
  with, and the commands that make the key files, invite codes and new passwords.  Cobra and viper are libraries: a
  \<open>viper\<close> gives the value of every flag, from the command line, the environment or the default.
\<close>

section \<open>Flags\<close>

definition flagAddr :: string where "flagAddr = ''addr''"
definition flagDbName :: string where "flagDbName = ''db-name''"
definition flagDid :: string where "flagDid = ''did''"
definition flagHostname :: string where "flagHostname = ''hostname''"
definition flagRotationKeyPath :: string where "flagRotationKeyPath = ''rotation-key-path''"
definition flagJwkPath :: string where "flagJwkPath = ''jwk-path''"
definition flagContactEmail :: string where "flagContactEmail = ''contact-email''"
definition flagRelays :: string where "flagRelays = ''relays''"
definition flagAdminPassword :: string where "flagAdminPassword = ''admin-password''"
definition flagRequireInvite :: string where "flagRequireInvite = ''require-invite''"
definition flagSmtpUser :: string where "flagSmtpUser = ''smtp-user''"
definition flagSmtpPass :: string where "flagSmtpPass = ''smtp-pass''"
definition flagSmtpHost :: string where "flagSmtpHost = ''smtp-host''"
definition flagSmtpPort :: string where "flagSmtpPort = ''smtp-port''"
definition flagSmtpEmail :: string where "flagSmtpEmail = ''smtp-email''"
definition flagSmtpName :: string where "flagSmtpName = ''smtp-name''"
definition flagIpfsNodeUrl :: string where "flagIpfsNodeUrl = ''ipfs-node-url''"
definition flagIpfsGatewayUrl :: string where "flagIpfsGatewayUrl = ''ipfs-gateway-url''"
definition flagSessionSecret :: string where "flagSessionSecret = ''session-secret''"
definition flagSessionCookieKey :: string where "flagSessionCookieKey = ''session-cookie-key''"
definition flagFallbackProxy :: string where "flagFallbackProxy = ''fallback-proxy''"
definition flagLogLevel :: string where "flagLogLevel = ''log-level''"
definition flagDebug :: string where "flagDebug = ''debug''"
definition flagMetricsListenAddress :: string where "flagMetricsListenAddress = ''metrics-listen-address''"

lemmas flag_defs = flagAddr_def flagDbName_def flagDid_def flagHostname_def flagRotationKeyPath_def flagJwkPath_def
  flagContactEmail_def flagRelays_def flagAdminPassword_def flagRequireInvite_def flagSmtpUser_def flagSmtpPass_def
  flagSmtpHost_def flagSmtpPort_def flagSmtpEmail_def flagSmtpName_def flagIpfsNodeUrl_def flagIpfsGatewayUrl_def
  flagSessionSecret_def flagSessionCookieKey_def flagFallbackProxy_def flagLogLevel_def flagDebug_def
  flagMetricsListenAddress_def

datatype flagValue = FString string | FBool bool | FSlice "string list"

definition flag_defaults :: "(string \<times> flagValue) list" where
  "flag_defaults =
     [(flagAddr, FString '':8080''), (flagDbName, FString ''vow.db''), (flagDid, FString ''''), (flagHostname, FString ''''),
      (flagRotationKeyPath, FString ''''), (flagJwkPath, FString ''''), (flagContactEmail, FString ''''),
      (flagRelays, FSlice []), (flagAdminPassword, FString ''''), (flagRequireInvite, FBool True),
      (flagSmtpUser, FString ''''), (flagSmtpPass, FString ''''), (flagSmtpHost, FString ''''), (flagSmtpPort, FString ''''),
      (flagSmtpEmail, FString ''''), (flagSmtpName, FString ''''), (flagIpfsNodeUrl, FString ''http://127.0.0.1:5001''),
      (flagIpfsGatewayUrl, FString ''''), (flagSessionSecret, FString ''''), (flagSessionCookieKey, FString ''session''),
      (flagFallbackProxy, FString ''''), (flagLogLevel, FString ''info''), (flagDebug, FBool False),
      (flagMetricsListenAddress, FString ''0.0.0.0:6009'')]"

text \<open>The library's view of the flags, and that view when nothing has been set.\<close>

record viper =
  GetString :: "string \<Rightarrow> string"
  GetBool :: "string \<Rightarrow> bool"
  GetStringSlice :: "string \<Rightarrow> string list"

definition unset_viper :: viper where
  "unset_viper =
     \<lparr>GetString = (\<lambda>k. case map_of flag_defaults k of Some (FString s) \<Rightarrow> s | _ \<Rightarrow> []),
      GetBool = (\<lambda>k. case map_of flag_defaults k of Some (FBool b) \<Rightarrow> b | _ \<Rightarrow> False),
      GetStringSlice = (\<lambda>k. case map_of flag_defaults k of Some (FSlice l) \<Rightarrow> l | _ \<Rightarrow> [])\<rparr>"

section \<open>Running the server\<close>

datatype level = LevelDebug | LevelInfo | LevelWarn | LevelError

definition buildLogger :: "viper \<Rightarrow> level" where
  "buildLogger v =
     (if GetBool v flagDebug then LevelDebug
      else let l = ToLower (GetString v flagLogLevel) in
        if l = ''debug'' then LevelDebug else if l = ''warn'' then LevelWarn else if l = ''error'' then LevelError else LevelInfo)"

text \<open>The address of the metrics endpoint, when there is one.\<close>

definition startMetrics :: "viper \<Rightarrow> string option" where
  "startMetrics v = (let addr = GetString v flagMetricsListenAddress in if addr = '''' then None else Some addr)"

text \<open>The version in the build information: the main module's, a revision cut to seven characters, or dev.\<close>

definition version :: "(string \<times> (string \<times> string) list) option \<Rightarrow> string" where
  "version info =
     (case info of
        None \<Rightarrow> ''dev''
      | Some (main, settings) \<Rightarrow>
          if main \<noteq> '''' \<and> main \<noteq> ''(devel)'' then main
          else (case find (\<lambda>(k, x). k = ''vcs.revision'' \<and> length x \<ge> 7) settings of
                  Some (_, x) \<Rightarrow> take 7 x
                | None \<Rightarrow> ''dev''))"

definition run_args :: "viper \<Rightarrow> string \<Rightarrow> Args" where
  "run_args v ver =
     \<lparr>agAddr = GetString v flagAddr, agDbName = GetString v flagDbName, agVersion = ver, agDid = GetString v flagDid,
      agHostname = GetString v flagHostname, agRotationKeyPath = GetString v flagRotationKeyPath,
      agJwkPath = GetString v flagJwkPath, agContactEmail = GetString v flagContactEmail,
      agRelays = GetStringSlice v flagRelays, agAdminPassword = GetString v flagAdminPassword,
      agRequireInvite = GetBool v flagRequireInvite, agSmtpUser = GetString v flagSmtpUser,
      agSmtpPass = GetString v flagSmtpPass, agSmtpHost = GetString v flagSmtpHost, agSmtpPort = GetString v flagSmtpPort,
      agSmtpEmail = GetString v flagSmtpEmail, agSmtpName = GetString v flagSmtpName,
      agNodeURL = GetString v flagIpfsNodeUrl, agGatewayURL = GetString v flagIpfsGatewayUrl,
      agSessionSecret = GetString v flagSessionSecret, agSessionCookieKey = GetString v flagSessionCookieKey,
      agFallbackProxy = GetString v flagFallbackProxy\<rparr>"

text \<open>\<open>Inr\<close> is the server that serves until its context ends, which the background context never does.\<close>

definition newServeCmd ::
  "syntaxLib \<Rightarrow> plcLib \<Rightarrow> (bytes \<Rightarrow> bytes \<Rightarrow> bytes) \<Rightarrow> 'j \<Rightarrow> (DidDoc, 'd) lruLib \<Rightarrow> (string, 'h) lruLib \<Rightarrow> startLib \<Rightarrow> viper \<Rightarrow>
   string \<Rightarrow> EventRecord table \<Rightarrow> goerr + ('d, 'h, 'j) vow" where
  "newServeCmd X P hmac jti U V S v ver events =
     (case New X P hmac jti U V S (run_args v ver) events of
        Inl e \<Rightarrow> Inl (Wrap ''error creating vow'' e)
      | Inr s \<Rightarrow> (case migrate (slFails S) of Some e \<Rightarrow> Inl (Wrap ''error starting vow'' e) | None \<Rightarrow> Inr s))"

section \<open>Key files\<close>

text \<open>
  Making the two keys, the JSON of the second with its key id, and writing a file, which may fail.
\<close>

record ('p, 'w) keyLib =
  klK256 :: "goerr + bytes"
  klP256 :: "goerr + 'p"
  klFromRaw :: "'p \<Rightarrow> goerr + 'w"
  klSetKid :: "string \<Rightarrow> 'w \<Rightarrow> goerr + 'w"
  klMarshal :: "'w \<Rightarrow> goerr + bytes"
  klWrite :: "string \<Rightarrow> goerr option"

type_synonym files = "(string \<times> bytes) list"

definition WriteFile :: "('p, 'w) keyLib \<Rightarrow> string \<Rightarrow> bytes \<Rightarrow> files \<Rightarrow> goerr option \<times> files" where
  "WriteFile K path b fs = (case klWrite K path of Some e \<Rightarrow> (Some e, fs) | None \<Rightarrow> (None, AList.update path b fs))"

definition newCreateRotationKeyCmd :: "('p, 'w) keyLib \<Rightarrow> string \<Rightarrow> files \<Rightarrow> goerr option \<times> files" where
  "newCreateRotationKeyCmd K out fs = (case klK256 K of Inl e \<Rightarrow> (Some e, fs) | Inr key \<Rightarrow> WriteFile K out key fs)"

definition newCreatePrivateJwkCmd :: "('p, 'w) keyLib \<Rightarrow> time \<Rightarrow> string \<Rightarrow> files \<Rightarrow> goerr option \<times> files" where
  "newCreatePrivateJwkCmd K now out fs =
     (case klP256 K of Inl e \<Rightarrow> (Some e, fs) | Inr priv \<Rightarrow>
     (case klFromRaw K priv of Inl e \<Rightarrow> (Some e, fs) | Inr key \<Rightarrow>
     (case klSetKid K (show_int (Unix now)) key of Inl e \<Rightarrow> (Some e, fs) | Inr key1 \<Rightarrow>
     (case klMarshal K key1 of Inl e \<Rightarrow> (Some e, fs) | Inr b \<Rightarrow> WriteFile K out b fs))))"

section \<open>Invite codes and passwords\<close>

text \<open>The file of the database.\<close>

definition newDb :: "viper \<Rightarrow> string" where
  "newDb v = (let dbName = GetString v flagDbName in if dbName = '''' then ''vow.db'' else dbName)"

text \<open>
  The code that is printed, \<open>None\<close> for a panic of the random source; the creation time is left to the zero value.
\<close>

definition newCreateInviteCodeCmd ::
  "syntaxLib \<Rightarrow> faults \<Rightarrow> (nat \<Rightarrow> nat option) \<Rightarrow> (nat \<Rightarrow> nat option) \<Rightarrow> string \<Rightarrow> int \<Rightarrow> db \<Rightarrow> (goerr + string) option \<times> db" where
  "newCreateInviteCodeCmd X fails draw1 draw2 forFlag uses d =
     (if fails ''open'' then (Some (Inl (ErrDb ''open'')), d)
      else if forFlag \<noteq> '''' \<and> \<not> isDid X forFlag then (Some (Inl (Err ''invalid DID'')), d)
      else (case fresh_code 8 draw1 draw2 of
         None \<Rightarrow> (None, d)
       | Some c \<Rightarrow>
           (case (if fails ''inviteCodes.insert'' then None
                  else sql_insert icCode \<lparr>icCode = c, icDid = (if forFlag \<noteq> '''' then forFlag else ''did:plc:123''),
                    icRemainingUseCount = uses, icCreatedAt = 0, icDisabled = False\<rparr> (inviteCodes d)) of
              None \<Rightarrow> (Some (Inl (ErrDb ''inviteCodes.insert'')), d)
            | Some t \<Rightarrow> (Some (Inr c), d\<lparr>inviteCodes := t\<rparr>))))"

definition newResetPasswordCmd ::
  "syntaxLib \<Rightarrow> faults \<Rightarrow> (string \<Rightarrow> string option) \<Rightarrow> (nat \<Rightarrow> nat option) \<Rightarrow> (nat \<Rightarrow> nat option) \<Rightarrow> string \<Rightarrow> db \<Rightarrow>
   (goerr + string) option \<times> db" where
  "newResetPasswordCmd X fails bcrypt draw1 draw2 did d =
     (if fails ''open'' then (Some (Inl (ErrDb ''open'')), d)
      else if \<not> isDid X did then (Some (Inl (Err ''invalid DID'')), d)
      else (case fresh_code 12 draw1 draw2 of
         None \<Rightarrow> (None, d)
       | Some p \<Rightarrow>
           (case bcrypt p of
              None \<Rightarrow> (Some (Inl (Err ''bcrypt'')), d)
            | Some hash \<Rightarrow>
                if fails ''repos.password'' then (Some (Inl (ErrDb ''repos.password'')), d)
                else (Some (Inr p), upd_repo did (\<lambda>x. x\<lparr>rPassword := hash\<rparr>) d))))"

section \<open>Properties\<close>

lemma WriteFile_None: "WriteFile K p b fs = (None, fs') \<Longrightarrow> map_of fs' p = Some b \<and> (\<forall>q. q \<noteq> p \<longrightarrow> map_of fs' q = map_of fs q)"
  by (auto simp: WriteFile_def update_conv split: option.splits)

text \<open>
  C40: A server set up with its own commands starts.  With the two key files the commands wrote, to different paths, as
  the rotation key and the JWK of the run command, and all the flags the server asks for, the server starts whenever the
  outside lets it, and signs operations with the rotation key that was generated.
\<close>

theorem fresh_setup_starts:
  assumes "newCreateRotationKeyCmd K rk fs = (None, fs1)" and "newCreatePrivateJwkCmd K now jk fs1 = (None, fs2)" and "rk \<noteq> jk"
    and "\<And>key. klK256 K = Inr key \<Longrightarrow> pkParsePriv P key = Inr key"
    and "\<And>w b. klMarshal K w = Inr b \<Longrightarrow> \<exists>atp. slJwk S b = Inr atp"
    and "\<And>p. p \<in> {rk, jk} \<Longrightarrow> slReadFile S p = Inr (map_of fs2 p)"
    and "GetString v flagRotationKeyPath = rk" and "GetString v flagJwkPath = jk" and "args_error X (run_args v ver) = None"
    and "\<And>f. slOpenDb S f = None" and "\<And>u. slIpfs S u = None" and "\<And>l. \<not> slFails S l"
  shows "\<exists>s key. newServeCmd X P hmac jti U V S v ver events = Inr s \<and> klK256 K = Inr key \<and> plcRotationKey (vwPlc s) = key"
proof -
  from assms(1) obtain key where key: "klK256 K = Inr key" and w1: "WriteFile K rk key fs = (None, fs1)"
    by (auto simp: newCreateRotationKeyCmd_def split: sum.splits)
  from assms(2) obtain w b where b: "klMarshal K w = Inr b" and w2: "WriteFile K jk b fs1 = (None, fs2)"
    by (auto simp: newCreatePrivateJwkCmd_def split: sum.splits)
  have rd: "must_read S rk = Inr key" "must_read S jk = Inr b"
    using WriteFile_None [OF w1] WriteFile_None [OF w2] assms(3,6) by (simp_all add: must_read_def)
  obtain atp where atp: "slJwk S b = Inr atp" using assms(5) [OF b] by blast
  have ag: "agRotationKeyPath (run_args v ver) = rk" "agJwkPath (run_args v ver) = jk"
    using assms(7,8) by (simp_all add: run_args_def)
  obtain p where "NewDbPersister (slFails S) (slNow S) (72 * Hour) events = Inr p"
    using assms(12) by (simp add: NewDbPersister_def)
  then have "New X P hmac jti U V S (run_args v ver) events = Inr (new_vow hmac jti U V S (run_args v ver) atp
      \<lparr>plcService = ''https://plc.directory'', plcPdsHostname = agHostname (run_args v ver), plcRotationKey = key,
       plcServiceAuthKey = atp\<rparr> p)"
    using assms(4) [OF key] assms(9-11) rd atp ag by (simp add: New_def NewClient_def)
  moreover have "migrate (slFails S) = None" using assms(12) by (simp add: migrate_def list_ex_iff)
  ultimately show ?thesis using key by (simp add: newServeCmd_def new_vow_def split_beta Let_def)
qed

lemma TrimSpace_empty: "TrimSpace s = '''' \<longleftrightarrow> (\<forall>c \<in> set s. is_space c)"
proof -
  have "\<not> is_space c" if "dropWhile is_space s = c # t" for c t
    using that by (simp add: dropWhile_eq_Cons_conv)
  moreover have "c \<in> set s" if "dropWhile is_space s = c # t" for c t
    using that set_dropWhileD [of c is_space s] by simp
  ultimately show ?thesis
    by (cases "dropWhile is_space s") (auto simp: TrimSpace_def dropWhile_eq_Nil_conv dest: set_dropWhileD)
qed

lemma find_appended: "\<forall>x \<in> set xs. \<not> P x \<Longrightarrow> find P (xs @ ys) = find P ys"
  by (induction xs) auto

lemma fresh_code_visible: "fresh_code n d1 d2 = Some c \<Longrightarrow> TrimSpace c \<noteq> ''''"
  by (auto simp: fresh_code_def TrimSpace_empty is_space_def split: option.splits)

text \<open>
  An invite code made on the command line opens the registration: it is new, has the uses that were asked for, and
  the sign-up accepts it exactly when this is at least one; the codes there were stay as they are.
\<close>

theorem printed_code_admits:
  assumes "newCreateInviteCodeCmd X fails d1 d2 forFlag uses d = (Some (Inr c), d')" and "\<not> sFails sv ''inviteCodes.first''"
    and "sRequireInvite sv"
  shows "(invite_error sv c d' = None \<longleftrightarrow> uses \<ge> 1) \<and> c \<notin> icCode ` set (inviteCodes d) \<and>
    set (inviteCodes d) \<subseteq> set (inviteCodes d') \<and> d'\<lparr>inviteCodes := inviteCodes d\<rparr> = d"
proof -
  let ?row = "\<lparr>icCode = c, icDid = (if forFlag \<noteq> '''' then forFlag else ''did:plc:123''),
    icRemainingUseCount = uses, icCreatedAt = 0, icDisabled = False\<rparr>"
  from assms(1) have c: "fresh_code 8 d1 d2 = Some c" "c \<notin> icCode ` set (inviteCodes d)"
    and d': "d' = d\<lparr>inviteCodes := inviteCodes d @ [?row]\<rparr>"
    by (auto simp: newCreateInviteCodeCmd_def sql_insert_def split: if_splits option.splits)
  have "sql_first (\<lambda>x. icCode x = c) (inviteCodes d') = Some ?row"
  proof -
    have "\<forall>x \<in> set (inviteCodes d). icCode x \<noteq> c" using c(2) by auto
    then show ?thesis by (simp add: d' sql_first_def find_appended)
  qed
  then show ?thesis using assms(2,3) fresh_code_visible [OF c(1)] c(2)
    by (auto simp: invite_error_def invite_remaining_def d')
qed

text \<open>The command that resets a password changes that of one account, and succeeds when there is no such account.\<close>

lemma reset_password_cmd:
  assumes "newResetPasswordCmd X fails bcrypt d1 d2 did d = (Some (Inr p), d')"
  shows "\<exists>hash. bcrypt p = Some hash \<and> d' = upd_repo did (\<lambda>x. x\<lparr>rPassword := hash\<rparr>) d"
  using assms by (auto simp: newResetPasswordCmd_def split: if_splits option.splits)

lemma reset_password_nobody:
  assumes "isDid X did" and "\<not> fails ''open''" and "\<not> fails ''repos.password''" and "did \<notin> rDid ` set (repos d)"
    and "fresh_code 12 d1 d2 = Some p" and "bcrypt p = Some hash"
  shows "newResetPasswordCmd X fails bcrypt d1 d2 did d = (Some (Inr p), d)"
proof -
  have "sql_update (\<lambda>x. rDid x = did) (\<lambda>x. x\<lparr>rPassword := hash\<rparr>) (repos d) = repos d"
    unfolding sql_update_def by (rule map_idI) (use assms(4) in auto)
  with assms show ?thesis by (simp add: newResetPasswordCmd_def upd_repo_def)
qed

text \<open>A server that was given nothing but its defaults does not start.\<close>

lemma defaults_do_not_start: "args_error X (run_args unset_viper ver) = Some ''vow did must be set''"
  by (simp add: args_error_def run_args_def unset_viper_def flag_defaults_def flag_defs)

section \<open>A first start\<close>

definition cm_viper :: viper where
  "cm_viper = unset_viper\<lparr>GetString := (\<lambda>k. if k = flagDid then ''did:web:pds'' else if k = flagHostname then ''pds''
     else if k = flagRotationKeyPath then ''a.key'' else if k = flagJwkPath then ''b.key'' else GetString unset_viper k @ ''x'')\<rparr>"

definition cm_keys :: "(unit, unit) keyLib" where
  "cm_keys = \<lparr>klK256 = Inr [5], klP256 = Inr (), klFromRaw = Inr, klSetKid = (\<lambda>_. Inr), klMarshal = (\<lambda>_. Inr [6]),
     klWrite = (\<lambda>_. None)\<rparr>"

definition cm_start :: startLib where
  "cm_start = vs_start\<lparr>slReadFile := (\<lambda>p. Inr (map_of [(''a.key'', [5]), (''b.key'', [6])] p))\<rparr>"

theorem fresh_setup_starts_witness:
  "\<exists>s :: (_, _, string list) vow. newServeCmd id_syntax demo_plcLib (\<lambda>k b. k) [] demo_lru demo_lru cm_start cm_viper ''dev'' [] = Inr s \<and>
     plcRotationKey (vwPlc s) = [5]"
proof -
  have r: "newCreateRotationKeyCmd cm_keys ''a.key'' [] = (None, [(''a.key'', [5])])"
    by (simp add: newCreateRotationKeyCmd_def WriteFile_def cm_keys_def)
  have j: "newCreatePrivateJwkCmd cm_keys 0 ''b.key'' [(''a.key'', [5])] = (None, [(''a.key'', [5]), (''b.key'', [6])])"
    by (simp add: newCreatePrivateJwkCmd_def WriteFile_def cm_keys_def)
  have a: "args_error id_syntax (run_args cm_viper ''dev'') = None" by code_simp
  have "\<exists>(s :: (_, _, string list) vow) key. newServeCmd id_syntax demo_plcLib (\<lambda>k b. k) [] demo_lru demo_lru cm_start cm_viper ''dev'' [] = Inr s \<and>
      klK256 cm_keys = Inr key \<and> plcRotationKey (vwPlc s) = key"
    by (rule fresh_setup_starts [OF r j _ _ _ _ _ _ a])
       (simp_all add: cm_keys_def cm_start_def vs_start_def cm_viper_def demo_plcLib_def flag_defs)
  then show ?thesis by (simp add: cm_keys_def)
qed

theorem printed_code_admits_witness:
  "\<exists>c d'. newCreateInviteCodeCmd id_syntax (\<lambda>_. False) (\<lambda>_. Some 0) (\<lambda>_. Some 1) '''' 3 demo_db = (Some (Inr c), d') \<and>
     invite_error demo_server c d' = None"
proof -
  let ?run = "newCreateInviteCodeCmd id_syntax (\<lambda>_. False) (\<lambda>_. Some 0) (\<lambda>_. Some 1) '''' 3 demo_db"
  have "map_option isl (fst ?run) = Some False" by code_simp
  then obtain c d' where run: "?run = (Some (Inr c), d')" by (cases ?run) (auto simp: isl_def, metis sum.exhaust isl_def)
  have "\<not> sFails demo_server ''inviteCodes.first''" "sRequireInvite demo_server" by (simp_all add: demo_server_def)
  from printed_code_admits [OF run this] run show ?thesis by auto
qed

end
