(* ===== verification/Deployment.thy ===== *)
theory Deployment
  imports KeptRows Commands
begin

text \<open>
  The server as one system over its database.  A step is one handler, command or tick of a background job that writes,
  with any request and in any state of the event log, the caches and the node; the second half of a repository write
  is a step of its own.  A step is labelled with the name of its handler in the table of routes and with the accounts it
  speaks for.  The theorems are about all runs of such steps.
\<close>

section \<open>Background jobs and commands\<close>

text \<open>The accounts whose OAuth sessions a tick of the cleanup may remove.\<close>

definition expired_owners :: "server \<Rightarrow> db \<Rightarrow> string set" where
  "expired_owners sv d = otSub ` {t \<in> set (oauthTokens d). otUpdatedAt t < sNow sv - ConfidentialClientRefreshLifetime}"

lemma within_cleanup: "within (expired_owners sv d) d (cleanupExpiredSessions sv d)"
  by (auto simp: cleanupExpiredSessions_def db_exec_def Let_def wf_defs expired_owners_def
      intro!: within_oauthTokens keyed_delete select_delete_other)

lemma within_newCreateInviteCodeCmd: "within who d (snd (newCreateInviteCodeCmd X fails draw1 draw2 f uses d))"
  by (auto simp: newCreateInviteCodeCmd_def sql_insert_def wf_defs keyed_append split: option.splits if_splits
      intro!: within_inviteCodes)

lemma within_newResetPasswordCmd: "within {did} d (snd (newResetPasswordCmd X fails bcrypt draw1 draw2 did d))"
  by (auto simp: newResetPasswordCmd_def split: option.splits intro!: within_upd_repo)

section \<open>Steps\<close>

record ('c, 'm, 'k, 'key, 'doc, 'ck, 'raw, 'cm, 'p, 'dc, 'pub, 'kpub) env =
  evCreate :: "('c, 'm, 'k, 'key, 'doc) createLib"
  evOauth :: "('ck, 'raw, 'cm, 'p, 'dc) oauthLib"
  evWeb :: "('pub, 'kpub) webauthnLib"

abbreviation evServer :: "('c, 'm, 'k, 'key, 'doc, 'ck, 'raw, 'cm, 'p, 'dc, 'pub, 'kpub) env \<Rightarrow> server" where
  "evServer e \<equiv> clServer (evCreate e)"

text \<open>
  The caller: the context its guard made, the session of its cookie, and what its body asks a code, a session or a token
  with (the log-in, the address, the form).  The account of an authenticated request is the one its middleware loaded when
  the request arrived, from a state of the database that other requests may have changed since; its DID is not empty,
  since the lookup refuses such a row.  Jobs and commands have no caller.
\<close>

record caller =
  cuCtx :: reqContext
  cuSess :: "obj option"
  cuLogin :: "(string \<times> string) option"
  cuEmail :: "string option"
  cuForm :: "(string \<times> string) list option"

abbreviation account :: "caller \<Rightarrow> RepoActor option" where
  "account u \<equiv> cRepo (cuCtx u)"

abbreviation self :: "RepoActor \<Rightarrow> string set" where
  "self repo \<equiv> {rDid (raRepo repo)}"

text \<open>The accounts a caller names without being signed in by a guard: in a log-in, by an address, by its cookie.\<close>

abbreviation login_account ::
  "('c, 'm, 'k, 'key, 'doc, 'ck, 'raw, 'cm, 'p, 'dc, 'pub, 'kpub) env \<Rightarrow> string \<Rightarrow> db \<Rightarrow> RepoActor" where
  "login_account e ident d \<equiv>
     find_login (isDid (clSyntax (evCreate e))) (isHandle (clSyntax (evCreate e))) (ToLower ident) d"

definition mail_account ::
  "('c, 'm, 'k, 'key, 'doc, 'ck, 'raw, 'cm, 'p, 'dc, 'pub, 'kpub) env \<Rightarrow> string \<Rightarrow> db \<Rightarrow> string set" where
  "mail_account e email d = {rDid (raRepo repo) |repo. getRepoActorByEmail (sFails (evServer e)) d email = Inr repo}"

definition cookie_account ::
  "('c, 'm, 'k, 'key, 'doc, 'ck, 'raw, 'cm, 'p, 'dc, 'pub, 'kpub) env \<Rightarrow> caller \<Rightarrow> db \<Rightarrow> string set" where
  "cookie_account e u d = {rDid (raRepo repo) |repo. getSessionRepoOrErr (evServer e) (cuSess u) d = Inr repo}"

type_synonym 'k node_add = "'k \<Rightarrow> bytes \<Rightarrow> (goerr + cid) \<times> 'k"

inductive db_step ::
  "('c, 'm, 'k, 'key, 'doc, 'ck, 'raw, 'cm, 'p, 'dc, 'pub, 'kpub) env \<Rightarrow> caller \<Rightarrow> string \<Rightarrow> string set \<Rightarrow>
   db \<Rightarrow> db \<Rightarrow> bool"
  for e u where
  create_session:
    "cuLogin u = Some (ident, pw) \<Longrightarrow> X = clSyntax (evCreate e) \<Longrightarrow>
     db_step e u ''handleCreateSession'' (self (login_account e ident d)) d
       (snd (handleCreateSession (evServer e) (isDid X) (isHandle X) (Some (ident, pw)) d))"
| refresh_session:
    "account u = Some repo \<Longrightarrow> cToken (cuCtx u) = Some token \<Longrightarrow>
     db_step e u ''handleRefreshSession'' (insert (rDid (raRepo repo)) (session_owners token d)) d
       (snd (handleRefreshSession (evServer e) token repo d))"
| delete_session:
    "cToken (cuCtx u) = Some token \<Longrightarrow>
     db_step e u ''handleDeleteSession'' (session_owners token d) d (snd (handleDeleteSession (evServer e) token d))"
| email_confirmation:
    "account u = Some repo \<Longrightarrow>
     db_step e u ''handleServerRequestEmailConfirmation'' (self repo) d
       (snd (handleServerRequestEmailConfirmation (evServer e) mail draw1 draw2 repo d))"
| email_update_code:
    "account u = Some repo \<Longrightarrow>
     db_step e u ''handleServerRequestEmailUpdate'' (self repo) d
       (snd (handleServerRequestEmailUpdate (evServer e) mail draw1 draw2 repo d))"
| password_reset_own:
    "account u = Some repo \<Longrightarrow>
     db_step e u ''handleServerRequestPasswordReset'' (self repo) d
       (snd (handleServerRequestPasswordReset (evServer e) mail draw1 draw2 (Some repo) body d))"
| password_reset_code:
    "account u = None \<Longrightarrow> cuEmail u = Some email \<Longrightarrow>
     db_step e u ''handleServerRequestPasswordReset'' (mail_account e email d) d
       (snd (handleServerRequestPasswordReset (evServer e) mail draw1 draw2 None (Some email) d))"
| plc_code:
    "account u = Some repo \<Longrightarrow>
     db_step e u ''handleIdentityRequestPlcOperationSignature'' (self repo) d
       (snd (handleIdentityRequestPlcOperationSignature (evServer e) mail draw1 draw2 repo d))"
| confirm_email:
    "account u = Some repo \<Longrightarrow>
     db_step e u ''handleServerConfirmEmail'' (self repo) d (snd (handleServerConfirmEmail (evServer e) repo req d))"
| update_email:
    "account u = Some repo \<Longrightarrow>
     db_step e u ''handleServerUpdateEmail'' (self repo) d (snd (handleServerUpdateEmail (evServer e) repo req d))"
| reset_password:
    "account u = Some repo \<Longrightarrow>
     db_step e u ''handleServerResetPassword'' (self repo) d (snd (handleServerResetPassword (evServer e) repo req d))"
| preferences:
    "account u = Some repo \<Longrightarrow>
     db_step e u ''handleActorPutPreferences'' (self repo) d (snd (handleActorPutPreferences (evServer e) enc repo prefs d))"
| activate:
    "account u = Some repo \<Longrightarrow>
     db_step e u ''handleServerActivateAccount'' (self repo) d
       (fst (snd (handleServerActivateAccount (evServer e) add repo (d, p))))"
| deactivate:
    "account u = Some repo \<Longrightarrow>
     db_step e u ''handleServerDeactivateAccount'' (self repo) d
       (fst (snd (handleServerDeactivateAccount (evServer e) add repo (d, p))))"
| invite_code:
    "db_step e u ''handleCreateInviteCode'' {} d (snd (handleCreateInviteCode (evServer e) code_req d))"
| invite_codes:
    "db_step e u ''handleCreateInviteCodes'' {} d (snd (handleCreateInviteCodes (evServer e) codes_req d))"
| push_request:
    "osDb st = d \<Longrightarrow> db_step e u ''handleOauthPar'' {} d (osDb (snd (handleOauthPar (evOauth e) r form st)))"
| authorize_page:
    "osDb st = d \<Longrightarrow> db_step e u ''handleOauthAuthorizeGet'' {} d
       (osDb (snd (handleOauthAuthorizeGet (evOauth e) dev (cuSess u) r st)))"
| authorize:
    "osDb st = d \<Longrightarrow> db_step e u ''handleOauthAuthorizePost'' {} d
       (osDb (snd (handleOauthAuthorizePost (evOauth e) (cuSess u) r form st)))"
| oauth_token:
    "cuForm u = Some f \<Longrightarrow> osDb st = d \<Longrightarrow> db_step e u ''handleOauthToken'' (grant_owner f d) d
       (osDb (snd (handleOauthToken (evOauth e) r (Some f) st)))"
| sign_plc:
    "account u = Some repo \<Longrightarrow>
     db_step e u ''handleSignPlcOperation'' (self repo) d (snd (handleSignPlcOperation (clId (evCreate e)) repo plc_req d))"
| update_handle:
    "account u = Some repo \<Longrightarrow> idDb s = d \<Longrightarrow> db_step e u ''handleIdentityUpdateHandle'' (self repo) d
       (idDb (snd (handleIdentityUpdateHandle (clId (evCreate e)) X repo handle_req s)))"
| supply_key:
    "account u = Some repo \<Longrightarrow> idDb s = d \<Longrightarrow> db_step e u ''handleSupplySigningKey'' (self repo) d
       (idDb (snd (handleSupplySigningKey (clId (evCreate e)) (evWeb e) (Some repo) key_req s)))"
| revoke:
    "db_step e u ''handleAccountRevoke'' (cookie_account e u d) d
       (snd (handleAccountRevoke (evServer e) can_save (cuSess u) form d))"
| compat_mode:
    "db_step e u ''handleAccountUpdateCompat'' (cookie_account e u d) d
       (snd (handleAccountUpdateCompat (evServer e) (cuSess u) switch d))"
| delete_account:
    "account u = Some repo \<Longrightarrow>
     db_step e u ''handleAccountDelete'' (self repo) d
       (fst (snd (handleAccountDelete (evServer e) (evWeb e) add can_save (cuSess u) (Some repo) del_req (d, p))))"
| create_account:
    "idDb (acId a) = d \<Longrightarrow> db_step e u ''handleCreateAccount'' (absent d) d
       (idDb (acId (snd (handleCreateAccount (evCreate e) r body a))))"
| sign_up:
    "idDb (acId a) = d \<Longrightarrow> db_step e u ''handleAccountSignupPost'' (absent d) d
       (idDb (acId (snd (handleAccountSignupPost (evCreate e) can_save (cuSess u) r form a))))"
| write_records:
    "op \<in> {''handleCreateRecord'', ''handlePutRecord'', ''handleDeleteRecord'', ''handleApplyWrites''} \<Longrightarrow>
     account u = Some repo \<Longrightarrow> urepo = raRepo repo \<Longrightarrow>
     begin_writes (clRepo (evCreate e)) (clKubo (evCreate e)) fails order rid now urepo ops rs0 =
       (Ret (AwaitSig st dbs rid' prompt), rs1) \<Longrightarrow>
     rDid urepo \<noteq> '''' \<Longrightarrow> rsDb rs = d \<Longrightarrow>
     db_step e u op {rDid urepo} d
       (rsDb (snd (finish_writes (clRepo (evCreate e)) (clKubo (evCreate e)) renv urepo st dbs answer rs)))"
| upload_blob:
    "account u = Some repo \<Longrightarrow> rsDb rs = d \<Longrightarrow> db_step e u ''handleRepoUploadBlob'' (self repo) d
       (rsDb (snd (handleRepoUploadBlob (clRepo (evCreate e)) (node_add :: 'k node_add) fails repo r body_bytes rs)))"
| import_repo:
    "account u = Some repo \<Longrightarrow> rsDb rs = d \<Longrightarrow> db_step e u ''handleRepoImportRepo'' (self repo) d
       (rsDb (snd (handleRepoImportRepo (clRepo (evCreate e)) (clKubo (evCreate e)) fails walk tid rotation car repo body_bytes rs)))"
| cleanup:
    "db_step e u ''cleanupExpiredSessions'' (expired_owners (evServer e) d) d (cleanupExpiredSessions (evServer e) d)"
| invite_command:
    "db_step e u ''create-invite-code'' {} d (snd (newCreateInviteCodeCmd X fails draw1 draw2 for_flag uses d))"
| reset_command:
    "db_step e u ''reset-password'' {did} d (snd (newResetPasswordCmd X fails bcrypt draw1 draw2 did d))"

definition env_ok :: "('c, 'm, 'k, 'key, 'doc, 'ck, 'raw, 'cm, 'p, 'dc, 'pub, 'kpub) env \<Rightarrow> bool" where
  "env_ok e \<longleftrightarrow> sHostname (evServer e) \<noteq> ''''"

text \<open>Every step keeps to its label and keeps the keys.\<close>

lemma step_within: "db_step e u op who d d' \<Longrightarrow> env_ok e \<Longrightarrow> within who d d'"
proof (induction rule: db_step.induct)
  case (create_session ident pw X d)
  then show ?case by (auto intro!: within_handleCreateSession [OF refl])
qed (auto simp: env_ok_def mail_account_def cookie_account_def intro!: within_handleRefreshSession within_handleDeleteSession within_account_handlers
    within_reset_by_mail within_handleServerUpdateEmail within_handleServerResetPassword within_invite_handlers within_request_endpoints
    within_handleOauthToken within_handleIdentityUpdateHandle within_handleSupplySigningKey
    within_handleAccountRevoke within_handleAccountUpdateCompat within_handleAccountDelete [of _ "(_, _)", simplified]
    within_handleCreateAccount within_handleAccountSignupPost within_finish_writes within_handleRepoUploadBlob
    within_handleRepoImportRepo within_cleanup within_newCreateInviteCodeCmd within_newResetPasswordCmd)

section \<open>Credentials\<close>

definition keeps_credentials :: "db \<Rightarrow> db \<Rightarrow> bool" where
  "keeps_credentials d d' \<longleftrightarrow> (\<forall>r \<in> set (repos d). \<exists>r' \<in> set (repos d'). rDid r' = rDid r \<and> credentials r' = credentials r)"

text \<open>The steps that replace credentials, or remove the account.\<close>

definition credential_changers :: "string set" where
  "credential_changers = {''handleSupplySigningKey'', ''handleServerResetPassword'', ''reset-password'', ''handleAccountDelete''}"

lemma keeps_rows: "set (repos d) \<subseteq> set (repos d') \<Longrightarrow> keeps_credentials d d'"
  by (auto simp: keeps_credentials_def)

lemma keeps_update:
  assumes "\<And>r. rDid (f r) = rDid r" and "\<And>r. credentials (f r) = credentials r"
  shows "keeps_credentials d (upd_repo did f d)"
  unfolding keeps_credentials_def
proof
  fix r
  assume "r \<in> set (repos d)"
  then show "\<exists>r' \<in> set (repos (upd_repo did f d)). rDid r' = rDid r \<and> credentials r' = credentials r"
    using assms by (intro bexI [of _ "if rDid r = did then f r else r"]) (auto simp: upd_repo_def sql_update_def)
qed

text \<open>The contract of rows, for the credentials.\<close>

interpretation creds: row_contract keeps_credentials
proof unfold_locales
  fix d d1 d2
  assume "keeps_credentials d d1" "keeps_credentials d1 d2"
  then show "keeps_credentials d d2" unfolding keeps_credentials_def by metis
qed (auto simp: keeps_credentials_def intro: keeps_rows keeps_update [unfolded keeps_credentials_def, rule_format])

lemma keeps_request_endpoints:
  "keeps_credentials (osDb st) (osDb (snd (handleOauthPar E r form st)))"
  "keeps_credentials (osDb st) (osDb (snd (handleOauthAuthorizeGet E dev sess r st)))"
  "keeps_credentials (osDb st) (osDb (snd (handleOauthAuthorizePost E sess r form st)))"
  by (rule creds.ok_request_endpoints creds.ok_authorize_post, simp add: keeps_rows)+

lemma keeps_token_endpoint: "keeps_credentials (osDb st) (osDb (snd (handleOauthToken E r (Some f) st)))"
  by (rule creds.ok_token_endpoint)
     (auto simp: token_by_code_def issue_code_token_def create_token_def token_by_refresh_def rotate_token_def Let_def
        split: if_splits option.splits sum.splits intro!: keeps_rows)

text \<open>No other step changes the credentials of any account.\<close>

lemma step_credentials: "db_step e u op who d d' \<Longrightarrow> env_ok e \<Longrightarrow> op \<notin> credential_changers \<Longrightarrow> keeps_credentials d d'"
proof (induction rule: db_step.induct)
  case (cleanup d)
  then show ?case by (auto simp: cleanupExpiredSessions_def db_exec_def Let_def creds.ok_refl intro!: keeps_rows)
next
  case (invite_command d X fails draw1 draw2 for_flag uses)
  then show ?case
    by (auto simp: newCreateInviteCodeCmd_def creds.ok_refl split: option.splits intro!: keeps_rows)
qed (auto simp: env_ok_def credential_changers_def intro!: creds.row_handlers keeps_request_endpoints keeps_token_endpoint)

section \<open>Runs\<close>

text \<open>A run: the steps with their environments, which may change from step to step, and their labels.\<close>

inductive db_run ::
  "(('c, 'm, 'k, 'key, 'doc, 'ck, 'raw, 'cm, 'p, 'dc, 'pub, 'kpub) env \<times> string \<times> string set) list \<Rightarrow> db \<Rightarrow> db \<Rightarrow> bool"
  where
  finished: "db_run [] d d"
| a_step: "db_step e u op who d d1 \<Longrightarrow> db_run steps d1 d2 \<Longrightarrow> db_run ((e, op, who) # steps) d d2"

inductive_cases db_run_ConsE: "db_run ((e, op, who) # steps) d d'"

definition all_ok :: "(('c, 'm, 'k, 'key, 'doc, 'ck, 'raw, 'cm, 'p, 'dc, 'pub, 'kpub) env \<times> string \<times> string set) list \<Rightarrow> bool" where
  "all_ok steps \<longleftrightarrow> list_all (\<lambda>(e, op, who). env_ok e) steps"

lemma run_wf: "db_run steps d d' \<Longrightarrow> all_ok steps \<Longrightarrow> db_wf d \<Longrightarrow> db_wf d'"
  by (induction rule: db_run.induct) (auto simp: all_ok_def within_def dest: step_within)


lemma all_ok_Cons [simp]: "all_ok ((e, op, who) # steps) \<longleftrightarrow> env_ok e \<and> all_ok steps"
  by (simp add: all_ok_def)

text \<open>
  C4: In any run of handlers, commands and background jobs, in any order and with any requests, the rows of an account that
  no step speaks for stay as they are: its account, actor, sessions, OAuth sessions, records and blobs.
\<close>

theorem accounts_isolated:
  assumes "db_run steps d d'" and "db_wf d" and "all_ok steps"
    and "list_all (\<lambda>(e, op, who). did \<notin> who) steps"
  shows "account_rows did d' = account_rows did d"
  using assms
proof (induction rule: db_run.induct)
  case (a_step e u op who d d1 steps d2)
  then have "within who d d1" by (auto intro: step_within)
  with a_step show ?case by (auto simp: within_def)
qed simp

text \<open>
  C10: Whatever the server has done since it started with an empty database, no two accounts have the same DID or address,
  no two actors the same handle, and no two sessions, OAuth sessions, invite codes or records the same key.
\<close>

theorem keys_always_unique:
  assumes "db_run steps emptyDb d" and "all_ok steps"
  shows "keyed rDid (repos d) \<and> keyed rEmail (repos d) \<and> keyed aDid (actors d) \<and> keyed aHandle (actors d) \<and>
    keyed tToken (tokens d) \<and> keyed rtToken (refreshTokens d) \<and> keyed otToken (oauthTokens d) \<and>
    keyed otRefreshToken (oauthTokens d) \<and> keyed icCode (inviteCodes d) \<and> keyed bID (blobs d) \<and> keyed rec_key (records d)"
proof -
  have "db_wf emptyDb" by (simp add: wf_defs emptyDb_def keyed_def)
  from run_wf [OF assms this] show ?thesis by (auto simp: wf_defs)
qed

text \<open>
  C5: The password hash, the passkey and the signing key of an account stay what they are in any run in which no passkey is
  supplied, no password reset and no account deleted on behalf of that account; the row stays too.
\<close>

theorem credentials_stable:
  assumes "db_run steps d d'" and "db_wf d" and "all_ok steps"
    and "list_all (\<lambda>(e, op, who). did \<in> who \<longrightarrow> op \<notin> credential_changers) steps"
    and "r \<in> set (repos d)" and "rDid r = did"
  shows "\<exists>r' \<in> set (repos d'). rDid r' = did \<and> credentials r' = credentials r"
  using assms
proof (induction arbitrary: r rule: db_run.induct)
  case (a_step e u op who d d1 steps d2)
  have w: "within who d d1" using a_step.hyps a_step.prems by (auto intro: step_within)
  have "\<exists>r1 \<in> set (repos d1). rDid r1 = did \<and> credentials r1 = credentials r"
  proof (cases "did \<in> who")
    case True
    with a_step.prems have "keeps_credentials d d1" by (auto intro: step_credentials [OF a_step.hyps(1)])
    with a_step.prems show ?thesis by (auto simp: keeps_credentials_def)
  next
    case False
    with w a_step.prems have "sql_select (\<lambda>x. rDid x = did) (repos d1) = sql_select (\<lambda>x. rDid x = did) (repos d)"
      by (simp add: within_def account_rows_def)
    with a_step.prems have "r \<in> set (sql_select (\<lambda>x. rDid x = did) (repos d1))" by (simp add: sql_select_def)
    with a_step.prems show ?thesis by (auto simp: sql_select_def)
  qed
  moreover have "db_wf d1" using w a_step.prems by (simp add: within_def)
  ultimately show ?case using a_step.IH a_step.prems by fastforce
qed auto

section \<open>Runs of two accounts\<close>

definition two_env :: "(unit, demo_tree, block list, unit, unit, unit, unit, unit, unit, string list, unit, unit) env" where
  "two_env = \<lparr>evCreate = cr_lib, evOauth = demo_oauth, evWeb = pg_webauthn\<rparr>"

definition two_repo :: Repo where
  "two_repo = pg_repo\<lparr>rPasswordResetCode := Some ''AAAAA-BBBBB'', rPasswordResetCodeExpiresAt := Some (200 * Second)\<rparr>"

definition other_repo :: Repo where
  "other_repo = demo_repo\<lparr>rDid := ''did:plc:b'', rEmail := ''b@x'', rPassword := ''hash''\<rparr>"

definition two_actor :: RepoActor where
  "two_actor = pg_actor\<lparr>raRepo := two_repo\<rparr>"

definition signed_as :: "RepoActor \<Rightarrow> caller" where
  "signed_as repo = \<lparr>cuCtx = noContext\<lparr>cRepo := Some repo\<rparr>, cuSess = Some [(''did'', JStr (rDid (raRepo repo)))],
     cuLogin = None, cuEmail = None, cuForm = None\<rparr>"

definition anyone :: caller where
  "anyone = \<lparr>cuCtx = noContext, cuSess = None, cuLogin = None, cuEmail = None, cuForm = None\<rparr>"

lemma signed_as [simp]: "account (signed_as repo) = Some repo" "cuSess (signed_as repo) = Some [(''did'', JStr (rDid (raRepo repo)))]"
  by (simp_all add: signed_as_def)

definition other_actor :: RepoActor where
  "other_actor = \<lparr>raRepo = other_repo, raActor = \<lparr>aDid = ''did:plc:b'', aHandle = ''b.pds''\<rparr>\<rparr>"

definition two_db :: db where
  "two_db = demo_db\<lparr>repos := [two_repo, other_repo],
     actors := [raActor pg_actor, raActor other_actor],
     tokens := [\<lparr>tToken = ''acc'', tDid = ''did:plc:b'', tRefreshToken = ''old'', tCreatedAt = 0, tExpiresAt = 0\<rparr>]\<rparr>"

lemma two_env_ok: "env_ok two_env"
  unfolding env_ok_def by code_simp

lemma two_db_wf: "db_wf two_db"
  unfolding wf_defs keyed_def by code_simp

abbreviation after_email :: db where
  "after_email \<equiv> snd (handleServerUpdateEmail (evServer two_env) two_actor (Some (''c@x'', '''')) two_db)"

abbreviation after_delete :: db where
  "after_delete \<equiv> fst (snd (handleAccountDelete (evServer two_env) (evWeb two_env) (\<lambda>_ p. (None, p)) (\<lambda>_. True)
     (Some [(''did'', JStr ''did:plc:a'')]) (Some two_actor) (Some pg_delete)
     (after_email, \<lparr>dpSeq = 0, dpRetention = 0, dpTable = [], dpSent = []\<rparr>)))"

theorem accounts_isolated_witness:
  "\<exists>d'. db_run [(two_env, ''handleServerUpdateEmail'', {''did:plc:a''}), (two_env, ''handleAccountDelete'', {''did:plc:a''})]
      two_db d' \<and> repos d' = [other_repo] \<and> account_rows ''did:plc:b'' d' = account_rows ''did:plc:b'' two_db"
proof -
  have a: "self two_actor = {''did:plc:a''}" by (simp add: two_actor_def two_repo_def pg_repo_def demo_repo_def)
  then have a': "rDid (raRepo two_actor) = ''did:plc:a''" by simp
  have run: "db_run [(two_env, ''handleServerUpdateEmail'', {''did:plc:a''}), (two_env, ''handleAccountDelete'', {''did:plc:a''})]
      two_db after_delete"
    by (rule a_step [OF db_step.update_email [OF signed_as(1) [of two_actor], of two_env, unfolded a]
        a_step [OF db_step.delete_account [OF signed_as(1) [of two_actor], of two_env, unfolded a signed_as a'] finished]])
  have "repos after_delete = [other_repo]" by code_simp
  moreover have "account_rows ''did:plc:b'' after_delete = account_rows ''did:plc:b'' two_db"
    by (rule accounts_isolated [OF run two_db_wf]) (simp_all add: two_env_ok all_ok_def)
  ultimately show ?thesis using run by blast
qed

abbreviation first_code :: db where
  "first_code \<equiv> snd (handleCreateInviteCode (evServer two_env) (Some (1, None)) emptyDb)"

abbreviation second_code :: db where
  "second_code \<equiv> snd (handleCreateInviteCode (evServer two_env) (Some (2, None)) first_code)"

abbreviation sign_up_state :: "(unit, block list) acState" where
  "sign_up_state \<equiv> cr_state\<lparr>acId := (acId cr_state)\<lparr>idDb := second_code\<rparr>\<rparr>"

abbreviation signed_up :: db where
  "signed_up \<equiv> idDb (acId (snd (handleAccountSignupPost (evCreate two_env) (\<lambda>_. True) None demo_oreq
     (Some [(''handle'', ''bob''), (''email'', ''b@x''), (''password'', ''secret''), (''invite_code'', ''u'')]) sign_up_state)))"

theorem keys_always_unique_witness:
  "\<exists>steps d. map (\<lambda>(e, op, who). op) steps = [''handleCreateInviteCode'', ''handleCreateInviteCode'', ''handleAccountSignupPost''] \<and>
     db_run (steps :: ((unit, demo_tree, block list, unit, unit, unit, unit, unit, unit, string list, unit, unit) env \<times> string \<times> string set) list) emptyDb d \<and>
     map icCode (inviteCodes d) = [''u''] \<and> keyed icCode (inviteCodes d) \<and> keyed rEmail (repos d)"
proof -
  let ?steps = "[(two_env, ''handleCreateInviteCode'', {}), (two_env, ''handleCreateInviteCode'', {}),
    (two_env, ''handleAccountSignupPost'', absent second_code)]"
  have s: "idDb (acId sign_up_state) = second_code" by simp
  have n: "cuSess anyone = None" by (simp add: anyone_def)
  have run: "db_run ?steps emptyDb signed_up"
    by (rule a_step [OF db_step.invite_code a_step [OF db_step.invite_code [of two_env]
        a_step [OF db_step.sign_up [OF s, of two_env anyone, unfolded n] finished]]])
  have "map icCode (inviteCodes signed_up) = [''u'']" by code_simp
  with run keys_always_unique [OF run] show ?thesis
    by (intro exI [of _ ?steps] exI [of _ signed_up]) (simp add: two_env_ok all_ok_def)
qed

abbreviation after_reset :: db where
  "after_reset \<equiv> snd (handleServerResetPassword (evServer two_env) two_actor (Some (''AAAAA-BBBBB'', ''new'')) two_db)"

abbreviation after_other :: db where
  "after_other \<equiv> snd (handleServerUpdateEmail (evServer two_env) other_actor (Some (''c@x'', '''')) after_reset)"

theorem credentials_stable_witness:
  "\<exists>d'. db_run [(two_env, ''handleServerResetPassword'', {''did:plc:a''}), (two_env, ''handleServerUpdateEmail'', {''did:plc:b''})]
      two_db d' \<and> map (\<lambda>r. (rPassword r, rEmail r)) (repos d') = [(''new'', ''a@x''), (''hash'', ''c@x'')] \<and>
     (\<exists>r' \<in> set (repos d'). rDid r' = ''did:plc:b'' \<and> credentials r' = credentials other_repo)"
proof -
  have a: "self two_actor = {''did:plc:a''}" by (simp add: two_actor_def two_repo_def pg_repo_def demo_repo_def)
  have b: "self other_actor = {''did:plc:b''}" by (simp add: other_actor_def other_repo_def)
  have run: "db_run [(two_env, ''handleServerResetPassword'', {''did:plc:a''}), (two_env, ''handleServerUpdateEmail'', {''did:plc:b''})]
      two_db after_other"
    by (rule a_step [OF db_step.reset_password [OF signed_as(1) [of two_actor], of two_env, unfolded a]
        a_step [OF db_step.update_email [OF signed_as(1) [of other_actor], of two_env, unfolded b] finished]])
  have "map (\<lambda>r. (rPassword r, rEmail r)) (repos after_other) = [(''new'', ''a@x''), (''hash'', ''c@x'')]"
    by (simp add: handleServerResetPassword_def handleServerUpdateEmail_def code_error_def two_db_def upd_repo_def sql_update_def
        email_taken_def db_exec_def two_actor_def other_actor_def two_env_def two_repo_def other_repo_def pg_repo_def
        demo_repo_def cr_lib_def demo_server_def)
  moreover have "\<exists>r' \<in> set (repos after_other). rDid r' = ''did:plc:b'' \<and> credentials r' = credentials other_repo"
  proof (rule credentials_stable [OF run two_db_wf])
    show "list_all (\<lambda>(e, op, who). ''did:plc:b'' \<in> who \<longrightarrow> op \<notin> credential_changers)
        [(two_env, ''handleServerResetPassword'', {''did:plc:a''}), (two_env, ''handleServerUpdateEmail'', {''did:plc:b''})]"
      by (simp add: credential_changers_def)
    show "other_repo \<in> set (repos two_db)" "rDid other_repo = ''did:plc:b''"
      by (simp_all add: two_db_def other_repo_def)
  qed (simp_all add: two_env_ok all_ok_def)
  ultimately show ?thesis by (intro exI [of _ after_other] conjI run)
qed

end
