(* ===== verification/Entitlement.thy ===== *)
theory Entitlement
  imports Deployment
begin

text \<open>
  Who may change what.  The first part follows authorization codes through runs of the whole server: a code that was
  exchanged is worthless afterwards.  The second part follows one request through the router, the guard and the handler:
  whose rows it can change, and what the caller has shown for it.
\<close>

section \<open>Authorization codes in runs\<close>

definition stays_out :: "string \<Rightarrow> db \<Rightarrow> db \<Rightarrow> bool" where
  "stays_out c d d' \<longleftrightarrow> (c \<in> issued_codes d' \<longrightarrow> c \<in> issued_codes d)"

lemma same_requests: "authRequests d' = authRequests d \<Longrightarrow> stays_out c d d'"
  by (simp add: stays_out_def issued_codes_def)

interpretation codes: row_contract "stays_out c" for c
  by unfold_locales (auto simp: stays_out_def issued_codes_def upd_repo_def)

lemma codes_request_endpoints:
  "stays_out c (osDb st) (osDb (snd (handleOauthPar E r form st)))"
  "stays_out c (osDb st) (osDb (snd (handleOauthAuthorizeGet E dev sess r st)))"
  by (rule codes.ok_request_endpoints, simp add: stays_out_def issued_codes_def)+

lemma codes_authorize_post:
  "GenerateCode (olRandom E 0) \<noteq> Some c \<Longrightarrow> stays_out c (osDb st) (osDb (snd (handleOauthAuthorizePost E sess r form st)))"
  by (rule codes.ok_authorize_post) (auto simp: stays_out_def issued_codes_def sql_update_def split: if_splits)

lemma codes_token_endpoint: "stays_out c (osDb st) (osDb (snd (handleOauthToken E r (Some f) st)))"
  by (rule codes.ok_token_endpoint)
     (auto simp: token_by_code_def issue_code_token_def create_token_def token_by_refresh_def rotate_token_def Let_def
        stays_out_def issued_codes_def sql_delete_def split: if_splits option.splits sum.splits)

lemma codes_credential_handlers:
  "stays_out c d (snd (handleServerResetPassword sv repo req d))"
  "stays_out c (idDb s) (idDb (snd (handleSupplySigningKey I W (Some repo) key_req s)))"
  "stays_out c d (snd (newResetPasswordCmd X fails bcrypt draw1 draw2 did d))"
  by (auto simp: handleServerResetPassword_def handleSupplySigningKey_def newResetPasswordCmd_def db_exec_def upd_repo_def
      split: option.splits sum.splits prod.splits dest!: transfer_db intro!: same_requests)

lemma codes_delete_account:
  "stays_out c (fst s) (fst (snd (handleAccountDelete sv W add can_save sess (Some repo) req s)))"
proof -
  have "stays_out c (fst s) (fst s')" if "deleteAccountByDid sv add did s = (e, s')" for did e s'
  proof (cases "run_statements (sFails sv) (delete_statements did) (fst s)")
    case (Inr d')
    have "stays_out c x (f x)" if "(l, f) \<in> set (delete_statements did)" for l f x
      using that by (auto simp: delete_statements_def intro: same_requests)
    with Inr have "stays_out c (fst s) d'" by (rule codes.ok_statements)
    with Inr that show ?thesis by (auto simp: deleteAccountByDid_def codes.ok_refl split: if_splits)
  qed (use that in \<open>auto simp: deleteAccountByDid_def codes.ok_refl split: if_splits\<close>)
  then show ?thesis
    by (auto simp: handleAccountDelete_def Let_def codes.ok_refl split: option.splits sum.splits prod.splits)
qed

lemma step_codes:
  "db_step e u op who d d' \<Longrightarrow> env_ok e \<Longrightarrow> op = ''handleOauthAuthorizePost'' \<longrightarrow> GenerateCode (olRandom (evOauth e) 0) \<noteq> Some c \<Longrightarrow>
   stays_out c d d'"
proof (induction rule: db_step.induct)
  case (cleanup d)
  then show ?case by (auto simp: cleanupExpiredSessions_def db_exec_def Let_def intro!: same_requests)
next
  case (invite_command d X fails draw1 draw2 for_flag uses)
  then show ?case by (auto simp: newCreateInviteCodeCmd_def split: option.splits intro!: same_requests)
qed (auto simp: env_ok_def intro!: codes.row_handlers codes_request_endpoints codes_authorize_post codes_token_endpoint
    codes_credential_handlers codes_delete_account [of _ "(_, _)", simplified])

lemma run_codes:
  assumes "db_run steps d d'" and "all_ok steps"
    and "list_all (\<lambda>(e, op, who). op = ''handleOauthAuthorizePost'' \<longrightarrow> GenerateCode (olRandom (evOauth e) 0) \<noteq> Some c) steps"
    and "c \<notin> issued_codes d"
  shows "c \<notin> issued_codes d'"
  using assms
proof (induction rule: db_run.induct)
  case (a_step e u op who d d1 steps d2)
  then have "stays_out c d d1" by (auto intro: step_codes)
  with a_step show ?case by (auto simp: stays_out_def)
qed simp

text \<open>
  C17: a code buys one token.  Once it has been exchanged, no request for the same code succeeds after any run of the
  server in between, whoever sends it and whatever proof comes with it, as long as the random source does not draw the
  very same code again for an authorization in that run.  Others may file and authorize requests in the meantime.
\<close>

theorem code_single_use:
  assumes "handleOauthToken E r (Some f) st = (w, st')" and "status_of w = 200"
    and "get_value f ''grant_type'' = ''authorization_code''" and "opt_value f ''code'' = Some c"
    and "db_run steps (osDb st') (osDb st2)" and "all_ok steps"
    and "list_all (\<lambda>(e, op, who). op = ''handleOauthAuthorizePost'' \<longrightarrow> GenerateCode (olRandom (evOauth e) 0) \<noteq> Some c) steps"
    and "get_value f2 ''grant_type'' = ''authorization_code''" and "opt_value f2 ''code'' = Some c"
  shows "status_of (fst (handleOauthToken E2 r2 (Some f2) st2)) \<noteq> 200"
proof
  obtain w2 st2' where h: "handleOauthToken E2 r2 (Some f2) st2 = (w2, st2')" by force
  assume "status_of (fst (handleOauthToken E2 r2 (Some f2) st2)) = 200"
  then have "c \<in> issued_codes (osDb st2)" using exchange_takes_code(1) [OF h _ assms(8,9)] by (simp add: h)
  moreover have "c \<notin> issued_codes (osDb st')" using exchange_takes_code(2) [OF assms(1-4)] by simp
  ultimately show False using run_codes [OF assms(5-7)] by blast
qed


section \<open>One request on its way\<close>

text \<open>
  What a request may change without a guard that finds an account: a log-in with the account's password opens a session
  of it; whoever knows the address of an account has a new reset code written into its row; the cookie's account loses
  an OAuth session; an authorization code or a refresh token of the account is exchanged; an account is made that was not
  there.
\<close>

definition public_change ::
  "('c, 'm, 'k, 'key, 'doc, 'ck, 'raw, 'cm, 'p, 'dc, 'pub, 'kpub) env \<Rightarrow> caller \<Rightarrow> string \<Rightarrow> string \<Rightarrow> db \<Rightarrow> db \<Rightarrow> bool" where
  "public_change e u h did d d' \<longleftrightarrow>
     (h = ''handleCreateSession'' \<and> (\<exists>ident pw. cuLogin u = Some (ident, pw) \<and> did = rDid (raRepo (login_account e ident d)) \<and>
        sBcryptOk (evServer e) (rPassword (raRepo (login_account e ident d))) pw \<and>
        d' = d\<lparr>tokens := tokens d', refreshTokens := refreshTokens d'\<rparr>)) \<or>
     (h = ''handleServerRequestPasswordReset'' \<and> (\<exists>email c t. cuEmail u = Some email \<and> did \<in> mail_account e email d \<and>
        d' = upd_repo did (\<lambda>x. x\<lparr>rPasswordResetCode := Some c, rPasswordResetCodeExpiresAt := Some t\<rparr>) d)) \<or>
     (h = ''handleAccountRevoke'' \<and> did \<in> cookie_account e u d \<and> d' = d\<lparr>oauthTokens := oauthTokens d'\<rparr>) \<or>
     (h = ''handleOauthToken'' \<and> (\<exists>f. cuForm u = Some f \<and> did \<in> grant_owner f d)) \<or>
     (h \<in> {''handleCreateAccount'', ''handleAccountSignupPost''} \<and> did \<in> absent d)"

text \<open>What it may change with the account of its guard: its own rows, and for two handlers those of its session token.\<close>

definition own_change :: "reqContext \<Rightarrow> string \<Rightarrow> string \<Rightarrow> db \<Rightarrow> bool" where
  "own_change ctx h did d \<longleftrightarrow>
     (\<exists>repo. cRepo ctx = Some repo \<and> did = rDid (raRepo repo)) \<or>
     (h \<in> {''handleRefreshSession'', ''handleDeleteSession''} \<and> (\<exists>token. cToken ctx = Some token \<and> did \<in> session_owners token d))"

lemma createSession_tables:
  "createSession sv r d = (res, d') \<Longrightarrow> d' = d\<lparr>tokens := tokens d', refreshTokens := refreshTokens d'\<rparr>"
  by (auto simp: createSession_def Let_def split: sum.splits dest!: db_create_Inr)

lemma handleCreateSession_change:
  assumes "snd (handleCreateSession sv is_did is_handle (Some (ident, pw)) d) = d'" and "d' \<noteq> d"
  shows "sBcryptOk sv (rPassword (raRepo (find_login is_did is_handle (ToLower ident) d))) pw \<and>
    d' = d\<lparr>tokens := tokens d', refreshTokens := refreshTokens d'\<rparr>"
  using assms by (auto simp: handleCreateSession_def Let_def split: if_splits sum.splits prod.splits dest: createSession_tables)

lemma reset_by_mail_change:
  assumes "snd (handleServerRequestPasswordReset sv mail draw1 draw2 None (Some email) d) = d'" and "d' \<noteq> d"
  shows "\<exists>repo c t. getRepoActorByEmail (sFails sv) d email = Inr repo \<and>
    d' = upd_repo (rDid (raRepo repo)) (\<lambda>x. x\<lparr>rPasswordResetCode := Some c, rPasswordResetCodeExpiresAt := Some t\<rparr>) d"
  using assms
  by (auto simp: handleServerRequestPasswordReset_def send_code_def db_exec_def Let_def split: if_splits option.splits sum.splits)

lemma handleAccountRevoke_change:
  "snd (handleAccountRevoke sv can_save sess form d) = d' \<Longrightarrow> d' = d\<lparr>oauthTokens := oauthTokens d'\<rparr>"
  by (auto simp: handleAccountRevoke_def db_exec_def split: option.splits sum.splits if_splits)

lemma public_reset:
  assumes "cuEmail u = Some email" and "did \<in> mail_account e email d"
  shows "public_change e u ''handleServerRequestPasswordReset'' did d
    (upd_repo did (\<lambda>x. x\<lparr>rPasswordResetCode := Some c, rPasswordResetCodeExpiresAt := Some t\<rparr>) d)"
proof -
  have "\<exists>email' c' t'. cuEmail u = Some email' \<and> did \<in> mail_account e email' d \<and>
      upd_repo did (\<lambda>x. x\<lparr>rPasswordResetCode := Some c, rPasswordResetCodeExpiresAt := Some t\<rparr>) d =
      upd_repo did (\<lambda>x. x\<lparr>rPasswordResetCode := Some c', rPasswordResetCodeExpiresAt := Some t'\<rparr>) d"
    using assms by (intro exI [of _ email] exI [of _ c] exI [of _ t]) simp
  then show ?thesis by (simp add: public_change_def)
qed

text \<open>Every step that changes rows of an account is one of these, or no request.\<close>

definition background :: "string list" where
  "background = [''cleanupExpiredSessions'', ''create-invite-code'', ''reset-password'']"

definition public_changers :: "string list" where
  "public_changers = [''handleCreateSession'', ''handleServerRequestPasswordReset'', ''handleAccountRevoke'', ''handleOauthToken'',
     ''handleCreateAccount'', ''handleAccountSignupPost'']"

lemma public_change_handler: "public_change e u h did d d' \<Longrightarrow> h \<in> set public_changers"
  unfolding public_change_def public_changers_def by (elim disjE conjE) simp_all

lemma step_entitled:
  assumes "db_step e u h who d d'" and "env_ok e" and "db_wf d" and "account_rows did d' \<noteq> account_rows did d"
    and "h \<notin> set background"
  shows "own_change (cuCtx u) h did d \<or> (h = ''handleAccountUpdateCompat'' \<and> did \<in> cookie_account e u d) \<or>
    public_change e u h did d d'"
proof -
  have did: "did \<in> who" using step_within [OF assms(1,2)] assms(3,4) by (auto simp: within_def)
  have ne: "d' \<noteq> d" using assms(4) by auto
  have own: "own_change (cuCtx u) h did d" if "account u = Some repo" "who = self repo" for repo
    using did that by (simp add: own_change_def)
  have token: "public_change e u h did d d'" if "h = ''handleOauthToken''" "cuForm u = Some f" "who = grant_owner f d" for f
    using did that by (simp add: public_change_def)
  have new: "public_change e u h did d d'" if "h = ''handleCreateAccount'' \<or> h = ''handleAccountSignupPost''" "who = absent d"
    using did that by (auto simp: public_change_def)
  have compat: ?thesis if "h = ''handleAccountUpdateCompat''" "who = cookie_account e u d"
    using did that by simp
  have nobody: ?thesis if "who = {}" using did that by simp
  have job: ?thesis if "h \<in> {''cleanupExpiredSessions'', ''create-invite-code'', ''reset-password''}"
    using assms(5) that by (simp add: background_def)
  from assms(1) show ?thesis
  proof cases
    case (create_session ident pw X)
    with did ne handleCreateSession_change [of "evServer e" "isDid X" "isHandle X" ident pw d d'] show ?thesis
      by (simp add: public_change_def)
  next
    case (password_reset_code email mail draw1 draw2)
    with ne obtain repo c t where r: "getRepoActorByEmail (sFails (evServer e)) d email = Inr repo"
      "d' = upd_repo (rDid (raRepo repo)) (\<lambda>x. x\<lparr>rPasswordResetCode := Some c, rPasswordResetCodeExpiresAt := Some t\<rparr>) d"
      using reset_by_mail_change [of "evServer e" mail draw1 draw2 email d d'] by blast
    then have m: "mail_account e email d = {rDid (raRepo repo)}" by (simp add: mail_account_def)
    with did password_reset_code(2) have "did \<in> mail_account e email d" "did = rDid (raRepo repo)" by simp_all
    with public_reset [OF password_reset_code(5), of did e d t c] r(2) password_reset_code(1) show ?thesis by simp
  next
    case (revoke can_save form)
    with did handleAccountRevoke_change [of "evServer e" can_save "cuSess u" form d d'] show ?thesis
      by (simp add: public_change_def)
  next
    case (refresh_session repo token)
    with did show ?thesis by (simp add: own_change_def)
  next
    case (delete_session token)
    with did show ?thesis by (simp add: own_change_def)
  next
    case write_records
    with own show ?thesis by blast
  qed ((rule disjI1, rule own, assumption, assumption) |
    (rule disjI2, rule disjI2, rule token, assumption, assumption, assumption) |
    (rule disjI2, rule disjI2, rule new, rule disjI1, assumption, assumption) |
    (rule disjI2, rule disjI2, rule new, rule disjI2, assumption, assumption) | rule compat, assumption, assumption |
    rule nobody, assumption | rule job, simp)+
qed

text \<open>The table of routes: public changes have no guard, the others have one that finds an account.\<close>

lemma background_routes: "list_all (\<lambda>(rm, pat, g, h). h \<in> set background \<longrightarrow> False) routes"
  by code_simp

lemma public_routes: "list_all (\<lambda>(rm, pat, g, h). h \<in> set public_changers \<longrightarrow> g = Public \<or> g = DpopBase) routes"
  by code_simp

lemma compat_routes: "list_all (\<lambda>(rm, pat, g, h). h \<in> set [''handleAccountUpdateCompat''] \<longrightarrow> g = WebSession) routes"
  by code_simp

lemma admit_without_account:
  assumes "admit sv J L basic sess r d dm g = (Pass ctx, dm')" and "g \<notin> {WebSession, Authed}"
  shows "ctx = noContext"
  using assms by (cases g) (auto simp: admit_def handleAdminMiddleware_def split: option.splits if_splits)

lemma web_session_cookie:
  assumes "admit sv J L basic sess r d dm WebSession = (Pass ctx, dm')" and "getSessionRepoOrErr sv sess d = Inr repo"
  shows "cRepo ctx = Some repo"
  using assms by (auto simp: admit_def handleWebSessionMiddleware_def getSessionRepoOrErr_def split: option.splits if_splits sum.splits)

text \<open>The handler runs at most once, behind its guard; everything else leaves the database alone.\<close>

lemma serve_cases:
  assumes "out = serve sv J L rt run db_of basic sess path r (s, dm)" and "rt (qMethod r) (strip_slash path) = Inr (g, h)"
  obtains (kept) "fst (snd out) = s"
  | (handled) ctx dm1 dm2 where "admit sv J L basic sess r (db_of s) dm g = (Pass ctx, dm1)"
      and "fst (snd out) = fst (snd (run h ctx (s, dm2)))"
proof (cases "qMethod r = ''OPTIONS''")
  case True
  with assms show thesis by (intro kept) (simp add: serve_def)
next
  case False
  obtain v dm1 where a: "admit sv J L basic sess r (db_of s) dm g = (v, dm1)" by fastforce
  show thesis
  proof (cases v)
    case (Stop w)
    with False a assms show thesis by (intro kept) (simp add: serve_def)
  next
    case (Pass ctx)
    show thesis
    proof (cases "g = DpopBase")
      case True
      obtain nonce n where n: "NextNonce (hmacSha256 L) (sNow sv) (dmNonce dm1) = (nonce, n)" by fastforce
      with False True a Pass assms show thesis
        by (intro handled [of ctx dm1 "dm1\<lparr>dmNonce := n\<rparr>"]) (simp_all add: serve_def BaseMiddleware_def split_beta)
    next
      case g: False
      with False a Pass assms show thesis by (intro handled [of ctx dm1 dm1]) (auto simp: serve_def split_beta)
    qed
  qed
qed


text \<open>
  C35: Whatever is asked of the server, a request changes rows of an account only in one of these ways.  Its route has a
  guard that found an account in the database, and the rows are that account's own, or those of the session token the guard
  accepted when the request refreshes or ends a session.  Or its route is public, and the caller logged in with the password
  of the account; or asked by the account's address for a password reset, which changes the stored reset code and its expiry
  and nothing else; or has the cookie of the account and ends one of its OAuth sessions; or exchanged an authorization code or
  a refresh token of the account; or the account did not exist before.  The handlers are those of the model, in any
  environment.
\<close>

theorem account_changes_entitled:
  assumes "serves rt routes" and "rt (qMethod r) (strip_slash path) = Inr (g, h)" and "env_ok e" and "db_wf (db_of s)"
    and "\<And>ctx dm'. db_of (fst (snd (run h ctx (s, dm')))) = db_of s \<or>
      (\<exists>who. db_step e (u\<lparr>cuCtx := ctx, cuSess := sess\<rparr>) h who (db_of s) (db_of (fst (snd (run h ctx (s, dm'))))))"
    and "out = serve (evServer e) J L rt run db_of basic sess path r (s, dm)"
    and "account_rows did (db_of (fst (snd out))) \<noteq> account_rows did (db_of s)"
  shows "\<exists>ctx dm1. admit (evServer e) J L basic sess r (db_of s) dm g = (Pass ctx, dm1) \<and>
    (if g \<in> {WebSession, Authed}
     then (\<exists>repo. cRepo ctx = Some repo \<and> raRepo repo \<in> set (repos (db_of s))) \<and> own_change ctx h did (db_of s)
     else public_change e (u\<lparr>cuCtx := ctx, cuSess := sess\<rparr>) h did (db_of s) (db_of (fst (snd out))))"
proof (rule serve_cases [OF assms(6,2)])
  assume "fst (snd out) = s"
  with assms(7) show ?thesis by simp
next
  fix ctx dm1 dm2
  assume a: "admit (evServer e) J L basic sess r (db_of s) dm g = (Pass ctx, dm1)"
    and o: "fst (snd out) = fst (snd (run h ctx (s, dm2)))"
  let ?u = "u\<lparr>cuCtx := ctx, cuSess := sess\<rparr>"
  obtain who where st: "db_step e ?u h who (db_of s) (db_of (fst (snd out)))"
    using assms(5) [of ctx dm2] assms(7) unfolding o by auto
  obtain rm pat where rt: "(rm, pat, g, h) \<in> set routes" using assms(1,2) unfolding serves_def by blast
  have "h \<notin> set background" using background_routes rt by (auto simp: list_all_iff)
  from step_entitled [OF st assms(3,4,7) this]
  have c: "own_change ctx h did (db_of s) \<or> (h = ''handleAccountUpdateCompat'' \<and> did \<in> cookie_account e ?u (db_of s)) \<or>
    public_change e ?u h did (db_of s) (db_of (fst (snd out)))" by simp
  show ?thesis
  proof (cases "g \<in> {WebSession, Authed}")
    case True
    have "\<not> public_change e ?u h did (db_of s) (db_of (fst (snd out)))"
      using True rt public_routes by (auto simp: list_all_iff dest!: public_change_handler)
    moreover have "own_change ctx h did (db_of s)" if "h = ''handleAccountUpdateCompat''" "did \<in> cookie_account e ?u (db_of s)"
    proof -
      have "g = WebSession" using that(1) rt compat_routes by (auto simp: list_all_iff)
      with that(2) a show ?thesis by (auto simp: cookie_account_def own_change_def dest: web_session_cookie)
    qed
    ultimately have "own_change ctx h did (db_of s)" using c by blast
    with True a admit_account [OF a] show ?thesis by auto
  next
    case False
    have "ctx = noContext" using admit_without_account [OF a False] .
    then have "\<not> own_change ctx h did (db_of s)" by (auto simp: own_change_def noContext_def)
    moreover have "h \<noteq> ''handleAccountUpdateCompat''" using False rt compat_routes by (auto simp: list_all_iff)
    ultimately show ?thesis using a c False by auto
  qed
qed


section \<open>Two accounts\<close>

text \<open>Between the two attempts an invite code is made and an account authorizes a client.\<close>

theorem code_single_use_witness:
  "\<exists>st' st2. handleOauthToken demo_oauth demo_oreq (Some demo_token_form) demo_ostate =
       (fst (handleOauthToken demo_oauth demo_oreq (Some demo_token_form) demo_ostate), st') \<and>
     db_run [(two_env, ''handleCreateInviteCode'', {}), (two_env, ''handleOauthAuthorizePost'', {})] (osDb st') (osDb st2) \<and>
     status_of (fst (handleOauthToken demo_oauth demo_oreq (Some demo_token_form) demo_ostate)) = 200 \<and>
     status_of (fst (handleOauthToken demo_oauth demo_oreq (Some demo_token_form) st2)) \<noteq> 200"
proof -
  let ?steps = "[(two_env, ''handleCreateInviteCode'', {}), (two_env, ''handleOauthAuthorizePost'', {})]"
  obtain w st' where h: "handleOauthToken demo_oauth demo_oreq (Some demo_token_form) demo_ostate = (w, st')" by force
  have s: "status_of w = 200" using demo_code_grant by (simp add: h)
  have g: "get_value demo_token_form ''grant_type'' = ''authorization_code''" "opt_value demo_token_form ''code'' = Some ''cod-1''"
    by code_simp+
  define st1 where "st1 = st'\<lparr>osDb := snd (handleCreateInviteCode (evServer two_env) (Some (1, None)) (osDb st'))\<rparr>"
  define st2 where "st2 = snd (handleOauthAuthorizePost (evOauth two_env) (cuSess (signed_as two_actor)) demo_oreq
    (Some [(''request_uri'', EncodeRequestUri ''req-2''), (''accept_or_reject'', ''accept'')]) st1)"
  have run: "db_run ?steps (osDb st') (osDb st2)"
    unfolding st2_def
    by (rule a_step [OF _ a_step [OF db_step.authorize finished]], rule db_step.invite_code) (simp add: st1_def)
  have "GenerateCode (olRandom (evOauth two_env) 0) \<noteq> Some ''cod-1''" by code_simp
  then have "list_all (\<lambda>(e, op, who). op = ''handleOauthAuthorizePost'' \<longrightarrow> GenerateCode (olRandom (evOauth e) 0) \<noteq> Some ''cod-1'') ?steps"
    by simp
  moreover have "all_ok ?steps" by (simp add: two_env_ok all_ok_def)
  ultimately have "status_of (fst (handleOauthToken demo_oauth demo_oreq (Some demo_token_form) st2)) \<noteq> 200"
    using code_single_use [OF h s g run _ _ g, of demo_oauth demo_oreq] by blast
  with h s run show ?thesis by (intro exI [of _ st'] exI [of _ st2]) simp
qed

text \<open>Anybody may ask for a password reset by an address: the row of its account gets a code.\<close>

definition reset_run :: "string \<Rightarrow> reqContext \<Rightarrow> db \<times> string list dpopManager \<Rightarrow> outcome \<times> db \<times> string list dpopManager" where
  "reset_run h ctx s = (let (w, d) = handleServerRequestPasswordReset (evServer two_env) None (\<lambda>_. Some 0) (\<lambda>_. Some 1)
     (cRepo ctx) (Some ''b@x'') (fst s) in (w, d, snd s))"

abbreviation reset_path :: string where
  "reset_path \<equiv> ''/xrpc/com.atproto.server.requestPasswordReset''"

abbreviation reset_out :: "outcome \<times> db \<times> string list dpopManager" where
  "reset_out \<equiv> serve (evServer two_env) demo_jwt demo_lib first_route reset_run (\<lambda>d. d) None None reset_path (demo_request reset_path [])
     (two_db, demo_manager)"

theorem account_changes_entitled_witness:
  "account_rows ''did:plc:b'' (fst (snd reset_out)) \<noteq> account_rows ''did:plc:b'' two_db \<and>
   public_change two_env (anyone\<lparr>cuEmail := Some ''b@x''\<rparr>) ''handleServerRequestPasswordReset'' ''did:plc:b'' two_db (fst (snd reset_out))"
proof -
  let ?u = "anyone\<lparr>cuEmail := Some ''b@x''\<rparr>" and ?h = "''handleServerRequestPasswordReset''"
  have rt: "first_route (qMethod (demo_request reset_path [])) (strip_slash reset_path) = Inr (Public, ?h)" by code_simp
  have "map rPasswordResetCode (repos two_db) = [Some ''AAAAA-BBBBB'', None]" by code_simp
  have before: "map rPasswordResetCode (fst (account_rows ''did:plc:b'' two_db)) = [None]" by code_simp
  have "map rPasswordResetCode (fst (account_rows ''did:plc:b'' (fst (snd reset_out)))) \<noteq> [None]" by code_simp
  with before have ch: "account_rows ''did:plc:b'' (fst (snd reset_out)) \<noteq> account_rows ''did:plc:b'' two_db" by metis
  have step: "\<exists>who. db_step two_env (?u\<lparr>cuCtx := ctx, cuSess := None\<rparr>) ?h who two_db (fst (snd (reset_run ?h ctx (two_db, dm))))"
    for ctx dm
  proof (cases "cRepo ctx")
    case None
    have "db_step two_env (?u\<lparr>cuCtx := ctx, cuSess := None\<rparr>) ?h (mail_account two_env ''b@x'' two_db) two_db
       (snd (handleServerRequestPasswordReset (evServer two_env) None (\<lambda>_. Some 0) (\<lambda>_. Some 1) None (Some ''b@x'') two_db))"
      by (rule db_step.password_reset_code) (simp_all add: None)
    with None show ?thesis by (auto simp: reset_run_def split_beta)
  next
    case (Some repo)
    have "db_step two_env (?u\<lparr>cuCtx := ctx, cuSess := None\<rparr>) ?h (self repo) two_db
       (snd (handleServerRequestPasswordReset (evServer two_env) None (\<lambda>_. Some 0) (\<lambda>_. Some 1) (Some repo) (Some ''b@x'') two_db))"
      by (rule db_step.password_reset_own) (simp add: Some)
    with Some show ?thesis by (auto simp: reset_run_def split_beta)
  qed
  have "\<exists>ctx dm1. admit (evServer two_env) demo_jwt demo_lib None None (demo_request reset_path []) two_db demo_manager Public = (Pass ctx, dm1) \<and>
    (if Public \<in> {WebSession, Authed}
     then (\<exists>repo. cRepo ctx = Some repo \<and> raRepo repo \<in> set (repos two_db)) \<and> own_change ctx ?h ''did:plc:b'' two_db
     else public_change two_env (?u\<lparr>cuCtx := ctx, cuSess := None\<rparr>) ?h ''did:plc:b'' two_db (fst (snd reset_out)))"
    by (rule account_changes_entitled [OF first_route_serves rt two_env_ok _ _ refl]) (use ch step two_db_wf in simp_all)
  then obtain ctx where "public_change two_env (?u\<lparr>cuCtx := ctx, cuSess := None\<rparr>) ?h ''did:plc:b'' two_db (fst (snd reset_out))"
    and "ctx = noContext"
    by (auto simp: admit_def)
  moreover have "?u\<lparr>cuCtx := noContext, cuSess := None\<rparr> = ?u" by (simp add: anyone_def)
  ultimately show ?thesis using ch by simp
qed

end
