(* ===== verification/Upkeep.thy ===== *)
theory Upkeep
  imports VowServer RepoHandlers RepoWrites
begin

text \<open>
  What the server keeps beside its answers: the counters of metrics/metrics.go, the removal of pins of
  server/ipfs.go, the jobs Serve leaves running (server/server.go), the signing method registered in
  server/service_auth.go, and records looked up through the app view.
\<close>

section \<open>Counters\<close>

text \<open>A vector of counters: one for each list of label values.\<close>

type_synonym counters = "string list \<Rightarrow> int"

definition Inc :: "string list \<Rightarrow> counters \<Rightarrow> counters" where
  "Inc ls m = m(ls := m ls + 1)"

definition Dec :: "string list \<Rightarrow> counters \<Rightarrow> counters" where
  "Dec ls m = m(ls := m ls - 1)"

record metrics =
  RelaysConnected :: counters
  RelaySends :: counters
  RepoOperations :: counters

lemma Inc_other [simp]: "l \<noteq> l' \<Longrightarrow> Inc l m l' = m l'"
  by (simp add: Inc_def)

lemma Dec_other [simp]: "l \<noteq> l' \<Longrightarrow> Dec l m l' = m l'"
  by (simp add: Dec_def)

lemma count_up: "fold Inc ls m l = m l + int (count_list ls l)"
  by (induction ls arbitrary: m) (auto simp: Inc_def)

subsection \<open>Relays\<close>

text \<open>
  The type each turn of the event loop is counted under: what the header says when the turn ends, whether or not its
  frame went out.
\<close>

definition turn_header :: "EventHeader \<Rightarrow> stream_event \<Rightarrow> conn_turn \<Rightarrow> EventHeader" where
  "turn_header h e t =
     (if t = NoWriter \<or> t = CtxCancelled then h else (case frame_header h e of None \<Rightarrow> h | Some h' \<Rightarrow> h'))"

fun send_types :: "(stream_event \<times> conn_turn) list \<Rightarrow> EventHeader \<Rightarrow> string list" where
  "send_types [] h = []"
| "send_types ((e, t) # es) h = (let h1 = turn_header h e t in ehMsgType h1 # send_types es h1)"

definition relay_connects :: "string \<Rightarrow> metrics \<Rightarrow> metrics" where
  "relay_connects ident m = m\<lparr>RelaysConnected := Inc [ident] (RelaysConnected m)\<rparr>"

definition relay_leaves :: "string \<Rightarrow> metrics \<Rightarrow> metrics" where
  "relay_leaves ident m = m\<lparr>RelaysConnected := Dec [ident] (RelaysConnected m)\<rparr>"

definition relay_sends :: "string \<Rightarrow> (stream_event \<times> conn_turn) list \<Rightarrow> metrics \<Rightarrow> metrics" where
  "relay_sends ident evts m = m\<lparr>RelaySends :=
     fold Inc (map (\<lambda>ty. [ident, ty]) (send_types evts \<lparr>ehOp = EvtKindMessage, ehMsgType = ''''\<rparr>)) (RelaySends m)\<rparr>"

text \<open>
  A subscription as the counters see it; the decrement is deferred, so it comes after the events and after a refused
  subscription.
\<close>

definition subscription_metrics ::
  "bool \<Rightarrow> (int option \<Rightarrow> goerr + (stream_event \<times> conn_turn) list) \<Rightarrow> string \<Rightarrow> request \<Rightarrow> metrics \<Rightarrow> metrics" where
  "subscription_metrics upgraded subscribe ident r m =
     (let c = get_value (qQuery r) ''cursor''; since = (if c = '''' then None else ParseInt 64 c) in
      if \<not> upgraded then m
      else (case subscribe since of
              Inl e \<Rightarrow> relay_leaves ident (relay_connects ident m)
            | Inr evts \<Rightarrow> relay_leaves ident (relay_sends ident evts (relay_connects ident m))))"

lemma relay_gone: "Dec ls (Inc ls m) = m"
  by (simp add: Inc_def Dec_def)

text \<open>After a subscription no connection is counted that was not before.\<close>

lemma subscription_gauge: "RelaysConnected (subscription_metrics upgraded subscribe ident r m) = RelaysConnected m"
  by (simp add: subscription_metrics_def relay_leaves_def relay_sends_def relay_connects_def relay_gone Let_def split: sum.split)

text \<open>The frames of a type that went out to a relay are all counted, and a turn that sent nothing is counted as well.\<close>

lemma frames_counted:
  "count_list (map (\<lambda>(h, _). ehMsgType h) (write_events evts h)) ty \<le> count_list (send_types evts h) ty"
proof (induction evts h rule: send_types.induct)
  case (2 e t es h)
  then show ?case by (auto simp: turn_header_def Let_def split: option.splits)
qed simp

lemma turns_counted: "length (send_types evts h) = length evts"
  by (induction evts h rule: send_types.induct) (simp_all add: Let_def)

lemma subscription_counts_frames:
  assumes "handleSyncSubscribeRepos upgraded subscribe r = (frames, crawl)"
  shows "RelaySends m [ident, ty] + int (count_list (map (\<lambda>(h, _). ehMsgType h) frames) ty)
    \<le> RelaySends (subscription_metrics upgraded subscribe ident r m) [ident, ty]"
proof -
  have "count_list (map (\<lambda>ty. [ident, ty]) tys) [ident, ty] = count_list tys ty" for tys :: "string list"
    by (induction tys) auto
  with assms show ?thesis
    by (auto simp: handleSyncSubscribeRepos_def subscription_metrics_def relay_leaves_def relay_sends_def relay_connects_def
        count_up frames_counted Let_def split: if_splits sum.splits)
qed

text \<open>Connections of several relays that come and go in any order: the gauge of a relay is the number it has open.\<close>

datatype relay_event = Connects string | Leaves string

fun relay_step :: "relay_event \<Rightarrow> metrics \<Rightarrow> metrics" where
  "relay_step (Connects i) = relay_connects i"
| "relay_step (Leaves i) = relay_leaves i"

lemma gauge_counts_open:
  "RelaysConnected (fold relay_step es m) [i] =
     RelaysConnected m [i] + int (count_list es (Connects i)) - int (count_list es (Leaves i))"
proof (induction es arbitrary: m)
  case (Cons x es)
  show ?case unfolding fold_Cons o_apply Cons.IH
    by (cases x) (auto simp: relay_connects_def relay_leaves_def Inc_def Dec_def)
qed simp

subsection \<open>Repository operations\<close>

text \<open>The results of a write are counted once its commit is finalised, before anything of it is stored in the database.\<close>

definition finalised :: "'m repoLib \<Rightarrow> 'k kubo \<Rightarrow> pendingCommitState \<Rightarrow> string \<Rightarrow> bytes \<Rightarrow> 'k \<Rightarrow> bool" where
  "finalised L K st did sg k =
     (case put_all (replay_put L (Rec_Put K)) (pcWriteLog st) (newRecordingBlockstoreForRepo did, k) of
        (Some e, s1) \<Rightarrow> False
      | (None, s1) \<Rightarrow> \<not> isl (fst (finaliseCommit L (Rec_Put K) None \<lparr>ucCbor = pcUnsignedCBOR st, ucRev = pcRev st\<rparr> sg s1)))"

definition operation_labels :: "ApplyWriteResult list \<Rightarrow> string list list" where
  "operation_labels rs = map (\<lambda>ty. [ty]) (List.map_filter awType rs)"

definition write_metrics ::
  "'m repoLib \<Rightarrow> 'k kubo \<Rightarrow> pendingCommitState \<Rightarrow> string \<Rightarrow> bytes \<Rightarrow> 'k \<Rightarrow> metrics \<Rightarrow> metrics" where
  "write_metrics L K st did sg k m =
     (if finalised L K st did sg k
      then m\<lparr>RepoOperations := fold Inc (operation_labels (pcResults st)) (RepoOperations m)\<rparr> else m)"

lemma stored_is_finalised: "store_commit L K st did sg dbs k = (Inr x, k') \<Longrightarrow> finalised L K st did sg k"
  by (auto simp: store_commit_def finalised_def split: prod.splits option.splits sum.splits)

text \<open>Every operation of a write that succeeds is counted under its type.\<close>

lemma successful_write_counted:
  assumes "finaliseWriteFromState L K E urepo st sg dbs rs = (Inr results, rs')"
  shows "RepoOperations (write_metrics L K st (rDid urepo) sg (rsNode rs) m) [ty] =
    RepoOperations m [ty] + int (length (filter (\<lambda>r. awType r = Some (ty @ ''Result'')) results))"
proof -
  from assms obtain x k1 where s: "store_commit L K st (rDid urepo) sg dbs (rsNode rs) = (Inr x, k1)"
    by (auto simp: finaliseWriteFromState_def split: prod.splits sum.splits)
  from assms obtain c where r: "results = map (with_commit c) (pcResults st)"
    by (auto simp: finaliseWriteFromState_def Let_def split: prod.splits sum.splits)
  have "count_list (operation_labels ws) [ty] = length (filter (\<lambda>r. awType r = Some (ty @ ''Result'')) (map (with_commit c) ws))"
    for ws
    by (induction ws) (auto simp: operation_labels_def with_commit_def map_filter_simps split: option.splits)
  with stored_is_finalised [OF s] r show ?thesis by (simp add: write_metrics_def count_up)
qed

section \<open>Pins\<close>

text \<open>
  \<open>parse\<close> decodes a CID from its string and \<open>rm\<close> is the node's Pin().Rm with its state.  What is logged: nothing for
  content that was never pinned.
\<close>

datatype unpin_log = DecodeFailed goerr | UnpinFailed goerr | NeverPinned | Unpinned

definition isNotPinnedError :: "goerr option \<Rightarrow> bool" where
  "isNotPinnedError er = (case er of None \<Rightarrow> False | Some e \<Rightarrow> err_string e = ''not pinned'' \<or> err_string e = ''is not pinned'')"

definition unpinFromIPFS ::
  "(string \<Rightarrow> goerr + cid) \<Rightarrow> (cid \<Rightarrow> 'k \<Rightarrow> goerr option \<times> 'k) \<Rightarrow> string \<Rightarrow> 'k \<Rightarrow> unpin_log \<times> 'k" where
  "unpinFromIPFS parse rm cidStr k =
     (case parse cidStr of
        Inl e \<Rightarrow> (DecodeFailed e, k)
      | Inr c \<Rightarrow>
          (case rm c k of
             (Some e, k1) \<Rightarrow> (if \<not> isNotPinnedError (Some e) then UnpinFailed e else NeverPinned, k1)
           | (None, k1) \<Rightarrow> (Unpinned, k1)))"

text \<open>A node whose unpinning operation is this function, for the text \<open>str\<close> of a CID.\<close>

definition unpinning :: "(cid \<Rightarrow> string) \<Rightarrow> (string \<Rightarrow> goerr + cid) \<Rightarrow> (cid \<Rightarrow> 'k \<Rightarrow> goerr option \<times> 'k) \<Rightarrow> 'k kubo \<Rightarrow> 'k kubo" where
  "unpinning str parse rm K = K\<lparr>kUnpin := \<lambda>k c. snd (unpinFromIPFS parse rm (str c) k)\<rparr>"

text \<open>Such a node keeps its blocks as the repository manager relies on, when removing a pin removes no block.\<close>

lemma unpinning_keeps:
  assumes "kubo_keeps K" and "\<And>c c' k. kStat K k c' = None \<Longrightarrow> kStat K (snd (rm c k)) c' = None"
  shows "kubo_keeps (unpinning str parse rm K)"
proof -
  have "snd (unpinFromIPFS parse rm s k) = k \<or> (\<exists>c. snd (unpinFromIPFS parse rm s k) = snd (rm c k))" for s k
    by (auto simp: unpinFromIPFS_def split: sum.splits prod.splits option.splits) (metis snd_conv)+
  then have "kStat K (snd (unpinFromIPFS parse rm s k)) c' = None" if "kStat K k c' = None" for s k c'
    using assms(2) that by metis
  with assms(1) show ?thesis by (auto simp: kubo_keeps_def unpinning_def)
qed

section \<open>The jobs of the server\<close>

datatype job = ListenAndServe | RequestCrawl | CleanupExpiredSessions

definition Serve :: "faults \<Rightarrow> goerr + job list" where
  "Serve fails =
     (case migrate fails of Some e \<Rightarrow> Inl e | None \<Rightarrow> Inr [ListenAndServe, RequestCrawl, CleanupExpiredSessions])"

section \<open>The signing method of service tokens\<close>

text \<open>\<open>dec\<close> decodes a segment; a key is one of the curve library's or another value, which the type assertion refuses.\<close>

definition ES256K_Alg :: string where
  "ES256K_Alg = ''ES256K''"

definition ES256K_Verify ::
  "(string \<Rightarrow> goerr + bytes) \<Rightarrow> ('k \<Rightarrow> string \<Rightarrow> bytes \<Rightarrow> goerr option) \<Rightarrow> string \<Rightarrow> string \<Rightarrow> 'k option \<Rightarrow> goerr option" where
  "ES256K_Verify dec check signingString signature key =
     (case dec signature of
        Inl e \<Rightarrow> Some e
      | Inr sg \<Rightarrow> (case key of None \<Rightarrow> Some (Err ''invalid key type for ES256K verification'') | Some k \<Rightarrow> check k signingString sg))"

definition ES256K_Sign :: "string \<Rightarrow> goerr + string" where
  "ES256K_Sign signingString = Inl (Err ''unimplemented'')"

lemma ES256K_verified:
  "ES256K_Verify dec check s signature key = None \<longleftrightarrow> (\<exists>k sg. key = Some k \<and> dec signature = Inr sg \<and> check k s sg = None)"
  by (auto simp: ES256K_Verify_def split: sum.splits option.splits)

section \<open>Validation errors\<close>

text \<open>\<open>check\<close> is the validator: the field errors it finds, each with its field and tag, or another error.\<close>

record ValidationError =
  veError :: goerr
  veField :: string
  veTag :: string

definition Validate :: "('i \<Rightarrow> (goerr \<times> (string \<times> string) list) option) \<Rightarrow> 'i \<Rightarrow> (goerr + ValidationError) option" where
  "Validate check i =
     (case check i of
        None \<Rightarrow> None
      | Some (e, []) \<Rightarrow> Some (Inl e)
      | Some (e, (fld, tag) # _) \<Rightarrow> Some (Inr \<lparr>veError = e, veField = fld, veTag = tag\<rparr>))"

lemma Validate_passes: "Validate check i = None \<longleftrightarrow> check i = None"
  by (auto simp: Validate_def split: option.splits list.splits)

section \<open>Records of other servers\<close>

text \<open>
  A record this server has no row for is looked up at the app view, and nothing the caller sent but the path and the
  query goes there.
\<close>

lemma missing_record_forwarded:
  assumes "get_value (qQuery r) ''cid'' = ''''" and "\<not> fails ''getRecord''" and "isl (dec (recValue zeroRecord))"
    and "\<forall>x \<in> set (records d). recDid x \<noteq> get_value (qQuery r) ''repo''"
  shows "handleRepoGetRecord fails dec parseCID (\<lambda>r. fst (proxyToAppView P now r c)) r d = fst (proxyToAppView P now r c)"
proof -
  have "sql_first (\<lambda>x. recDid x = get_value (qQuery r) ''repo'' \<and> Q x) (records d) = None" for Q
    using assms(4) by (auto simp: sql_first_def find_None_iff)
  with assms(1-3) show ?thesis by (auto simp: handleRepoGetRecord_def isl_def)
qed

lemma app_view_answer:
  assumes "proxyToAppView P now r c = (Reply w, c')" and "code w \<noteq> 500"
  shows "\<exists>endpoint a. plDo P (app_view_request endpoint r) = Inr a \<and> w = copied a"
  using assms by (auto simp: proxyToAppView_def Let_def ServerError_def genericError_def writeJSON_def
      split: prod.splits sum.splits if_splits)

end
