(* ===== verification/Spec2Isabelle.thy ===== *)
theory Spec2Isabelle
  imports SignerGuarantees Dpop Models Session Middleware Webauthn SignerConnect OauthClient OauthFlow
    Events RepoCache Sync RepoHandlers Entitlement Upkeep
begin

text \<open>
  A verification development for vow, a personal data server of the AT protocol written in Go.

  \<^bold>\<open>The program.\<close>  One process serves three groups of clients.  Applications call XRPC endpoints to
  create an account, hold a session and read and write the records of a repository.  Browsers use the
  account pages, register a passkey and keep a WebSocket open over which they sign.  Relays read
  repositories and follow the stream of events.  The server does not own the signing keys: a write builds an
  unsigned commit, the signer hub puts it to the browser of the account, and the write goes on when a
  verified signature arrives.  Rows of accounts, records, blobs and tokens are in an SQL database, blocks in
  a Kubo (IPFS) node, identities in the PLC directory.

  \<^bold>\<open>Theories and sources\<close> (paths under src/, in the order of the imports).
  \<^item> VowPrelude: Go's notions (byte slices, times and durations in nanoseconds, errors with wrapping, JSON
    values, strings functions) and SQL statement forms on tables as lists of rows, with the collections
    sql_simps and go_simps.  Http: internal/helpers.  Encoding: base64 and query escaping of Go's
    library.  AtSyntax: the identifier checks of the AT protocol library (a parameter).  Paging:
    the locale pager, a client that follows cursors.
  \<^item> SignerHub: server/signer_hub.go as operations on a heap of connection objects.  SignerMachine: the
    goroutines around it, caller_step, pump_step, loop_step and life_step, as the step relation mstep, with reach for its
    reachable states.  SignerInvariants, SignerGuarantees: what holds in all of them.  SignerConnect:
    server/handle_signer_connect.go, handle_account_signer.go, service_auth.go, handle_server_get_service_auth.go.
  \<^item> Models: models/, oauth/provider/models.go, internal/db, server/common.go; the record of all tables.
    Session: server/session.go and the four session handlers.  Middleware: server/middleware.go,
    oauth/provider/middleware.go.  Mail, Accounts: server/mail.go and the com.atproto.server and app.bsky.actor handlers
    of one account.  AccountCreate: handle_server_create_account.go.  AccountPages: server/handle_account*.go, deletion by passkey.
  \<^item> Dpop: oauth/dpop.  OauthClient: oauth/client.  OauthProvider: client authentication, identifiers and
    request URIs.  OauthServer: server/handle_oauth_par.go, _authorize.go, _token.go; OauthFlow: what they guarantee.
    Webauthn: server/webauthn.go and the challenge endpoints.
  \<^item> Blockstore: blockstore/.  Repo, RepoMan: server/repo.go (the cache, opening, writes in two halves around
    the signature, proofs, blob references).  RepoWrites, RepoIndex, RepoCache: their properties.  RepoDemo:
    small libraries on which these are run.  RepoHandlers: server/handle_repo_*.go, handle_import_repo.go.
    Events: server/persist.go.  Export, Sync: server/handle_sync_*.go, handle_repo_list_repos.go.
  \<^item> Identity: identity/.  Plc: plc/.  IdentityHandlers: server/handle_identity_*.go, handle_well_known.go,
    handle_server_supply_signing_key.go, handle_server_resolve_handle.go.
  \<^item> Proxy: server/handle_proxy*.go.  VowServer: server/server.go, the table of routes with their guards, the
    public pages.  Commands: cmd/vow.  Upkeep: metrics/, server/ipfs.go and what else goes on beside the answers.
  \<^item> Isolation: the contract of a request, which rows it may change and what it keeps, for the statements and the
    handlers of sessions, accounts, invite codes and OAuth; IsolationAccounts: for identity, pages and new accounts;
    IsolationRepo: for records, blobs and imports.  KeptRows: a contract for the handlers that leave credentials and
    authorization codes alone.  Deployment: db_step, one step of the whole server on its database for a caller, and db_run,
    its runs.  Entitlement: codes in runs, and one request through the router, its guard and its handler.

  \<^bold>\<open>How the code is rendered.\<close>
  \<^item> A handler is a function of the state it uses and of the request to the response and the new state.
    States are records; where a handler uses parts that live in different objects of the program it takes
    each of them.  A Go error is a value of goerr in a sum, an early return is a branch, and a panic the code can
    reach is a value or a branch of its own.
  \<^item> A failing SQL statement is chosen by a parameter that names statements, so both outcomes of every
    statement are branches.  A statement changes all the rows the source's WHERE clause selects.
  \<^item> The clock is read once per request; random bytes are arguments.  A time that was never set is zero.
    Nil and empty slices are not distinguished except where the code tests for nil.  A Go map that is
    ranged over is the list of its entries in key order.
  \<^item> Libraries and services (JWT, JWK, hashes, curves, CBOR, CIDs, the Merkle search tree, CAR files, LRU
    caches, Kubo, DNS, HTTP, bcrypt, cookies, the router) are arguments, mostly bundled in a record.  What a
    property needs of them is a named hypothesis, and its witness runs it on concrete functions.
  \<^item> Goroutines of the hub are interleaved at every critical section and channel operation; the other
    handlers are single steps, and the places where the code gives up a lock in between are split (the
    two halves of a write, with any other writes in between).  The steps of db_step fix the database only: the node,
    the caches, the event log and the parameters are any, and may change from step to step, so its runs include those in
    which other requests ran in between.  A step is labelled with the accounts it speaks for: the account of its
    middleware or cookie, the owner of the code or token it presents, the DID a command names; the caller is what the
    request brings: the context its guard made, its cookie, and the log-in, address or form of its body.  The mail with a reset code
    is the one a visitor can cause for an account without being it, and its step is labelled with that account too.
    Requests for authorization belong to no account, and their composite key is left out of the unique ones.

  \<^bold>\<open>Interfaces.\<close>  Each locale states what a client needs of a provider, and is interpreted on the
  model of the code: prompt_queue (a connection's queue of prompts), epoch_tokens (the DPoP nonce),
  block_store and recorded_store (the two block stores), backing_cache (the passport's cache), pager (pages of
  repositories and of records), db_contract (a relation every handler keeps when its statements do; interpreted on the
  rows a request may change) and row_contract, which extends it (interpreted on credentials and on authorization codes).

  \<^bold>\<open>What is proved.\<close>
  \<^item> Signing: an answer reaches the caller whose request was signed over a connection of the same account;
    one prompt at a time; no lost wake-up; no blocked goroutine unless a WebSocket write fails, and what happens then.  A
    signature handed on was verified for this payload, this site and this key.
  \<^item> Access: what a request admitted by the middlewares carries; the rotation of refresh tokens; what a
    DPoP proof establishes; the exact set of accepted nonces; which client assertions are accepted; single
    use of codes in all runs, binding of codes and refresh tokens; for every request that changes rows of an account, what
    the caller has shown for it.
  \<^item> Repository: no change without a signature on exactly this commit; reported blocks are stored; the rows of
    records follow the tree; the cache serves what was opened; proofs hold the path of the key; an export
    ends and is complete; cursors lose nothing; the log is replayed in order.
  \<^item> Identity and accounts: the age of a cached document; the form of a created DID; the passkey's authority over the identity;
    creation and deletion change exactly their rows; mailed codes work once; cookies need the password; a deletion in the
    browser needs the passkey; the access token of a proxied request is replaced by a service token, and every
    other header is passed on, also the session cookie.
  \<^item> The whole server: in every run of handlers, commands and background jobs, the rows of an account that no step speaks
    for stay as they are, keys stay unique from the empty database on, and credentials change only by the four steps
    that are meant to change them.
  \<^item> Start-up: the key files the commands write are the ones the server accepts.
  Lemmas beside them show runs in which the code does not do what it means to: a write lost between
  two signatures, half a write kept after a panic, blobs that are never counted, a counted
  one that goes with the first record that drops it, a proof identifier
  accepted twice, an empty code that changes an address, an error header that sticks.

  \<^bold>\<open>Termination and bounds.\<close>  Recursion over data (paths, pages, record values, chunks of a blob) terminates by a measure:
  the size of the data, or the rows left after the cursor.  The walk of an export follows links that a node could make
  endless, so walk_blocks is a partial function into an option, and it is shown to return when finitely many
  blocks are reachable.  There is no fuel.  Bytes are 8-bit
  words, and DER, base64, base32 and the big-endian counter of the nonce work on them; counters, sequence
  numbers, sizes and times are int or nat, as the code never brings them near the end of their width.

  \<^bold>\<open>Not modelled\<close>, with the reason.
  \<^item> The logging: nothing reads what it records.
  \<^item> Templates, static files and the texts of pages: a page is its name and the data it is given.
  \<^item> The HTTP server's timeouts, the tickers and the goroutines that start background jobs: the jobs are functions that one
    tick runs.  The registration of validators with the library: its checks are parameters.
  \<^item> The two mails sent in the background after an account was made, which change no state; the lock
    of the mailer, since a mail is one step; the sharing of concurrent fetches of one DID document.
  \<^item> On the account page the names of OAuth clients are a function; the manager that caches their
    metadata is modelled in OauthClient.
\<close>

end
